(* ===== verification/Prelude.thy ===== *)
theory Prelude
  imports Main "HOL-Library.Word"
begin

text \<open>
  Shared vocabulary of the development: the C++ standard library pieces the mail server
  is written with, as HOL functions, and the lemmas about them that every component uses.

  \<^item> A \<^verbatim>\<open>std::string\<close> is a \<^typ>\<open>string\<close>: a HOL \<^typ>\<open>char\<close> is one byte, as a C++ char is.
    A \<^verbatim>\<open>std::vector<uint8_t>\<close> is a list of 8-bit words.
  \<^item> \<^verbatim>\<open>std::string::npos\<close> is \<open>None\<close>; positions are natural numbers.
  \<^item> A C++ exception is a value \<open>Inl e\<close> of a sum type, \<open>Inr\<close> the normal result.
  \<^item> Character classification and case mapping are those of the "C" locale: no component
    calls \<^verbatim>\<open>setlocale\<close>.
\<close>

named_theorems cpp_defs "definitions of the C++ library operations"
named_theorems session_defs "definitions of handlers of a protocol session"
named_theorems store_defs "definitions of operations of the mail store"

section \<open>Types\<close>

type_synonym byte = "8 word"
type_synonym u32 = "32 word"

text \<open>The exception classes the sources throw or catch.\<close>

datatype cpp_error =
    runtime_error string
  | invalid_argument string
  | out_of_range string
  | bad_optional_access
  | bad_alloc
  | undefined_behaviour string

type_synonym 'a outcome = "cpp_error + 'a"

section \<open>Characters\<close>

abbreviation CR :: char where "CR \<equiv> CHR 0x0D"
abbreviation LF :: char where "LF \<equiv> CHR 0x0A"
abbreviation TAB :: char where "TAB \<equiv> CHR 0x09"
abbreviation SP :: char where "SP \<equiv> CHR 0x20"
abbreviation NUL :: char where "NUL \<equiv> CHR 0x00"
abbreviation DQUOTE :: char where "DQUOTE \<equiv> CHR 0x22"
abbreviation BSLASH :: char where "BSLASH \<equiv> CHR 0x5C"
abbreviation CRLF :: string where "CRLF \<equiv> [CR, LF]"

definition code_of :: "char \<Rightarrow> nat" where
  "code_of c = of_char c"

definition to_upper_char :: "char \<Rightarrow> char" where
  "to_upper_char c = (if 97 \<le> code_of c \<and> code_of c \<le> 122 then char_of (code_of c - 32) else c)"

definition to_lower_char :: "char \<Rightarrow> char" where
  "to_lower_char c = (if 65 \<le> code_of c \<and> code_of c \<le> 90 then char_of (code_of c + 32) else c)"

definition is_digit_char :: "char \<Rightarrow> bool" where
  "is_digit_char c \<longleftrightarrow> 48 \<le> code_of c \<and> code_of c \<le> 57"

definition is_alpha_char :: "char \<Rightarrow> bool" where
  "is_alpha_char c \<longleftrightarrow> (65 \<le> code_of c \<and> code_of c \<le> 90) \<or> (97 \<le> code_of c \<and> code_of c \<le> 122)"

text \<open>\<^verbatim>\<open>std::isspace\<close> in the "C" locale; it is what \<^verbatim>\<open>operator>>\<close> on a stream skips.\<close>

definition is_space_char :: "char \<Rightarrow> bool" where
  "is_space_char c \<longleftrightarrow> c = SP \<or> (9 \<le> code_of c \<and> code_of c \<le> 13)"

definition ToUpper :: "string \<Rightarrow> string" where
  "ToUpper s = map to_upper_char s"

definition ToLower :: "string \<Rightarrow> string" where
  "ToLower s = map to_lower_char s"

section \<open>Positions and substrings\<close>

text \<open>The first position whose element satisfies a predicate; the \<^verbatim>\<open>find_first_of\<close> family.\<close>

fun find_idx :: "('a \<Rightarrow> bool) \<Rightarrow> 'a list \<Rightarrow> nat option" where
  "find_idx P [] = None"
| "find_idx P (x # xs) = (if P x then Some 0 else map_option Suc (find_idx P xs))"

text \<open>\<open>find_idx_from P s pos\<close>: the search starts at \<open>pos\<close>.\<close>

definition find_idx_from :: "('a \<Rightarrow> bool) \<Rightarrow> 'a list \<Rightarrow> nat \<Rightarrow> nat option" where
  "find_idx_from P s pos = map_option (\<lambda>i. pos + i) (find_idx P (drop pos s))"

text \<open>The last position whose element satisfies a predicate (\<^verbatim>\<open>find_last_of\<close>, \<^verbatim>\<open>rfind(char)\<close>).\<close>

definition find_last_idx :: "('a \<Rightarrow> bool) \<Rightarrow> 'a list \<Rightarrow> nat option" where
  "find_last_idx P s = map_option (\<lambda>i. length s - 1 - i) (find_idx P (rev s))"

definition find_char :: "string \<Rightarrow> char \<Rightarrow> nat option" where
  "find_char s c = find_idx (\<lambda>x. x = c) s"

definition find_char_from :: "string \<Rightarrow> char \<Rightarrow> nat \<Rightarrow> nat option" where
  "find_char_from s c pos = find_idx_from (\<lambda>x. x = c) s pos"

text \<open>\<^verbatim>\<open>value.rfind(prefix, 0) == 0\<close>, the idiom for a prefix test.\<close>

definition StartsWith :: "string \<Rightarrow> string \<Rightarrow> bool" where
  "StartsWith s p \<longleftrightarrow> take (length p) s = p"

text \<open>\<^verbatim>\<open>std::string::find\<close> of a substring.\<close>

fun find_sub :: "string \<Rightarrow> string \<Rightarrow> nat option" where
  "find_sub p [] = (if p = [] then Some 0 else None)"
| "find_sub p (c # cs) = (if StartsWith (c # cs) p then Some 0 else map_option Suc (find_sub p cs))"

definition find_sub_from :: "string \<Rightarrow> string \<Rightarrow> nat \<Rightarrow> nat option" where
  "find_sub_from p s pos =
     (if length s < pos then None else map_option (\<lambda>i. pos + i) (find_sub p (drop pos s)))"

definition contains_sub :: "string \<Rightarrow> string \<Rightarrow> bool" where
  "contains_sub s p \<longleftrightarrow> find_sub p s \<noteq> None"

text \<open>
  \<^verbatim>\<open>s.substr(pos, n)\<close> and \<^verbatim>\<open>s.substr(pos)\<close> for \<^verbatim>\<open>pos <= s.size()\<close>; beyond it they throw.
  Every call site of the sources has its position in range (a position a search returned).
\<close>

definition substr :: "string \<Rightarrow> nat \<Rightarrow> nat \<Rightarrow> string" where
  "substr s pos n = take n (drop pos s)"

abbreviation (input) substr_from :: "string \<Rightarrow> nat \<Rightarrow> string" where
  "substr_from s pos \<equiv> drop pos s"

text \<open>The set \<^verbatim>\<open>" \t\r\n"\<close> that the trimming functions of the sources use.\<close>

definition is_trim_ws :: "char \<Rightarrow> bool" where
  "is_trim_ws c \<longleftrightarrow> c = SP \<or> c = TAB \<or> c = CR \<or> c = LF"

text \<open>
  \<^verbatim>\<open>Trim\<close> as it is written three times in the sources: the substring from
  \<^verbatim>\<open>find_first_not_of\<close> to \<^verbatim>\<open>find_last_not_of\<close>.
\<close>

definition Trim :: "string \<Rightarrow> string" where
  "Trim s = (case find_idx (\<lambda>c. \<not> is_trim_ws c) s of
       None \<Rightarrow> []
     | Some b \<Rightarrow> (case find_last_idx (\<lambda>c. \<not> is_trim_ws c) s of
           None \<Rightarrow> []
         | Some e \<Rightarrow> substr s b (e - b + 1)))"

text \<open>
  \<^verbatim>\<open>std::getline\<close> in a loop until it fails: the pieces between delimiters; a final piece is
  delivered only when it is not empty, and the empty input delivers nothing.
\<close>

fun getlines_acc :: "char \<Rightarrow> string \<Rightarrow> string \<Rightarrow> string list" where
  "getlines_acc d acc [] = (if acc = [] then [] else [rev acc])"
| "getlines_acc d acc (c # cs) =
     (if c = d then rev acc # getlines_acc d [] cs else getlines_acc d (c # acc) cs)"

definition getlines :: "char \<Rightarrow> string \<Rightarrow> string list" where
  "getlines d s = getlines_acc d [] s"

text \<open>\<^verbatim>\<open>while (iss >> arg)\<close>: the maximal runs of non-space characters.\<close>

fun tokens_acc :: "string \<Rightarrow> string \<Rightarrow> string list" where
  "tokens_acc acc [] = (if acc = [] then [] else [rev acc])"
| "tokens_acc acc (c # cs) =
     (if is_space_char c then (if acc = [] then tokens_acc [] cs else rev acc # tokens_acc [] cs)
      else tokens_acc (c # acc) cs)"

definition stream_tokens :: "string \<Rightarrow> string list" where
  "stream_tokens s = tokens_acc [] s"

text \<open>\<^verbatim>\<open>if (!s.empty() && s.back() == c) s.pop_back();\<close>\<close>

definition pop_back_if :: "char \<Rightarrow> string \<Rightarrow> string" where
  "pop_back_if c s = (if s \<noteq> [] \<and> last s = c then butlast s else s)"

text \<open>\<^verbatim>\<open>std::to_string\<close> on an unsigned and on a signed number.\<close>

fun nat_to_string :: "nat \<Rightarrow> string" where
  "nat_to_string n =
     (if n < 10 then [char_of (48 + n)] else nat_to_string (n div 10) @ [char_of (48 + n mod 10)])"

declare nat_to_string.simps [simp del]

definition int_to_string :: "int \<Rightarrow> string" where
  "int_to_string i = (if i < 0 then CHR ''-'' # nat_to_string (nat (- i)) else nat_to_string (nat i))"

section \<open>Bytes and characters\<close>

definition byte_of_char :: "char \<Rightarrow> byte" where
  "byte_of_char c = word_of_nat (code_of c)"

definition char_of_byte :: "byte \<Rightarrow> char" where
  "char_of_byte b = char_of (unat b)"

section \<open>Lemmas on searching\<close>

lemma find_idx_None: "find_idx P xs = None \<longleftrightarrow> (\<forall>x \<in> set xs. \<not> P x)"
  by (induction xs) auto

lemma find_idx_SomeD:
  "find_idx P xs = Some i \<Longrightarrow> i < length xs \<and> P (xs ! i) \<and> (\<forall>j < i. \<not> P (xs ! j))"
proof (induction xs arbitrary: i)
  case Nil
  then show ?case by simp
next
  case (Cons x xs)
  then show ?case
    by (auto split: if_splits simp: nth_Cons split: nat.splits)
qed

lemma find_idx_take_drop:
  "find_idx P xs = Some i \<Longrightarrow> take i xs = takeWhile (\<lambda>x. \<not> P x) xs \<and> drop i xs = dropWhile (\<lambda>x. \<not> P x) xs"
  by (induction xs arbitrary: i) (auto split: if_splits)

lemma find_idx_append_notin:
  "\<forall>x \<in> set xs. \<not> P x \<Longrightarrow> find_idx P (xs @ ys) = map_option (\<lambda>i. length xs + i) (find_idx P ys)"
proof (induction xs)
  case Nil
  show ?case by (cases "find_idx P ys") auto
next
  case (Cons x xs)
  then show ?case by (cases "find_idx P ys") auto
qed

lemma find_idx_from_SomeD:
  "find_idx_from P s pos = Some i \<Longrightarrow> pos \<le> i \<and> i < length s \<and> P (s ! i)"
  by (auto simp: find_idx_from_def dest!: find_idx_SomeD)

lemma find_last_idx_SomeD:
  assumes "find_last_idx P s = Some i"
  shows "i < length s \<and> P (s ! i) \<and> (\<forall>j. i < j \<and> j < length s \<longrightarrow> \<not> P (s ! j))"
proof -
  from assms obtain k where k: "find_idx P (rev s) = Some k" and i: "i = length s - 1 - k"
    by (auto simp: find_last_idx_def)
  from find_idx_SomeD [OF k] have kl: "k < length s" and Pk: "P (rev s ! k)"
    and least: "\<And>j. j < k \<Longrightarrow> \<not> P (rev s ! j)" by auto
  have "P (s ! i)" using Pk kl i by (simp add: rev_nth)
  moreover have "\<not> P (s ! j)" if "i < j" "j < length s" for j
  proof -
    have "length s - 1 - j < k" using that i kl by arith
    from least [OF this] show ?thesis using that by (simp add: rev_nth)
  qed
  ultimately show ?thesis using kl i by auto
qed

lemma find_last_idx_None: "find_last_idx P s = None \<longleftrightarrow> (\<forall>x \<in> set s. \<not> P x)"
  by (simp add: find_last_idx_def find_idx_None)

lemma find_sub_SomeD:
  "find_sub p s = Some i \<Longrightarrow> i + length p \<le> length s \<and> take (length p) (drop i s) = p"
proof (induction p s arbitrary: i rule: find_sub.induct)
  case (1 p)
  then show ?case by (auto split: if_splits)
next
  case (2 p c cs)
  show ?case
  proof (cases "StartsWith (c # cs) p")
    case True
    then have "i = 0" and eq: "take (length p) (c # cs) = p"
      using 2 by (auto simp: StartsWith_def)
    from arg_cong [OF eq, of length] have "length p \<le> Suc (length cs)" by simp
    with \<open>i = 0\<close> eq show ?thesis by simp
  next
    case False
    with 2 obtain k where "find_sub p cs = Some k" and "i = Suc k" by auto
    with 2(1) [OF False] show ?thesis by auto
  qed
qed

lemma find_sub_from_SomeD:
  assumes "find_sub_from p s pos = Some i"
  shows "pos \<le> i \<and> i + length p \<le> length s \<and> take (length p) (drop i s) = p"
proof -
  from assms obtain k where k: "find_sub p (drop pos s) = Some k" and "pos \<le> length s" and "i = pos + k"
    by (auto simp: find_sub_from_def split: if_splits)
  with find_sub_SomeD [OF k] show ?thesis by (auto simp: add.commute)
qed

lemma find_sub_from_0 [simp]: "find_sub_from p s 0 = find_sub p s"
  by (cases "find_sub p s") (auto simp: find_sub_from_def)

section \<open>Lemmas on trimming\<close>

lemma trim_ws_members [simp]: "is_trim_ws CR" "is_trim_ws LF" "is_trim_ws SP" "is_trim_ws TAB"
  by (simp_all add: is_trim_ws_def)

lemma find_last_idx_eq_length:
  assumes "find_idx P (rev s) = Some k"
  shows "take (length s - k) s = rev (dropWhile (\<lambda>x. \<not> P x) (rev s))"
proof -
  have "drop k (rev s) = dropWhile (\<lambda>x. \<not> P x) (rev s)"
    using find_idx_take_drop [OF assms] by simp
  then have "rev (drop k (rev s)) = rev (dropWhile (\<lambda>x. \<not> P x) (rev s))" by simp
  then show ?thesis by (simp add: rev_drop)
qed

text \<open>The reading of \<open>Trim\<close>: strip the whitespace of both ends.\<close>

lemma Trim_eq:
  "Trim s = dropWhile is_trim_ws (rev (dropWhile is_trim_ws (rev s)))"
proof (cases "\<forall>c \<in> set s. is_trim_ws c")
  case True
  then have "find_idx (\<lambda>c. \<not> is_trim_ws c) s = None" by (simp add: find_idx_None)
  moreover have "dropWhile is_trim_ws (rev s) = []" using True by simp
  ultimately show ?thesis by (simp only: Trim_def) simp
next
  case False
  let ?P = "\<lambda>c. \<not> is_trim_ws c"
  from False obtain b where b: "find_idx ?P s = Some b"
    using find_idx_None [of ?P s] by fastforce
  from False obtain k where k: "find_idx ?P (rev s) = Some k"
    using find_idx_None [of ?P "rev s"] by fastforce
  let ?e = "length s - 1 - k"
  have e: "find_last_idx ?P s = Some ?e" using k by (simp add: find_last_idx_def)
  have bl: "b < length s" and bP: "?P (s ! b)" and bmin: "\<And>j. j < b \<Longrightarrow> \<not> ?P (s ! j)"
    using find_idx_SomeD [OF b] by auto
  have kl: "k < length s" using find_idx_SomeD [OF k] by simp
  have be: "b \<le> ?e" using find_last_idx_SomeD [OF e] bl bP by (meson leI)
  have len: "b + (?e - b + 1) = length s - k" using be kl by simp
  have "take (?e - b + 1) (drop b s) = drop b (take (length s - k) s)"
    using len by (metis diff_add_inverse drop_take)
  moreover have "dropWhile is_trim_ws (take (length s - k) s) = drop b (take (length s - k) s)"
  proof -
    let ?t = "take (length s - k) s"
    have ws: "\<forall>c \<in> set (take b ?t). is_trim_ws c"
      using bmin bl by (auto simp: in_set_conv_nth)
    have bt: "b < length ?t" using be kl by simp
    then have hd: "drop b ?t = s ! b # drop (Suc b) ?t"
      using be kl by (simp add: Cons_nth_drop_Suc [symmetric])
    have "dropWhile is_trim_ws ?t = dropWhile is_trim_ws (take b ?t @ drop b ?t)"
      by (simp only: append_take_drop_id)
    also have "\<dots> = dropWhile is_trim_ws (drop b ?t)" using ws by (intro dropWhile_append2) auto
    also have "\<dots> = drop b ?t" using bP by (simp only: hd) simp
    finally show ?thesis .
  qed
  ultimately show ?thesis
    using b e find_last_idx_eq_length [OF k] by (simp add: Trim_def substr_def)
qed

lemma length_Trim_le: "length (Trim s) \<le> length s"
  unfolding Trim_eq
  by (metis dual_order.trans length_dropWhile_le length_rev)

section \<open>Systems driven by a list of requests\<close>

text \<open>
  The interface of a component whose state is changed by requests, one at a time: each request
  keeps the invariant and moves the state along a transitive relation. A client may then use
  both for any sequence of requests.
\<close>

locale guarded_system =
  fixes exec :: "'c \<Rightarrow> 's \<Rightarrow> 's" and inv :: "'s \<Rightarrow> bool" and rel :: "'s \<Rightarrow> 's \<Rightarrow> bool"
  assumes exec_inv: "inv s \<Longrightarrow> inv (exec c s)"
    and exec_rel: "inv s \<Longrightarrow> rel s (exec c s)"
    and rel_refl: "rel s s"
    and rel_trans: "inv s \<Longrightarrow> inv u \<Longrightarrow> rel s t \<Longrightarrow> rel t u \<Longrightarrow> rel s u"
begin

lemma run_inv: "inv s \<Longrightarrow> inv (fold exec cs s)"
  by (induction cs arbitrary: s) (simp_all add: exec_inv)

lemma run_rel: "inv s \<Longrightarrow> rel s (fold exec cs s)"
proof (induction cs arbitrary: s)
  case (Cons c cs)
  have "inv (exec c s)" by (rule exec_inv) (rule Cons.prems)
  then show ?case
    using rel_trans [OF Cons.prems run_inv [of "exec c s" cs] exec_rel [OF Cons.prems] Cons.IH] by simp
qed (simp add: rel_refl)

lemma run_between: "inv s \<Longrightarrow> rel (fold exec cs s) (fold exec (cs @ ds) s)"
  unfolding fold_append comp_apply by (rule run_rel, rule run_inv)

end

lemma Trim_ink_ends: "\<not> is_trim_ws a \<Longrightarrow> \<not> is_trim_ws b \<Longrightarrow> Trim (a # s @ [b]) = a # s @ [b]"
  by (simp add: Trim_eq)

section \<open>Lemmas on lines\<close>

lemma getlines_acc_delim:
  "d \<notin> set l \<Longrightarrow> getlines_acc d acc (l @ d # rest) = (rev acc @ l) # getlines_acc d [] rest"
  by (induction l arbitrary: acc) auto

lemma getlines_acc_last: "d \<notin> set l \<Longrightarrow> rev acc @ l \<noteq> [] \<Longrightarrow> getlines_acc d acc l = [rev acc @ l]"
  by (induction l arbitrary: acc) auto

lemma contains_prefix: "contains_sub (p @ s) p"
  by (cases p; cases s) (auto simp: contains_sub_def StartsWith_def)

lemma find_sub_skip:
  "p \<noteq> [] \<Longrightarrow> hd p \<notin> set xs \<Longrightarrow> find_sub p (xs @ s) = map_option (\<lambda>i. length xs + i) (find_sub p s)"
proof (induction xs)
  case Nil
  then show ?case by (cases "find_sub p s") auto
next
  case (Cons x xs)
  then have "\<not> StartsWith (x # xs @ s) p" by (cases p) (auto simp: StartsWith_def)
  then show ?case using Cons by (cases "find_sub p s") auto
qed

end
