(* ===== verification/String_Utils.thy ===== *)
theory String_Utils
  imports Prelude
begin

text \<open>
  \<^verbatim>\<open>common/utils/StringUtils.cpp\<close>: the search for a cut that does not split a UTF-8 sequence
  and the line wrapping the MIME builder uses (\<^verbatim>\<open>Trim\<close> is in the prelude, with its two copies).
  The theorems: wrapping ends, keeps every line within the limit and loses nothing but
  whitespace.
\<close>

unbundle bit_operations_syntax

section \<open>Cutting UTF-8 text\<close>

definition is_continuation :: "char \<Rightarrow> bool" where
  "is_continuation c \<longleftrightarrow> byte_of_char c AND 0xC0 = 0x80"

fun back_to_lead :: "string \<Rightarrow> nat \<Rightarrow> nat \<Rightarrow> nat" where
  "back_to_lead s start e =
     (if start < e \<and> e < length s \<and> is_continuation (s ! e) then back_to_lead s start (e - 1) else e)"

declare back_to_lead.simps [simp del]

definition FindUtf8SafeEnd :: "string \<Rightarrow> nat \<Rightarrow> nat \<Rightarrow> nat" where
  "FindUtf8SafeEnd s start max_bytes = back_to_lead s start (min (start + max_bytes) (length s))"

lemma back_to_lead_bounds: "start \<le> e \<Longrightarrow> start \<le> back_to_lead s start e \<and> back_to_lead s start e \<le> e"
proof (induction s start e rule: back_to_lead.induct)
  case (1 s start e)
  show ?case
  proof (cases "start < e \<and> e < length s \<and> is_continuation (s ! e)")
    case True
    then have "start \<le> e - 1" by linarith
    with "1.IH" [OF True] True show ?thesis by (auto simp: back_to_lead.simps [of s start e])
  next
    case False
    with "1.prems" show ?thesis by (auto simp: back_to_lead.simps [of s start e])
  qed
qed

lemma back_to_lead_safe:
  "back_to_lead s start e = start \<or> length s \<le> back_to_lead s start e \<or>
   \<not> is_continuation (s ! back_to_lead s start e) \<or> e < start"
proof (induction s start e rule: back_to_lead.induct)
  case (1 s start e)
  show ?case
  proof (cases "start < e \<and> e < length s \<and> is_continuation (s ! e)")
    case True
    then show ?thesis using "1.IH" by (auto simp: back_to_lead.simps [of s start e])
  next
    case False
    then show ?thesis by (auto simp: back_to_lead.simps [of s start e])
  qed
qed

section \<open>Wrapping\<close>

definition is_newline :: "char \<Rightarrow> bool" where
  "is_newline c \<longleftrightarrow> c = CR \<or> c = LF"

definition is_blank :: "char \<Rightarrow> bool" where
  "is_blank c \<longleftrightarrow> c = SP \<or> c = TAB"

text \<open>How much of the text at \<^verbatim>\<open>pos\<close> goes on the current line, and whether a blank is dropped after it.\<close>

definition split_at :: "string \<Rightarrow> nat \<Rightarrow> nat \<Rightarrow> nat \<times> bool" where
  "split_at s pos limit =
     (case find_last_idx is_blank (substr s pos limit) of
        Some last_space \<Rightarrow>
          if pos + limit < length s then (last_space, True) else (limit, False)
      | None \<Rightarrow>
          if pos + limit = length s then (limit, False)
          else (let len = FindUtf8SafeEnd s pos limit - pos
                in (if len = 0 \<and> 0 < limit then limit else len, False)))"

text \<open>
  The loop of \<^verbatim>\<open>WrapText\<close>, for a line length of at least one. When a blank is found and the chunk
  reaches the end of the text, both branches of the source take the whole chunk.
\<close>

definition line_limit :: "string \<Rightarrow> nat \<Rightarrow> nat \<Rightarrow> nat" where
  "line_limit s line_length pos =
     (if length s < pos + line_length then length s - pos else line_length)"

definition newline_in_chunk :: "string \<Rightarrow> nat \<Rightarrow> nat \<Rightarrow> nat option" where
  "newline_in_chunk s pos limit =
     (case find_idx_from is_newline s pos of
        Some p \<Rightarrow> if p < pos + limit then Some p else None
      | None \<Rightarrow> None)"

definition after_newline :: "string \<Rightarrow> nat \<Rightarrow> nat" where
  "after_newline s pos =
     (if s ! pos = CR \<and> pos + 1 < length s \<and> s ! (pos + 1) = LF then pos + 2 else pos + 1)"

definition after_split :: "string \<Rightarrow> nat \<Rightarrow> nat \<times> bool \<Rightarrow> nat" where
  "after_split s pos r = (let p = pos + fst r in if snd r \<and> p < length s then p + 1 else p)"

lemma newline_in_chunk_SomeD:
  "newline_in_chunk s pos limit = Some p \<Longrightarrow>
   pos \<le> p \<and> p < length s \<and> p < pos + limit \<and> is_newline (s ! p)"
  by (auto simp: newline_in_chunk_def split: option.splits if_splits dest: find_idx_from_SomeD)

lemma line_limit_pos: "0 < n \<Longrightarrow> pos < length s \<Longrightarrow> 0 < line_limit s n pos"
  by (auto simp: line_limit_def)

lemma line_limit_end: "pos < length s \<Longrightarrow> pos + line_limit s n pos \<le> length s"
  by (auto simp: line_limit_def)

lemma split_at_le: "pos + limit \<le> length s \<Longrightarrow> fst (split_at s pos limit) \<le> limit"
proof -
  assume a: "pos + limit \<le> length s"
  have "back_to_lead s pos (min (pos + limit) (length s)) \<le> pos + limit"
    using back_to_lead_bounds [of pos "min (pos + limit) (length s)" s] a by auto
  then show ?thesis
    using a by (auto simp: split_at_def FindUtf8SafeEnd_def Let_def substr_def split: option.splits
        dest!: find_last_idx_SomeD)
qed

lemma after_split_progress:
  assumes "pos < length s" and "0 < limit" and "pos + limit \<le> length s"
  shows "pos < after_split s pos (split_at s pos limit)"
  using assms
  by (auto simp: after_split_def split_at_def Let_def split: option.splits)

function wrap_loop :: "string \<Rightarrow> nat \<Rightarrow> nat \<Rightarrow> string" where
  "wrap_loop s n pos =
     (if pos < length s \<and> 0 < n then
        if is_newline (s ! pos) then CRLF @ wrap_loop s n (after_newline s pos)
        else
          (let limit = line_limit s n pos in
           case newline_in_chunk s pos limit of
             Some p \<Rightarrow> substr s pos (p - pos) @ wrap_loop s n p
           | None \<Rightarrow>
               substr s pos (fst (split_at s pos limit)) @ CRLF @
               wrap_loop s n (after_split s pos (split_at s pos limit)))
      else [])"
  by pat_completeness auto
termination
proof (relation "measure (\<lambda>(s, n, pos). length s - pos)", goal_cases)
  case 1
  show ?case by simp
next
  case (2 s n pos)
  then show ?case by (auto simp: after_newline_def)
next
  case (3 s n pos limit)
  then show ?case using after_split_progress [of pos s limit] line_limit_pos [of n pos s]
      line_limit_end [of pos s n]
    by auto
next
  case (4 s n pos limit p)
  then have "p \<noteq> pos" using newline_in_chunk_SomeD by blast
  with 4 newline_in_chunk_SomeD [of s pos limit p] show ?case by auto
qed

declare wrap_loop.simps [simp del]

definition WrapText :: "string \<Rightarrow> nat \<Rightarrow> string" where
  "WrapText s line_length =
     wrap_loop s (let l = (if 998 < line_length then 998 else line_length) in if l < 1 then 1 else l) 0"

section \<open>Lines of the wrapped text\<close>

text \<open>The shape of wrapped text: a sequence of lines, each short, without breaks, ended by CRLF.\<close>

definition join_lines :: "string list \<Rightarrow> string" where
  "join_lines ls = concat (map (\<lambda>l. l @ CRLF) ls)"

definition short_line :: "nat \<Rightarrow> string \<Rightarrow> bool" where
  "short_line n l \<longleftrightarrow> length l \<le> n \<and> (\<forall>c \<in> set l. \<not> is_newline c)"

lemma join_lines_Cons [simp]: "join_lines (l # ls) = l @ CRLF @ join_lines ls"
  by (simp add: join_lines_def)

lemma no_newline_in_chunk:
  assumes "newline_in_chunk s pos limit = None" and "i < limit" and "pos + i < length s"
  shows "\<not> is_newline (s ! (pos + i))"
proof
  assume nl: "is_newline (s ! (pos + i))"
  have "drop pos s ! i \<in> set (drop pos s)" using assms(3) by (intro nth_mem) simp
  then have "\<exists>c \<in> set (drop pos s). is_newline c"
    using assms(3) nl by force
  then obtain k where k: "find_idx is_newline (drop pos s) = Some k"
    using find_idx_None [of is_newline "drop pos s"] by fastforce
  then have "\<not> k < limit"
    using assms(1) by (auto simp: newline_in_chunk_def find_idx_from_def split: if_splits)
  then have "i < k" using assms(2) by simp
  with find_idx_SomeD [OF k] nl assms(3) show False by (auto simp: nth_append)
qed

lemma before_newline:
  assumes "newline_in_chunk s pos limit = Some p" and "pos \<le> j" and "j < p"
  shows "\<not> is_newline (s ! j)"
proof -
  from assms(1) obtain k where k: "find_idx is_newline (drop pos s) = Some k" and p: "p = pos + k"
    by (auto simp: newline_in_chunk_def find_idx_from_def split: option.splits if_splits)
  have "j - pos < k" using p assms(2,3) by simp
  with find_idx_SomeD [OF k] have "\<not> is_newline (drop pos s ! (j - pos))" by simp
  moreover have "drop pos s ! (j - pos) = s ! j"
    using assms(2,3) p find_idx_SomeD [OF k] by (subst nth_drop) auto
  ultimately show ?thesis by simp
qed

lemma short_lineI:
  "length l \<le> n \<Longrightarrow> (\<And>i. i < length l \<Longrightarrow> \<not> is_newline (l ! i)) \<Longrightarrow> short_line n l"
  by (auto simp: short_line_def in_set_conv_nth)

lemma wrap_at_newline:
  "pos < length s \<Longrightarrow> 0 < n \<Longrightarrow> is_newline (s ! pos) \<Longrightarrow>
   wrap_loop s n pos = CRLF @ wrap_loop s n (after_newline s pos)"
  by (simp add: wrap_loop.simps [of s n pos])

lemma wrap_loop_lines: "0 < n \<Longrightarrow> \<exists>ls. wrap_loop s n pos = join_lines ls \<and> list_all (short_line n) ls"
proof (induction s n pos rule: wrap_loop.induct)
  case (1 s n pos)
  let ?limit = "line_limit s n pos"
  have lim: "?limit \<le> n" by (auto simp: line_limit_def)
  show ?case
  proof (cases "pos < length s")
    case False
    then show ?thesis by (intro exI [of _ "[]"]) (simp add: wrap_loop.simps [of s n pos] join_lines_def)
  next
    case True
    with "1.prems" have run: "pos < length s \<and> 0 < n" by simp
    show ?thesis
    proof (cases "is_newline (s ! pos)")
      case nl: True
      from "1.IH"(1) [OF run nl] "1.prems" obtain ls
        where "wrap_loop s n (after_newline s pos) = join_lines ls" "list_all (short_line n) ls" by blast
      then show ?thesis using run nl
        by (intro exI [of _ "[] # ls"]) (simp add: wrap_at_newline, simp add: short_line_def)
    next
      case no_nl: False
      show ?thesis
      proof (cases "newline_in_chunk s pos ?limit")
        case (Some p)
        note p = newline_in_chunk_SomeD [OF Some]
        from "1.IH"(3) [OF run no_nl refl Some] "1.prems" obtain ls
          where ls: "wrap_loop s n p = join_lines ls" "list_all (short_line n) ls" by blast
        have "wrap_loop s n p = CRLF @ wrap_loop s n (after_newline s p)"
          using p "1.prems" by (simp add: wrap_at_newline)
        with ls obtain ls' where ls': "ls = [] # ls'"
          by (cases ls; cases "hd ls") (auto simp: join_lines_def short_line_def is_newline_def)
        have "short_line n (substr s pos (p - pos))"
          using p lim before_newline [OF Some]
          by (intro short_lineI) (auto simp: substr_def)
        moreover have "wrap_loop s n pos = substr s pos (p - pos) @ wrap_loop s n p"
          using run no_nl Some by (simp add: wrap_loop.simps [of s n pos])
        ultimately show ?thesis using ls ls'
          by (intro exI [of _ "substr s pos (p - pos) # ls'"]) simp
      next
        case None
        let ?r = "split_at s pos ?limit"
        from "1.IH"(2) [OF run no_nl refl None] "1.prems" obtain ls
          where ls: "wrap_loop s n (after_split s pos ?r) = join_lines ls" "list_all (short_line n) ls" by blast
        have r: "fst ?r \<le> ?limit" using line_limit_end [of pos s n] True by (intro split_at_le) simp
        then have "short_line n (substr s pos (fst ?r))"
          using lim no_newline_in_chunk [OF None] by (intro short_lineI) (auto simp: substr_def)
        moreover have "wrap_loop s n pos = substr s pos (fst ?r) @ CRLF @ wrap_loop s n (after_split s pos ?r)"
          using run no_nl None by (simp add: wrap_loop.simps [of s n pos] Let_def)
        ultimately show ?thesis using ls
          by (intro exI [of _ "substr s pos (fst ?r) # ls"]) simp
      qed
    qed
  qed
qed

section \<open>Nothing but whitespace is lost\<close>

abbreviation (input) ink :: "string \<Rightarrow> string" where
  "ink s \<equiv> filter (\<lambda>c. \<not> is_trim_ws c) s"

lemma ink_newline: "pos < length s \<Longrightarrow> is_newline (s ! pos) \<Longrightarrow> ink (drop pos s) = ink (drop (pos + 1) s)"
  by (simp add: Cons_nth_drop_Suc [symmetric] is_newline_def is_trim_ws_def)

lemma ink_after_newline:
  "pos < length s \<Longrightarrow> is_newline (s ! pos) \<Longrightarrow> ink (drop (after_newline s pos) s) = ink (drop pos s)"
  using ink_newline [of pos s] ink_newline [of "pos + 1" s]
  by (auto simp: after_newline_def is_newline_def)

lemma ink_split: "ink (drop pos s) = ink (substr s pos k) @ ink (drop (pos + k) s)"
proof -
  have "drop pos s = substr s pos k @ drop (pos + k) s"
    by (metis append_take_drop_id drop_drop substr_def add.commute)
  then show ?thesis by (metis filter_append)
qed

lemma split_at_blank:
  assumes "split_at s pos limit = (len, True)"
  shows "pos + len < length s \<and> is_blank (s ! (pos + len))"
  using assms
  by (auto simp: split_at_def substr_def Let_def split: option.splits if_splits dest!: find_last_idx_SomeD)

lemma ink_after_split:
  "ink (drop (after_split s pos (split_at s pos limit)) s)
     = ink (drop (pos + fst (split_at s pos limit)) s)"
proof (cases "split_at s pos limit")
  case (Pair len skip)
  show ?thesis
  proof (cases skip)
    case True
    with split_at_blank [of s pos limit len] Pair
    have in_range: "pos + len < length s" and "is_trim_ws (s ! (pos + len))"
      by (auto simp: is_blank_def is_trim_ws_def)
    then have "ink (drop (pos + len) s) = ink (drop (Suc (pos + len)) s)"
      by (simp add: Cons_nth_drop_Suc [symmetric])
    with Pair True in_range show ?thesis by (simp add: after_split_def Let_def)
  next
    case False
    with Pair show ?thesis by (simp add: after_split_def)
  qed
qed

lemma wrap_loop_ink: "0 < n \<Longrightarrow> ink (wrap_loop s n pos) = ink (drop pos s)"
proof (induction s n pos rule: wrap_loop.induct)
  case (1 s n pos)
  let ?limit = "line_limit s n pos"
  show ?case
  proof (cases "pos < length s \<and> 0 < n")
    case False
    with "1.prems" show ?thesis by (simp add: wrap_loop.simps [of s n pos])
  next
    case run: True
    show ?thesis
    proof (cases "is_newline (s ! pos)")
      case nl: True
      with "1.IH"(1) [OF run nl] run show ?thesis
        by (simp add: wrap_at_newline ink_after_newline)
    next
      case no_nl: False
      show ?thesis
      proof (cases "newline_in_chunk s pos ?limit")
        case (Some p)
        with "1.IH"(3) [OF run no_nl refl Some] run no_nl ink_split [of pos s "p - pos"]
          newline_in_chunk_SomeD [OF Some] show ?thesis
          by (simp add: wrap_loop.simps [of s n pos])
      next
        case None
        with "1.IH"(2) [OF run no_nl refl None] run no_nl
          ink_split [of pos s "fst (split_at s pos ?limit)"] show ?thesis
          by (simp add: wrap_loop.simps [of s n pos] Let_def ink_after_split)
      qed
    qed
  qed
qed

section \<open>Properties\<close>

text \<open>
  \<^verbatim>\<open>StringUtils::WrapText\<close>, whatever the text and the requested length (clamped to 1..998):
  the loop ends, the result is a sequence of CRLF-terminated lines, none longer than the
  clamped length and none holding a stray line break, and its characters other than spaces,
  tabs and line breaks are those of the text, in order.
\<close>

lemma wrap_text_correct:
  "\<exists>ls. WrapText s line_length = join_lines ls \<and>
        list_all (short_line (max 1 (min 998 line_length))) ls \<and>
        filter (\<lambda>c. \<not> is_trim_ws c) (WrapText s line_length) = filter (\<lambda>c. \<not> is_trim_ws c) s"
proof -
  let ?n = "max 1 (min 998 line_length)"
  have W: "WrapText s line_length = wrap_loop s ?n 0"
    by (auto simp: WrapText_def Let_def max_def min_def)
  have "0 < ?n" by simp
  from wrap_loop_lines [OF this, of s 0] wrap_loop_ink [OF this, of s 0] show ?thesis
    by (auto simp: W)
qed

end
