(* ===== verification/Base64_Codec.thy ===== *)
theory Base64_Codec
  imports Prelude
begin

text \<open>
  \<^verbatim>\<open>base64/\<close>: the alphabet and the decode table of \<^verbatim>\<open>Base64Common.hpp\<close>, the one-shot encoder
  \<^verbatim>\<open>Base64Encoder\<close> and the strict decoder \<^verbatim>\<open>Base64Decoder\<close>. The theorems give the exact
  relation between the two: the round trip holds up to one 76-character line, and beyond it
  the line breaks the encoder inserts are rejected by the decoder.
\<close>

unbundle bit_operations_syntax

section \<open>Alphabet and decode table\<close>

definition alphabet :: string where
  "alphabet = ''ABCDEFGHIJKLMNOPQRSTUVWXYZabcdefghijklmnopqrstuvwxyz0123456789+/''"

definition get_decode_table :: "int list" where
  "get_decode_table =
     (foldl (\<lambda>t i. t[code_of (alphabet ! i) := int i]) (replicate 256 (- 1)) [0..<64])
       [code_of (CHR ''='') := - 2]"

definition table_at :: "char \<Rightarrow> int" where
  "table_at c = get_decode_table ! code_of c"

definition MAX_FILE_SIZE :: nat where
  "MAX_FILE_SIZE = 15 * 1024 * 1024"

section \<open>Encoder\<close>

text \<open>The 24-bit block of up to three bytes and its four characters.\<close>

definition enc_block :: "byte \<Rightarrow> byte \<Rightarrow> byte \<Rightarrow> u32" where
  "enc_block b0 b1 b2 = push_bit 16 (ucast b0) OR push_bit 8 (ucast b1) OR ucast b2"

definition sextet_char :: "nat \<Rightarrow> u32 \<Rightarrow> char" where
  "sextet_char k block = alphabet ! unat (drop_bit k block AND 0x3F)"

definition quad_chars :: "bool \<Rightarrow> bool \<Rightarrow> u32 \<Rightarrow> string" where
  "quad_chars has1 has2 block =
     [sextet_char 18 block, sextet_char 12 block,
      if has1 then sextet_char 6 block else CHR ''='',
      if has2 then sextet_char 0 block else CHR ''='']"

text \<open>
  \<^verbatim>\<open>Base64Encoder::ChunkBytes\<close>: the argument is the input from index \<^verbatim>\<open>i\<close> on, the counter the
  length of the current output line.
\<close>

fun ChunkBytes :: "byte list \<Rightarrow> nat \<Rightarrow> string" where
  "ChunkBytes [] line_length = []"
| "ChunkBytes [b0] line_length = quad_chars False False (enc_block b0 0 0)"
| "ChunkBytes [b0, b1] line_length = quad_chars True False (enc_block b0 b1 0)"
| "ChunkBytes (b0 # b1 # b2 # rest) line_length =
     quad_chars True True (enc_block b0 b1 b2) @
     (if 76 \<le> line_length + 4 \<and> rest \<noteq> [] then CRLF @ ChunkBytes rest 0
      else ChunkBytes rest (line_length + 4))"

definition EncodeBase64 :: "byte list \<Rightarrow> string outcome" where
  "EncodeBase64 data =
     (if MAX_FILE_SIZE < length data then Inl (runtime_error ''File too large'')
      else Inr (ChunkBytes data 0))"

section \<open>Strict decoder\<close>

definition is_valid_base64 :: "char \<Rightarrow> bool" where
  "is_valid_base64 c \<longleftrightarrow>
     (code_of (CHR ''A'') \<le> code_of c \<and> code_of c \<le> code_of (CHR ''Z'')) \<or>
     (code_of (CHR ''a'') \<le> code_of c \<and> code_of c \<le> code_of (CHR ''z'')) \<or>
     (code_of (CHR ''0'') \<le> code_of c \<and> code_of c \<le> code_of (CHR ''9'')) \<or>
     c = CHR ''+'' \<or> c = CHR ''/'' \<or> c = CHR ''=''"

definition dec_block :: "int \<Rightarrow> int \<Rightarrow> int \<Rightarrow> int \<Rightarrow> u32" where
  "dec_block v0 v1 v2 v3 =
     push_bit 18 (word_of_int v0) OR push_bit 12 (word_of_int v1) OR
     push_bit 6 (word_of_int v2) OR word_of_int v3"

definition block_byte :: "nat \<Rightarrow> u32 \<Rightarrow> byte" where
  "block_byte k block = ucast (drop_bit k block AND 0xFF)"

text \<open>The bytes a decoded quad appends: one, then one for each of \<^verbatim>\<open>c2\<close>, \<^verbatim>\<open>c3\<close> that is not padding.\<close>

definition quad_bytes :: "char \<Rightarrow> char \<Rightarrow> u32 \<Rightarrow> byte list" where
  "quad_bytes c2 c3 block =
     block_byte 16 block #
     (if c2 \<noteq> CHR ''='' then [block_byte 8 block] else []) @
     (if c3 \<noteq> CHR ''='' then [block_byte 0 block] else [])"

definition pad_value :: "char \<Rightarrow> int" where
  "pad_value c = (if c = CHR ''='' then 0 else table_at c)"

text \<open>The body of the decoding loop of \<^verbatim>\<open>Base64Decoder::DecodeBase64\<close>.\<close>

definition strict_quad :: "char \<Rightarrow> char \<Rightarrow> char \<Rightarrow> char \<Rightarrow> byte list outcome" where
  "strict_quad c0 c1 c2 c3 =
     (if table_at c0 < 0 \<or> table_at c1 < 0 \<or> (c2 \<noteq> CHR ''='' \<and> pad_value c2 < 0)
         \<or> (c3 \<noteq> CHR ''='' \<and> pad_value c3 < 0)
      then Inl (runtime_error ''Invalid Base64 character'')
      else Inr (quad_bytes c2 c3 (dec_block (table_at c0) (table_at c1) (pad_value c2) (pad_value c3))))"

fun decode_quads :: "(char \<Rightarrow> char \<Rightarrow> char \<Rightarrow> char \<Rightarrow> byte list outcome) \<Rightarrow> string \<Rightarrow> byte list outcome" where
  "decode_quads q (c0 # c1 # c2 # c3 # rest) =
     (case q c0 c1 c2 c3 of Inl e \<Rightarrow> Inl e
      | Inr bs \<Rightarrow> map_sum id (\<lambda>more. bs @ more) (decode_quads q rest))"
| "decode_quads q _ = Inr []"

definition DecodeBase64 :: "string \<Rightarrow> byte list outcome" where
  "DecodeBase64 encoded_data =
     (case find (\<lambda>c. \<not> is_valid_base64 c) encoded_data of
        Some c \<Rightarrow> Inl (runtime_error (''Invalid Base64 symbol: '' @ [c]))
      | None \<Rightarrow>
          if length encoded_data mod 4 \<noteq> 0
          then Inl (runtime_error ''Str is not in Base64 format'')
          else decode_quads strict_quad encoded_data)"

section \<open>The reference encoding\<close>

text \<open>
  RFC 4648 without line breaks: what \<open>ChunkBytes\<close> and the stream encoder produce once their
  line breaks are taken away.
\<close>

fun plain_quads :: "byte list \<Rightarrow> string" where
  "plain_quads [] = []"
| "plain_quads [b0] = quad_chars False False (enc_block b0 0 0)"
| "plain_quads [b0, b1] = quad_chars True False (enc_block b0 b1 0)"
| "plain_quads (b0 # b1 # b2 # rest) = quad_chars True True (enc_block b0 b1 b2) @ plain_quads rest"

section \<open>Facts on the table and the blocks\<close>

lemma code_of_bound [simp]: "code_of c < 256"
  by (simp add: code_of_def)

lemma code_of_inj [simp]: "code_of c = code_of d \<longleftrightarrow> c = d"
  by (simp add: code_of_def of_char_eq_iff)

lemma foldl_update_length [simp]: "length (foldl (\<lambda>t i. t[f i := g i]) t xs) = length t"
  by (induction xs arbitrary: t) auto

lemma foldl_update_other:
  "k \<notin> f ` set xs \<Longrightarrow> foldl (\<lambda>t i. t[f i := g i]) t xs ! k = t ! k"
  by (induction xs arbitrary: t) auto

lemma foldl_update_hit:
  "inj_on f (set xs) \<Longrightarrow> distinct xs \<Longrightarrow> i \<in> set xs \<Longrightarrow> f i < length t \<Longrightarrow>
   foldl (\<lambda>t i. t[f i := g i]) t xs ! f i = g i"
proof (induction xs arbitrary: t)
  case Nil
  then show ?case by simp
next
  case (Cons x xs)
  show ?case
  proof (cases "i = x")
    case True
    then have "f i \<notin> f ` set xs" using Cons.prems by (auto dest: inj_onD)
    then show ?thesis using Cons.prems True by (simp add: foldl_update_other)
  next
    case False
    then show ?thesis using Cons by auto
  qed
qed

lemma alphabet_length: "length alphabet = 64"
  by (simp add: alphabet_def)

lemma alphabet_distinct: "distinct alphabet"
  by (simp add: alphabet_def)

lemma alphabet_valid_all: "list_all (\<lambda>c. is_valid_base64 c \<and> c \<noteq> CHR ''='') alphabet"
  by (simp add: alphabet_def is_valid_base64_def code_of_def)

lemma alphabet_nth_valid:
  "i < 64 \<Longrightarrow> is_valid_base64 (alphabet ! i) \<and> alphabet ! i \<noteq> CHR ''=''"
  using alphabet_valid_all alphabet_length by (simp add: list_all_length)

lemma alphabet_codes_inj: "inj_on (\<lambda>i. code_of (alphabet ! i)) (set [0..<64])"
  using alphabet_distinct alphabet_length by (auto simp: inj_on_def nth_eq_iff_index_eq)

text \<open>The table inverts the alphabet, and its only other entries are the two markers.\<close>

lemma table_at_alphabet [simp]: "i < 64 \<Longrightarrow> table_at (alphabet ! i) = int i"
  using foldl_update_hit [OF alphabet_codes_inj, of i "replicate 256 (- 1)" int]
  by (simp add: table_at_def get_decode_table_def alphabet_nth_valid [THEN conjunct2, THEN not_sym])

lemma table_at_pad: "table_at (CHR ''='') = - 2"
  by (simp add: table_at_def get_decode_table_def)

lemma table_at_other: "c \<notin> set alphabet \<Longrightarrow> c \<noteq> CHR ''='' \<Longrightarrow> table_at c = - 1"
proof -
  assume c: "c \<notin> set alphabet" "c \<noteq> CHR ''=''"
  then have "code_of c \<notin> (\<lambda>i. code_of (alphabet ! i)) ` set [0..<64]"
    using alphabet_length by (auto simp: in_set_conv_nth)
  from foldl_update_other [OF this, of int "replicate 256 (- 1)"] c(2) show ?thesis
    by (simp add: table_at_def get_decode_table_def)
qed

text \<open>Evaluation searches the alphabet instead of building the table.\<close>

lemma table_at_code [code]:
  "table_at c = (case find_idx (\<lambda>x. x = c) alphabet of
     Some i \<Rightarrow> int i | None \<Rightarrow> if c = CHR ''='' then - 2 else - 1)"
proof (cases "find_idx (\<lambda>x. x = c) alphabet")
  case None
  then have "c \<notin> set alphabet" by (auto simp: find_idx_None)
  then show ?thesis using None table_at_pad table_at_other by simp
next
  case (Some i)
  from find_idx_SomeD [OF this] have "i < 64" "alphabet ! i = c" using alphabet_length by auto
  then show ?thesis using Some table_at_alphabet [of i] by simp
qed

lemma sextet_index: "unat (drop_bit k block AND (0x3F :: u32)) < 64"
proof -
  have "drop_bit k block AND (0x3F :: u32) \<le> 0x3F" by (rule word_and_le1)
  then have "unat (drop_bit k block AND (0x3F :: u32)) \<le> unat (0x3F :: u32)"
    by (simp only: word_le_nat_alt)
  then show ?thesis by simp
qed

lemma sextet_char_props [simp]:
  "is_valid_base64 (sextet_char k block)"
  "sextet_char k block \<noteq> CHR ''=''"
  "table_at (sextet_char k block) = uint (drop_bit k block AND 0x3F)"
  using alphabet_nth_valid [OF sextet_index] by (auto simp: sextet_char_def sextet_index)

lemma sextet_char_not_pad [simp]: "CHR ''='' \<noteq> sextet_char k block"
  using sextet_char_props(2) [of k block] by metis

lemma valid_not_break: "is_valid_base64 c \<Longrightarrow> c \<noteq> CR \<and> c \<noteq> LF \<and> c \<noteq> SP \<and> c \<noteq> TAB"
  by (auto simp: is_valid_base64_def code_of_def)

lemma valid_pad [simp]: "is_valid_base64 (CHR ''='')"
  by (simp add: is_valid_base64_def)

lemma quad_chars_valid: "\<forall>c \<in> set (quad_chars h1 h2 block). is_valid_base64 c"
  by (auto simp: quad_chars_def)

lemma length_quad_chars [simp]: "length (quad_chars h1 h2 block) = 4"
  by (simp add: quad_chars_def)

lemma pad_value_sextet [simp]:
  "pad_value (sextet_char k block) = uint (drop_bit k block AND 0x3F)"
  "pad_value (CHR ''='') = 0"
  by (simp_all add: pad_value_def)

subsection \<open>Bit arithmetic of a block\<close>

lemma low_masks:
  "(0x3F :: u32) = mask 6" "(0xFF :: u32) = mask 8" "(0xFFFFFF :: u32) = mask 24"
  by (simp_all add: mask_eq_exp_minus_1)

lemma byte_bit_bound: "8 \<le> n \<Longrightarrow> \<not> bit (b :: byte) n"
  using bit_imp_le_length by fastforce

lemma join_sextets:
  fixes w :: u32
  shows "push_bit 18 (drop_bit 18 w AND mask 6) OR push_bit 12 (drop_bit 12 w AND mask 6) OR
    push_bit 6 (drop_bit 6 w AND mask 6) OR (drop_bit 0 w AND mask 6) = w AND mask 24"
proof (rule bit_word_eqI, goal_cases)
  case (1 n)
  consider "n < 6" | "6 \<le> n" "n < 12" | "12 \<le> n" "n < 18" | "18 \<le> n" by arith
  then show ?case by cases (auto simp: bit_simps)
qed

text \<open>
  Padding replaces the low sextets by zero, which cuts the block: to its top 12 bits for one
  byte, to its top 18 bits for two.
\<close>

lemma join_sextets_pad1:
  fixes w :: u32
  shows "push_bit 18 (drop_bit 18 w AND mask 6) OR push_bit 12 (drop_bit 12 w AND mask 6)
    = push_bit 12 (drop_bit 12 w) AND push_bit 12 (mask 12)"
proof (rule bit_word_eqI, goal_cases)
  case (1 n)
  consider "n < 12" | "12 \<le> n" "n < 18" | "18 \<le> n" by arith
  then show ?case by cases (auto simp: bit_simps)
qed

lemma join_sextets_pad2:
  fixes w :: u32
  shows "push_bit 18 (drop_bit 18 w AND mask 6) OR push_bit 12 (drop_bit 12 w AND mask 6) OR
    push_bit 6 (drop_bit 6 w AND mask 6) = push_bit 6 (drop_bit 6 w) AND push_bit 6 (mask 18)"
proof (rule bit_word_eqI, goal_cases)
  case (1 n)
  consider "n < 6" | "6 \<le> n" "n < 12" | "12 \<le> n" "n < 18" | "18 \<le> n" by arith
  then show ?case by cases (auto simp: bit_simps)
qed

lemma dec_block_sextets:
  "dec_block (uint (drop_bit 18 w AND 0x3F)) (uint (drop_bit 12 w AND 0x3F))
     (uint (drop_bit 6 w AND 0x3F)) (uint (w AND 0x3F)) = w AND mask 24"
  "dec_block (uint (drop_bit 18 w AND 0x3F)) (uint (drop_bit 12 w AND 0x3F)) 0 0
     = push_bit 12 (drop_bit 12 w) AND push_bit 12 (mask 12)"
  "dec_block (uint (drop_bit 18 w AND 0x3F)) (uint (drop_bit 12 w AND 0x3F))
     (uint (drop_bit 6 w AND 0x3F)) 0 = push_bit 6 (drop_bit 6 w) AND push_bit 6 (mask 18)"
  for w :: u32
  using join_sextets [of w] join_sextets_pad1 [of w] join_sextets_pad2 [of w]
  by (simp_all add: dec_block_def low_masks)

lemma block_byte_enc [simp]:
  "block_byte 16 (enc_block b0 b1 b2 AND mask 24) = b0"
  "block_byte 8 (enc_block b0 b1 b2 AND mask 24) = b1"
  "block_byte 0 (enc_block b0 b1 b2 AND mask 24) = b2"
  "block_byte 16 (push_bit 12 (drop_bit 12 (enc_block b0 b1 b2)) AND push_bit 12 (mask 12)) = b0"
  "block_byte 16 (push_bit 6 (drop_bit 6 (enc_block b0 b1 b2)) AND push_bit 6 (mask 18)) = b0"
  "block_byte 8 (push_bit 6 (drop_bit 6 (enc_block b0 b1 b2)) AND push_bit 6 (mask 18)) = b1"
  unfolding block_byte_def enc_block_def low_masks
  by (rule bit_word_eqI; auto simp: bit_simps byte_bit_bound)+

lemmas quad_simps = quad_bytes_def dec_block_sextets

section \<open>The contract of a quad decoder\<close>

text \<open>
  The strict decoder and the stream decoder differ in what they reject, and agree on the
  quads the encoder writes. This is the law they share; the client lemma is that decoding
  quad by quad inverts the reference encoding.
\<close>

locale quad_decoder =
  fixes q :: "char \<Rightarrow> char \<Rightarrow> char \<Rightarrow> char \<Rightarrow> byte list outcome"
  assumes full: "w = enc_block b0 b1 b2 \<Longrightarrow>
      q (sextet_char 18 w) (sextet_char 12 w) (sextet_char 6 w) (sextet_char 0 w) = Inr [b0, b1, b2]"
    and two: "w = enc_block b0 b1 0 \<Longrightarrow>
      q (sextet_char 18 w) (sextet_char 12 w) (sextet_char 6 w) (CHR ''='') = Inr [b0, b1]"
    and one: "w = enc_block b0 0 0 \<Longrightarrow>
      q (sextet_char 18 w) (sextet_char 12 w) (CHR ''='') (CHR ''='') = Inr [b0]"
begin

lemma decode_plain: "decode_quads q (plain_quads data) = Inr data"
  by (induction data rule: plain_quads.induct) (simp_all add: quad_chars_def full two one)

end

interpretation strict: quad_decoder strict_quad
  by unfold_locales (auto simp: strict_quad_def quad_simps)

section \<open>The encoder against the reference\<close>

lemma filter_valid_chars:
  "\<forall>c \<in> set s. is_valid_base64 c \<Longrightarrow> filter (\<lambda>c. c \<noteq> CR \<and> c \<noteq> LF) s = s"
  by (induction s) (auto dest: valid_not_break)

lemma ChunkBytes_filter:
  "filter (\<lambda>c. c \<noteq> CR \<and> c \<noteq> LF) (ChunkBytes data n) = plain_quads data"
  by (induction data n rule: ChunkBytes.induct)
    (simp_all add: filter_valid_chars [OF quad_chars_valid])

lemma plain_quads_valid: "\<forall>c \<in> set (plain_quads data). is_valid_base64 c"
  by (induction data rule: plain_quads.induct) (auto simp: quad_chars_valid [rule_format])

lemma length_plain_quads: "length (plain_quads data) = 4 * ((length data + 2) div 3)"
proof (induction data rule: plain_quads.induct)
  case (4 b0 b1 b2 rest)
  have "(length (b0 # b1 # b2 # rest) + 2) div 3 = Suc ((length rest + 2) div 3)"
    by (simp add: div_add_self2 [symmetric] add.commute)
  with 4 show ?case by simp
qed auto

text \<open>One line holds 19 quads: with \<open>k\<close> of them written, up to \<open>3 * (19 - k)\<close> bytes still fit.\<close>

lemma ChunkBytes_one_line:
  "k < 19 \<Longrightarrow> length data \<le> 3 * (19 - k) \<Longrightarrow> ChunkBytes data (4 * k) = plain_quads data"
proof (induction data arbitrary: k rule: plain_quads.induct)
  case (4 b0 b1 b2 rest)
  show ?case
  proof (cases "rest = []")
    case True
    then show ?thesis by simp
  next
    case False
    then have "1 \<le> length rest" by (cases rest) auto
    with "4.prems" have "Suc k < 19" and "length rest \<le> 3 * (19 - Suc k)"
      unfolding list.size by linarith+
    from "4.IH" [OF this] have "ChunkBytes rest (4 + 4 * k) = plain_quads rest" by simp
    moreover have "\<not> 76 \<le> 4 * k + 4" using \<open>Suc k < 19\<close> by simp
    ultimately show ?thesis by (simp add: add.commute)
  qed
qed auto

lemma find_append_valid:
  "\<forall>c \<in> set xs. is_valid_base64 c \<Longrightarrow>
   find (\<lambda>c. \<not> is_valid_base64 c) (xs @ ys) = find (\<lambda>c. \<not> is_valid_base64 c) ys"
  by (induction xs) auto

lemma ChunkBytes_breaks:
  "k < 19 \<Longrightarrow> 3 * (19 - k) < length data \<Longrightarrow>
   find (\<lambda>c. \<not> is_valid_base64 c) (ChunkBytes data (4 * k)) = Some CR"
proof (induction data arbitrary: k rule: plain_quads.induct)
  case (4 b0 b1 b2 rest)
  have rest: "rest \<noteq> []" using "4.prems" by auto
  have notCR: "\<not> is_valid_base64 CR" using valid_not_break by blast
  note skip = find_append_valid [OF quad_chars_valid]
  show ?case
  proof (cases "Suc k < 19")
    case True
    then have "3 * (19 - Suc k) < length rest" using "4.prems" by auto
    from "4.IH" [OF True this]
    have "find (\<lambda>c. \<not> is_valid_base64 c) (ChunkBytes rest (4 + 4 * k)) = Some CR" by simp
    moreover have "\<not> 76 \<le> 4 * k + 4" using True by simp
    ultimately show ?thesis by (simp add: skip add.commute)
  next
    case False
    then have "76 \<le> 4 * k + 4" by simp
    with rest notCR show ?thesis by (simp add: skip)
  qed
qed auto

lemma decode_plain_strict: "DecodeBase64 (plain_quads data) = Inr data"
proof -
  have "find (\<lambda>c. \<not> is_valid_base64 c) (plain_quads data) = None"
    using plain_quads_valid by (simp add: find_None_iff)
  then show ?thesis
    by (simp add: DecodeBase64_def length_plain_quads strict.decode_plain)
qed

section \<open>Properties\<close>

text \<open>
  C1. The round trip of \<^verbatim>\<open>Base64Encoder::EncodeBase64\<close> and \<^verbatim>\<open>Base64Decoder::DecodeBase64\<close>, exactly:
  every input of at most 15 MiB is encoded; the decoder returns it when it has at most 57
  bytes (one output line), and otherwise rejects the encoder's own output, at the carriage
  return of its first line break.
\<close>

theorem base64_roundtrip_exact:
  assumes "length data \<le> MAX_FILE_SIZE"
  shows "\<exists>s. EncodeBase64 data = Inr s \<and>
     DecodeBase64 s = (if length data \<le> 57 then Inr data
                       else Inl (runtime_error (''Invalid Base64 symbol: '' @ [CR])))"
proof -
  have "DecodeBase64 (ChunkBytes data 0) = Inr data" if "length data \<le> 57"
    using ChunkBytes_one_line [of 0 data] that decode_plain_strict by simp
  moreover have "DecodeBase64 (ChunkBytes data 0) = Inl (runtime_error (''Invalid Base64 symbol: '' @ [CR]))"
    if "\<not> length data \<le> 57"
    using ChunkBytes_breaks [of 0 data] that by (simp add: DecodeBase64_def)
  ultimately show ?thesis using assms by (auto simp: EncodeBase64_def)
qed

theorem base64_roundtrip_exact_witness:
  "length [72, 105, 33 :: byte] \<le> MAX_FILE_SIZE \<and>
   (\<exists>s. EncodeBase64 [72, 105, 33] = Inr s \<and> DecodeBase64 s = Inr [72, 105, 33])"
proof -
  have h: "length [72, 105, 33 :: byte] \<le> MAX_FILE_SIZE" by (simp add: MAX_FILE_SIZE_def)
  show ?thesis using h base64_roundtrip_exact [OF h] by simp
qed

text \<open>
  What the encoder writes is the RFC 4648 encoding, broken into lines: taking the line
  breaks away gives the reference encoding, whatever the input, and the reference encoding
  is decoded back by the strict decoder at every size.
\<close>

lemma encode_is_wrapped_reference:
  "filter (\<lambda>c. c \<noteq> CR \<and> c \<noteq> LF) (ChunkBytes data n) = plain_quads data \<and>
   DecodeBase64 (filter (\<lambda>c. c \<noteq> CR \<and> c \<noteq> LF) (ChunkBytes data n)) = Inr data"
  by (simp add: ChunkBytes_filter decode_plain_strict)

end
