(* ===== verification/Mime_Codec.thy ===== *)
theory Mime_Codec
  imports String_Utils Base64_Codec
begin

text \<open>
  \<^verbatim>\<open>mime/src/MimeDecoder.cpp\<close> and \<^verbatim>\<open>mime/src/MimeEncoder.cpp\<close>: quoted-printable bodies, the
  \<^verbatim>\<open>=?charset?enc?text?=\<close> words of headers and their encoder. Log messages are not modelled:
  they change no value. The encoder's chunk loop can stand still, so it is a partial
  function: \<open>None\<close> is a loop that never ends.
\<close>

section \<open>Hexadecimal escapes\<close>

definition IsHex :: "char \<Rightarrow> bool" where
  "IsHex c \<longleftrightarrow>
     (code_of (CHR ''0'') \<le> code_of c \<and> code_of c \<le> code_of (CHR ''9'')) \<or>
     (code_of (CHR ''A'') \<le> code_of c \<and> code_of c \<le> code_of (CHR ''F'')) \<or>
     (code_of (CHR ''a'') \<le> code_of c \<and> code_of c \<le> code_of (CHR ''f''))"

definition hex_digit :: "char \<Rightarrow> nat option" where
  "hex_digit h =
     (if code_of (CHR ''0'') \<le> code_of h \<and> code_of h \<le> code_of (CHR ''9'')
      then Some (code_of h - code_of (CHR ''0''))
      else if code_of (CHR ''A'') \<le> code_of h \<and> code_of h \<le> code_of (CHR ''F'')
      then Some (code_of h - code_of (CHR ''A'') + 10)
      else if code_of (CHR ''a'') \<le> code_of h \<and> code_of h \<le> code_of (CHR ''f'')
      then Some (code_of h - code_of (CHR ''a'') + 10)
      else None)"

definition InternalHexToChar :: "string \<Rightarrow> char" where
  "InternalHexToChar hex_str =
     (case hex_str of
        h0 # h1 # _ \<Rightarrow>
          (case (hex_digit h0, hex_digit h1) of
             (Some d0, Some d1) \<Rightarrow> char_of (16 * d0 + d1)
           | _ \<Rightarrow> CHR ''?'')
      | _ \<Rightarrow> CHR ''?'')"

fun HasQpArtifacts :: "string \<Rightarrow> bool" where
  "HasQpArtifacts (c0 # c1 # c2 # cs) \<longleftrightarrow>
     (c0 = CHR ''='' \<and> IsHex c1 \<and> IsHex c2) \<or> HasQpArtifacts (c1 # c2 # cs)"
| "HasQpArtifacts _ \<longleftrightarrow> False"

fun DecodeQEncoding :: "string \<Rightarrow> string" where
  "DecodeQEncoding [] = []"
| "DecodeQEncoding (c # cs) =
     (if c = CHR ''_'' then CHR '' '' # DecodeQEncoding cs
      else if c = CHR ''='' then
        (case cs of
           h0 # h1 # rest \<Rightarrow>
             if IsHex h0 \<and> IsHex h1 then InternalHexToChar [h0, h1] # DecodeQEncoding rest
             else CHR ''='' # DecodeQEncoding cs
         | _ \<Rightarrow> CHR ''='' # DecodeQEncoding cs)
      else c # DecodeQEncoding cs)"

fun skip_soft_break :: "string \<Rightarrow> string" where
  "skip_soft_break (c # cs) =
     (if c = CR then (case cs of d # ds \<Rightarrow> if d = LF then ds else cs | [] \<Rightarrow> [])
      else if c = LF then cs else c # cs)"
| "skip_soft_break [] = []"

lemma length_skip_soft_break [simp]: "length (skip_soft_break s) \<le> length s"
  by (cases s) (auto split: list.split)

function DecodeQuotedPrintable :: "string \<Rightarrow> string" where
  "DecodeQuotedPrintable [] = []"
| "DecodeQuotedPrintable (c # cs) =
     (if c = CHR ''='' then
        (if cs \<noteq> [] \<and> (hd cs = CR \<or> hd cs = LF) then DecodeQuotedPrintable (skip_soft_break cs)
         else if 2 \<le> length cs \<and> IsHex (cs ! 0) \<and> IsHex (cs ! 1)
         then InternalHexToChar (take 2 cs) # DecodeQuotedPrintable (drop 2 cs)
         else CHR ''='' # DecodeQuotedPrintable cs)
      else c # DecodeQuotedPrintable cs)"
  by pat_completeness auto
termination
proof (relation "measure length", goal_cases)
  case 1
  show ?case by simp
next
  case (2 c cs)
  then show ?case using length_skip_soft_break [of cs] by (simp add: le_imp_less_Suc)
qed auto

lemma length_DecodeQuotedPrintable: "length (DecodeQuotedPrintable s) \<le> length s"
proof (induction s rule: DecodeQuotedPrintable.induct)
  case (2 c cs)
  have "length (DecodeQuotedPrintable (skip_soft_break cs)) \<le> length cs"
    if "c = CHR ''=''" "cs \<noteq> [] \<and> (hd cs = CR \<or> hd cs = LF)"
    using "2.IH"(1) [OF that] length_skip_soft_break [of cs] by (rule le_trans)
  with "2.IH"(2,3,4) show ?case by auto
qed simp

section \<open>Encoded words\<close>

definition has_ink :: "string \<Rightarrow> bool" where
  "has_ink s \<longleftrightarrow> (\<exists>c \<in> set s. \<not> is_trim_ws c)"

text \<open>The \<^verbatim>\<open>=?\<close> at \<open>start\<close>: the positions \<^verbatim>\<open>q1\<close>, \<^verbatim>\<open>q2\<close> and \<^verbatim>\<open>end\<close>, if all three are there.\<close>

definition word_marks :: "string \<Rightarrow> nat \<Rightarrow> (nat \<times> nat \<times> nat) option" where
  "word_marks input start =
     (case find_char_from input (CHR ''?'') (start + 2) of
        None \<Rightarrow> None
      | Some q1 \<Rightarrow>
          (case find_char_from input (CHR ''?'') (q1 + 1) of
             None \<Rightarrow> None
           | Some q2 \<Rightarrow>
               (case find_sub_from ''?='' input (q2 + 1) of
                  None \<Rightarrow> None
                | Some e \<Rightarrow> Some (q1, q2, e))))"

definition decode_word :: "string \<Rightarrow> string \<Rightarrow> string" where
  "decode_word encoding s =
     (if encoding = ''Q'' \<or> encoding = ''q'' then DecodeQEncoding s
      else if encoding = ''B'' \<or> encoding = ''b'' then
        (case DecodeBase64 s of Inl e \<Rightarrow> s | Inr bytes \<Rightarrow> map char_of_byte bytes)
      else s)"

lemma word_marks_bound:
  "word_marks input start = Some (q1, q2, e) \<Longrightarrow> start + 2 \<le> q1 \<and> q1 < q2 \<and> q2 < e \<and> e + 2 \<le> length input"
  by (auto simp: word_marks_def find_char_from_def split: option.splits
      dest!: find_idx_from_SomeD find_sub_from_SomeD)

text \<open>The scanning loop: what it appends to \<^verbatim>\<open>result\<close> from \<^verbatim>\<open>pos\<close> on, and the final \<^verbatim>\<open>found_any_encoded\<close>.\<close>

function decode_words :: "string \<Rightarrow> nat \<Rightarrow> bool \<Rightarrow> string \<times> bool" where
  "decode_words input pos found =
     (if pos < length input then
        (case find_sub_from ''=?'' input pos of
           None \<Rightarrow> (if \<not> found \<or> has_ink (drop pos input) then drop pos input else [], found)
         | Some start \<Rightarrow>
             (let gap = substr input pos (start - pos);
                  kept = (if \<not> found \<or> has_ink gap then gap else [])
              in case word_marks input start of
                   None \<Rightarrow> (kept @ drop start input, found)
                 | Some (q1, q2, e) \<Rightarrow>
                     (let part = decode_word (substr input (q1 + 1) (q2 - q1 - 1))
                                   (substr input (q2 + 1) (e - q2 - 1));
                          (rest, found') = decode_words input (e + 2) True
                      in (kept @ part @ rest, found'))))
      else ([], found))"
  by pat_completeness auto
termination
proof (relation "measure (\<lambda>(input, pos, found). length input - pos)", goal_cases)
  case 1
  show ?case by simp
next
  case (2 input pos found start gap kept a q1 b q2 e part)
  then have "pos \<le> start" and "start + 2 \<le> q1 \<and> q1 < q2 \<and> q2 < e"
    using word_marks_bound by (auto dest: find_sub_from_SomeD)
  with 2 show ?case by auto
qed

declare decode_words.simps [simp del]

definition DecodeEncodedWord :: "string \<Rightarrow> string" where
  "DecodeEncodedWord input =
     (let (result, found) = decode_words input 0 False
      in if \<not> found \<and> HasQpArtifacts result then DecodeQEncoding result else result)"

section \<open>Header encoder\<close>

definition NeedsEncoding :: "string \<Rightarrow> bool" where
  "NeedsEncoding s \<longleftrightarrow> (\<exists>c \<in> set s. code_of c < 32 \<or> 126 < code_of c)"

definition ToBase64 :: "string \<Rightarrow> string outcome" where
  "ToBase64 s = EncodeBase64 (map byte_of_char s)"

text \<open>
  The chunk loop of \<^verbatim>\<open>EncodeHeader\<close> from index \<open>i\<close>, \<open>chunk\<close> the configured
  \<^verbatim>\<open>header_chunk_size\<close>. The outer \<open>None\<close> is divergence, the inner sum the exception of the
  base64 encoder.
\<close>

partial_function (option) encode_header_loop ::
  "string \<Rightarrow> string \<Rightarrow> nat \<Rightarrow> nat \<Rightarrow> string \<Rightarrow> string outcome option" where
  "encode_header_loop s separator chunk i result =
     (if i < length s then
        (let e = FindUtf8SafeEnd s i chunk in
         case ToBase64 (substr s i (e - i)) of
           Inl err \<Rightarrow> Some (Inl err)
         | Inr base64_chunk \<Rightarrow>
             encode_header_loop s separator chunk e
               ((if result = [] then [] else result @ separator) @
                ''=?UTF-8?B?'' @ base64_chunk @ ''?=''))
      else Some (Inr result))"

definition EncodeHeader :: "string \<Rightarrow> string \<Rightarrow> nat \<Rightarrow> string outcome option" where
  "EncodeHeader s separator chunk =
     (if \<not> NeedsEncoding s then Some (Inr s) else encode_header_loop s separator chunk 0 [])"

end
