(* ===== verification/Mime_Parser.thy ===== *)
theory Mime_Parser
  imports Mime_Codec
begin

text \<open>
  \<^verbatim>\<open>mime/include/{Email,Attachment,MimePart}.h\<close> and \<^verbatim>\<open>mime/src/MimeParser.cpp\<close>: from the raw text
  of a message to an \<^verbatim>\<open>Email\<close> and to a tree of MIME parts. The multipart loop of the source cuts
  the body into parts and processes each as it is found; the cut does not depend on the
  processing, so it is a function of its own (\<open>part_spans\<close>), and the parts are folded over.
  Both recursions into nested parts end because a part is shorter than its enclosing body.
\<close>

section \<open>Data\<close>

record attachment =
  file_name :: string
  mime_type :: string
  base64_data :: string
  file_size :: nat

text \<open>
  The constructor \<^verbatim>\<open>Attachment(name, mime, data)\<close>. \<^verbatim>\<open>file_size\<close> is a \<^verbatim>\<open>std::size_t\<close>: the subtraction
  of the padding wraps around.
\<close>

definition make_attachment :: "string \<Rightarrow> string \<Rightarrow> string \<Rightarrow> attachment" where
  "make_attachment name mime data =
     \<lparr>file_name = name, mime_type = mime, base64_data = data,
      file_size =
        (if data = [] then 0
         else
           (let padding =
              (if 2 \<le> length data
               then (if last data = CHR ''='' then 1 else 0) +
                    (if data ! (length data - 2) = CHR ''='' then 1 else 0)
               else 0)
            in ((length data * 3) div 4 + 2 ^ 64 - padding) mod 2 ^ 64))\<rparr>"

record email =
  sender :: string
  to_addrs :: "string list"
  cc_addrs :: "string list"
  bcc_addrs :: "string list"
  subject :: string
  date :: string
  charset :: string
  message_id :: string
  in_reply_to :: string
  references :: string
  plain_text :: string
  html_text :: string
  plain_text_encoding :: string
  html_text_encoding :: string
  boundary_mixed :: string
  boundary_alternative :: string
  attachments :: "attachment list"

definition new_email :: email where
  "new_email =
     \<lparr>sender = [], to_addrs = [], cc_addrs = [], bcc_addrs = [], subject = [], date = [],
      charset = ''utf-8'', message_id = [], in_reply_to = [], references = [], plain_text = [],
      html_text = [], plain_text_encoding = [], html_text_encoding = [], boundary_mixed = [],
      boundary_alternative = [], attachments = []\<rparr>"

definition HasAttachments :: "email \<Rightarrow> bool" where
  "HasAttachments m \<longleftrightarrow> attachments m \<noteq> []"

definition HasHtml :: "email \<Rightarrow> bool" where
  "HasHtml m \<longleftrightarrow> html_text m \<noteq> []"

datatype mime_part =
  MimePart (part_type: string) (part_subtype: string) (part_charset: string)
    (part_encoding: string) (part_file: string) (part_size: nat) (part_lines: nat)
    (part_boundary: string) (part_children: "mime_part list")

section \<open>Headers\<close>

definition SplitHeadersAndBody :: "string \<Rightarrow> string \<times> string" where
  "SplitHeadersAndBody raw_block =
     (case find_sub (CRLF @ CRLF) raw_block of
        Some pos \<Rightarrow> (take pos raw_block, drop (pos + 4) raw_block)
      | None \<Rightarrow>
          (case find_sub [LF, LF] raw_block of
             Some pos \<Rightarrow> (take pos raw_block, drop (pos + 2) raw_block)
           | None \<Rightarrow> ([], raw_block)))"

definition IEquals :: "string \<Rightarrow> string \<Rightarrow> bool" where
  "IEquals a b \<longleftrightarrow> length a = length b \<and> ToLower a = ToLower b"

fun header_scan :: "string \<Rightarrow> string list \<Rightarrow> string \<Rightarrow> bool \<Rightarrow> string" where
  "header_scan key [] result found = result"
| "header_scan key (raw # lines) result found =
     (let line = pop_back_if CR raw in
      if line = [] then header_scan key lines result found
      else if found \<and> (hd line = SP \<or> hd line = TAB) then
        (let appended = Trim line in
         header_scan key lines (if appended \<noteq> [] then result @ '' '' @ appended else result) found)
      else if found then result
      else
        (case find_char line (CHR '':'') of
           None \<Rightarrow> header_scan key lines result found
         | Some colon \<Rightarrow>
             if IEquals (take colon line) key
             then header_scan key lines (Trim (drop (colon + 1) line)) True
             else header_scan key lines result found))"

definition GetHeaderValue :: "string \<Rightarrow> string \<Rightarrow> string" where
  "GetHeaderValue headers key =
     header_scan (pop_back_if (CHR '':'') (ToLower key)) (getlines LF headers) [] False"

text \<open>
  The value of a parameter that starts at \<open>pos\<close>: up to the closing quote, or up to one of
  \<^verbatim>\<open>" ;\r\n"\<close>. \<^verbatim>\<open>ExtractBoundary\<close> and \<^verbatim>\<open>ExtractCharset\<close> share it.
\<close>

definition is_param_end :: "char \<Rightarrow> bool" where
  "is_param_end c \<longleftrightarrow> c = SP \<or> c = CHR '';'' \<or> c = CR \<or> c = LF"

definition param_value :: "string \<Rightarrow> nat \<Rightarrow> string" where
  "param_value header pos =
     (if length header \<le> pos then []
      else if header ! pos = DQUOTE then
        (case find_char_from header DQUOTE (pos + 1) of
           Some e \<Rightarrow> substr header (pos + 1) (e - (pos + 1))
         | None \<Rightarrow> [])
      else
        (case find_idx_from is_param_end header pos of
           Some e \<Rightarrow> substr header pos (e - pos)
         | None \<Rightarrow> drop pos header))"

definition ExtractBoundary :: "string \<Rightarrow> string" where
  "ExtractBoundary content_type_header =
     (case find_sub ''boundary='' (ToLower content_type_header) of
        None \<Rightarrow> []
      | Some pos \<Rightarrow> Trim (param_value content_type_header (pos + 9)))"

definition ExtractCharset :: "string \<Rightarrow> string" where
  "ExtractCharset content_type_header =
     (case find_sub ''charset='' (ToLower content_type_header) of
        None \<Rightarrow> []
      | Some pos \<Rightarrow> Trim (param_value content_type_header (pos + 8)))"

definition named_param :: "string \<Rightarrow> string \<Rightarrow> string" where
  "named_param header name =
     (case find_sub name header of
        None \<Rightarrow> []
      | Some pos \<Rightarrow> param_value header (pos + length name))"

definition ExtractFileName :: "string \<Rightarrow> string" where
  "ExtractFileName part_headers =
     (let f0 = named_param (GetHeaderValue part_headers ''Content-Disposition:'') ''filename='';
          f1 = (if f0 = [] then named_param (GetHeaderValue part_headers ''Content-Type:'') ''name=''
                else f0);
          f2 = (if f1 = [] then ''unnamed_file'' else f1)
      in DecodeEncodedWord (Trim f2))"

text \<open>The state of the loop of \<^verbatim>\<open>SplitAddresses\<close>: \<^verbatim>\<open>current\<close>, \<^verbatim>\<open>angle_depth\<close>, \<^verbatim>\<open>in_quotes\<close>.\<close>

definition push_trimmed :: "string \<Rightarrow> string list" where
  "push_trimmed current = (if Trim current \<noteq> [] then [Trim current] else [])"

fun split_addresses :: "string \<Rightarrow> string \<Rightarrow> nat \<Rightarrow> bool \<Rightarrow> string list" where
  "split_addresses [] current angle_depth in_quotes = push_trimmed current"
| "split_addresses (c # cs) current angle_depth in_quotes =
     (if c = DQUOTE \<and> angle_depth = 0 then split_addresses cs (current @ [c]) angle_depth (\<not> in_quotes)
      else if \<not> in_quotes \<and> c = CHR ''<'' then split_addresses cs (current @ [c]) (angle_depth + 1) in_quotes
      else if \<not> in_quotes \<and> c = CHR ''>'' then split_addresses cs (current @ [c]) (angle_depth - 1) in_quotes
      else if \<not> in_quotes \<and> angle_depth = 0 \<and> c = CHR '',''
      then push_trimmed current @ split_addresses cs [] angle_depth in_quotes
      else split_addresses cs (current @ [c]) angle_depth in_quotes)"

definition SplitAddresses :: "string \<Rightarrow> string list" where
  "SplitAddresses header_value =
     (if header_value = [] then [] else split_addresses header_value [] 0 False)"

definition ParseMainHeaders :: "string \<Rightarrow> email \<Rightarrow> email" where
  "ParseMainHeaders top_headers out_email =
     out_email\<lparr>
       sender := DecodeEncodedWord (GetHeaderValue top_headers ''From:''),
       subject := DecodeEncodedWord (GetHeaderValue top_headers ''Subject:''),
       date := GetHeaderValue top_headers ''Date:'',
       to_addrs := SplitAddresses (DecodeEncodedWord (GetHeaderValue top_headers ''To:'')),
       cc_addrs := SplitAddresses (DecodeEncodedWord (GetHeaderValue top_headers ''Cc:'')),
       message_id := GetHeaderValue top_headers ''Message-ID:'',
       in_reply_to := GetHeaderValue top_headers ''In-Reply-To:'',
       references := GetHeaderValue top_headers ''References:''\<rparr>"

section \<open>Multipart bodies\<close>

definition skip_eol :: "string \<Rightarrow> nat \<Rightarrow> nat" where
  "skip_eol body p =
     (let p1 = (if p < length body \<and> body ! p = CR then p + 1 else p)
      in if p1 < length body \<and> body ! p1 = LF then p1 + 1 else p1)"

lemma skip_eol_ge: "p \<le> skip_eol body p"
  by (auto simp: skip_eol_def Let_def)

text \<open>The parts from the delimiter found at \<open>start_pos\<close> on.\<close>

function part_spans :: "string \<Rightarrow> string \<Rightarrow> nat \<Rightarrow> string list" where
  "part_spans body boundary start_pos =
     (let delimiter = ''--'' @ boundary; p = skip_eol body (start_pos + length delimiter)
      in if p + 1 < length body \<and> substr body p 2 = ''--'' then []
         else (case find_sub_from delimiter body p of
                 None \<Rightarrow> []
               | Some end_pos \<Rightarrow> substr body p (end_pos - p) # part_spans body boundary end_pos))"
  by pat_completeness auto
termination
proof (relation "measure (\<lambda>(body, boundary, start_pos). Suc (length body) - start_pos)", goal_cases)
  case 1
  show ?case by simp
next
  case (2 body boundary start_pos delimiter p end_pos)
  then have "p \<le> end_pos" "end_pos \<le> length body"
    by (auto dest: find_sub_from_SomeD)
  moreover have "start_pos + length delimiter \<le> p" using 2 skip_eol_ge by simp
  ultimately show ?case using 2 by auto
qed

declare part_spans.simps [simp del]

definition multipart_parts :: "string \<Rightarrow> string \<Rightarrow> string list" where
  "multipart_parts body boundary =
     (case find_sub (''--'' @ boundary) body of
        None \<Rightarrow> []
      | Some start_pos \<Rightarrow> part_spans body boundary start_pos)"

lemma part_spans_shorter:
  "q \<in> set (part_spans body boundary start_pos) \<Longrightarrow> length q < length body"
proof (induction body boundary start_pos rule: part_spans.induct)
  case (1 body boundary start_pos)
  let ?d = "''--'' @ boundary"
  let ?p = "skip_eol body (start_pos + length ?d)"
  note unf = part_spans.simps [of body boundary start_pos, unfolded Let_def]
  have stop: "\<not> (?p + 1 < length body \<and> substr body ?p 2 = ''--'')"
  proof
    assume "?p + 1 < length body \<and> substr body ?p 2 = ''--''"
    then have "part_spans body boundary start_pos = []" unfolding unf by (rule if_P)
    with "1.prems" show False by simp
  qed
  have spans: "part_spans body boundary start_pos =
      (case find_sub_from ?d body ?p of None \<Rightarrow> []
       | Some e \<Rightarrow> substr body ?p (e - ?p) # part_spans body boundary e)"
    unfolding unf using stop by (rule if_not_P)
  show ?case
  proof (cases "find_sub_from ?d body ?p")
    case None
    with "1.prems" show ?thesis unfolding spans None option.case by simp
  next
    case (Some e)
    then have "q = substr body ?p (e - ?p) \<or> q \<in> set (part_spans body boundary e)"
      using "1.prems" unfolding spans Some option.case by simp
    then show ?thesis
    proof
      assume q: "q = substr body ?p (e - ?p)"
      have "2 \<le> ?p" using skip_eol_ge [of "start_pos + length ?d" body] by simp
      moreover have "e + length ?d \<le> length body" using find_sub_from_SomeD [OF Some] by simp
      ultimately show ?thesis using q by (simp add: substr_def)
    next
      assume "q \<in> set (part_spans body boundary e)"
      then show ?thesis using "1.IH" [OF refl refl stop Some] by simp
    qed
  qed
qed

lemma multipart_parts_shorter: "q \<in> set (multipart_parts body boundary) \<Longrightarrow> length q < length body"
  by (auto simp: multipart_parts_def split: option.splits dest: part_spans_shorter)

lemma SplitHeadersAndBody_le:
  "SplitHeadersAndBody raw = (h, b) \<Longrightarrow> length b \<le> length raw"
  by (auto simp: SplitHeadersAndBody_def split: option.splits)

definition remove_breaks :: "string \<Rightarrow> string" where
  "remove_breaks s = filter (\<lambda>c. c \<noteq> CR \<and> c \<noteq> LF) s"

definition decode_or_raw :: "string \<Rightarrow> string" where
  "decode_or_raw s = (case DecodeBase64 s of Inl e \<Rightarrow> s | Inr bytes \<Rightarrow> map char_of_byte bytes)"

text \<open>The body after the quoted-printable step that \<^verbatim>\<open>ProcessMimePart\<close> makes first.\<close>

definition qp_body :: "string \<Rightarrow> string \<Rightarrow> string" where
  "qp_body encoding body =
     (if contains_sub encoding ''quoted-printable'' then DecodeQuotedPrintable body else body)"

lemma qp_body_le: "length (qp_body encoding body) \<le> length body"
  by (simp add: qp_body_def length_DecodeQuotedPrintable)

text \<open>What \<^verbatim>\<open>ProcessMimePart\<close> does with a part that is not a nested multipart.\<close>

definition process_leaf ::
  "string \<Rightarrow> string \<Rightarrow> string \<Rightarrow> string \<Rightarrow> string \<Rightarrow> email \<Rightarrow> email" where
  "process_leaf part_headers part_body content_type disposition encoding m =
     (let is_b64 = contains_sub encoding ''base64'';
          body = (if is_b64 then remove_breaks part_body else part_body)
      in
      if contains_sub disposition ''attachment'' \<or> contains_sub content_type ''name=''
         \<or> contains_sub disposition ''filename='' then
        (let pure_mime = (case find_char content_type (CHR '';'') of
                            Some semi \<Rightarrow> take semi content_type | None \<Rightarrow> content_type)
         in m\<lparr>attachments := attachments m @ [make_attachment (ExtractFileName part_headers) pure_mime body]\<rparr>)
      else if contains_sub content_type ''text/plain'' then
        (let cs = ExtractCharset (GetHeaderValue part_headers ''Content-Type:'')
         in m\<lparr>plain_text_encoding := (if encoding = [] then ''7bit'' else encoding),
              charset := (if cs \<noteq> [] then cs else charset m),
              plain_text := (if is_b64 then decode_or_raw body else body)\<rparr>)
      else if contains_sub content_type ''text/html'' then
        m\<lparr>html_text_encoding := (if encoding = [] then ''7bit'' else encoding),
          html_text := (if is_b64 then decode_or_raw body else body)\<rparr>
      else m)"

function ProcessMimePart :: "string \<Rightarrow> email \<Rightarrow> email" where
  "ProcessMimePart part_raw m =
     (let part_headers = fst (SplitHeadersAndBody part_raw);
          content_type = ToLower (GetHeaderValue part_headers ''Content-Type:'');
          disposition = ToLower (GetHeaderValue part_headers ''Content-Disposition:'');
          encoding = ToLower (GetHeaderValue part_headers ''Content-Transfer-Encoding:'');
          part_body = qp_body encoding (snd (SplitHeadersAndBody part_raw))
      in
      if contains_sub content_type ''multipart'' then
        (let nested_boundary = ExtractBoundary (GetHeaderValue part_headers ''Content-Type:'')
         in if nested_boundary \<noteq> [] then
              fold ProcessMimePart (multipart_parts part_body nested_boundary)
                (if contains_sub content_type ''multipart/alternative''
                 then m\<lparr>boundary_alternative := nested_boundary\<rparr> else m)
            else m)
      else process_leaf part_headers part_body content_type disposition encoding m)"
  by pat_completeness auto
termination
proof (relation "measure (\<lambda>(part_raw, m). length part_raw)", goal_cases)
  case 1
  show ?case by simp
next
  case (2 part_raw m part_headers content_type disposition encoding part_body nested_boundary part m')
  then have "length part < length part_body" by (auto dest: multipart_parts_shorter)
  also have "\<dots> \<le> length (snd (SplitHeadersAndBody part_raw))" using 2 qp_body_le by simp
  also have "\<dots> \<le> length part_raw"
    by (rule SplitHeadersAndBody_le [of _ "fst (SplitHeadersAndBody part_raw)"]) simp
  finally show ?case by simp
qed

declare ProcessMimePart.simps [simp del]

definition ParseMultipartBody :: "string \<Rightarrow> string \<Rightarrow> email \<Rightarrow> email" where
  "ParseMultipartBody body boundary m = fold ProcessMimePart (multipart_parts body boundary) m"

text \<open>\<^verbatim>\<open>ParseEmail\<close>: the returned flag and the filled-in email.\<close>

definition ParseEmail :: "string \<Rightarrow> email \<Rightarrow> bool \<times> email" where
  "ParseEmail raw_mime out_email =
     (if raw_mime = [] then (False, out_email)
      else
        (let top_headers = fst (SplitHeadersAndBody raw_mime);
             body = snd (SplitHeadersAndBody raw_mime);
             m = ParseMainHeaders top_headers out_email;
             content_type = GetHeaderValue top_headers ''Content-Type:'';
             ct_lower = ToLower content_type
         in
         if contains_sub ct_lower ''multipart'' then
           (let boundary = ExtractBoundary content_type in
            if boundary = [] then (False, m\<lparr>plain_text := body\<rparr>)
            else
              (let m1 = (if contains_sub ct_lower ''multipart/mixed'' then m\<lparr>boundary_mixed := boundary\<rparr>
                         else if contains_sub ct_lower ''multipart/alternative''
                         then m\<lparr>boundary_alternative := boundary\<rparr> else m)
               in (True, ParseMultipartBody body boundary m1)))
         else
           (let encoding = ToLower (GetHeaderValue top_headers ''Content-Transfer-Encoding:'');
                cs = ExtractCharset content_type;
                m1 = m\<lparr>plain_text_encoding := (if encoding = [] then ''7bit'' else encoding),
                       charset := (if cs \<noteq> [] then cs else charset m)\<rparr>
            in (True,
                m1\<lparr>plain_text :=
                  (if contains_sub encoding ''quoted-printable'' then DecodeQuotedPrintable body
                   else if contains_sub encoding ''base64'' then decode_or_raw body
                   else body)\<rparr>))))"

section \<open>The tree of parts\<close>

definition type_of_content :: "string \<Rightarrow> string \<times> string" where
  "type_of_content ct_lower =
     (let ct = Trim (case find_char ct_lower (CHR '';'') of
                       Some semi \<Rightarrow> take semi ct_lower | None \<Rightarrow> ct_lower)
      in case find_char ct (CHR ''/'') of
           Some slash \<Rightarrow> (take slash ct, drop (slash + 1) ct)
         | None \<Rightarrow> (if ct = [] then ''text'' else ct, if ct = [] then ''plain'' else []))"

definition leaf_part :: "string \<Rightarrow> string \<Rightarrow> string \<times> string \<Rightarrow> string \<Rightarrow> mime_part" where
  "leaf_part headers body ty content_type =
     (let enc = ToLower (GetHeaderValue headers ''Content-Transfer-Encoding:'');
          fname = ExtractFileName headers
      in MimePart (fst ty) (snd ty) (ExtractCharset content_type) (if enc = [] then ''7bit'' else enc)
           (if fname = ''unnamed_file'' then [] else fname) (length body)
           (length (filter (\<lambda>c. c = LF) body)) [] [])"

function ParsePartStructure :: "string \<Rightarrow> mime_part" where
  "ParsePartStructure raw_part =
     (let headers = fst (SplitHeadersAndBody raw_part); body = snd (SplitHeadersAndBody raw_part);
          content_type = GetHeaderValue headers ''Content-Type:'';
          ty = type_of_content (ToLower content_type)
      in
      if fst ty = ''multipart'' then
        (let b = ExtractBoundary content_type in
         MimePart (fst ty) (snd ty) [] [] [] 0 0 b
           (if b = [] then [] else map ParsePartStructure (multipart_parts body b)))
      else leaf_part headers body ty content_type)"
  by pat_completeness auto
termination
proof (relation "measure length", goal_cases)
  case 1
  show ?case by simp
next
  case (2 raw_part headers body content_type ty b part)
  then have "length part < length body" by (auto dest: multipart_parts_shorter)
  also have "\<dots> \<le> length raw_part"
    using 2 SplitHeadersAndBody_le [of raw_part "fst (SplitHeadersAndBody raw_part)"] by simp
  finally show ?case by simp
qed

declare ParsePartStructure.simps [simp del]

definition ParseStructure :: "string \<Rightarrow> mime_part option" where
  "ParseStructure raw_mime = (if raw_mime = [] then None else Some (ParsePartStructure raw_mime))"

end
