(* ===== verification/Mime_Builder.thy ===== *)
theory Mime_Builder
  imports Mime_Parser
begin

text \<open>
  \<^verbatim>\<open>mime/src/MimeBuilder.cpp\<close> and \<^verbatim>\<open>mime/src/MimeComposer.cpp\<close>: from an \<^verbatim>\<open>Email\<close> to the text of a
  message, and the replies and forwards that the client composes. The clock, the random digits
  and the configuration are the fields of \<open>mime_env\<close>. A result is \<open>None\<close> when the header encoder
  does not end, \<open>Inl\<close> when the base64 encoder throws.
\<close>

record mime_env =
  me_date :: string
  me_millis :: nat
  me_id_digits :: string
  me_mixed_digits :: string
  me_alternative_digits :: string
  me_chunk :: nat
  me_domain :: string

type_synonym 'a mime_result = "'a outcome option"

definition and_then :: "'a mime_result \<Rightarrow> ('a \<Rightarrow> 'b mime_result) \<Rightarrow> 'b mime_result" where
  "and_then r f = (case r of None \<Rightarrow> None | Some (Inl e) \<Rightarrow> Some (Inl e) | Some (Inr x) \<Rightarrow> f x)"

lemma and_then_simps [simp]:
  "and_then (Some (Inr x)) f = f x" "and_then (Some (Inl e)) f = Some (Inl e)" "and_then None f = None"
  by (simp_all add: and_then_def)

section \<open>MimeBuilder\<close>

fun JoinAddresses :: "string list \<Rightarrow> string" where
  "JoinAddresses [] = []"
| "JoinAddresses [a] = a"
| "JoinAddresses (a # b # as) = a @ '', '' @ JoinAddresses (b # as)"

definition GenerateBoundary :: "string \<Rightarrow> string" where
  "GenerateBoundary digits = ''----=_Part_'' @ digits"

definition GenerateMessageId :: "mime_env \<Rightarrow> string \<Rightarrow> string" where
  "GenerateMessageId env from =
     (let domain = (case find_char from (CHR ''@'') of None \<Rightarrow> me_domain env | Some at_pos \<Rightarrow> drop (at_pos + 1) from);
          domain' = (case find_char domain (CHR ''>'') of None \<Rightarrow> domain | Some angle_end \<Rightarrow> take angle_end domain)
      in ''<'' @ nat_to_string (me_millis env) @ ''.'' @ me_id_digits env @ ''@'' @ domain' @ ''>'')"

definition has_at :: "string \<Rightarrow> bool" where
  "has_at address \<longleftrightarrow> find_char (Trim address) (CHR ''@'') \<noteq> None"

definition ValidateEmail :: "email \<Rightarrow> bool" where
  "ValidateEmail m =
     (if Trim (sender m) = [] then False
      else if to_addrs m = [] then False
      else if Trim (plain_text m) = [] \<and> html_text m = [] then False
      else if \<not> has_at (sender m) then False
      else list_all has_at (to_addrs m))"

definition AppendMainHeaders :: "mime_env \<Rightarrow> email \<Rightarrow> string mime_result" where
  "AppendMainHeaders env m =
     and_then
       (if subject m \<noteq> []
        then and_then (EncodeHeader (subject m) (CRLF @ [TAB]) (me_chunk env)) (\<lambda>s. Some (Inr (''Subject: '' @ s @ CRLF)))
        else Some (Inr []))
       (\<lambda>subject_line. Some (Inr (
          ''MIME-Version: 1.0'' @ CRLF @ ''Date: '' @ me_date env @ CRLF @ subject_line @
          ''From: '' @ sender m @ CRLF @ ''To: '' @ JoinAddresses (to_addrs m) @ CRLF @
          (if cc_addrs m \<noteq> [] then ''Cc: '' @ JoinAddresses (cc_addrs m) @ CRLF else []) @
          ''Message-ID: '' @ (if message_id m = [] then GenerateMessageId env (sender m) else message_id m) @ CRLF @
          (if in_reply_to m \<noteq> [] then ''In-Reply-To: '' @ in_reply_to m @ CRLF else []) @
          (if references m \<noteq> [] then ''References: '' @ references m @ CRLF else []))))"

definition AppendTextPart :: "string \<Rightarrow> string \<Rightarrow> string" where
  "AppendTextPart body boundary =
     ''--'' @ boundary @ CRLF @ ''Content-Type: text/plain; charset='' @ [DQUOTE] @ ''utf-8'' @ [DQUOTE] @ CRLF @
     ''Content-Transfer-Encoding: 8bit'' @ CRLF @ CRLF @ WrapText body 998 @ CRLF"

definition AppendHtmlPart :: "string \<Rightarrow> string \<Rightarrow> string mime_result" where
  "AppendHtmlPart html_body boundary =
     and_then (Some (ToBase64 html_body)) (\<lambda>encoded. Some (Inr (
       ''--'' @ boundary @ CRLF @ ''Content-Type: text/html; charset='' @ [DQUOTE] @ ''utf-8'' @ [DQUOTE] @ CRLF @
       ''Content-Transfer-Encoding: base64'' @ CRLF @ CRLF @ encoded @ CRLF)))"

definition AppendBodyContent :: "mime_env \<Rightarrow> email \<Rightarrow> string \<Rightarrow> string mime_result" where
  "AppendBodyContent env m boundary =
     (if HasHtml m then
        (let alt_boundary = GenerateBoundary (me_alternative_digits env) in
         and_then (AppendHtmlPart (html_text m) alt_boundary) (\<lambda>html. Some (Inr (
           (if HasAttachments m then ''--'' @ boundary @ CRLF else []) @
           ''Content-Type: multipart/alternative; boundary='' @ [DQUOTE] @ alt_boundary @ [DQUOTE] @ CRLF @ CRLF @
           AppendTextPart (plain_text m) alt_boundary @ html @ ''--'' @ alt_boundary @ ''--'' @ CRLF @
           (if HasAttachments m then CRLF else [])))))
      else if HasAttachments m then Some (Inr (AppendTextPart (plain_text m) boundary))
      else Some (Inr (
        ''Content-Type: text/plain; charset='' @ [DQUOTE] @ ''utf-8'' @ [DQUOTE] @ CRLF @
        ''Content-Transfer-Encoding: 8bit'' @ CRLF @ CRLF @ plain_text m @ CRLF)))"

definition mime_map :: "(string \<times> string) list" where
  "mime_map =
     [(''pdf'', ''application/pdf''), (''jpg'', ''image/jpeg''), (''jpeg'', ''image/jpeg''), (''png'', ''image/png''),
      (''gif'', ''image/gif''), (''txt'', ''text/plain''), (''html'', ''text/html''), (''htm'', ''text/html''),
      (''xml'', ''application/xml''), (''zip'', ''application/zip''), (''doc'', ''application/msword''),
      (''docx'', ''application/vnd.openxmlformats-officedocument.wordprocessingml.document''),
      (''xls'', ''application/vnd.ms-excel''),
      (''xlsx'', ''application/vnd.openxmlformats-officedocument.spreadsheetml.sheet''),
      (''ppt'', ''application/vnd.ms-powerpoint''),
      (''pptx'', ''application/vnd.openxmlformats-officedocument.presentationml.presentation''),
      (''json'', ''application/json''), (''csv'', ''text/csv'')]"

definition GetMimeType :: "string \<Rightarrow> string" where
  "GetMimeType name =
     (case find_last_idx (\<lambda>c. c = CHR ''.'') name of
        None \<Rightarrow> ''application/octet-stream''
      | Some dot_pos \<Rightarrow>
          (case map_of mime_map (ToLower (drop (dot_pos + 1) name)) of
             Some t \<Rightarrow> t
           | None \<Rightarrow> ''application/octet-stream''))"

fun AppendAttachments :: "mime_env \<Rightarrow> attachment list \<Rightarrow> string \<Rightarrow> string mime_result" where
  "AppendAttachments env [] boundary = Some (Inr [])"
| "AppendAttachments env (att # atts) boundary =
     and_then (EncodeHeader (file_name att) (CRLF @ [TAB]) (me_chunk env)) (\<lambda>encoded_name.
     and_then (AppendAttachments env atts boundary) (\<lambda>rest. Some (Inr (
       ''--'' @ boundary @ CRLF @
       ''Content-Type: '' @ (if mime_type att = [] then GetMimeType (file_name att) else mime_type att) @
         ''; name='' @ [DQUOTE] @ encoded_name @ [DQUOTE] @ CRLF @
       ''Content-Transfer-Encoding: base64'' @ CRLF @
       ''Content-Disposition: attachment; filename='' @ [DQUOTE] @ encoded_name @ [DQUOTE] @ CRLF @ CRLF @
       base64_data att @ CRLF @ rest))))"

text \<open>\<^verbatim>\<open>BuildEmail\<close>: the message, or \<open>None\<close> inside for the result false.\<close>

definition BuildEmail :: "mime_env \<Rightarrow> email \<Rightarrow> string option mime_result" where
  "BuildEmail env m =
     (if \<not> ValidateEmail m then Some (Inr None)
      else let mixed_boundary = GenerateBoundary (me_mixed_digits env) in
        and_then (AppendMainHeaders env m) (\<lambda>headers.
        and_then (AppendBodyContent env m mixed_boundary) (\<lambda>content.
          if HasAttachments m then
            and_then (AppendAttachments env (attachments m) mixed_boundary) (\<lambda>parts. Some (Inr (Some (
              headers @ ''Content-Type: multipart/mixed; boundary='' @ [DQUOTE] @ mixed_boundary @ [DQUOTE] @ CRLF @ CRLF @
              content @ parts @ ''--'' @ mixed_boundary @ ''--'' @ CRLF))))
          else Some (Inr (Some (headers @ content))))))"

section \<open>MimeComposer\<close>

definition CreateNew :: "string \<Rightarrow> string \<Rightarrow> string \<Rightarrow> string \<Rightarrow> email" where
  "CreateNew from to_addr subject_text body_text =
     new_email\<lparr>sender := from, to_addrs := [to_addr], subject := subject_text, plain_text := body_text\<rparr>"

definition StartsWithIgnoreCase :: "string \<Rightarrow> string \<Rightarrow> bool" where
  "StartsWithIgnoreCase str prefix \<longleftrightarrow>
     \<not> length str < length prefix \<and> ToLower (take (length prefix) str) = ToLower prefix"

definition BuildQuotedText :: "email \<Rightarrow> string" where
  "BuildQuotedText original =
     ''On '' @ date original @ '', '' @ sender original @ '' wrote:'' @ [LF] @
     concat (map (\<lambda>l. ''> '' @ l @ [LF]) (getlines LF (plain_text original)))"

definition BuildForwardHeader :: "email \<Rightarrow> string" where
  "BuildForwardHeader original =
     ''---------- Forwarded message ----------'' @ [LF] @ ''From: '' @ sender original @ [LF] @
     ''To: '' @ JoinAddresses (to_addrs original) @ [LF] @ ''Date: '' @ date original @ [LF] @
     ''Subject: '' @ subject original @ [LF] @ ''---------------------------------------'' @ [LF, LF]"

definition CreateReply :: "email \<Rightarrow> string \<Rightarrow> string \<Rightarrow> email" where
  "CreateReply original from reply_text =
     new_email\<lparr>sender := from, to_addrs := [sender original],
       subject := (if StartsWithIgnoreCase (subject original) ''re:'' then subject original else ''Re: '' @ subject original),
       in_reply_to := message_id original,
       references := (if references original = [] then message_id original else references original @ '' '' @ message_id original),
       plain_text := reply_text @ [LF, LF] @ BuildQuotedText original\<rparr>"

definition CreateForward :: "email \<Rightarrow> string \<Rightarrow> string \<Rightarrow> string \<Rightarrow> email" where
  "CreateForward original from to_addr comment_text =
     new_email\<lparr>sender := from, to_addrs := [to_addr],
       subject := (if StartsWithIgnoreCase (subject original) ''fwd:'' \<or> StartsWithIgnoreCase (subject original) ''fw:''
                   then subject original else ''Fwd: '' @ subject original),
       plain_text := comment_text @ [LF, LF] @ BuildForwardHeader original @ plain_text original,
       attachments := attachments original\<rparr>"

end
