(* ===== verification/Base64_Stream.thy ===== *)
theory Base64_Stream
  imports Base64_Codec
begin

text \<open>
  \<^verbatim>\<open>base64/\<close>, the streaming half: \<^verbatim>\<open>Base64StreamEncoder\<close>, \<^verbatim>\<open>Base64StreamDecoder\<close> and the
  \<^verbatim>\<open>AttachmentHandler\<close> built on them. An output stream is the list of what was written to it;
  a file system is an association list of paths and contents, with the outcome of opening a
  file for writing as a parameter.
\<close>

section \<open>Stream encoder\<close>

text \<open>\<open>m_left\<close> holds the \<^verbatim>\<open>m_left_size\<close> valid bytes of the array of the same name.\<close>

record stream_encoder =
  m_left :: "byte list"
  m_line_length :: nat
  m_total_encoded :: nat

definition new_stream_encoder :: stream_encoder where
  "new_stream_encoder = \<lparr>m_left = [], m_line_length = 0, m_total_encoded = 0\<rparr>"

text \<open>Characters written with the running line counter: a line break after every 76th.\<close>

fun put_chars :: "nat \<Rightarrow> string \<Rightarrow> string \<times> nat" where
  "put_chars n [] = ([], n)"
| "put_chars n (c # cs) =
     (if Suc n = 76 then (let (out, m) = put_chars 0 cs in (c # CR # LF # out, m))
      else (let (out, m) = put_chars (Suc n) cs in (c # out, m)))"

fun part_quad :: "byte list \<Rightarrow> string" where
  "part_quad [] = []"
| "part_quad [b0] = quad_chars False False (enc_block b0 0 0)"
| "part_quad [b0, b1] = quad_chars True False (enc_block b0 b1 0)"
| "part_quad (b0 # b1 # b2 # rest) = quad_chars True True (enc_block b0 b1 b2)"

definition EncodePart :: "stream_encoder \<Rightarrow> byte list \<Rightarrow> stream_encoder \<times> string" where
  "EncodePart e part =
     (let (out, n) = put_chars (m_line_length e) (part_quad part)
      in (e\<lparr>m_line_length := n\<rparr>, out))"

text \<open>The three loops of \<^verbatim>\<open>EncodeStream\<close>; their list argument is the input from index \<^verbatim>\<open>i\<close> on.\<close>

fun fill_left :: "byte list \<Rightarrow> byte list \<Rightarrow> byte list \<times> byte list" where
  "fill_left left [] = (left, [])"
| "fill_left left (d # data) =
     (if length left < 3 then
        (if 2 \<le> length left then (left, d # data) else fill_left (left @ [d]) data)
      else (left, d # data))"

fun encode_triples :: "stream_encoder \<Rightarrow> byte list \<Rightarrow> stream_encoder \<times> string \<times> byte list" where
  "encode_triples e (b0 # b1 # b2 # rest) =
     (let (e1, out1) = EncodePart e [b0, b1, b2]; (e2, out2, left_over) = encode_triples e1 rest
      in (e2, out1 @ out2, left_over))"
| "encode_triples e rest = (e, [], rest)"

fun save_left :: "byte list \<Rightarrow> byte list \<Rightarrow> byte list" where
  "save_left left [] = left"
| "save_left left (d # data) = (if length left < 3 then save_left (left @ [d]) data else left)"

definition EncodeStream :: "stream_encoder \<Rightarrow> byte list \<Rightarrow> (stream_encoder \<times> string) outcome" where
  "EncodeStream e data =
     (if MAX_FILE_SIZE < m_total_encoded e + length data
      then Inl (runtime_error ''File too large for Base64 encoding'')
      else
        (let e0 = e\<lparr>m_total_encoded := m_total_encoded e + length data\<rparr>;
             (left, rest) = (if 0 < length (m_left e0) then fill_left (m_left e0) data
                             else (m_left e0, data));
             (e1, out1) = (if 0 < length (m_left e0) \<and> length left = 3
                           then (let (e', out') = EncodePart e0 left in (e'\<lparr>m_left := []\<rparr>, out'))
                           else (e0\<lparr>m_left := left\<rparr>, []));
             (e2, out2, left_over) = encode_triples e1 rest
         in Inr (e2\<lparr>m_left := save_left (m_left e2) left_over\<rparr>, out1 @ out2)))"

definition EncFinalize :: "stream_encoder \<Rightarrow> stream_encoder \<times> string" where
  "EncFinalize e =
     (let (e1, out1) = (if 0 < length (m_left e)
                        then (let (e', out') = EncodePart e (m_left e) in (e'\<lparr>m_left := []\<rparr>, out'))
                        else (e, []))
      in (e1, out1 @ (if 0 < m_line_length e1 then CRLF else [])))"

text \<open>
  \<^verbatim>\<open>AttachmentHandler::EncodeFile\<close>: the file is read in pieces of \<^verbatim>\<open>BASE64_CHUNK_SIZE\<close> bytes, the
  last one shorter; \<open>None\<close> is a file that cannot be opened.
\<close>

definition BASE64_CHUNK_SIZE :: nat where
  "BASE64_CHUNK_SIZE = 3 * 1024"

function file_chunks :: "byte list \<Rightarrow> byte list list" where
  "file_chunks data =
     (if data = [] then []
      else take BASE64_CHUNK_SIZE data # file_chunks (drop BASE64_CHUNK_SIZE data))"
  by pat_completeness auto
termination
  by (relation "measure length") (auto simp: BASE64_CHUNK_SIZE_def)

declare file_chunks.simps [simp del]

fun encode_chunks :: "stream_encoder \<Rightarrow> byte list list \<Rightarrow> (stream_encoder \<times> string) outcome" where
  "encode_chunks e [] = Inr (e, [])"
| "encode_chunks e (chunk # chunks) =
     (case EncodeStream e chunk of
        Inl err \<Rightarrow> Inl err
      | Inr (e1, out1) \<Rightarrow>
          (case encode_chunks e1 chunks of
             Inl err \<Rightarrow> Inl err
           | Inr (e2, out2) \<Rightarrow> Inr (e2, out1 @ out2)))"

definition EncodeFile :: "byte list option \<Rightarrow> string outcome" where
  "EncodeFile file =
     (case file of
        None \<Rightarrow> Inl (runtime_error ''Cannot open file'')
      | Some data \<Rightarrow>
          (case encode_chunks new_stream_encoder (file_chunks data) of
             Inl err \<Rightarrow> Inl err
           | Inr (e, out) \<Rightarrow> Inr (out @ snd (EncFinalize e))))"

section \<open>Stream decoder\<close>

text \<open>
  \<^verbatim>\<open>DecodePart\<close>. Its range test on the last two values compares with \<open>- 2\<close>, the smallest
  table entry. The shift of a negative \<^verbatim>\<open>int\<close> is the two's complement one.
\<close>

definition stream_quad :: "char \<Rightarrow> char \<Rightarrow> char \<Rightarrow> char \<Rightarrow> byte list outcome" where
  "stream_quad c0 c1 c2 c3 =
     (if table_at c0 < 0 \<or> table_at c1 < 0 \<or> pad_value c2 < - 2 \<or> pad_value c3 < - 2
      then Inl (runtime_error ''Invalid Base64 character'')
      else Inr (quad_bytes c2 c3 (dec_block (table_at c0) (table_at c1) (pad_value c2) (pad_value c3))))"

text \<open>
  The decoder state is the \<^verbatim>\<open>m_buffer_size\<close> buffered characters. The result is the exception
  thrown, if any, the buffer and everything written so far, which an exception leaves written.
\<close>

fun DecodeStream :: "string \<Rightarrow> string \<Rightarrow> byte list \<Rightarrow> cpp_error option \<times> string \<times> byte list" where
  "DecodeStream buf [] out = (None, buf, out)"
| "DecodeStream buf (c # cs) out =
     (if is_trim_ws c then DecodeStream buf cs out
      else
        (case buf @ [c] of
           [c0, c1, c2, c3] \<Rightarrow>
             (case stream_quad c0 c1 c2 c3 of
                Inl err \<Rightarrow> (Some err, [c0, c1, c2, c3], out)
              | Inr bs \<Rightarrow> DecodeStream [] cs (out @ bs))
         | buf' \<Rightarrow> DecodeStream buf' cs out))"

text \<open>The branch \<^verbatim>\<open>m_buffer_size == 4\<close> of \<^verbatim>\<open>Finalize\<close> decodes a full buffer; other leftovers are an error.\<close>

definition DecFinalize :: "string \<Rightarrow> byte list \<Rightarrow> cpp_error option \<times> byte list" where
  "DecFinalize buf out =
     (case buf of
        [] \<Rightarrow> (None, out)
      | [c0, c1, c2, c3] \<Rightarrow>
          (case stream_quad c0 c1 c2 c3 of Inl err \<Rightarrow> (Some err, out) | Inr bs \<Rightarrow> (None, out @ bs))
      | _ \<Rightarrow> (Some (runtime_error ''Invalid Base64 stream''), out))"

fun decode_lines :: "string \<Rightarrow> string list \<Rightarrow> byte list \<Rightarrow> cpp_error option \<times> string \<times> byte list" where
  "decode_lines buf [] out = (None, buf, out)"
| "decode_lines buf (l # ls) out =
     (case DecodeStream buf l out of
        (Some err, buf', out') \<Rightarrow> (Some err, buf', out')
      | (None, buf', out') \<Rightarrow> decode_lines buf' ls out')"

section \<open>Attachments\<close>

record MIMEPart =
  part_filename :: string
  is_base64 :: bool
  body_lines :: "string list"

definition empty_part :: MIMEPart where
  "empty_part = \<lparr>part_filename = [], is_base64 = False, body_lines = []\<rparr>"

text \<open>
  \<^verbatim>\<open>std::regex_search\<close> with the pattern \<^verbatim>\<open>filename="([^"]+)"\<close>: the leftmost position where the
  literal is followed by a non-empty run of characters other than the quote and a quote.
\<close>

definition match_filename_here :: "string \<Rightarrow> string option" where
  "match_filename_here s =
     (let lit = ''filename='' @ [DQUOTE]; rest = drop (length lit) s;
          run = takeWhile (\<lambda>c. c \<noteq> DQUOTE) rest
      in if StartsWith s lit \<and> run \<noteq> [] \<and> length run < length rest then Some run else None)"

fun search_filename :: "string \<Rightarrow> string option" where
  "search_filename [] = None"
| "search_filename (c # cs) =
     (case match_filename_here (c # cs) of Some f \<Rightarrow> Some f | None \<Rightarrow> search_filename cs)"

definition header_line :: "string \<Rightarrow> MIMEPart \<Rightarrow> MIMEPart" where
  "header_line line current =
     (let c1 = (if contains_sub line ''Content-Transfer-Encoding:'' \<and> contains_sub line ''base64''
                then current\<lparr>is_base64 := True\<rparr> else current)
      in if contains_sub line ''Content-Disposition:''
         then (case search_filename line of Some f \<Rightarrow> c1\<lparr>part_filename := f\<rparr> | None \<Rightarrow> c1)
         else c1)"

fun parse_lines :: "string \<Rightarrow> string list \<Rightarrow> bool \<Rightarrow> MIMEPart \<Rightarrow> MIMEPart list" where
  "parse_lines boundary_line [] in_headers current = []"
| "parse_lines boundary_line (raw # lines) in_headers current =
     (let line = pop_back_if CR raw; end_boundary = boundary_line @ ''--'' in
      if line = boundary_line \<or> line = end_boundary then
        (if part_filename current \<noteq> [] \<or> is_base64 current then [current] else []) @
        (if line = end_boundary then [] else parse_lines boundary_line lines True empty_part)
      else if in_headers then
        (if line = [] then parse_lines boundary_line lines False current
         else parse_lines boundary_line lines True (header_line line current))
      else if is_base64 current then
        parse_lines boundary_line lines False (current\<lparr>body_lines := body_lines current @ [line]\<rparr>)
      else parse_lines boundary_line lines False current)"

definition ParseMIME :: "string \<Rightarrow> string \<Rightarrow> MIMEPart list" where
  "ParseMIME mime boundary = parse_lines (''--'' @ boundary) (getlines LF mime) True empty_part"

type_synonym file_system = "(string \<times> byte list) list"

definition fs_write :: "string \<Rightarrow> byte list \<Rightarrow> file_system \<Rightarrow> file_system" where
  "fs_write path content fs = (path, content) # filter (\<lambda>f. fst f \<noteq> path) fs"

text \<open>
  \<open>dk_create\<close>: whether the operating system opens the path for writing; \<open>dk_keep\<close>: what of the bytes
  written to the stream gets into the file, on a full disk not all. The code does not test the stream.
\<close>

record disk =
  dk_create :: "string \<Rightarrow> bool"
  dk_keep :: "string \<Rightarrow> byte list \<Rightarrow> byte list"

definition WriteToFile ::
  "disk \<Rightarrow> MIMEPart \<Rightarrow> file_system \<Rightarrow> cpp_error option \<times> file_system" where
  "WriteToFile disk part fs =
     (if \<not> dk_create disk (part_filename part)
      then (Some (runtime_error (''Cannot create output file: '' @ part_filename part)), fs)
      else
        (case decode_lines [] (body_lines part) [] of
           (Some err, buf, out) \<Rightarrow> (Some err, fs_write (part_filename part) (dk_keep disk (part_filename part) out) fs)
         | (None, buf, out) \<Rightarrow>
             (case DecFinalize buf out of
                (err, out') \<Rightarrow> (err, fs_write (part_filename part) (dk_keep disk (part_filename part) out') fs))))"

fun write_parts ::
  "disk \<Rightarrow> MIMEPart list \<Rightarrow> file_system \<Rightarrow> (cpp_error + string list) \<times> file_system" where
  "write_parts disk [] fs = (Inr [], fs)"
| "write_parts disk (part # parts) fs =
     (if \<not> is_base64 part \<or> part_filename part = [] then write_parts disk parts fs
      else
        (case WriteToFile disk part fs of
           (Some err, fs') \<Rightarrow> (Inl err, fs')
         | (None, fs') \<Rightarrow>
             (case write_parts disk parts fs' of
                (Inl err, fs'') \<Rightarrow> (Inl err, fs'')
              | (Inr names, fs'') \<Rightarrow> (Inr (part_filename part # names), fs''))))"

definition DecodeAllAttachments ::
  "disk \<Rightarrow> string \<Rightarrow> string \<Rightarrow> file_system \<Rightarrow> (cpp_error + string list) \<times> file_system" where
  "DecodeAllAttachments disk mime boundary fs = write_parts disk (ParseMIME mime boundary) fs"

definition DecodeFile ::
  "disk \<Rightarrow> string \<Rightarrow> string \<Rightarrow> file_system \<Rightarrow> (cpp_error + bool) \<times> file_system" where
  "DecodeFile disk mime boundary fs =
     (if mime = [] then (Inr False, fs)
      else (case write_parts disk (ParseMIME mime boundary) fs of
              (Inl err, fs') \<Rightarrow> (Inl err, fs')
            | (Inr names, fs') \<Rightarrow> (Inr True, fs')))"

section \<open>The encoder against the reference encoding\<close>

lemma put_chars_append:
  "put_chars n (xs @ ys) =
     (fst (put_chars n xs) @ fst (put_chars (snd (put_chars n xs)) ys),
      snd (put_chars (snd (put_chars n xs)) ys))"
  by (induction xs arbitrary: n) (simp_all add: case_prod_beta Let_def)

lemma length_three: "length (b0 # b1 # b2 # rest) = 3 + length rest"
  by simp

lemma triple_div: "3 * (length (b0 # b1 # b2 # rest) div 3) = 3 + 3 * (length rest div 3)"
  unfolding length_three by presburger

lemma triple_take_drop:
  "take (3 + k) (b0 # b1 # b2 # rest) = b0 # b1 # b2 # take k rest"
  "drop (3 + k) (b0 # b1 # b2 # rest) = drop k rest"
  by (simp_all add: take_Cons' drop_Cons')

lemma plain_quads_append:
  "length xs mod 3 = 0 \<Longrightarrow> plain_quads (xs @ ys) = plain_quads xs @ plain_quads ys"
proof (induction xs rule: plain_quads.induct)
  case (4 b0 b1 b2 rest)
  then have "length rest mod 3 = 0" unfolding length_three by simp
  with 4 show ?case by simp
qed auto

lemma part_quad_plain: "length part \<le> 3 \<Longrightarrow> part_quad part = plain_quads part"
  by (induction part rule: part_quad.induct) auto

text \<open>The triple loop writes the reference encoding of whole triples and leaves the remainder.\<close>

lemma encode_triples_eq:
  "encode_triples e data =
     (let n = 3 * (length data div 3); r = put_chars (m_line_length e) (plain_quads (take n data))
      in (e\<lparr>m_line_length := snd r\<rparr>, fst r, drop n data))"
proof (induction e data rule: encode_triples.induct)
  case (1 e b0 b1 b2 rest)
  define e1 where "e1 = fst (EncodePart e [b0, b1, b2])"
  have IH: "encode_triples e1 rest =
     (let n = 3 * (length rest div 3); r = put_chars (m_line_length e1) (plain_quads (take n rest))
      in (e1\<lparr>m_line_length := snd r\<rparr>, fst r, drop n rest))"
    using "1.IH" [OF refl, of e1 "snd (EncodePart e [b0, b1, b2])"] by (simp add: e1_def)
  show ?case
    unfolding triple_div triple_take_drop Let_def encode_triples.simps case_prod_beta
    using IH by (simp add: e1_def EncodePart_def put_chars_append Let_def case_prod_beta)
qed auto

lemma save_left_short: "length left + length data \<le> 3 \<Longrightarrow> save_left left data = left @ data"
  by (induction data arbitrary: left) auto

text \<open>What one call does when nothing is left over from the call before.\<close>

definition feed :: "stream_encoder \<Rightarrow> byte list \<Rightarrow> stream_encoder \<times> string" where
  "feed e data =
     (let n = 3 * (length data div 3); r = put_chars (m_line_length e) (plain_quads (take n data))
      in (e\<lparr>m_left := drop n data, m_line_length := snd r,
            m_total_encoded := m_total_encoded e + length data\<rparr>, fst r))"

lemma EncodeStream_from_empty:
  assumes "m_left e = []" and "m_total_encoded e + length data \<le> MAX_FILE_SIZE"
  shows "EncodeStream e data = Inr (feed e data)"
proof -
  have "length data - 3 * (length data div 3) \<le> 3" by simp
  then have "save_left [] (drop (3 * (length data div 3)) data) = drop (3 * (length data div 3)) data"
    by (subst save_left_short) auto
  with assms show ?thesis
    by (simp add: EncodeStream_def encode_triples_eq feed_def Let_def)
qed

text \<open>
  The pieces of a file: all but the last have a length divisible by three, so between two
  pieces nothing is left over.
\<close>

lemma feed_append:
  assumes "length xs mod 3 = 0"
  shows "feed e (xs @ ys) =
    (fst (feed (fst (feed e xs)) ys), snd (feed e xs) @ snd (feed (fst (feed e xs)) ys))"
proof -
  let ?n = "3 * (length ys div 3)"
  obtain k where k: "length xs = 3 * k" using assms by (metis dvdE mod_eq_0_iff_dvd)
  have n: "3 * (length (xs @ ys) div 3) = length xs + ?n" by (simp add: k)
  have "plain_quads (xs @ take ?n ys) = plain_quads xs @ plain_quads (take ?n ys)"
    using assms by (rule plain_quads_append)
  then show ?thesis unfolding feed_def n Let_def
    by (simp add: put_chars_append k)
qed

lemma feed_left [simp]: "length xs mod 3 = 0 \<Longrightarrow> m_left (fst (feed e xs)) = []"
  by (auto simp: feed_def Let_def)

lemma feed_total [simp]: "m_total_encoded (fst (feed e xs)) = m_total_encoded e + length xs"
  by (simp add: feed_def Let_def)

lemma feed_Nil: "m_left e = [] \<Longrightarrow> feed e [] = (e, [])"
  by (simp add: feed_def)

lemma encode_chunks_eq:
  "m_left e = [] \<Longrightarrow> m_total_encoded e + length data \<le> MAX_FILE_SIZE \<Longrightarrow>
   encode_chunks e (file_chunks data) = Inr (feed e data)"
proof (induction data arbitrary: e rule: file_chunks.induct)
  case (1 data)
  let ?c = "take BASE64_CHUNK_SIZE data" and ?d = "drop BASE64_CHUNK_SIZE data"
  show ?case
  proof (cases "data = []")
    case True
    with "1.prems" show ?thesis by (simp add: file_chunks.simps feed_Nil)
  next
    case False
    have unf: "file_chunks data = ?c # file_chunks ?d" using False by (simp add: file_chunks.simps)
    have first: "EncodeStream e ?c = Inr (feed e ?c)"
      using "1.prems" by (intro EncodeStream_from_empty) auto
    show ?thesis
    proof (cases "?d = []")
      case True
      then have "?c = data" by simp
      with first True unf show ?thesis by (simp add: file_chunks.simps case_prod_beta)
    next
      case False
      then have "length ?c = BASE64_CHUNK_SIZE" by simp
      then have c3: "length ?c mod 3 = 0" by (simp add: BASE64_CHUNK_SIZE_def)
      have "encode_chunks (fst (feed e ?c)) (file_chunks ?d) = Inr (feed (fst (feed e ?c)) ?d)"
        using "1.prems" c3 \<open>data \<noteq> []\<close> by (intro "1.IH") auto
      with first unf feed_append [OF c3, of e ?d] show ?thesis by (simp add: case_prod_beta)
    qed
  qed
qed

lemma encode_chunks_too_large:
  "m_left e = [] \<Longrightarrow> m_total_encoded e \<le> MAX_FILE_SIZE \<Longrightarrow>
   MAX_FILE_SIZE < m_total_encoded e + length data \<Longrightarrow>
   encode_chunks e (file_chunks data) = Inl (runtime_error ''File too large for Base64 encoding'')"
proof (induction data arbitrary: e rule: file_chunks.induct)
  case (1 data)
  let ?c = "take BASE64_CHUNK_SIZE data" and ?d = "drop BASE64_CHUNK_SIZE data"
  have ne: "data \<noteq> []" using "1.prems" by auto
  then have unf: "file_chunks data = ?c # file_chunks ?d" by (simp add: file_chunks.simps)
  show ?case
  proof (cases "MAX_FILE_SIZE < m_total_encoded e + length ?c")
    case True
    then show ?thesis by (simp add: unf EncodeStream_def)
  next
    case False
    then have first: "EncodeStream e ?c = Inr (feed e ?c)"
      using "1.prems" by (intro EncodeStream_from_empty) auto
    have "?c \<noteq> data" using False "1.prems"(3) by metis
    then have "length ?c = BASE64_CHUNK_SIZE" by simp
    then have "length ?c mod 3 = 0" by (simp add: BASE64_CHUNK_SIZE_def)
    then have "encode_chunks (fst (feed e ?c)) (file_chunks ?d)
        = Inl (runtime_error ''File too large for Base64 encoding'')"
      using "1.prems" False ne by (intro "1.IH") auto
    with first unf show ?thesis by (simp add: case_prod_beta)
  qed
qed

lemma EncodeFile_eq:
  assumes "length data \<le> MAX_FILE_SIZE"
  shows "EncodeFile (Some data) =
    Inr (fst (put_chars 0 (plain_quads data)) @
         (if 0 < snd (put_chars 0 (plain_quads data)) then CRLF else []))"
proof -
  define n where "n = 3 * (length data div 3)"
  define x where "x = take n data"
  define y where "y = drop n data"
  have "length x mod 3 = 0" by (simp add: x_def n_def)
  moreover have data: "data = x @ y" by (simp add: x_def y_def)
  ultimately have pq: "plain_quads data = plain_quads x @ plain_quads y"
    by (simp only: plain_quads_append)
  have "length y \<le> 3" by (simp add: y_def n_def)
  then have last: "part_quad y = plain_quads y" by (rule part_quad_plain)
  have "encode_chunks new_stream_encoder (file_chunks data) = Inr (feed new_stream_encoder data)"
    using assms by (intro encode_chunks_eq) (auto simp: new_stream_encoder_def)
  moreover have "feed new_stream_encoder data =
      (\<lparr>m_left = y, m_line_length = snd (put_chars 0 (plain_quads x)), m_total_encoded = length data\<rparr>,
       fst (put_chars 0 (plain_quads x)))"
    by (simp add: feed_def new_stream_encoder_def Let_def x_def y_def n_def)
  ultimately have whole: "EncodeFile (Some data) = Inr (fst (put_chars 0 (plain_quads x)) @
      snd (EncFinalize \<lparr>m_left = y, m_line_length = snd (put_chars 0 (plain_quads x)),
                        m_total_encoded = length data\<rparr>))"
    by (simp only: EncodeFile_def option.case sum.case prod.case)
  show ?thesis
    unfolding whole pq put_chars_append
    by (cases "y = []") (simp_all add: EncFinalize_def EncodePart_def last case_prod_beta Let_def)
qed

lemma put_chars_filter:
  "\<forall>c \<in> set s. is_valid_base64 c \<Longrightarrow>
   filter (\<lambda>c. \<not> is_trim_ws c) (fst (put_chars n s)) = s"
  by (induction s arbitrary: n) (auto simp: case_prod_beta Let_def is_trim_ws_def dest: valid_not_break)

lemma put_chars_lines:
  "\<forall>c \<in> set s. is_valid_base64 c \<Longrightarrow> n < 76 \<Longrightarrow> length acc = n \<Longrightarrow>
   \<forall>l \<in> set (getlines_acc LF acc (fst (put_chars n s) @ (if 0 < snd (put_chars n s) then CRLF else []))).
     length (pop_back_if CR l) \<le> 76"
proof (induction s arbitrary: n acc)
  case Nil
  then show ?case by (auto simp: pop_back_if_def)
next
  case (Cons c cs)
  then have c: "c \<noteq> LF" "\<forall>c \<in> set cs. is_valid_base64 c" by (auto dest: valid_not_break)
  show ?case
  proof (cases "Suc n = 76")
    case True
    with Cons.prems c Cons.IH [of 0 "[]"] show ?thesis
      by (auto simp: case_prod_beta Let_def pop_back_if_def)
  next
    case False
    with Cons.prems c Cons.IH [of "Suc n" "c # acc"] show ?thesis
      by (auto simp: case_prod_beta Let_def)
  qed
qed

section \<open>The decoder\<close>

interpretation stream: quad_decoder stream_quad
  by unfold_locales (auto simp: stream_quad_def quad_simps not_less intro: order_trans [OF _ uint_ge_0])

lemma DecodeStream_filter:
  "DecodeStream buf s out = DecodeStream buf (filter (\<lambda>c. \<not> is_trim_ws c) s) out"
  by (induction s arbitrary: buf out) (simp_all split: list.split sum.split)

lemma DecodeStream_append:
  "DecodeStream buf (xs @ ys) out =
     (case DecodeStream buf xs out of
        (Some err, buf', out') \<Rightarrow> (Some err, buf', out')
      | (None, buf', out') \<Rightarrow> DecodeStream buf' ys out')"
  by (induction xs arbitrary: buf out) (auto split: list.split sum.split)

lemma decode_lines_concat: "decode_lines buf ls out = DecodeStream buf (concat ls) out"
  by (induction ls arbitrary: buf out) (auto simp: DecodeStream_append split: prod.splits option.splits)

lemma DecodeStream_quads:
  "\<forall>c \<in> set s. \<not> is_trim_ws c \<Longrightarrow> length s mod 4 = 0 \<Longrightarrow> decode_quads stream_quad s = Inr bs \<Longrightarrow>
   DecodeStream [] s out = (None, [], out @ bs)"
proof (induction stream_quad s arbitrary: bs out rule: decode_quads.induct)
  case (1 c0 c1 c2 c3 rest)
  from "1.prems"(3) obtain b more where b: "stream_quad c0 c1 c2 c3 = Inr b"
    and more: "decode_quads stream_quad rest = Inr more" and bs: "bs = b @ more"
    by (auto split: sum.splits simp: map_sum_def)
  have "length rest mod 4 = 0" using "1.prems"(2) by (simp add: mod_Suc split: if_splits)
  with "1.hyps" [OF b _ this more] "1.prems"(1) have "DecodeStream [] rest (out @ b) = (None, [], (out @ b) @ more)"
    by simp
  with b bs "1.prems"(1) show ?case by auto
qed auto

lemma DecodeStream_reference:
  assumes "filter (\<lambda>c. \<not> is_trim_ws c) s = plain_quads data"
  shows "DecodeStream [] s [] = (None, [], data)"
proof -
  have "DecodeStream [] s [] = DecodeStream [] (plain_quads data) []"
    using DecodeStream_filter [of "[]" s "[]"] assms by simp
  also have "\<dots> = (None, [], [] @ data)"
  proof (rule DecodeStream_quads)
    show "\<forall>c \<in> set (plain_quads data). \<not> is_trim_ws c"
      using plain_quads_valid by (auto simp: is_trim_ws_def dest: valid_not_break)
  qed (simp_all add: length_plain_quads stream.decode_plain)
  finally show ?thesis by simp
qed

section \<open>Properties\<close>

text \<open>The definitions a concrete run of the encoder unfolds.\<close>

lemmas stream_eval = EncodeStream_def EncFinalize_def EncodePart_def new_stream_encoder_def
  MAX_FILE_SIZE_def quad_chars_def sextet_char_def enc_block_def alphabet_def

text \<open>
  \<^verbatim>\<open>AttachmentHandler::EncodeFile\<close>, on every file: up to 15 MiB the result is the reference
  encoding of the whole file broken into lines of at most 76 characters, although the file
  is encoded piece by piece; above it the encoder throws.
\<close>

lemma encode_file_correct:
  "(length data \<le> MAX_FILE_SIZE \<and>
      (\<exists>out. EncodeFile (Some data) = Inr out \<and>
             filter (\<lambda>c. \<not> is_trim_ws c) out = plain_quads data \<and>
             list_all (\<lambda>l. length (pop_back_if CR l) \<le> 76) (getlines LF out))) \<or>
   (MAX_FILE_SIZE < length data \<and>
      EncodeFile (Some data) = Inl (runtime_error ''File too large for Base64 encoding''))"
proof (cases "length data \<le> MAX_FILE_SIZE")
  case True
  let ?r = "put_chars 0 (plain_quads data)"
  let ?out = "fst ?r @ (if 0 < snd ?r then CRLF else [])"
  have "filter (\<lambda>c. \<not> is_trim_ws c) ?out = plain_quads data"
    using put_chars_filter [OF plain_quads_valid] by simp
  moreover have "list_all (\<lambda>l. length (pop_back_if CR l) \<le> 76) (getlines LF ?out)"
    using put_chars_lines [OF plain_quads_valid, of 0 "[]" data]
    by (simp only: getlines_def list_all_iff) simp
  ultimately show ?thesis using True EncodeFile_eq [OF True] by blast
next
  case False
  then show ?thesis
    using encode_chunks_too_large [of new_stream_encoder data]
    by (simp add: EncodeFile_def new_stream_encoder_def)
qed

text \<open>The lines of an encoded file, split at line feeds, decode to the bytes of the file.\<close>

lemma encoded_quads:
  assumes "EncodeFile (Some data) = Inr encoded"
  shows "encoded = fst (put_chars 0 (plain_quads data)) @ (if 0 < snd (put_chars 0 (plain_quads data)) then CRLF else [])"
proof -
  have "length data \<le> MAX_FILE_SIZE"
    using assms encode_chunks_too_large [of new_stream_encoder data]
    by (cases "length data \<le> MAX_FILE_SIZE") (auto simp: EncodeFile_def new_stream_encoder_def)
  then show ?thesis using assms EncodeFile_eq [of data] by simp
qed

lemma quads_decoded:
  assumes "concat lines = plain_quads data"
  shows "decode_lines [] lines [] = (None, [], data)"
proof -
  have "filter (\<lambda>c. \<not> is_trim_ws c) (concat lines) = plain_quads data"
    unfolding assms using plain_quads_valid by (auto simp: filter_id_conv is_trim_ws_def dest: valid_not_break)
  from DecodeStream_reference [OF this] show ?thesis by (simp add: decode_lines_concat)
qed

text \<open>
  A flaw of \<^verbatim>\<open>Base64StreamEncoder::EncodeStream\<close> that \<^verbatim>\<open>EncodeFile\<close> never meets: the loop that
  tops up the bytes left over from the previous call stops at two of them, so when a call
  ends off a multiple of three the next call writes its triples before those bytes. Fed the
  five bytes of \<^verbatim>\<open>Hello\<close> as two and three, the encoder writes the bytes 3 to 5 first.
\<close>

lemma encode_stream_reorders:
  "\<exists>e1 out1 e2 out2. EncodeStream new_stream_encoder [72, 101] = Inr (e1, out1) \<and>
     EncodeStream e1 [108, 108, 111] = Inr (e2, out2) \<and>
     out1 @ out2 @ snd (EncFinalize e2) = plain_quads [108, 108, 111, 72, 101] @ CRLF \<and>
     plain_quads [108, 108, 111, 72, 101] \<noteq> plain_quads [72, 101, 108, 108, 111]"
proof -
  let ?e1 = "\<lparr>m_left = [72, 101], m_line_length = 0, m_total_encoded = 2\<rparr>"
  let ?e2 = "\<lparr>m_left = [72, 101], m_line_length = 4, m_total_encoded = 5\<rparr>"
  have "EncodeStream new_stream_encoder [72, 101] = Inr (?e1, [])"
    by (simp add: stream_eval)
  moreover have "EncodeStream ?e1 [108, 108, 111] = Inr (?e2, plain_quads [108, 108, 111])"
    by (simp add: stream_eval)
  moreover have "plain_quads [108, 108, 111] @ snd (EncFinalize ?e2) =
      plain_quads [108, 108, 111, 72, 101] @ CRLF"
    by (simp add: stream_eval)
  moreover have "plain_quads [108, 108, 111, 72, 101] \<noteq> plain_quads [72, 101, 108, 108, 111]"
    by (simp add: stream_eval)
  ultimately show ?thesis by simp
qed

text \<open>
  The stream decoder never rejects the third or the fourth character of a quad: its test
  compares with \<open>- 2\<close>, and no table entry is below it. So it throws exactly when one of the
  first two characters is not in the alphabet, where the strict decoder also rejects the
  others.
\<close>

lemma stream_decoder_rejects_first_two_only:
  "(\<exists>err. stream_quad c0 c1 c2 c3 = Inl err) \<longleftrightarrow> \<not> (c0 \<in> set alphabet \<and> c1 \<in> set alphabet)"
proof -
  have neg: "table_at c < 0 \<longleftrightarrow> c \<notin> set alphabet" for c
  proof (cases "c \<in> set alphabet")
    case True
    then obtain i where "i < 64" "c = alphabet ! i"
      using alphabet_length by (auto simp: in_set_conv_nth)
    with True show ?thesis by simp
  next
    case False
    then show ?thesis by (cases "c = CHR ''=''") (auto simp: table_at_pad table_at_other)
  qed
  have low: "\<not> pad_value c < - 2" for c
    using neg [of c] by (cases "c = CHR ''=''") (auto simp: pad_value_def table_at_other)
  show ?thesis by (auto simp: stream_quad_def neg low)
qed

end
