(* ===== verification/Attachment_Laws.thy ===== *)
theory Attachment_Laws
  imports Mime_Builder Base64_Stream
begin

text \<open>
  Attachments from file to file: what \<^verbatim>\<open>AttachmentHandler::EncodeFile\<close> makes of a file and
  \<^verbatim>\<open>MimeBuilder::AppendAttachments\<close> puts into a message, \<^verbatim>\<open>AttachmentHandler::DecodeAllAttachments\<close> writes back.
\<close>

section \<open>Texts as lines\<close>

definition crlf_lines :: "string list \<Rightarrow> string" where
  "crlf_lines ls = concat (map (\<lambda>l. l @ CRLF) ls)"

lemma crlf_lines_simps [simp]:
  "crlf_lines [] = []" "crlf_lines (l # ls) = l @ CRLF @ crlf_lines ls" "crlf_lines (ls @ ms) = crlf_lines ls @ crlf_lines ms"
  by (simp_all add: crlf_lines_def)

definition one_line :: "string \<Rightarrow> bool" where
  "one_line l \<longleftrightarrow> CR \<notin> set l \<and> LF \<notin> set l"

lemma getlines_crlf:
  "\<forall>l \<in> set ls. LF \<notin> set l \<Longrightarrow> getlines LF (crlf_lines ls @ rest) = map (\<lambda>l. l @ [CR]) ls @ getlines LF rest"
proof (induction ls)
  case (Cons l ls)
  have "getlines LF ((l @ [CR]) @ LF # (crlf_lines ls @ rest)) = (l @ [CR]) # getlines LF (crlf_lines ls @ rest)"
    unfolding getlines_def using Cons.prems by (subst getlines_acc_delim; simp)
  then show ?case using Cons by simp
qed simp

text \<open>An encoded file is a sequence of whole lines.\<close>

lemma put_chars_crlf:
  assumes "n = length acc" "n < 76"
  shows "\<exists>ls. acc @ fst (put_chars n s) @ (if 0 < snd (put_chars n s) then CRLF else []) = crlf_lines ls \<and> concat ls = acc @ s"
  using assms
proof (induction s arbitrary: n acc)
  case Nil
  show ?case
  proof (cases "acc = []")
    case True
    then show ?thesis using Nil by (intro exI [of _ "[]"]) simp
  next
    case False
    then show ?thesis using Nil by (intro exI [of _ "[acc]"]) simp
  qed
next
  case (Cons c s)
  show ?case
  proof (cases "Suc n = 76")
    case True
    obtain ls where "fst (put_chars 0 s) @ (if 0 < snd (put_chars 0 s) then CRLF else []) = crlf_lines ls" "concat ls = s"
      using Cons.IH [of 0 "[]"] by auto
    then show ?thesis using True by (intro exI [of _ "(acc @ [c]) # ls"]) (simp add: case_prod_beta)
  next
    case False
    then show ?thesis using Cons.IH [of "Suc n" "acc @ [c]"] Cons.prems by (simp add: case_prod_beta)
  qed
qed

lemma encoded_lines:
  assumes "EncodeFile (Some data) = Inr encoded"
  obtains ls where "encoded = crlf_lines ls" "concat ls = plain_quads data" "\<forall>l \<in> set ls. \<forall>c \<in> set l. is_valid_base64 c"
proof -
  obtain ls where ls: "encoded = crlf_lines ls" "concat ls = plain_quads data"
    using encoded_quads [OF assms] put_chars_crlf [of 0 "[]" "plain_quads data"] by auto
  have "\<forall>l \<in> set ls. \<forall>c \<in> set l. is_valid_base64 c"
    using plain_quads_valid [of data] unfolding ls(2) [symmetric] by auto
  with ls that show ?thesis by blast
qed

section \<open>One part\<close>

lemma parse_line_crlf [simp]: "pop_back_if CR (l @ [CR]) = l" "pop_back_if CR [CR] = []"
  by (simp_all add: pop_back_if_def)

definition boundary_of :: "string \<Rightarrow> string \<Rightarrow> bool" where
  "boundary_of bl l \<longleftrightarrow> l = bl \<or> l = bl @ ''--''"

lemma parse_body:
  "is_base64 cur \<Longrightarrow> \<forall>l \<in> set ls. \<not> boundary_of bl l \<Longrightarrow>
   parse_lines bl (map (\<lambda>l. l @ [CR]) ls @ rest) False cur = parse_lines bl rest False (cur\<lparr>body_lines := body_lines cur @ ls\<rparr>)"
  by (induction ls arbitrary: cur) (simp_all add: boundary_of_def Let_def)

text \<open>Lines that name no file may make a part of their own, which has no name.\<close>

lemma header_keeps_name:
  "\<not> contains_sub l ''Content-Disposition:'' \<Longrightarrow> part_filename (header_line l cur) = part_filename cur"
  by (simp add: header_line_def Let_def)

lemma parse_preamble:
  "\<forall>l \<in> set ls. \<not> boundary_of bl l \<and> \<not> contains_sub l ''Content-Disposition:'' \<Longrightarrow>
   \<exists>h' cur'. parse_lines bl (map (\<lambda>l. l @ [CR]) ls @ rest) h cur = parse_lines bl rest h' cur' \<and>
     part_filename cur' = part_filename cur"
proof (induction ls arbitrary: h cur)
  case (Cons l ls)
  have l: "\<not> (l = bl \<or> l = bl @ ''--'')" "\<not> contains_sub l ''Content-Disposition:''"
    using Cons.prems by (auto simp: boundary_of_def)
  let ?h = "h \<and> l \<noteq> []"
  let ?cur = "if h \<and> l \<noteq> [] then header_line l cur
    else if \<not> h \<and> is_base64 cur then cur\<lparr>body_lines := body_lines cur @ [l]\<rparr> else cur"
  have "parse_lines bl (map (\<lambda>l. l @ [CR]) (l # ls) @ rest) h cur = parse_lines bl (map (\<lambda>l. l @ [CR]) ls @ rest) ?h ?cur"
    using l(1) by (cases h; cases "l = []") (simp_all add: Let_def)
  moreover have "part_filename ?cur = part_filename cur" using header_keeps_name [OF l(2)] by simp
  ultimately show ?case using Cons.IH [of ?h ?cur] Cons.prems by auto
qed auto

text \<open>The header lines of an attachment.\<close>

definition part_headers :: "string \<Rightarrow> string \<Rightarrow> string list" where
  "part_headers type name =
     [''Content-Type: '' @ type @ ''; name='' @ [DQUOTE] @ name @ [DQUOTE], ''Content-Transfer-Encoding: base64'',
      ''Content-Disposition: attachment; filename='' @ [DQUOTE] @ name @ [DQUOTE]]"

lemma search_filename_skip:
  "\<not> StartsWith (c # cs) ''f'' \<Longrightarrow> search_filename (c # cs) = search_filename cs"
  by (simp add: match_filename_here_def StartsWith_def Let_def)

lemma disposition_name:
  assumes "name \<noteq> []" "DQUOTE \<notin> set name"
  shows "search_filename (''Content-Disposition: attachment; filename='' @ [DQUOTE] @ name @ [DQUOTE]) = Some name"
proof -
  have "takeWhile (\<lambda>c. c \<noteq> DQUOTE) (name @ [DQUOTE]) = name"
    using assms(2) by (subst takeWhile_append2) auto
  then have "match_filename_here (''filename='' @ [DQUOTE] @ name @ [DQUOTE]) = Some name"
    using assms(1) by (simp add: match_filename_here_def StartsWith_def Let_def)
  then have "search_filename (''filename='' @ [DQUOTE] @ name @ [DQUOTE]) = Some name" by simp
  then show ?thesis by (simp add: search_filename_skip StartsWith_def del: search_filename.simps)
qed

lemma headers_read:
  assumes "name \<noteq> []" "DQUOTE \<notin> set name"
  shows "fold header_line (part_headers type name) empty_part = \<lparr>part_filename = name, is_base64 = True, body_lines = []\<rparr>"
proof -
  let ?l = "part_headers type name"
  define cur where "cur = header_line (?l ! 0) empty_part"
  have "body_lines cur = []"
    by (simp add: cur_def header_line_def empty_part_def Let_def split: option.split)
  moreover have "header_line (?l ! 1) c = c\<lparr>is_base64 := True\<rparr>" for c
  proof -
    have "contains_sub (?l ! 1) ''Content-Transfer-Encoding:''" "contains_sub (?l ! 1) ''base64''"
      "\<not> contains_sub (?l ! 1) ''Content-Disposition:''"
      by (simp_all add: part_headers_def) code_simp+
    then show ?thesis by (simp add: header_line_def Let_def)
  qed
  moreover have "header_line (?l ! 2) c = c\<lparr>part_filename := name\<rparr>" if "is_base64 c" for c
  proof -
    have "contains_sub (?l ! 2) ''Content-Disposition:''"
      using contains_prefix [of "''Content-Disposition:''"] by (simp add: part_headers_def)
    moreover have "search_filename (?l ! 2) = Some name" using disposition_name [OF assms] by (simp add: part_headers_def)
    ultimately show ?thesis using that by (simp add: header_line_def Let_def)
  qed
  moreover have "fold header_line ?l empty_part = header_line (?l ! 2) (header_line (?l ! 1) cur)"
    by (simp add: part_headers_def cur_def)
  ultimately show ?thesis by simp
qed

text \<open>The lines of an attachment behind its boundary line.\<close>

definition part_lines :: "string \<Rightarrow> string \<Rightarrow> string list \<Rightarrow> string list" where
  "part_lines type name body = part_headers type name @ [] # body"

lemma part_headers_no_boundary: "h \<in> set (part_headers type name) \<Longrightarrow> h \<noteq> [] \<and> \<not> boundary_of (''--'' @ b) h"
  by (auto simp: part_headers_def boundary_of_def)

lemma parse_headers:
  "\<forall>h \<in> set hs. h \<noteq> [] \<and> \<not> boundary_of bl h \<Longrightarrow>
   parse_lines bl (map (\<lambda>l. l @ [CR]) hs @ rest) True cur = parse_lines bl rest True (fold header_line hs cur)"
  by (induction hs arbitrary: cur) (simp_all add: boundary_of_def Let_def)

lemma parse_part:
  assumes "name \<noteq> []" "DQUOTE \<notin> set name" "\<forall>l \<in> set body. \<not> boundary_of (''--'' @ b) l"
  shows "parse_lines (''--'' @ b) (map (\<lambda>l. l @ [CR]) (part_lines type name body) @ rest) True empty_part =
    parse_lines (''--'' @ b) rest False \<lparr>part_filename = name, is_base64 = True, body_lines = body\<rparr>"
proof -
  have "\<forall>h \<in> set (part_headers type name). h \<noteq> [] \<and> \<not> boundary_of (''--'' @ b) h" using part_headers_no_boundary by blast
  from parse_headers [OF this, of "map (\<lambda>l. l @ [CR]) ([] # body) @ rest" empty_part]
  show ?thesis
    using parse_body [of "\<lparr>part_filename = name, is_base64 = True, body_lines = []\<rparr>" body "''--'' @ b" rest] assms(3)
      headers_read [OF assms(1,2), of type]
    by (simp add: part_lines_def Let_def)
qed

section \<open>All attachments of a message\<close>

definition body_of :: "attachment \<Rightarrow> string list" where
  "body_of a = map (pop_back_if CR) (getlines LF (base64_data a)) @ [[]]"

definition type_of :: "attachment \<Rightarrow> string" where
  "type_of a = (if mime_type a = [] then GetMimeType (file_name a) else mime_type a)"

definition attachment_lines :: "string \<Rightarrow> attachment \<Rightarrow> string list" where
  "attachment_lines b a = (''--'' @ b) # part_lines (type_of a) (file_name a) (body_of a)"

definition decoded_part :: "attachment \<Rightarrow> MIMEPart" where
  "decoded_part a = \<lparr>part_filename = file_name a, is_base64 = True, body_lines = body_of a\<rparr>"

text \<open>
  The attachment of a file: its data are those of \<^verbatim>\<open>EncodeFile\<close>, its name is printable ASCII without
  a quote, its type is one line, and the disk takes the file.
\<close>

definition attached :: "disk \<Rightarrow> attachment \<Rightarrow> byte list \<Rightarrow> bool" where
  "attached disk a data \<longleftrightarrow>
     EncodeFile (Some data) = Inr (base64_data a) \<and> file_name a \<noteq> [] \<and> DQUOTE \<notin> set (file_name a) \<and>
     \<not> NeedsEncoding (file_name a) \<and> one_line (mime_type a) \<and>
     dk_create disk (file_name a) \<and> dk_keep disk (file_name a) data = data"

lemma body_of_encoded:
  assumes "EncodeFile (Some data) = Inr (base64_data a)"
  shows "base64_data a @ CRLF = crlf_lines (body_of a)" "concat (body_of a) = plain_quads data"
    "\<forall>l \<in> set (body_of a). \<forall>c \<in> set l. is_valid_base64 c"
proof -
  obtain ls where ls: "base64_data a = crlf_lines ls" "concat ls = plain_quads data" "\<forall>l \<in> set ls. \<forall>c \<in> set l. is_valid_base64 c"
    using encoded_lines [OF assms] by blast
  have "\<forall>l \<in> set ls. LF \<notin> set l" using ls(3) valid_not_break by blast
  from getlines_crlf [OF this, of "[]"] have "body_of a = ls @ [[]]"
    unfolding body_of_def ls(1) by (simp add: comp_def getlines_def)
  then show "base64_data a @ CRLF = crlf_lines (body_of a)" "concat (body_of a) = plain_quads data"
      "\<forall>l \<in> set (body_of a). \<forall>c \<in> set l. is_valid_base64 c"
    using ls by simp_all
qed

lemma body_no_boundary:
  assumes "\<forall>c \<in> set l. is_valid_base64 c"
  shows "\<not> boundary_of (''--'' @ b) l"
proof -
  have "\<not> is_valid_base64 (CHR ''-'')" by code_simp
  then show ?thesis using assms by (auto simp: boundary_of_def)
qed

lemma printable_one_line: "\<not> NeedsEncoding s \<Longrightarrow> one_line s"
  by (auto simp: NeedsEncoding_def one_line_def code_of_def)

lemma GetMimeType_one_line: "one_line (GetMimeType name)"
proof -
  have "list_all (\<lambda>(k, t). one_line t) mime_map" "one_line ''application/octet-stream''" unfolding one_line_def by code_simp+
  then show ?thesis
    by (auto simp: GetMimeType_def list_all_iff split: option.splits dest!: map_of_SomeD)
qed

lemma attachment_one_line:
  assumes "attached disk a data" "one_line b" "l \<in> set (attachment_lines b a)"
  shows "LF \<notin> set l"
proof -
  have "one_line (type_of a)" "one_line (file_name a)"
    using assms(1) GetMimeType_one_line printable_one_line by (auto simp: attached_def type_of_def)
  moreover have "\<forall>l \<in> set (body_of a). LF \<notin> set l"
    using assms(1) body_of_encoded(3) valid_not_break unfolding attached_def by blast
  ultimately show ?thesis
    using assms(2,3) by (auto simp: attachment_lines_def part_lines_def part_headers_def one_line_def)
qed

lemma appended_lines:
  assumes "\<forall>(a, data) \<in> set files. attached disk a data"
  shows "AppendAttachments env (map fst files) b = Some (Inr (crlf_lines (concat (map (attachment_lines b \<circ> fst) files))))"
  using assms
proof (induction files)
  case (Cons f files)
  obtain a data where f: "f = (a, data)" by (cases f)
  have "EncodeHeader (file_name a) (CRLF @ [TAB]) (me_chunk env) = Some (Inr (file_name a))"
    and "EncodeFile (Some data) = Inr (base64_data a)"
    using Cons.prems f by (simp_all add: EncodeHeader_def attached_def)
  then show ?case
    using Cons f body_of_encoded(1) [of data a]
    by (simp add: attachment_lines_def part_lines_def part_headers_def type_of_def)
qed simp

lemma parse_attachments:
  assumes "\<forall>(a, data) \<in> set files. attached disk a data"
  shows "parse_lines (''--'' @ b) (map (\<lambda>l. l @ [CR]) (concat (map (attachment_lines b \<circ> fst) files) @ [''--'' @ b @ ''--'']) @ rest) h cur =
    (if part_filename cur \<noteq> [] \<or> is_base64 cur then [cur] else []) @ map (decoded_part \<circ> fst) files"
  using assms
proof (induction files arbitrary: h cur)
  case Nil
  show ?case by (simp add: parse_line_crlf(1) [of "''--'' @ b @ ''--''", simplified] Let_def)
next
  case (Cons f files)
  obtain a data where f: "f = (a, data)" by (cases f)
  let ?rest = "map (\<lambda>l. l @ [CR]) (concat (map (attachment_lines b \<circ> fst) files) @ [''--'' @ b @ ''--'']) @ rest"
  have body: "\<forall>l \<in> set (body_of a). \<not> boundary_of (''--'' @ b) l"
    using body_of_encoded(3) [of data a] body_no_boundary Cons.prems f by (simp add: attached_def)
  have "parse_lines (''--'' @ b) (map (\<lambda>l. l @ [CR]) (attachment_lines b a) @ ?rest) h cur =
      (if part_filename cur \<noteq> [] \<or> is_base64 cur then [cur] else []) @
      parse_lines (''--'' @ b) (map (\<lambda>l. l @ [CR]) (part_lines (type_of a) (file_name a) (body_of a)) @ ?rest) True empty_part"
    using parse_line_crlf(1) [of "''--'' @ b"] by (simp add: attachment_lines_def Let_def)
  also have "parse_lines (''--'' @ b) (map (\<lambda>l. l @ [CR]) (part_lines (type_of a) (file_name a) (body_of a)) @ ?rest) True empty_part =
      parse_lines (''--'' @ b) ?rest False (decoded_part a)"
    unfolding decoded_part_def using Cons.prems f body by (intro parse_part) (simp_all add: attached_def)
  also have "parse_lines (''--'' @ b) ?rest False (decoded_part a) = decoded_part a # map (decoded_part \<circ> fst) files"
  proof -
    have "part_filename (decoded_part a) \<noteq> [] \<or> is_base64 (decoded_part a)" by (simp add: decoded_part_def)
    then show ?thesis using Cons.IH [of False "decoded_part a"] Cons.prems by (simp add: comp_def)
  qed
  finally show ?case by (simp add: f)
qed

lemma write_attachments:
  assumes "\<forall>(a, data) \<in> set files. attached disk a data"
  shows "write_parts disk (map (decoded_part \<circ> fst) files) fs =
    (Inr (map (file_name \<circ> fst) files), fold (\<lambda>(a, data). fs_write (file_name a) data) files fs)"
  using assms
proof (induction files arbitrary: fs)
  case (Cons f files)
  obtain a data where f: "f = (a, data)" by (cases f)
  then have a: "attached disk a data" using Cons.prems by simp
  then have "decode_lines [] (body_of a) [] = (None, [], data)"
    by (intro quads_decoded body_of_encoded(2)) (simp add: attached_def)
  then have "WriteToFile disk (decoded_part a) fs = (None, fs_write (file_name a) data fs)"
    using a by (simp add: WriteToFile_def decoded_part_def DecFinalize_def attached_def)
  then show ?case using Cons f a by (simp add: decoded_part_def attached_def)
qed simp

text \<open>
  C4. Attachments survive the trip. In any message whose parts between the boundaries are those that
  \<^verbatim>\<open>MimeBuilder\<close> appends for encoded files, \<^verbatim>\<open>DecodeAllAttachments\<close> finds each of them and writes each
  back under its name with exactly the bytes of the file, in order and without an error, and gives back the names.
  What comes before the first part is any lines that are no boundary and do not contain
  \<^verbatim>\<open>Content-Disposition:\<close>; what follows the end boundary is arbitrary. The names are printable ASCII without a
  quote, which the builder leaves as they are, and the disk takes the files.
\<close>

theorem attachment_roundtrip:
  assumes "\<forall>(a, data) \<in> set files. attached disk a data" "one_line b"
    and "\<forall>l \<in> set preamble. one_line l \<and> \<not> boundary_of (''--'' @ b) l \<and> \<not> contains_sub l ''Content-Disposition:''"
  shows "\<exists>parts. AppendAttachments env (map fst files) b = Some (Inr parts) \<and>
    DecodeAllAttachments disk (crlf_lines preamble @ parts @ ''--'' @ b @ ''--'' @ CRLF @ epilogue) b fs =
      (Inr (map (file_name \<circ> fst) files), fold (\<lambda>(a, data). fs_write (file_name a) data) files fs)"
proof (intro exI conjI)
  let ?parts = "concat (map (attachment_lines b \<circ> fst) files)"
  show "AppendAttachments env (map fst files) b = Some (Inr (crlf_lines ?parts))" by (rule appended_lines [OF assms(1)])
  let ?ls = "?parts @ [''--'' @ b @ ''--'']"
  have "\<forall>l \<in> set (preamble @ ?ls). LF \<notin> set l"
    using assms attachment_one_line [of disk] by (fastforce simp: one_line_def)
  from getlines_crlf [OF this, of epilogue]
  have lines: "getlines LF (crlf_lines preamble @ crlf_lines ?parts @ ''--'' @ b @ ''--'' @ CRLF @ epilogue) =
      map (\<lambda>l. l @ [CR]) preamble @ map (\<lambda>l. l @ [CR]) ?ls @ getlines LF epilogue" by simp
  obtain h cur where pre: "parse_lines (''--'' @ b) (map (\<lambda>l. l @ [CR]) preamble @ map (\<lambda>l. l @ [CR]) ?ls @ getlines LF epilogue) True empty_part =
      parse_lines (''--'' @ b) (map (\<lambda>l. l @ [CR]) ?ls @ getlines LF epilogue) h cur" "part_filename cur = []"
    using parse_preamble [of preamble "''--'' @ b"] assms(3) by (fastforce simp: empty_part_def)
  show "DecodeAllAttachments disk (crlf_lines preamble @ crlf_lines ?parts @ ''--'' @ b @ ''--'' @ CRLF @ epilogue) b fs =
      (Inr (map (file_name \<circ> fst) files), fold (\<lambda>(a, data). fs_write (file_name a) data) files fs)"
    unfolding DecodeAllAttachments_def ParseMIME_def lines pre(1) parse_attachments [OF assms(1)]
    using write_attachments [OF assms(1)] pre(2) by simp
qed

definition two_files :: "(attachment \<times> byte list) list" where
  "two_files = [(\<lparr>file_name = ''a.txt'', mime_type = [], base64_data = ''TWE='' @ CRLF, file_size = 2\<rparr>, [77, 97]),
     (\<lparr>file_name = ''b.bin'', mime_type = ''x/y'', base64_data = [], file_size = 0\<rparr>, [])]"

definition plain_env :: mime_env where
  "plain_env = \<lparr>me_date = [], me_millis = 0, me_id_digits = [], me_mixed_digits = [], me_alternative_digits = [], me_chunk = 45,
     me_domain = []\<rparr>"

lemma two_files_attached:
  "\<forall>(a, data) \<in> set two_files. attached \<lparr>dk_create = \<lambda>_. True, dk_keep = \<lambda>_ bs. bs\<rparr> a data"
proof -
  have "EncodeFile (Some [77, 97]) = Inr (''TWE='' @ CRLF)" "EncodeFile (Some []) = Inr []"
    by (simp_all add: EncodeFile_def file_chunks.simps BASE64_CHUNK_SIZE_def stream_eval)
  then show ?thesis by (simp add: two_files_def attached_def NeedsEncoding_def code_of_def one_line_def)
qed

theorem attachment_roundtrip_witness:
  "\<exists>parts. AppendAttachments plain_env (map fst two_files) ''b'' = Some (Inr parts) \<and>
    DecodeAllAttachments \<lparr>dk_create = \<lambda>_. True, dk_keep = \<lambda>_ bs. bs\<rparr>
      (''Subject: hi'' @ CRLF @ CRLF @ parts @ ''--b--'' @ CRLF) ''b'' [(''a.txt'', [1])] =
      (Inr [''a.txt'', ''b.bin''], [(''b.bin'', []), (''a.txt'', [77, 97])])"
proof -
  have "one_line ''b''" "\<forall>l \<in> set [''Subject: hi'', []]. one_line l \<and> \<not> boundary_of (''--'' @ ''b'') l \<and> \<not> contains_sub l ''Content-Disposition:''"
    by (simp_all add: one_line_def boundary_of_def) code_simp+
  from attachment_roundtrip [OF two_files_attached this, of plain_env "[]" "[(''a.txt'', [1])]"]
  show ?thesis by (simp add: two_files_def fs_write_def)
qed

end
