(* ===== verification/Store.thy ===== *)
theory Store
  imports Prelude "HOL-Library.List_Lexorder" "HOL-Library.Char_ord"
begin

text \<open>
  \<^verbatim>\<open>database/Entity/\<close> and \<^verbatim>\<open>database/DAL/\<close>: the entities, the four tables of
  \<^verbatim>\<open>scheme/001_init_scheme.sql\<close> and the statements the data access layer runs on them.

  A table is the list of its rows in rowid order, next to the AUTOINCREMENT counter. Each
  statement is translated from its SQL text: its WHERE, ORDER BY and LIMIT clauses, the
  UNIQUE index and the FOREIGN KEY clauses of the schema, the ON DELETE CASCADE chains. The
  SQLite engine itself is a parameter \<open>engine\<close>: for a call in a database state, the error it
  reports for reasons of its own (I/O, lock, memory), or \<open>None\<close>. A call names the statement
  and what is bound to it, so that of two statements in one state one may fail and the other
  not; a SELECT fails when it is prepared or at any of its rows. Text is bound with length
  \<open>-1\<close>, so it ends at its first NUL byte (\<open>c_text\<close>).
\<close>

section \<open>Entities\<close>

record user =
  u_id :: "int option"
  u_username :: string
  u_password_hash :: string
  u_first_name :: "string option"
  u_last_name :: "string option"
  u_birthdate :: "string option"
  u_avatar_b64 :: "string option"

record folder =
  f_id :: "int option"
  f_user_id :: int
  f_parent_id :: "int option"
  f_name :: string
  f_next_uid :: int
  f_is_subscribed :: bool

record message =
  m_id :: "int option"
  m_user_id :: int
  m_folder_id :: int
  m_uid :: int
  m_raw_file_path :: string
  m_size_bytes :: int
  m_mime_structure :: "string option"
  m_message_id_header :: "string option"
  m_in_reply_to :: "string option"
  m_references_header :: "string option"
  m_from_address :: string
  m_sender_address :: "string option"
  m_subject :: "string option"
  m_is_seen :: bool
  m_is_deleted :: bool
  m_is_draft :: bool
  m_is_answered :: bool
  m_is_flagged :: bool
  m_is_recent :: bool
  m_internal_date :: string
  m_date_header :: "string option"

datatype recipient_type = To | Cc | Bcc | ReplyTo

record recipient =
  r_id :: "int option"
  r_message_id :: int
  r_address :: string
  r_type :: recipient_type

fun typeToString :: "recipient_type \<Rightarrow> string" where
  "typeToString To = ''to''"
| "typeToString Cc = ''cc''"
| "typeToString Bcc = ''bcc''"
| "typeToString ReplyTo = ''reply-to''"

definition typeFromString :: "string \<Rightarrow> recipient_type" where
  "typeFromString s =
     (if s = ''to'' then To else if s = ''cc'' then Cc else if s = ''bcc'' then Bcc
      else if s = ''reply-to'' then ReplyTo else To)"

section \<open>Tables and engine\<close>

record db =
  db_users :: "user list"
  db_folders :: "folder list"
  db_messages :: "message list"
  db_recipients :: "recipient list"
  seq_users :: int
  seq_folders :: int
  seq_messages :: int
  seq_recipients :: int

definition empty_db :: db where
  "empty_db = \<lparr>db_users = [], db_folders = [], db_messages = [], db_recipients = [],
     seq_users = 0, seq_folders = 0, seq_messages = 0, seq_recipients = 0\<rparr>"

text \<open>
  A statement is named after the method of the data access layer that holds its text, next to
  the values bound to it that tell one call from another. \<open>PREPARE\<close> and \<open>STEP\<close> are the calls of
  a SELECT, the number of a \<open>STEP\<close> is that of the row asked for; \<open>RUN\<close> is an INSERT, UPDATE or
  DELETE.
\<close>

datatype binding = Bind_int int | Bind_text string

type_synonym statement = "string \<times> binding list"

datatype sql = PREPARE statement | STEP statement nat | RUN statement | BEGIN_IMMEDIATE | COMMIT

type_synonym engine = "sql \<Rightarrow> db \<Rightarrow> string option"

text \<open>An engine that never fails on its own.\<close>

definition healthy :: engine where
  "healthy s d = None"

definition c_text :: "string \<Rightarrow> string" where
  "c_text s = takeWhile (\<lambda>c. c \<noteq> NUL) s"

text \<open>\<^verbatim>\<open>LIMIT ? OFFSET ?\<close>: a negative limit is no limit, a negative offset is zero.\<close>

definition limit_offset :: "int \<Rightarrow> int \<Rightarrow> 'a list \<Rightarrow> 'a list" where
  "limit_offset limit offset rows =
     (let r = drop (nat offset) rows in if limit < 0 then r else take (nat limit) r)"

lemma limit_offset_code [code]:
  "limit_offset limit offset rows =
     (let r = drop (nat offset) rows in if limit < 0 \<or> int (length r) \<le> limit then r else take (nat limit) r)"
  by (simp add: limit_offset_def Let_def)

definition read_one :: "engine \<Rightarrow> statement \<Rightarrow> db \<Rightarrow> 'a list \<Rightarrow> 'a option" where
  "read_one engine q d rows =
     (if engine (PREPARE q) d \<noteq> None \<or> engine (STEP q 0) d \<noteq> None then None
      else case rows of [] \<Rightarrow> None | r # _ \<Rightarrow> Some r)"

text \<open>\<^verbatim>\<open>fetchRows\<close>: the rows are collected up to the first step that does not give one.\<close>

fun fetchRows :: "engine \<Rightarrow> statement \<Rightarrow> db \<Rightarrow> nat \<Rightarrow> 'a list \<Rightarrow> 'a list" where
  "fetchRows engine q d i [] = []"
| "fetchRows engine q d i (r # rows) =
     (if engine (STEP q i) d \<noteq> None then [] else r # fetchRows engine q d (Suc i) rows)"

definition read_many :: "engine \<Rightarrow> statement \<Rightarrow> db \<Rightarrow> 'a list \<Rightarrow> 'a list" where
  "read_many engine q d rows = (if engine (PREPARE q) d \<noteq> None then [] else fetchRows engine q d 0 rows)"

text \<open>A SELECT that SQLite answers to its end, and what the readers give then and otherwise.\<close>

definition select_ok :: "engine \<Rightarrow> statement \<Rightarrow> db \<Rightarrow> bool" where
  "select_ok engine q d \<longleftrightarrow> engine (PREPARE q) d = None \<and> (\<forall>i. engine (STEP q i) d = None)"

lemma fetchRows_take: "\<exists>n. fetchRows engine q d i rows = take n rows"
proof (induction rows arbitrary: i)
  case (Cons r rows)
  obtain n where "fetchRows engine q d (Suc i) rows = take n rows" using Cons.IH by blast
  then have "fetchRows engine q d i (r # rows) = take (if engine (STEP q i) d \<noteq> None then 0 else Suc n) (r # rows)"
    by simp
  then show ?case by blast
qed simp

lemma fetchRows_ok: "(\<And>j. engine (STEP q j) d = None) \<Longrightarrow> fetchRows engine q d i rows = rows"
  by (induction rows arbitrary: i) simp_all

lemma read_many_take: "\<exists>n. read_many engine q d rows = take n rows"
  using fetchRows_take [of engine q d 0 rows] by (auto simp: read_many_def intro: exI [of _ 0])

lemma read_many_subset: "set (read_many engine q d rows) \<subseteq> set rows"
  using read_many_take [of engine q d rows] by (auto dest: in_set_takeD)

lemma read_many_length: "length (read_many engine q d rows) \<le> length rows"
  using read_many_take [of engine q d rows] by auto

lemma read_many_ok: "select_ok engine q d \<Longrightarrow> read_many engine q d rows = rows"
  by (simp add: select_ok_def read_many_def fetchRows_ok)

lemma read_one_ok:
  "select_ok engine q d \<Longrightarrow> read_one engine q d rows = (case rows of [] \<Rightarrow> None | r # _ \<Rightarrow> Some r)"
  by (simp add: select_ok_def read_one_def)

lemma healthy_simp [simp]: "healthy s d = None"
  by (simp add: healthy_def)

lemma select_ok_healthy [simp]: "select_ok healthy q d"
  by (simp add: select_ok_def)

lemmas read_one_healthy = read_one_ok [OF select_ok_healthy]
lemmas read_many_healthy = read_many_ok [OF select_ok_healthy]

text \<open>A write: the engine's own error first, then a violated constraint, then the new state.\<close>

definition run_write :: "engine \<Rightarrow> statement \<Rightarrow> db \<Rightarrow> string option \<Rightarrow> 'a \<Rightarrow> string + 'a" where
  "run_write engine q d violated result =
     (case engine (RUN q) d of
        Some e \<Rightarrow> Inl e
      | None \<Rightarrow> (case violated of Some e \<Rightarrow> Inl e | None \<Rightarrow> Inr result))"

definition fk_error :: string where
  "fk_error = ''FOREIGN KEY constraint failed''"

definition user_exists :: "db \<Rightarrow> int \<Rightarrow> bool" where
  "user_exists d i \<longleftrightarrow> (\<exists>u \<in> set (db_users d). u_id u = Some i)"

definition folder_exists :: "db \<Rightarrow> int \<Rightarrow> bool" where
  "folder_exists d i \<longleftrightarrow> (\<exists>f \<in> set (db_folders d). f_id f = Some i)"

definition message_exists :: "db \<Rightarrow> int \<Rightarrow> bool" where
  "message_exists d i \<longleftrightarrow> (\<exists>m \<in> set (db_messages d). m_id m = Some i)"

definition update_where :: "('a \<Rightarrow> bool) \<Rightarrow> ('a \<Rightarrow> 'a) \<Rightarrow> 'a list \<Rightarrow> 'a list" where
  "update_where P f rows = map (\<lambda>r. if P r then f r else r) rows"

section \<open>Cascading deletes\<close>

text \<open>The rows of \<^verbatim>\<open>recipients\<close> follow their message, those of \<^verbatim>\<open>messages\<close> their folder or user.\<close>

definition delete_messages :: "(message \<Rightarrow> bool) \<Rightarrow> db \<Rightarrow> db" where
  "delete_messages P d =
     d\<lparr>db_messages := filter (\<lambda>m. \<not> P m) (db_messages d),
       db_recipients := filter (\<lambda>r. \<not> (\<exists>m \<in> set (db_messages d). P m \<and> m_id m = Some (r_message_id r)))
         (db_recipients d)\<rparr>"

text \<open>The folders below a set of folders, along \<^verbatim>\<open>parent_id\<close>: each round adds the children.\<close>

definition child_ids :: "folder list \<Rightarrow> int list \<Rightarrow> int list" where
  "child_ids fs ids = [the (f_id f). f \<leftarrow> fs, f_id f \<noteq> None \<and>
     (case f_parent_id f of Some p \<Rightarrow> p \<in> set ids | None \<Rightarrow> False)]"

fun folder_closure :: "nat \<Rightarrow> folder list \<Rightarrow> int list \<Rightarrow> int list" where
  "folder_closure 0 fs ids = ids"
| "folder_closure (Suc n) fs ids = folder_closure n fs (remdups (ids @ child_ids fs ids))"

definition delete_folders :: "int list \<Rightarrow> db \<Rightarrow> db" where
  "delete_folders ids d =
     (let gone = folder_closure (length (db_folders d)) (db_folders d) ids;
          d1 = delete_messages (\<lambda>m. m_folder_id m \<in> set gone) d
      in d1\<lparr>db_folders := filter (\<lambda>f. case f_id f of Some i \<Rightarrow> i \<notin> set gone | None \<Rightarrow> True) (db_folders d)\<rparr>)"

definition own_folder_ids :: "int \<Rightarrow> folder list \<Rightarrow> int list" where
  "own_folder_ids i fs = [the (f_id f). f \<leftarrow> fs, f_id f \<noteq> None \<and> f_user_id f = i]"

definition delete_user :: "int \<Rightarrow> db \<Rightarrow> db" where
  "delete_user i d =
     (let d1 = delete_folders (own_folder_ids i (db_folders d)) d;
          d2 = delete_messages (\<lambda>m. m_user_id m = i) d1
      in d2\<lparr>db_users := filter (\<lambda>u. u_id u \<noteq> Some i) (db_users d)\<rparr>)"

section \<open>UserDAL\<close>

definition row_no_avatar :: "user \<Rightarrow> user" where
  "row_no_avatar u = u\<lparr>u_avatar_b64 := None\<rparr>"

definition UserDAL_findByID :: "engine \<Rightarrow> db \<Rightarrow> int \<Rightarrow> user option" where
  "UserDAL_findByID engine d i =
     read_one engine (''UserDAL::findByID'', [Bind_int i]) d
       (filter (\<lambda>u. u_id u = Some i) (db_users d))"

definition UserDAL_findByUsername :: "engine \<Rightarrow> db \<Rightarrow> string \<Rightarrow> user option" where
  "UserDAL_findByUsername engine d name =
     read_one engine (''UserDAL::findByUsername'', [Bind_text (c_text name)]) d
       (map row_no_avatar (filter (\<lambda>u. u_username u = c_text name) (db_users d)))"

definition UserDAL_findAll :: "engine \<Rightarrow> db \<Rightarrow> int \<Rightarrow> int \<Rightarrow> user list" where
  "UserDAL_findAll engine d limit offset =
     read_many engine (''UserDAL::findAll'', [Bind_int limit, Bind_int offset]) d
       (limit_offset limit offset (map row_no_avatar (sort_key u_username (db_users d))))"

definition UserDAL_existsByUsername :: "engine \<Rightarrow> db \<Rightarrow> string \<Rightarrow> bool" where
  "UserDAL_existsByUsername engine d name \<longleftrightarrow>
     read_one engine (''UserDAL::existsByUsername'', [Bind_text (c_text name)]) d
       (filter (\<lambda>u. u_username u = c_text name) (db_users d)) \<noteq> None"

definition UserDAL_count :: "engine \<Rightarrow> db \<Rightarrow> int" where
  "UserDAL_count engine d =
     (if engine (PREPARE (''UserDAL::count'', [])) d \<noteq> None \<or> engine (STEP (''UserDAL::count'', []) 0) d \<noteq> None
      then - 1 else int (length (db_users d)))"

definition UserDAL_getAvatar :: "engine \<Rightarrow> db \<Rightarrow> int \<Rightarrow> string option" where
  "UserDAL_getAvatar engine d i =
     (case read_one engine (''UserDAL::getAvatar'', [Bind_int i]) d
       (filter (\<lambda>u. u_id u = Some i) (db_users d)) of
        None \<Rightarrow> None | Some u \<Rightarrow> u_avatar_b64 u)"

definition user_row :: "user \<Rightarrow> user" where
  "user_row u = u\<lparr>u_username := c_text (u_username u), u_password_hash := c_text (u_password_hash u),
     u_first_name := map_option c_text (u_first_name u), u_last_name := map_option c_text (u_last_name u),
     u_birthdate := map_option c_text (u_birthdate u), u_avatar_b64 := map_option c_text (u_avatar_b64 u)\<rparr>"

definition username_error :: string where
  "username_error = ''UNIQUE constraint failed: users.username''"

text \<open>Inserts return the entity with the \<^verbatim>\<open>sqlite3_last_insert_rowid\<close>.\<close>

definition UserDAL_insert :: "engine \<Rightarrow> db \<Rightarrow> user \<Rightarrow> string + (user \<times> db)" where
  "UserDAL_insert engine d u =
     (let i = seq_users d + 1; row = (user_row u)\<lparr>u_id := Some i\<rparr> in
      run_write engine (''UserDAL::insert'', [Bind_text (c_text (u_username u))]) d
        (if \<exists>v \<in> set (db_users d). u_username v = u_username row then Some username_error else None)
        (u\<lparr>u_id := Some i\<rparr>, d\<lparr>db_users := db_users d @ [row], seq_users := i\<rparr>))"

definition UserDAL_update :: "engine \<Rightarrow> db \<Rightarrow> user \<Rightarrow> string + db" where
  "UserDAL_update engine d u =
     (case u_id u of
        None \<Rightarrow> Inl ''update() called on a User with no id''
      | Some i \<Rightarrow>
          run_write engine (''UserDAL::update'', [Bind_int i]) d
            (if (\<exists>v \<in> set (db_users d). u_id v = Some i) \<and>
                (\<exists>v \<in> set (db_users d). u_id v \<noteq> Some i \<and> u_username v = c_text (u_username u))
             then Some username_error else None)
            (d\<lparr>db_users := update_where (\<lambda>v. u_id v = Some i) (\<lambda>_. user_row u) (db_users d)\<rparr>))"

definition UserDAL_updatePassword :: "engine \<Rightarrow> db \<Rightarrow> int \<Rightarrow> string \<Rightarrow> string + db" where
  "UserDAL_updatePassword engine d i hash =
     run_write engine (''UserDAL::updatePassword'', [Bind_int i]) d None
       (d\<lparr>db_users := update_where (\<lambda>v. u_id v = Some i) (\<lambda>v. v\<lparr>u_password_hash := c_text hash\<rparr>) (db_users d)\<rparr>)"

definition UserDAL_updateProfile ::
  "engine \<Rightarrow> db \<Rightarrow> int \<Rightarrow> string option \<Rightarrow> string option \<Rightarrow> string option \<Rightarrow> string + db" where
  "UserDAL_updateProfile engine d i first_name last_name birthdate =
     run_write engine (''UserDAL::updateProfile'', [Bind_int i]) d None
       (d\<lparr>db_users := update_where (\<lambda>v. u_id v = Some i)
          (\<lambda>v. v\<lparr>u_first_name := map_option c_text first_name, u_last_name := map_option c_text last_name,
                 u_birthdate := map_option c_text birthdate\<rparr>) (db_users d)\<rparr>)"

definition UserDAL_updateAvatar :: "engine \<Rightarrow> db \<Rightarrow> int \<Rightarrow> string option \<Rightarrow> string + db" where
  "UserDAL_updateAvatar engine d i avatar =
     run_write engine (''UserDAL::updateAvatar'', [Bind_int i]) d None
       (d\<lparr>db_users := update_where (\<lambda>v. u_id v = Some i)
          (\<lambda>v. v\<lparr>u_avatar_b64 := map_option c_text avatar\<rparr>) (db_users d)\<rparr>)"

definition UserDAL_hardDelete :: "engine \<Rightarrow> db \<Rightarrow> int \<Rightarrow> string + db" where
  "UserDAL_hardDelete engine d i = run_write engine (''UserDAL::hardDelete'', [Bind_int i]) d
    None (delete_user i d)"

section \<open>FolderDAL\<close>

definition FolderDAL_findByID :: "engine \<Rightarrow> db \<Rightarrow> int \<Rightarrow> folder option" where
  "FolderDAL_findByID engine d i =
     read_one engine (''FolderDAL::findByID'', [Bind_int i]) d
       (filter (\<lambda>f. f_id f = Some i) (db_folders d))"

definition FolderDAL_findByUser :: "engine \<Rightarrow> db \<Rightarrow> int \<Rightarrow> int \<Rightarrow> int \<Rightarrow> folder list" where
  "FolderDAL_findByUser engine d i limit offset =
     read_many engine (''FolderDAL::findByUser'', [Bind_int i, Bind_int limit, Bind_int offset]) d
       (limit_offset limit offset
       (sort_key f_name (filter (\<lambda>f. f_user_id f = i) (db_folders d))))"

definition FolderDAL_findByName :: "engine \<Rightarrow> db \<Rightarrow> int \<Rightarrow> string \<Rightarrow> folder option" where
  "FolderDAL_findByName engine d i name =
     read_one engine (''FolderDAL::findByName'', [Bind_int i, Bind_text (c_text name)]) d
       (filter (\<lambda>f. f_user_id f = i \<and> f_name f = c_text name) (db_folders d))"

definition FolderDAL_findByParent :: "engine \<Rightarrow> db \<Rightarrow> int \<Rightarrow> int \<Rightarrow> int \<Rightarrow> folder list" where
  "FolderDAL_findByParent engine d i limit offset =
     read_many engine (''FolderDAL::findByParent'', [Bind_int i, Bind_int limit, Bind_int offset]) d
       (limit_offset limit offset
       (sort_key f_name (filter (\<lambda>f. f_parent_id f = Some i) (db_folders d))))"

definition folder_fk :: "db \<Rightarrow> folder \<Rightarrow> string option" where
  "folder_fk d f =
     (if user_exists d (f_user_id f) \<and>
         (case f_parent_id f of None \<Rightarrow> True | Some p \<Rightarrow> folder_exists d p)
      then None else Some fk_error)"

definition FolderDAL_insert :: "engine \<Rightarrow> db \<Rightarrow> folder \<Rightarrow> string + (folder \<times> db)" where
  "FolderDAL_insert engine d f =
     (let i = seq_folders d + 1; row = f\<lparr>f_id := Some i, f_name := c_text (f_name f)\<rparr> in
      run_write engine (''FolderDAL::insert'', [Bind_int (f_user_id f), Bind_text (c_text (f_name f))]) d
        (folder_fk d f)
        (f\<lparr>f_id := Some i\<rparr>, d\<lparr>db_folders := db_folders d @ [row], seq_folders := i\<rparr>))"

definition FolderDAL_update :: "engine \<Rightarrow> db \<Rightarrow> folder \<Rightarrow> string + db" where
  "FolderDAL_update engine d f =
     (case f_id f of
        None \<Rightarrow> Inl ''update() called on a Folder with no id''
      | Some i \<Rightarrow>
          run_write engine (''FolderDAL::update'', [Bind_int i]) d
            (if folder_exists d i then folder_fk d f else None)
            (d\<lparr>db_folders := update_where (\<lambda>g. f_id g = Some i)
               (\<lambda>_. f\<lparr>f_name := c_text (f_name f)\<rparr>) (db_folders d)\<rparr>))"

definition FolderDAL_incrementNextUID :: "engine \<Rightarrow> db \<Rightarrow> int \<Rightarrow> string + db" where
  "FolderDAL_incrementNextUID engine d i =
     run_write engine (''FolderDAL::incrementNextUID'', [Bind_int i]) d None
       (d\<lparr>db_folders := update_where (\<lambda>g. f_id g = Some i)
          (\<lambda>g. g\<lparr>f_next_uid := f_next_uid g + 1\<rparr>) (db_folders d)\<rparr>)"

definition FolderDAL_hardDelete :: "engine \<Rightarrow> db \<Rightarrow> int \<Rightarrow> string + db" where
  "FolderDAL_hardDelete engine d i =
     run_write engine (''FolderDAL::hardDelete'', [Bind_int i]) d None
       (if folder_exists d i then delete_folders [i] d else d)"

definition FolderDAL_setSubscribed :: "engine \<Rightarrow> db \<Rightarrow> int \<Rightarrow> bool \<Rightarrow> string + db" where
  "FolderDAL_setSubscribed engine d i subscribed =
     run_write engine (''FolderDAL::setSubscribed'', [Bind_int i]) d None
       (d\<lparr>db_folders := update_where (\<lambda>g. f_id g = Some i)
          (\<lambda>g. g\<lparr>f_is_subscribed := subscribed\<rparr>) (db_folders d)\<rparr>)"

section \<open>MessageDAL\<close>

definition MessageDAL_findByID :: "engine \<Rightarrow> db \<Rightarrow> int \<Rightarrow> message option" where
  "MessageDAL_findByID engine d i =
     read_one engine (''MessageDAL::findByID'', [Bind_int i]) d
       (filter (\<lambda>m. m_id m = Some i) (db_messages d))"

definition MessageDAL_findByUID :: "engine \<Rightarrow> db \<Rightarrow> int \<Rightarrow> int \<Rightarrow> message option" where
  "MessageDAL_findByUID engine d fid uid =
     read_one engine (''MessageDAL::findByUID'', [Bind_int fid, Bind_int uid]) d
       (filter (\<lambda>m. m_folder_id m = fid \<and> m_uid m = uid) (db_messages d))"

text \<open>\<^verbatim>\<open>ORDER BY uid ASC\<close> over the rows of a folder that satisfy a further condition.\<close>

definition folder_rows :: "(message \<Rightarrow> bool) \<Rightarrow> db \<Rightarrow> int \<Rightarrow> message list" where
  "folder_rows P d fid = sort_key m_uid (filter (\<lambda>m. m_folder_id m = fid \<and> P m) (db_messages d))"

definition MessageDAL_findByFolder :: "engine \<Rightarrow> db \<Rightarrow> int \<Rightarrow> int \<Rightarrow> int \<Rightarrow> message list" where
  "MessageDAL_findByFolder engine d fid limit offset =
     read_many engine (''MessageDAL::findByFolder'', [Bind_int fid, Bind_int limit, Bind_int offset]) d
       (limit_offset limit offset (folder_rows (\<lambda>m. True) d fid))"

definition MessageDAL_findUnseen :: "engine \<Rightarrow> db \<Rightarrow> int \<Rightarrow> int \<Rightarrow> int \<Rightarrow> message list" where
  "MessageDAL_findUnseen engine d fid limit offset =
     read_many engine (''MessageDAL::findUnseen'', [Bind_int fid, Bind_int limit, Bind_int offset]) d
       (limit_offset limit offset (folder_rows (\<lambda>m. \<not> m_is_seen m) d fid))"

definition MessageDAL_findDeleted :: "engine \<Rightarrow> db \<Rightarrow> int \<Rightarrow> int \<Rightarrow> int \<Rightarrow> message list" where
  "MessageDAL_findDeleted engine d fid limit offset =
     read_many engine (''MessageDAL::findDeleted'', [Bind_int fid, Bind_int limit, Bind_int offset]) d
       (limit_offset limit offset (folder_rows m_is_deleted d fid))"

definition MessageDAL_findFlagged :: "engine \<Rightarrow> db \<Rightarrow> int \<Rightarrow> int \<Rightarrow> int \<Rightarrow> message list" where
  "MessageDAL_findFlagged engine d fid limit offset =
     read_many engine (''MessageDAL::findFlagged'', [Bind_int fid, Bind_int limit, Bind_int offset]) d
       (limit_offset limit offset (folder_rows m_is_flagged d fid))"

text \<open>\<^verbatim>\<open>LIKE\<close>: \<open>%\<close> is any run of bytes, \<open>_\<close> one UTF-8 character, ASCII letters match in both cases.\<close>

definition continuation_byte :: "char \<Rightarrow> bool" where
  "continuation_byte c \<longleftrightarrow> 128 \<le> code_of c \<and> code_of c < 192"

function sql_like :: "string \<Rightarrow> string \<Rightarrow> bool" where
  "sql_like [] s \<longleftrightarrow> s = []"
| "sql_like (p # ps) s \<longleftrightarrow>
     (if p = CHR ''%'' then sql_like ps s \<or> (if s = [] then False else sql_like (p # ps) (tl s))
      else if s = [] then False
      else if p = CHR ''_'' then sql_like ps (dropWhile continuation_byte (tl s))
      else to_lower_char p = to_lower_char (hd s) \<and> sql_like ps (tl s))"
  by pat_completeness auto
termination by (relation "measures [\<lambda>(p, s). length p, \<lambda>(p, s). length s]") (auto simp: neq_Nil_conv)

text \<open>\<^verbatim>\<open>ORDER BY internal_date DESC\<close>, rows with the same date in rowid order.\<close>

definition newest_first :: "message list \<Rightarrow> message list" where
  "newest_first rows = rev (sort_key m_internal_date (rev rows))"

definition MessageDAL_findByUser :: "engine \<Rightarrow> db \<Rightarrow> int \<Rightarrow> int \<Rightarrow> int \<Rightarrow> message list" where
  "MessageDAL_findByUser engine d i limit offset =
     read_many engine (''MessageDAL::findByUser'', [Bind_int i, Bind_int limit, Bind_int offset]) d
       (limit_offset limit offset
       (newest_first (filter (\<lambda>m. m_user_id m = i) (db_messages d))))"

definition MessageDAL_search :: "engine \<Rightarrow> db \<Rightarrow> int \<Rightarrow> string \<Rightarrow> int \<Rightarrow> int \<Rightarrow> message list" where
  "MessageDAL_search engine d i query limit offset =
     (let pat = c_text (''%'' @ query @ ''%'');
          hit = (\<lambda>m. (case m_subject m of None \<Rightarrow> False | Some s \<Rightarrow> sql_like pat s) \<or> sql_like pat (m_from_address m))
      in read_many engine (''MessageDAL::search'', [Bind_int i, Bind_text pat, Bind_int limit, Bind_int offset]) d
        (limit_offset limit offset
           (newest_first (filter (\<lambda>m. m_user_id m = i \<and> hit m) (db_messages d)))))"

definition message_row :: "message \<Rightarrow> message" where
  "message_row m = m\<lparr>m_raw_file_path := c_text (m_raw_file_path m),
     m_mime_structure := map_option c_text (m_mime_structure m),
     m_message_id_header := map_option c_text (m_message_id_header m),
     m_in_reply_to := map_option c_text (m_in_reply_to m),
     m_references_header := map_option c_text (m_references_header m),
     m_from_address := c_text (m_from_address m),
     m_sender_address := map_option c_text (m_sender_address m),
     m_subject := map_option c_text (m_subject m),
     m_internal_date := c_text (m_internal_date m),
     m_date_header := map_option c_text (m_date_header m)\<rparr>"

definition uid_error :: string where
  "uid_error = ''UNIQUE constraint failed: messages.folder_id, messages.uid''"

text \<open>The constraints on a row with the given folder, uid and user, among the other rows.\<close>

definition message_violation :: "db \<Rightarrow> message list \<Rightarrow> int \<Rightarrow> int \<Rightarrow> int \<Rightarrow> string option" where
  "message_violation d others uid_user fid uid =
     (if \<exists>n \<in> set others. m_folder_id n = fid \<and> m_uid n = uid then Some uid_error
      else if user_exists d uid_user \<and> folder_exists d fid then None else Some fk_error)"

definition MessageDAL_insert :: "engine \<Rightarrow> db \<Rightarrow> message \<Rightarrow> string + (message \<times> db)" where
  "MessageDAL_insert engine d m =
     (let i = seq_messages d + 1; row = (message_row m)\<lparr>m_id := Some i\<rparr> in
      run_write engine (''MessageDAL::insert'', [Bind_int (m_folder_id m), Bind_int (m_uid m)]) d
        (message_violation d (db_messages d) (m_user_id m) (m_folder_id m) (m_uid m))
        (m\<lparr>m_id := Some i\<rparr>, d\<lparr>db_messages := db_messages d @ [row], seq_messages := i\<rparr>))"

definition MessageDAL_update :: "engine \<Rightarrow> db \<Rightarrow> message \<Rightarrow> string + db" where
  "MessageDAL_update engine d m =
     (case m_id m of
        None \<Rightarrow> Inl ''update() called on a Message with no id''
      | Some i \<Rightarrow>
          run_write engine (''MessageDAL::update'', [Bind_int i]) d
            (if message_exists d i
             then message_violation d (filter (\<lambda>n. m_id n \<noteq> Some i) (db_messages d))
                    (m_user_id m) (m_folder_id m) (m_uid m)
             else None)
            (d\<lparr>db_messages := update_where (\<lambda>n. m_id n = Some i) (\<lambda>_. message_row m) (db_messages d)\<rparr>))"

definition MessageDAL_updateSeen :: "engine \<Rightarrow> db \<Rightarrow> int \<Rightarrow> bool \<Rightarrow> string + db" where
  "MessageDAL_updateSeen engine d i seen =
     run_write engine (''MessageDAL::updateSeen'', [Bind_int i]) d None
       (d\<lparr>db_messages := update_where (\<lambda>n. m_id n = Some i) (\<lambda>n. n\<lparr>m_is_seen := seen\<rparr>) (db_messages d)\<rparr>)"

definition MessageDAL_updateDeleted :: "engine \<Rightarrow> db \<Rightarrow> int \<Rightarrow> bool \<Rightarrow> string + db" where
  "MessageDAL_updateDeleted engine d i deleted =
     run_write engine (''MessageDAL::updateDeleted'', [Bind_int i]) d None
       (d\<lparr>db_messages := update_where (\<lambda>n. m_id n = Some i) (\<lambda>n. n\<lparr>m_is_deleted := deleted\<rparr>) (db_messages d)\<rparr>)"

definition set_flag_columns ::
  "bool \<Rightarrow> bool \<Rightarrow> bool \<Rightarrow> bool \<Rightarrow> bool \<Rightarrow> bool \<Rightarrow> message \<Rightarrow> message" where
  "set_flag_columns seen deleted draft answered flagged recent n =
     n\<lparr>m_is_seen := seen, m_is_deleted := deleted, m_is_draft := draft,
       m_is_answered := answered, m_is_flagged := flagged, m_is_recent := recent\<rparr>"

definition MessageDAL_updateFlags ::
  "engine \<Rightarrow> db \<Rightarrow> int \<Rightarrow> bool \<Rightarrow> bool \<Rightarrow> bool \<Rightarrow> bool \<Rightarrow> bool \<Rightarrow> bool \<Rightarrow> string + db" where
  "MessageDAL_updateFlags engine d i seen deleted draft answered flagged recent =
     run_write engine (''MessageDAL::updateFlags'', [Bind_int i]) d None
       (d\<lparr>db_messages := update_where (\<lambda>n. m_id n = Some i)
          (set_flag_columns seen deleted draft answered flagged recent) (db_messages d)\<rparr>)"

definition MessageDAL_moveToFolder :: "engine \<Rightarrow> db \<Rightarrow> int \<Rightarrow> int \<Rightarrow> int \<Rightarrow> string + db" where
  "MessageDAL_moveToFolder engine d i fid new_uid =
     run_write engine (''MessageDAL::moveToFolder'', [Bind_int i, Bind_int fid, Bind_int new_uid]) d
       (if message_exists d i
        then (if \<exists>n \<in> set (db_messages d). m_id n \<noteq> Some i \<and> m_folder_id n = fid \<and> m_uid n = new_uid
              then Some uid_error
              else if folder_exists d fid then None else Some fk_error)
        else None)
       (d\<lparr>db_messages := update_where (\<lambda>n. m_id n = Some i)
          (\<lambda>n. n\<lparr>m_folder_id := fid, m_uid := new_uid\<rparr>) (db_messages d)\<rparr>)"

definition MessageDAL_hardDelete :: "engine \<Rightarrow> db \<Rightarrow> int \<Rightarrow> string + db" where
  "MessageDAL_hardDelete engine d i =
     run_write engine (''MessageDAL::hardDelete'', [Bind_int i]) d
       None (delete_messages (\<lambda>m. m_id m = Some i) d)"

definition MessageDAL_clearRecentByFolder :: "engine \<Rightarrow> db \<Rightarrow> int \<Rightarrow> string + db" where
  "MessageDAL_clearRecentByFolder engine d fid =
     run_write engine (''MessageDAL::clearRecentByFolder'', [Bind_int fid]) d None
       (d\<lparr>db_messages := update_where (\<lambda>n. m_folder_id n = fid) (\<lambda>n. n\<lparr>m_is_recent := False\<rparr>)
          (db_messages d)\<rparr>)"

section \<open>RecipientDAL\<close>

definition RecipientDAL_findByID :: "engine \<Rightarrow> db \<Rightarrow> int \<Rightarrow> recipient option" where
  "RecipientDAL_findByID engine d i =
     read_one engine (''RecipientDAL::findByID'', [Bind_int i]) d
       (filter (\<lambda>r. r_id r = Some i) (db_recipients d))"

definition RecipientDAL_findByMessage :: "engine \<Rightarrow> db \<Rightarrow> int \<Rightarrow> recipient list" where
  "RecipientDAL_findByMessage engine d mid =
     read_many engine (''RecipientDAL::findByMessage'', [Bind_int mid]) d
       (filter (\<lambda>r. r_message_id r = mid) (db_recipients d))"

text \<open>The type column holds the text of the type; reading a row parses it back.\<close>

definition recipient_row :: "recipient \<Rightarrow> recipient" where
  "recipient_row r =
     r\<lparr>r_address := c_text (r_address r), r_type := typeFromString (typeToString (r_type r))\<rparr>"

definition RecipientDAL_insert :: "engine \<Rightarrow> db \<Rightarrow> recipient \<Rightarrow> string + (recipient \<times> db)" where
  "RecipientDAL_insert engine d r =
     (let i = seq_recipients d + 1; row = (recipient_row r)\<lparr>r_id := Some i\<rparr> in
      run_write engine (''RecipientDAL::insert'', [Bind_int (r_message_id r), Bind_text (c_text (r_address r)), Bind_text (typeToString (r_type r))]) d
        (if message_exists d (r_message_id r) then None else Some fk_error)
        (r\<lparr>r_id := Some i\<rparr>, d\<lparr>db_recipients := db_recipients d @ [row], seq_recipients := i\<rparr>))"

definition RecipientDAL_update :: "engine \<Rightarrow> db \<Rightarrow> recipient \<Rightarrow> string + db" where
  "RecipientDAL_update engine d r =
     (case r_id r of
        None \<Rightarrow> Inl ''update() called on a Recipient with no id''
      | Some i \<Rightarrow>
          run_write engine (''RecipientDAL::update'', [Bind_int i]) d
            (if (\<exists>q \<in> set (db_recipients d). r_id q = Some i) \<and> \<not> message_exists d (r_message_id r)
             then Some fk_error else None)
            (d\<lparr>db_recipients := update_where (\<lambda>q. r_id q = Some i) (\<lambda>_. recipient_row r) (db_recipients d)\<rparr>))"

definition RecipientDAL_hardDelete :: "engine \<Rightarrow> db \<Rightarrow> int \<Rightarrow> string + db" where
  "RecipientDAL_hardDelete engine d i =
     run_write engine (''RecipientDAL::hardDelete'', [Bind_int i]) d
       None (d\<lparr>db_recipients := filter (\<lambda>q. r_id q \<noteq> Some i) (db_recipients d)\<rparr>)"

end
