(* ===== verification/Repository.thy ===== *)
theory Repository
  imports Store
begin

text \<open>
  \<^verbatim>\<open>database/Repository/\<close> and \<^verbatim>\<open>database/Transaction.h\<close>: the operations the servers call.

  An operation takes the database and gives \<open>Inl\<close> the error message or \<open>Inr\<close> its value, next
  to the database it leaves. \<open>transaction\<close> is the RAII class: BEGIN, the body, COMMIT, and
  ROLLBACK to the state of BEGIN on every early return. The operations that read a row before
  they take the write lock are split there: \<open>_locked\<close> takes what was read as an argument, so
  that a concurrent writer between the two can be stated. libsodium's \<^verbatim>\<open>crypto_pwhash_str\<close>
  (\<open>pwhash\<close>) and \<^verbatim>\<open>crypto_pwhash_str_verify\<close> (\<open>verify\<close>) are parameters.
\<close>

section \<open>Transactions\<close>

type_synonym 'a action = "(string + 'a) \<times> db"

definition transaction ::
  "engine \<Rightarrow> db \<Rightarrow> string \<Rightarrow> (db \<Rightarrow> string + ('a \<times> db)) \<Rightarrow> 'a action" where
  "transaction engine d name body =
     (if engine BEGIN_IMMEDIATE d \<noteq> None then (Inl (name @ '': failed to begin transaction''), d)
      else case body d of
        Inl e \<Rightarrow> (Inl e, d)
      | Inr (x, d') \<Rightarrow>
          if engine COMMIT d' \<noteq> None then (Inl (name @ '': commit failed''), d) else (Inr x, d'))"

text \<open>A single statement outside a transaction commits on its own.\<close>

definition autocommit :: "db \<Rightarrow> string + db \<Rightarrow> unit action" where
  "autocommit d r = (case r of Inl e \<Rightarrow> (Inl e, d) | Inr d' \<Rightarrow> (Inr (), d'))"

definition autocommit_row :: "db \<Rightarrow> string + ('a \<times> db) \<Rightarrow> 'a action" where
  "autocommit_row d r = (case r of Inl e \<Rightarrow> (Inl e, d) | Inr (x, d') \<Rightarrow> (Inr x, d'))"

section \<open>MessageRepository: storing messages\<close>

definition assignUID :: "engine \<Rightarrow> db \<Rightarrow> message \<Rightarrow> int \<Rightarrow> message action" where
  "assignUID engine d msg fid =
     transaction engine d ''assignUID''
       (\<lambda>d. case FolderDAL_findByID engine d fid of
          None \<Rightarrow> Inl ''assignUID: folder not found''
        | Some f \<Rightarrow>
            (case MessageDAL_insert engine d (msg\<lparr>m_folder_id := fid, m_uid := f_next_uid f\<rparr>) of
               Inl e \<Rightarrow> Inl e
             | Inr (msg', d') \<Rightarrow>
                 (case FolderDAL_incrementNextUID engine d' fid of
                    Inl e \<Rightarrow> Inl e
                  | Inr d'' \<Rightarrow> Inr (msg', d''))))"

definition deliver :: "engine \<Rightarrow> db \<Rightarrow> message \<Rightarrow> int \<Rightarrow> message action" where
  "deliver engine d msg fid =
     (let target = (if fid \<le> 0
                    then (case FolderDAL_findByName engine d (m_user_id msg) ''INBOX'' of
                            None \<Rightarrow> None | Some inbox \<Rightarrow> Some (the (f_id inbox)))
                    else Some fid)
      in case target of
           None \<Rightarrow> (Inl ''deliver: INBOX not found for user'', d)
         | Some fid' \<Rightarrow>
             assignUID engine d (msg\<lparr>m_is_seen := False, m_is_recent := True, m_is_draft := False\<rparr>) fid')"

definition saveToFolder :: "engine \<Rightarrow> db \<Rightarrow> message \<Rightarrow> int \<Rightarrow> message action" where
  "saveToFolder engine d msg fid =
     assignUID engine d (msg\<lparr>m_is_seen := True, m_is_recent := False\<rparr>) fid"

definition append_message :: "engine \<Rightarrow> db \<Rightarrow> message \<Rightarrow> int \<Rightarrow> message action" where
  "append_message engine d msg fid = assignUID engine d msg fid"

section \<open>MessageRepository: flags\<close>

definition markSeen :: "engine \<Rightarrow> db \<Rightarrow> int \<Rightarrow> bool \<Rightarrow> unit action" where
  "markSeen engine d i seen = autocommit d (MessageDAL_updateSeen engine d i seen)"

definition markDeleted :: "engine \<Rightarrow> db \<Rightarrow> int \<Rightarrow> bool \<Rightarrow> unit action" where
  "markDeleted engine d i deleted = autocommit d (MessageDAL_updateDeleted engine d i deleted)"

definition markFlagged :: "engine \<Rightarrow> db \<Rightarrow> int \<Rightarrow> bool \<Rightarrow> unit action" where
  "markFlagged engine d i flagged =
     (case MessageDAL_findByID engine d i of
        None \<Rightarrow> (Inl ''markFlagged: message not found'', d)
      | Some m \<Rightarrow> autocommit d (MessageDAL_updateFlags engine d i (m_is_seen m) (m_is_deleted m)
                    (m_is_draft m) (m_is_answered m) flagged (m_is_recent m)))"

definition markAnswered :: "engine \<Rightarrow> db \<Rightarrow> int \<Rightarrow> bool \<Rightarrow> unit action" where
  "markAnswered engine d i answered =
     (case MessageDAL_findByID engine d i of
        None \<Rightarrow> (Inl ''markAnswered: message not found'', d)
      | Some m \<Rightarrow> autocommit d (MessageDAL_updateFlags engine d i (m_is_seen m) (m_is_deleted m)
                    (m_is_draft m) answered (m_is_flagged m) (m_is_recent m)))"

definition markDraft :: "engine \<Rightarrow> db \<Rightarrow> int \<Rightarrow> bool \<Rightarrow> unit action" where
  "markDraft engine d i draft =
     (case MessageDAL_findByID engine d i of
        None \<Rightarrow> (Inl ''markDraft: message not found'', d)
      | Some m \<Rightarrow> autocommit d (MessageDAL_updateFlags engine d i (m_is_seen m) (m_is_deleted m)
                    draft (m_is_answered m) (m_is_flagged m) (m_is_recent m)))"

definition updateFlags ::
  "engine \<Rightarrow> db \<Rightarrow> int \<Rightarrow> bool \<Rightarrow> bool \<Rightarrow> bool \<Rightarrow> bool \<Rightarrow> bool \<Rightarrow> bool \<Rightarrow> unit action" where
  "updateFlags engine d i seen deleted draft answered flagged recent =
     autocommit d (MessageDAL_updateFlags engine d i seen deleted draft answered flagged recent)"

text \<open>The system flags by name.\<close>

definition flag_Seen :: string where
  "flag_Seen = BSLASH # ''Seen''"

definition flag_Deleted :: string where
  "flag_Deleted = BSLASH # ''Deleted''"

definition flag_Draft :: string where
  "flag_Draft = BSLASH # ''Draft''"

definition flag_Answered :: string where
  "flag_Answered = BSLASH # ''Answered''"

definition flag_Flagged :: string where
  "flag_Flagged = BSLASH # ''Flagged''"

definition flag_Recent :: string where
  "flag_Recent = BSLASH # ''Recent''"

lemmas flag_name_defs = flag_Seen_def flag_Deleted_def flag_Draft_def flag_Answered_def flag_Flagged_def flag_Recent_def

lemma flag_names_neq [simp]:
  "flag_Seen \<noteq> flag_Deleted" "flag_Seen \<noteq> flag_Draft" "flag_Seen \<noteq> flag_Answered"
  "flag_Seen \<noteq> flag_Flagged" "flag_Seen \<noteq> flag_Recent" "flag_Deleted \<noteq> flag_Seen"
  "flag_Deleted \<noteq> flag_Draft" "flag_Deleted \<noteq> flag_Answered" "flag_Deleted \<noteq> flag_Flagged"
  "flag_Deleted \<noteq> flag_Recent" "flag_Draft \<noteq> flag_Seen" "flag_Draft \<noteq> flag_Deleted"
  "flag_Draft \<noteq> flag_Answered" "flag_Draft \<noteq> flag_Flagged" "flag_Draft \<noteq> flag_Recent"
  "flag_Answered \<noteq> flag_Seen" "flag_Answered \<noteq> flag_Deleted" "flag_Answered \<noteq> flag_Draft"
  "flag_Answered \<noteq> flag_Flagged" "flag_Answered \<noteq> flag_Recent" "flag_Flagged \<noteq> flag_Seen"
  "flag_Flagged \<noteq> flag_Deleted" "flag_Flagged \<noteq> flag_Draft" "flag_Flagged \<noteq> flag_Answered"
  "flag_Flagged \<noteq> flag_Recent" "flag_Recent \<noteq> flag_Seen" "flag_Recent \<noteq> flag_Deleted"
  "flag_Recent \<noteq> flag_Draft" "flag_Recent \<noteq> flag_Answered" "flag_Recent \<noteq> flag_Flagged"
  by (simp_all add: flag_name_defs)

text \<open>The six flag variables of \<^verbatim>\<open>setFlags\<close>.\<close>

record flag_set =
  fl_seen :: bool
  fl_deleted :: bool
  fl_draft :: bool
  fl_answered :: bool
  fl_flagged :: bool
  fl_recent :: bool

definition no_flags :: flag_set where
  "no_flags = \<lparr>fl_seen = False, fl_deleted = False, fl_draft = False, fl_answered = False,
     fl_flagged = False, fl_recent = False\<rparr>"

definition flags_of :: "message \<Rightarrow> flag_set" where
  "flags_of m = \<lparr>fl_seen = m_is_seen m, fl_deleted = m_is_deleted m, fl_draft = m_is_draft m,
     fl_answered = m_is_answered m, fl_flagged = m_is_flagged m, fl_recent = m_is_recent m\<rparr>"

definition has_flag_prefix :: "string \<Rightarrow> bool" where
  "has_flag_prefix flag \<longleftrightarrow> flag \<noteq> [] \<and> (hd flag = CHR ''+'' \<or> hd flag = CHR ''-'')"

definition apply_flag :: "string \<Rightarrow> flag_set \<Rightarrow> string + flag_set" where
  "apply_flag flag s =
     (let v = (flag = [] \<or> hd flag \<noteq> CHR ''-'');
          name = (if has_flag_prefix flag then tl flag else flag)
      in if name = flag_Seen then Inr (s\<lparr>fl_seen := v\<rparr>)
         else if name = flag_Deleted then Inr (s\<lparr>fl_deleted := v\<rparr>)
         else if name = flag_Draft then Inr (s\<lparr>fl_draft := v\<rparr>)
         else if name = flag_Answered then Inr (s\<lparr>fl_answered := v\<rparr>)
         else if name = flag_Flagged then Inr (s\<lparr>fl_flagged := v\<rparr>)
         else if name = flag_Recent then Inr (s\<lparr>fl_recent := v\<rparr>)
         else Inl (''setFlags: unknown flag '' @ [CHR 0x27] @ name @ [CHR 0x27]))"

fun apply_flags :: "string list \<Rightarrow> flag_set \<Rightarrow> string + flag_set" where
  "apply_flags [] s = Inr s"
| "apply_flags (f # fs) s = (case apply_flag f s of Inl e \<Rightarrow> Inl e | Inr s' \<Rightarrow> apply_flags fs s')"

definition setFlags :: "engine \<Rightarrow> db \<Rightarrow> int \<Rightarrow> string list \<Rightarrow> unit action" where
  "setFlags engine d i flags =
     (case MessageDAL_findByID engine d i of
        None \<Rightarrow> (Inl ''setFlags: message not found'', d)
      | Some m \<Rightarrow>
          (case apply_flags flags (if list_ex has_flag_prefix flags then flags_of m else no_flags) of
             Inl e \<Rightarrow> (Inl e, d)
           | Inr s \<Rightarrow> autocommit d (MessageDAL_updateFlags engine d i (fl_seen s) (fl_deleted s)
                        (fl_draft s) (fl_answered s) (fl_flagged s) (fl_recent s))))"

section \<open>MessageRepository: moving, copying, deleting\<close>

definition moveToFolder_locked :: "engine \<Rightarrow> db \<Rightarrow> folder \<Rightarrow> int \<Rightarrow> int \<Rightarrow> unit action" where
  "moveToFolder_locked engine d folder i fid =
     transaction engine d ''moveToFolder''
       (\<lambda>d. case MessageDAL_moveToFolder engine d i fid (f_next_uid folder) of
          Inl e \<Rightarrow> Inl e
        | Inr d' \<Rightarrow>
            (case FolderDAL_incrementNextUID engine d' fid of Inl e \<Rightarrow> Inl e | Inr d'' \<Rightarrow> Inr ((), d'')))"

definition moveToFolder :: "engine \<Rightarrow> db \<Rightarrow> int \<Rightarrow> int \<Rightarrow> unit action" where
  "moveToFolder engine d i fid =
     (case FolderDAL_findByID engine d fid of
        None \<Rightarrow> (Inl ''moveToFolder: folder not found'', d)
      | Some folder \<Rightarrow> moveToFolder_locked engine d folder i fid)"

definition INT_MAX :: int where
  "INT_MAX = 2147483647"

fun delete_each :: "engine \<Rightarrow> db \<Rightarrow> message list \<Rightarrow> string + db" where
  "delete_each engine d [] = Inr d"
| "delete_each engine d (m # ms) =
     (case m_id m of
        None \<Rightarrow> delete_each engine d ms
      | Some i \<Rightarrow>
          (case MessageDAL_hardDelete engine d i of
             Inl e \<Rightarrow> Inl e
           | Inr d' \<Rightarrow> delete_each engine d' ms))"

definition expunge_locked :: "engine \<Rightarrow> db \<Rightarrow> message list \<Rightarrow> unit action" where
  "expunge_locked engine d deleted =
     transaction engine d ''expunge''
       (\<lambda>d. case delete_each engine d deleted of Inl e \<Rightarrow> Inl e | Inr d' \<Rightarrow> Inr ((), d'))"

definition expunge :: "engine \<Rightarrow> db \<Rightarrow> int \<Rightarrow> unit action" where
  "expunge engine d fid = expunge_locked engine d (MessageDAL_findDeleted engine d fid INT_MAX 0)"

definition hardDelete :: "engine \<Rightarrow> db \<Rightarrow> int \<Rightarrow> unit action" where
  "hardDelete engine d i =
     (case MessageDAL_findByID engine d i of
        None \<Rightarrow> (Inl ''hardDelete: message not found'', d)
      | Some _ \<Rightarrow> autocommit d (MessageDAL_hardDelete engine d i))"

definition copy_recipient_error :: "string \<Rightarrow> string" where
  "copy_recipient_error e =
     ''copy: failed to copy recipient '' @ [CHR 0xE2, CHR 0x80, CHR 0x94] @ '' '' @ e"

fun copy_recipients :: "engine \<Rightarrow> db \<Rightarrow> int \<Rightarrow> recipient list \<Rightarrow> string + db" where
  "copy_recipients engine d mid [] = Inr d"
| "copy_recipients engine d mid (r # rs) =
     (case RecipientDAL_insert engine d (r\<lparr>r_id := None, r_message_id := mid\<rparr>) of
        Inl e \<Rightarrow> Inl (copy_recipient_error e)
      | Inr (_, d') \<Rightarrow> copy_recipients engine d' mid rs)"

definition copy_locked ::
  "engine \<Rightarrow> db \<Rightarrow> message \<Rightarrow> folder \<Rightarrow> recipient list \<Rightarrow> int \<Rightarrow> message action" where
  "copy_locked engine d msg folder recipients fid =
     transaction engine d ''copy''
       (\<lambda>d. case MessageDAL_insert engine d
                  (msg\<lparr>m_id := None, m_folder_id := fid, m_uid := f_next_uid folder\<rparr>) of
          Inl e \<Rightarrow> Inl e
        | Inr (copy, d') \<Rightarrow>
            (case copy_recipients engine d' (the (m_id copy)) recipients of
               Inl e \<Rightarrow> Inl e
             | Inr d'' \<Rightarrow>
                 (case FolderDAL_incrementNextUID engine d'' fid of
                    Inl e \<Rightarrow> Inl e
                  | Inr d''' \<Rightarrow> Inr (copy, d'''))))"

definition copy_message :: "engine \<Rightarrow> db \<Rightarrow> int \<Rightarrow> int \<Rightarrow> message action" where
  "copy_message engine d i fid =
     (case MessageDAL_findByID engine d i of
        None \<Rightarrow> (Inl ''copy: message not found'', d)
      | Some msg \<Rightarrow>
          (case FolderDAL_findByID engine d fid of
             None \<Rightarrow> (Inl ''copy: target folder not found'', d)
           | Some folder \<Rightarrow>
               copy_locked engine d msg folder (RecipientDAL_findByMessage engine d i) fid))"

section \<open>MessageRepository: folders\<close>

definition createFolder :: "engine \<Rightarrow> db \<Rightarrow> folder \<Rightarrow> folder action" where
  "createFolder engine d f =
     (if f_name f = [] then (Inl ''createFolder: folder name cannot be empty'', d)
      else if FolderDAL_findByName engine d (f_user_id f) (f_name f) \<noteq> None
      then (Inl (''createFolder: folder '' @ [CHR 0x27] @ f_name f @ [CHR 0x27] @ '' already exists''), d)
      else autocommit_row d (FolderDAL_insert engine d f))"

definition renameFolder_locked :: "engine \<Rightarrow> db \<Rightarrow> folder \<Rightarrow> string \<Rightarrow> unit action" where
  "renameFolder_locked engine d folder new_name =
     autocommit d (FolderDAL_update engine d (folder\<lparr>f_name := new_name\<rparr>))"

definition renameFolder :: "engine \<Rightarrow> db \<Rightarrow> int \<Rightarrow> string \<Rightarrow> unit action" where
  "renameFolder engine d i new_name =
     (if new_name = [] then (Inl ''renameFolder: new name cannot be empty'', d)
      else case FolderDAL_findByID engine d i of
        None \<Rightarrow> (Inl ''renameFolder: folder not found'', d)
      | Some folder \<Rightarrow>
          (case FolderDAL_findByName engine d (f_user_id folder) new_name of
             Some existing \<Rightarrow>
               if f_id existing \<noteq> f_id folder
               then (Inl (''renameFolder: folder '' @ [CHR 0x27] @ new_name @ [CHR 0x27] @ '' already exists''), d)
               else renameFolder_locked engine d folder new_name
           | None \<Rightarrow> renameFolder_locked engine d folder new_name))"

definition deleteFolder :: "engine \<Rightarrow> db \<Rightarrow> int \<Rightarrow> unit action" where
  "deleteFolder engine d i =
     (case FolderDAL_findByID engine d i of
        None \<Rightarrow> (Inl ''deleteFolder: folder not found'', d)
      | Some _ \<Rightarrow> autocommit d (FolderDAL_hardDelete engine d i))"

definition incrementNextUID :: "engine \<Rightarrow> db \<Rightarrow> int \<Rightarrow> unit action" where
  "incrementNextUID engine d i =
     (case FolderDAL_findByID engine d i of
        None \<Rightarrow> (Inl ''incrementNextUID: folder not found'', d)
      | Some _ \<Rightarrow> autocommit d (FolderDAL_incrementNextUID engine d i))"

definition clearRecentByFolder :: "engine \<Rightarrow> db \<Rightarrow> int \<Rightarrow> unit action" where
  "clearRecentByFolder engine d i =
     (case FolderDAL_findByID engine d i of
        None \<Rightarrow> (Inl ''clearRecentByFolder: folder not found'', d)
      | Some _ \<Rightarrow> autocommit d (MessageDAL_clearRecentByFolder engine d i))"

definition closeFolder :: "engine \<Rightarrow> db \<Rightarrow> int \<Rightarrow> unit action" where
  "closeFolder engine d i =
     (case expunge engine d i of
        (Inl e, d') \<Rightarrow> (Inl e, d')
      | (Inr _, d') \<Rightarrow> autocommit d' (MessageDAL_clearRecentByFolder engine d' i))"

definition setSubscribed :: "engine \<Rightarrow> db \<Rightarrow> int \<Rightarrow> bool \<Rightarrow> unit action" where
  "setSubscribed engine d i subscribed =
     (case FolderDAL_findByID engine d i of
        None \<Rightarrow> (Inl ''setSubscribed: folder not found'', d)
      | Some _ \<Rightarrow> autocommit d (FolderDAL_setSubscribed engine d i subscribed))"

section \<open>MessageRepository: recipients\<close>

definition addRecipient :: "engine \<Rightarrow> db \<Rightarrow> recipient \<Rightarrow> recipient action" where
  "addRecipient engine d r =
     (if MessageDAL_findByID engine d (r_message_id r) = None
      then (Inl ''addRecipient: message not found'', d)
      else if r_address r = [] then (Inl ''addRecipient: address cannot be empty'', d)
      else autocommit_row d (RecipientDAL_insert engine d r))"

definition removeRecipient :: "engine \<Rightarrow> db \<Rightarrow> int \<Rightarrow> unit action" where
  "removeRecipient engine d i =
     (if RecipientDAL_findByID engine d i = None
      then (Inl ''removeRecipient: recipient not found'', d)
      else autocommit d (RecipientDAL_hardDelete engine d i))"

section \<open>UserRepository\<close>

definition hashPassword :: "(string \<Rightarrow> string option) \<Rightarrow> string \<Rightarrow> string" where
  "hashPassword pwhash password =
     (case pwhash password of None \<Rightarrow> [] | Some h \<Rightarrow> c_text h)"

fun create_folders :: "engine \<Rightarrow> db \<Rightarrow> int \<Rightarrow> string list \<Rightarrow> string option \<times> db" where
  "create_folders engine d uid [] = (None, d)"
| "create_folders engine d uid (name # names) =
     (case FolderDAL_insert engine d
             \<lparr>f_id = None, f_user_id = uid, f_parent_id = None, f_name = name, f_next_uid = 1,
              f_is_subscribed = True\<rparr> of
        Inl e \<Rightarrow> (Some e, d)
      | Inr (_, d') \<Rightarrow> create_folders engine d' uid names)"

definition default_folders :: "string list" where
  "default_folders = [''INBOX'', ''Sent'', ''Drafts'', ''Trash'', ''Spam'']"

definition registerUser ::
  "(string \<Rightarrow> string option) \<Rightarrow> engine \<Rightarrow> db \<Rightarrow> user \<Rightarrow> string \<Rightarrow> user action" where
  "registerUser pwhash engine d u password =
     (if UserDAL_findByUsername engine d (u_username u) \<noteq> None
      then (Inl ''registerUser: username already exists'', d)
      else let u1 = u\<lparr>u_password_hash := hashPassword pwhash password\<rparr> in
        if u_password_hash u1 = [] then (Inl ''registerUser: password hashing failed'', d)
        else case UserDAL_insert engine d u1 of
          Inl e \<Rightarrow> (Inl e, d)
        | Inr (u2, d1) \<Rightarrow>
            (case create_folders engine d1 (the (u_id u2)) default_folders of
               (Some e, d2) \<Rightarrow> (Inl e, d2)
             | (None, d2) \<Rightarrow> (Inr u2, d2)))"

definition authorize ::
  "(string \<Rightarrow> string \<Rightarrow> bool) \<Rightarrow> engine \<Rightarrow> db \<Rightarrow> string \<Rightarrow> string \<Rightarrow> string + unit" where
  "authorize verify engine d username password =
     (case UserDAL_findByUsername engine d username of
        None \<Rightarrow> Inl ''authorize: user not found''
      | Some u \<Rightarrow> if verify (c_text (u_password_hash u)) password then Inr ()
                  else Inl ''authorize: invalid credentials'')"

definition changePassword ::
  "(string \<Rightarrow> string option) \<Rightarrow> engine \<Rightarrow> db \<Rightarrow> int \<Rightarrow> string \<Rightarrow> unit action" where
  "changePassword pwhash engine d i new_password =
     (case UserDAL_findByID engine d i of
        None \<Rightarrow> (Inl ''changePassword: user not found'', d)
      | Some _ \<Rightarrow> autocommit d (UserDAL_updatePassword engine d i (hashPassword pwhash new_password)))"

definition update_user :: "engine \<Rightarrow> db \<Rightarrow> user \<Rightarrow> unit action" where
  "update_user engine d u = autocommit d (UserDAL_update engine d u)"

definition hardDelete_user :: "engine \<Rightarrow> db \<Rightarrow> int \<Rightarrow> unit action" where
  "hardDelete_user engine d i =
     (case UserDAL_findByID engine d i of
        None \<Rightarrow> (Inl ''hardDelete: user not found'', d)
      | Some _ \<Rightarrow> autocommit d (UserDAL_hardDelete engine d i))"

definition updateProfile ::
  "engine \<Rightarrow> db \<Rightarrow> int \<Rightarrow> string option \<Rightarrow> string option \<Rightarrow> string option \<Rightarrow> unit action" where
  "updateProfile engine d i first_name last_name birthdate =
     autocommit d (UserDAL_updateProfile engine d i first_name last_name birthdate)"

definition updateAvatar :: "engine \<Rightarrow> db \<Rightarrow> int \<Rightarrow> string option \<Rightarrow> unit action" where
  "updateAvatar engine d i avatar = autocommit d (UserDAL_updateAvatar engine d i avatar)"

end
