(* ===== verification/Store_Invariant.thy ===== *)
theory Store_Invariant
  imports Repository
begin

text \<open>
  The integrity of the mail store: the invariant of the four tables, and that each statement
  of the data access layer keeps it. Row identifiers are distinct and were handed out by the
  AUTOINCREMENT counter, user names are unique, every foreign key refers to a row, the pair of
  folder and UID is unique and every UID lies below the \<^verbatim>\<open>next_uid\<close> of its folder. Between the
  INSERT and the increment of \<^verbatim>\<open>assignUID\<close> and \<^verbatim>\<open>copy\<close> the last condition is one short in
  one folder, the \<open>pending\<close> one.
\<close>

section \<open>The invariant\<close>

definition ids_ok :: "int \<Rightarrow> int option list \<Rightarrow> bool" where
  "ids_ok n ids \<longleftrightarrow> 0 \<le> n \<and> distinct ids \<and>
     (\<forall>x \<in> set ids. case x of None \<Rightarrow> False | Some i \<Rightarrow> 0 < i \<and> i \<le> n)"

definition users_ok :: "db \<Rightarrow> bool" where
  "users_ok d \<longleftrightarrow> ids_ok (seq_users d) (map u_id (db_users d)) \<and> distinct (map u_username (db_users d))"

definition folder_ok :: "db \<Rightarrow> folder \<Rightarrow> bool" where
  "folder_ok d f \<longleftrightarrow> user_exists d (f_user_id f) \<and>
     (case f_parent_id f of None \<Rightarrow> True | Some p \<Rightarrow> folder_exists d p) \<and> 1 \<le> f_next_uid f"

definition folders_ok :: "db \<Rightarrow> bool" where
  "folders_ok d \<longleftrightarrow> ids_ok (seq_folders d) (map f_id (db_folders d)) \<and> list_all (folder_ok d) (db_folders d)"

definition uid_ok :: "int option \<Rightarrow> folder list \<Rightarrow> int \<Rightarrow> int \<Rightarrow> bool" where
  "uid_ok pending fs fid uid \<longleftrightarrow>
     (\<exists>f \<in> set fs. f_id f = Some fid \<and> 1 \<le> uid \<and>
        (if pending = Some fid then uid \<le> f_next_uid f else uid < f_next_uid f))"

definition message_ok :: "int option \<Rightarrow> db \<Rightarrow> message \<Rightarrow> bool" where
  "message_ok pending d m \<longleftrightarrow>
     user_exists d (m_user_id m) \<and> uid_ok pending (db_folders d) (m_folder_id m) (m_uid m)"

definition messages_ok :: "int option \<Rightarrow> db \<Rightarrow> bool" where
  "messages_ok pending d \<longleftrightarrow>
     ids_ok (seq_messages d) (map m_id (db_messages d)) \<and>
     distinct (map (\<lambda>m. (m_folder_id m, m_uid m)) (db_messages d)) \<and>
     list_all (message_ok pending d) (db_messages d)"

definition recipients_ok :: "db \<Rightarrow> bool" where
  "recipients_ok d \<longleftrightarrow>
     ids_ok (seq_recipients d) (map r_id (db_recipients d)) \<and>
     list_all (\<lambda>r. message_exists d (r_message_id r)) (db_recipients d)"

definition store_inv :: "int option \<Rightarrow> db \<Rightarrow> bool" where
  "store_inv pending d \<longleftrightarrow> users_ok d \<and> folders_ok d \<and> messages_ok pending d \<and> recipients_ok d"

abbreviation db_inv :: "db \<Rightarrow> bool" where
  "db_inv \<equiv> store_inv None"

lemmas inv_defs = store_inv_def users_ok_def folders_ok_def messages_ok_def recipients_ok_def
  folder_ok_def message_ok_def

text \<open>The columns the invariant reads, and where each table's existence test looks.\<close>

definition user_core :: "user \<Rightarrow> int option \<times> string" where
  "user_core u = (u_id u, u_username u)"

definition folder_core :: "folder \<Rightarrow> int option \<times> int \<times> int option \<times> int" where
  "folder_core f = (f_id f, f_user_id f, f_parent_id f, f_next_uid f)"

definition message_core :: "message \<Rightarrow> int option \<times> int \<times> int \<times> int" where
  "message_core m = (m_id m, m_user_id m, m_folder_id m, m_uid m)"

lemma user_exists_ids: "user_exists d i \<longleftrightarrow> Some i \<in> set (map u_id (db_users d))"
  by (force simp: user_exists_def image_iff)

lemma folder_exists_ids: "folder_exists d i \<longleftrightarrow> Some i \<in> set (map f_id (db_folders d))"
  by (force simp: folder_exists_def image_iff)

lemma message_exists_ids: "message_exists d i \<longleftrightarrow> Some i \<in> set (map m_id (db_messages d))"
  by (force simp: message_exists_def image_iff)

lemmas exists_ids = user_exists_ids folder_exists_ids message_exists_ids

lemma map_core_ids:
  "map core xs = map core ys \<Longrightarrow> (\<And>x. k x = g (core x)) \<Longrightarrow> map k xs = map k ys"
  by (metis (mono_tags, lifting) map_map comp_apply map_ext)

lemma list_all_core:
  "map core xs = map core ys \<Longrightarrow> (\<And>x. P x \<longleftrightarrow> Q (core x)) \<Longrightarrow> list_all P xs \<longleftrightarrow> list_all P ys"
  by (metis (mono_tags, lifting) list.pred_map comp_apply list.pred_cong)

lemma set_update_where [simp]:
  "set (update_where P f rows) = (\<lambda>r. if P r then f r else r) ` set rows"
  by (simp add: update_where_def)

lemma list_all_update_where:
  "list_all Q (update_where P f rows) \<longleftrightarrow> list_all (\<lambda>r. Q (if P r then f r else r)) rows"
  by (simp add: update_where_def list.pred_map comp_def)

lemma map_update_where:
  "(\<And>r. r \<in> set rows \<Longrightarrow> P r \<Longrightarrow> k (f r) = k r) \<Longrightarrow> map k (update_where P f rows) = map k rows"
  by (simp add: update_where_def)

lemma ids_ok_snoc:
  "ids_ok n ids \<Longrightarrow> ids_ok (n + 1) (ids @ [Some (n + 1)])"
  by (auto simp: ids_ok_def split: option.splits)

lemma ids_ok_filter: "ids_ok n (map k rows) \<Longrightarrow> ids_ok n (map k (filter P rows))"
  by (auto simp: ids_ok_def distinct_map_filter)

lemma ids_ok_SomeE:
  assumes "ids_ok n (map k rows)" "r \<in> set rows"
  obtains i where "k r = Some i" "0 < i" "i \<le> n"
  using assms by (force simp: ids_ok_def split: option.splits)

lemma ids_ok_inj:
  "ids_ok n (map k rows) \<Longrightarrow> r \<in> set rows \<Longrightarrow> r' \<in> set rows \<Longrightarrow> k r = k r' \<Longrightarrow> r = r'"
  by (auto simp: ids_ok_def distinct_map dest: inj_onD)

section \<open>Writes that keep the columns of the invariant\<close>

lemma uid_ok_core:
  assumes "map folder_core fs = map folder_core fs'"
  shows "uid_ok p fs fid uid \<longleftrightarrow> uid_ok p fs' fid uid"
proof -
  have img: "folder_core ` set fs = folder_core ` set fs'"
    using arg_cong [OF assms, of set] by simp
  have all: "(\<exists>f \<in> set gs. Q (folder_core f)) \<longleftrightarrow> (\<exists>x \<in> folder_core ` set gs. Q x)" for gs Q
    by simp
  have *: "(\<exists>f \<in> set fs. Q (folder_core f)) \<longleftrightarrow> (\<exists>f \<in> set fs'. Q (folder_core f))" for Q
    unfolding all img ..
  show ?thesis
    unfolding uid_ok_def
    using * [of "\<lambda>(i, _, _, n). i = Some fid \<and> 1 \<le> uid \<and>
      (if p = Some fid then uid \<le> n else uid < n)"]
    by (simp add: folder_core_def)
qed

lemma store_inv_cong:
  assumes users: "map user_core (db_users d') = map user_core (db_users d)"
    and folders: "map folder_core (db_folders d') = map folder_core (db_folders d)"
    and messages: "map message_core (db_messages d') = map message_core (db_messages d)"
    and recipients: "db_recipients d' = db_recipients d"
    and seqs: "seq_users d' = seq_users d" "seq_folders d' = seq_folders d"
      "seq_messages d' = seq_messages d" "seq_recipients d' = seq_recipients d"
    and inv: "store_inv p d"
  shows "store_inv p d'"
proof -
  have ids: "map u_id (db_users d') = map u_id (db_users d)"
    "map u_username (db_users d') = map u_username (db_users d)"
    "map f_id (db_folders d') = map f_id (db_folders d)"
    "map m_id (db_messages d') = map m_id (db_messages d)"
    "map (\<lambda>m. (m_folder_id m, m_uid m)) (db_messages d') = map (\<lambda>m. (m_folder_id m, m_uid m)) (db_messages d)"
    using map_core_ids [OF users, of u_id fst] map_core_ids [OF users, of u_username snd]
      map_core_ids [OF folders, of f_id fst] map_core_ids [OF messages, of m_id fst]
      map_core_ids [OF messages, of "\<lambda>m. (m_folder_id m, m_uid m)" "\<lambda>(_, _, f, u). (f, u)"]
    by (simp_all add: user_core_def folder_core_def message_core_def)
  have ex: "user_exists d' = user_exists d" "folder_exists d' = folder_exists d"
    "message_exists d' = message_exists d"
    by (auto simp: exists_ids ids fun_eq_iff simp del: set_map)
  have fs: "list_all (folder_ok d) (db_folders d') \<longleftrightarrow> list_all (folder_ok d) (db_folders d)"
    by (rule list_all_core [OF folders, of _ "\<lambda>(_, u, q, n). user_exists d u \<and>
          (case q of None \<Rightarrow> True | Some p \<Rightarrow> folder_exists d p) \<and> 1 \<le> n"])
      (simp add: folder_core_def folder_ok_def)
  have ms: "list_all (message_ok p d) (db_messages d') \<longleftrightarrow> list_all (message_ok p d) (db_messages d)"
    by (rule list_all_core [OF messages, of _ "\<lambda>(_, u, f, n). user_exists d u \<and> uid_ok p (db_folders d) f n"])
      (simp add: message_core_def message_ok_def)
  have ok: "folder_ok d' = folder_ok d" "message_ok p d' = message_ok p d"
    by (auto simp: fun_eq_iff folder_ok_def message_ok_def ex uid_ok_core [OF folders] split: option.splits)
  show ?thesis
    using inv by (simp add: store_inv_def users_ok_def folders_ok_def messages_ok_def recipients_ok_def
        ids seqs recipients ex fs ms ok)
qed

lemma inv_update_messages:
  assumes "store_inv p d" "\<And>m. m \<in> set (db_messages d) \<Longrightarrow> P m \<Longrightarrow> message_core (f m) = message_core m"
  shows "store_inv p (d\<lparr>db_messages := update_where P f (db_messages d)\<rparr>)"
  by (rule store_inv_cong [where d = d]) (simp_all add: map_update_where assms)

lemma inv_update_users:
  assumes "store_inv p d" "\<And>u. u \<in> set (db_users d) \<Longrightarrow> P u \<Longrightarrow> user_core (f u) = user_core u"
  shows "store_inv p (d\<lparr>db_users := update_where P f (db_users d)\<rparr>)"
  by (rule store_inv_cong [where d = d]) (simp_all add: map_update_where assms)

lemma inv_update_folders:
  assumes "store_inv p d" "\<And>f. f \<in> set (db_folders d) \<Longrightarrow> P f \<Longrightarrow> folder_core (g f) = folder_core f"
  shows "store_inv p (d\<lparr>db_folders := update_where P g (db_folders d)\<rparr>)"
  by (rule store_inv_cong [where d = d]) (simp_all add: map_update_where assms)

lemma run_write_Inr [simp]:
  "run_write engine q d v x = Inr y \<longleftrightarrow> engine (RUN q) d = None \<and> v = None \<and> x = y"
  by (auto simp: run_write_def split: option.splits)

lemma run_write_cases:
  "(\<exists>e. run_write engine q d v x = Inl e) \<or> run_write engine q d v x = Inr x"
  by (auto simp: run_write_def split: option.splits)

lemma updateSeen_inv: "MessageDAL_updateSeen engine d i b = Inr d' \<Longrightarrow> store_inv p d \<Longrightarrow> store_inv p d'"
  by (auto simp: MessageDAL_updateSeen_def message_core_def intro!: inv_update_messages)

lemma updateDeleted_inv: "MessageDAL_updateDeleted engine d i b = Inr d' \<Longrightarrow> store_inv p d \<Longrightarrow> store_inv p d'"
  by (auto simp: MessageDAL_updateDeleted_def message_core_def intro!: inv_update_messages)

lemma updateFlags_inv:
  "MessageDAL_updateFlags engine d i a b c e f g = Inr d' \<Longrightarrow> store_inv p d \<Longrightarrow> store_inv p d'"
  by (auto simp: MessageDAL_updateFlags_def message_core_def set_flag_columns_def intro!: inv_update_messages)

lemma clearRecent_inv: "MessageDAL_clearRecentByFolder engine d i = Inr d' \<Longrightarrow> store_inv p d \<Longrightarrow> store_inv p d'"
  by (auto simp: MessageDAL_clearRecentByFolder_def message_core_def intro!: inv_update_messages)

lemma setSubscribed_inv: "FolderDAL_setSubscribed engine d i b = Inr d' \<Longrightarrow> store_inv p d \<Longrightarrow> store_inv p d'"
  by (auto simp: FolderDAL_setSubscribed_def folder_core_def intro!: inv_update_folders)

lemma updatePassword_inv: "UserDAL_updatePassword engine d i h = Inr d' \<Longrightarrow> store_inv p d \<Longrightarrow> store_inv p d'"
  by (auto simp: UserDAL_updatePassword_def user_core_def intro!: inv_update_users)

lemma updateProfile_inv: "UserDAL_updateProfile engine d i x y z = Inr d' \<Longrightarrow> store_inv p d \<Longrightarrow> store_inv p d'"
  by (auto simp: UserDAL_updateProfile_def user_core_def intro!: inv_update_users)

lemma updateAvatar_inv: "UserDAL_updateAvatar engine d i x = Inr d' \<Longrightarrow> store_inv p d \<Longrightarrow> store_inv p d'"
  by (auto simp: UserDAL_updateAvatar_def user_core_def intro!: inv_update_users)

section \<open>Inserts\<close>

text \<open>Each part of the invariant depends on its own table and, monotonically, on the others.\<close>

lemma users_ok_frame:
  "users_ok d \<Longrightarrow> db_users d' = db_users d \<Longrightarrow> seq_users d' = seq_users d \<Longrightarrow> users_ok d'"
  by (simp add: users_ok_def)

lemma folders_ok_frame:
  assumes "folders_ok d" "db_folders d' = db_folders d" "seq_folders d' = seq_folders d"
    "\<And>i. user_exists d i \<Longrightarrow> user_exists d' i"
  shows "folders_ok d'"
  using assms by (auto simp: folders_ok_def folder_ok_def folder_exists_def list_all_iff split: option.splits)

lemma messages_ok_frame:
  assumes "messages_ok p d" "db_messages d' = db_messages d" "seq_messages d' = seq_messages d"
    "\<And>i. user_exists d i \<Longrightarrow> user_exists d' i"
    "\<And>f u. uid_ok p (db_folders d) f u \<Longrightarrow> uid_ok q (db_folders d') f u"
  shows "messages_ok q d'"
  using assms by (auto simp: messages_ok_def message_ok_def list_all_iff)

lemma recipients_ok_frame:
  assumes "recipients_ok d" "db_recipients d' = db_recipients d" "seq_recipients d' = seq_recipients d"
    "\<And>i. message_exists d i \<Longrightarrow> message_exists d' i"
  shows "recipients_ok d'"
  using assms by (auto simp: recipients_ok_def list_all_iff)

lemma user_insert_inv:
  assumes "UserDAL_insert engine d u = Inr (u', d')" "store_inv p d"
  shows "store_inv p d'"
proof -
  let ?row = "(user_row u)\<lparr>u_id := Some (seq_users d + 1)\<rparr>"
  have d': "d' = d\<lparr>db_users := db_users d @ [?row], seq_users := seq_users d + 1\<rparr>"
    and fresh: "u_username ?row \<notin> u_username ` set (db_users d)"
    using assms(1) by (auto simp: UserDAL_insert_def Let_def split: if_splits)
  have "users_ok d'" using assms(2) fresh ids_ok_snoc by (auto simp: inv_defs d')
  then show ?thesis
    using assms(2) users_ok_frame [of d d'] folders_ok_frame [of d d']
      messages_ok_frame [of p d d' p] recipients_ok_frame [of d d']
    by (simp add: store_inv_def d' user_exists_def message_exists_def)
qed

lemma folder_insert_inv:
  assumes "FolderDAL_insert engine d f = Inr (f', d')" "store_inv p d" "1 \<le> f_next_uid f"
  shows "store_inv p d'"
proof -
  let ?row = "f\<lparr>f_id := Some (seq_folders d + 1), f_name := c_text (f_name f)\<rparr>"
  have d': "d' = d\<lparr>db_folders := db_folders d @ [?row], seq_folders := seq_folders d + 1\<rparr>"
    and fk: "folder_fk d f = None"
    using assms(1) by (auto simp: FolderDAL_insert_def Let_def)
  have db: "db_folders d' = db_folders d @ [?row]" "seq_folders d' = seq_folders d + 1" by (simp_all add: d')
  have row: "folder_ok d' ?row"
    using fk assms(3) by (auto simp: folder_fk_def folder_ok_def d' user_exists_def folder_exists_def
        split: if_splits option.splits)
  have old: "folder_ok d g \<Longrightarrow> folder_ok d' g" for g
    by (auto simp: folder_ok_def d' user_exists_def folder_exists_def split: option.splits)
  have "folders_ok d'"
    using assms(2) row old ids_ok_snoc by (auto simp: store_inv_def folders_ok_def list_all_iff db)
  then show ?thesis
    using assms(2) users_ok_frame [of d d'] folders_ok_frame [of d d']
      messages_ok_frame [of p d d' p] recipients_ok_frame [of d d']
    by (auto simp: store_inv_def d' user_exists_def message_exists_def uid_ok_def)
qed

lemma message_insert_inv:
  assumes "MessageDAL_insert engine d m = Inr (m', d')" "db_inv d"
    and uid: "\<exists>f \<in> set (db_folders d). f_id f = Some (m_folder_id m) \<and> f_next_uid f = m_uid m"
  shows "store_inv (Some (m_folder_id m)) d'"
proof -
  let ?row = "(message_row m)\<lparr>m_id := Some (seq_messages d + 1)\<rparr>"
  have d': "d' = d\<lparr>db_messages := db_messages d @ [?row], seq_messages := seq_messages d + 1\<rparr>"
    and v: "message_violation d (db_messages d) (m_user_id m) (m_folder_id m) (m_uid m) = None"
    using assms(1) by (auto simp: MessageDAL_insert_def Let_def)
  have fresh: "(m_folder_id m, m_uid m) \<notin> (\<lambda>m. (m_folder_id m, m_uid m)) ` set (db_messages d)"
    "user_exists d (m_user_id m)"
    using v by (auto simp: message_violation_def split: if_splits)
  have db: "db_messages d' = db_messages d @ [?row]" "seq_messages d' = seq_messages d + 1" by (simp_all add: d')
  have up: "message_ok None d n \<Longrightarrow> message_ok (Some (m_folder_id m)) d' n" for n
    by (force simp: message_ok_def uid_ok_def user_exists_def d' split: if_splits)
  obtain f where f: "f \<in> set (db_folders d)" "f_id f = Some (m_folder_id m)" "f_next_uid f = m_uid m"
    using uid by blast
  then have "1 \<le> m_uid m"
    using assms(2) by (auto simp: store_inv_def folders_ok_def folder_ok_def list_all_iff)
  then have "uid_ok (Some (m_folder_id m)) (db_folders d) (m_folder_id m) (m_uid m)"
    using f by (auto simp: uid_ok_def)
  then have row: "message_ok (Some (m_folder_id m)) d' ?row"
    using fresh(2) by (simp add: message_ok_def user_exists_def d' message_row_def)
  have "messages_ok (Some (m_folder_id m)) d'"
    using assms(2) row up fresh(1) ids_ok_snoc
    by (auto simp: store_inv_def messages_ok_def list_all_iff db message_row_def)
  then show ?thesis
    using assms(2) users_ok_frame [of d d'] folders_ok_frame [of d d'] recipients_ok_frame [of d d']
    by (auto simp: store_inv_def d' user_exists_def message_exists_def)
qed

lemma recipient_insert_inv:
  assumes "RecipientDAL_insert engine d r = Inr (r', d')" "store_inv p d"
  shows "store_inv p d'"
proof -
  let ?row = "(recipient_row r)\<lparr>r_id := Some (seq_recipients d + 1)\<rparr>"
  have d': "d' = d\<lparr>db_recipients := db_recipients d @ [?row], seq_recipients := seq_recipients d + 1\<rparr>"
    and ex: "message_exists d (r_message_id r)"
    using assms(1) by (auto simp: RecipientDAL_insert_def Let_def split: if_splits)
  have "recipients_ok d'"
    using assms(2) ex ids_ok_snoc
    by (auto simp: store_inv_def recipients_ok_def list_all_iff message_exists_def d' recipient_row_def)
  then show ?thesis
    using assms(2) users_ok_frame [of d d'] folders_ok_frame [of d d']
      messages_ok_frame [of p d d' p] recipients_ok_frame [of d d']
    by (auto simp: store_inv_def d' user_exists_def)
qed

section \<open>Counters, moves and replacements\<close>

lemma increment_inv:
  assumes "FolderDAL_incrementNextUID engine d i = Inr d'" "store_inv p d" "p = None \<or> p = Some i"
  shows "db_inv d'"
proof -
  let ?up = "update_where (\<lambda>g. f_id g = Some i) (\<lambda>g. g\<lparr>f_next_uid := f_next_uid g + 1\<rparr>)"
  have d': "d' = d\<lparr>db_folders := ?up (db_folders d)\<rparr>"
    using assms(1) by (auto simp: FolderDAL_incrementNextUID_def)
  have fs: "db_folders d' = ?up (db_folders d)" "seq_folders d' = seq_folders d" by (simp_all add: d')
  have ids: "map f_id (?up (db_folders d)) = map f_id (db_folders d)" by (rule map_update_where) simp
  have ex: "folder_exists d' = folder_exists d" by (simp add: fun_eq_iff folder_exists_ids ids d' del: set_map)
  have "uid_ok None (?up fs) f u" if "uid_ok p fs f u" for fs f u
  proof -
    from that obtain g where "g \<in> set fs" "f_id g = Some f" "1 \<le> u"
      "if p = Some f then u \<le> f_next_uid g else u < f_next_uid g" by (auto simp: uid_ok_def)
    then show ?thesis
      using assms(3) unfolding uid_ok_def set_update_where bex_simps
      by (intro bexI [where x = g]) (auto split: if_splits)
  qed
  then have "messages_ok None d'"
    using assms(2) messages_ok_frame [of p d d' None] by (auto simp: store_inv_def d' user_exists_def)
  moreover have users: "user_exists d' = user_exists d" by (simp add: fun_eq_iff user_exists_def d')
  have "folder_ok d' (if f_id g = Some i then g\<lparr>f_next_uid := f_next_uid g + 1\<rparr> else g)" if "folder_ok d g" for g
    using that by (simp add: folder_ok_def ex users split: option.splits)
  then have "folders_ok d'"
    using assms(2) list.pred_mono_strong [of "folder_ok d" "db_folders d"]
    by (simp add: store_inv_def folders_ok_def fs ids list_all_update_where)
  ultimately show ?thesis
    using assms(2) users_ok_frame [of d d'] recipients_ok_frame [of d d'] by (auto simp: store_inv_def d' message_exists_def)
qed

lemma distinct_update_where:
  assumes "distinct (map key rows)" "distinct (map k rows)"
    and "\<And>r. r \<in> set rows \<Longrightarrow> \<not> P r \<Longrightarrow> k r \<noteq> v" "\<And>r. P r \<Longrightarrow> k (f r) = v" "\<And>r. P r \<longleftrightarrow> key r = i"
  shows "distinct (map k (update_where P f rows))"
  using assms(1-3)
proof (induction rows)
  case (Cons r rows)
  let ?h = "\<lambda>r. if P r then f r else r"
  have IH: "distinct (map (\<lambda>x. k (?h x)) rows)" using Cons by (simp add: update_where_def comp_def)
  show ?case
  proof (cases "P r")
    case True
    then have "\<forall>x \<in> set rows. \<not> P x" using Cons.prems(1) assms(5) by (auto simp: image_iff)
    then have "k (?h x) = k x \<and> k x \<noteq> v" if "x \<in> set rows" for x using that Cons.prems(3) by simp
    then show ?thesis using IH True assms(4) by (force simp: update_where_def comp_def)
  next
    case False
    have "k (?h x) \<noteq> k r" if "x \<in> set rows" for x
      using that Cons.prems(2) Cons.prems(3) [of r] False assms(4) [of x] by (cases "P x") (auto simp: image_iff)
    then show ?thesis using IH False by (force simp: update_where_def comp_def)
  qed
qed (simp add: update_where_def)

lemma move_inv:
  assumes "MessageDAL_moveToFolder engine d i fid uid = Inr d'" "db_inv d"
    and f: "f \<in> set (db_folders d)" "f_id f = Some fid" "f_next_uid f = uid"
  shows "store_inv (Some fid) d'"
proof -
  let ?up = "update_where (\<lambda>n. m_id n = Some i) (\<lambda>n. n\<lparr>m_folder_id := fid, m_uid := uid\<rparr>)"
  have d': "d' = d\<lparr>db_messages := ?up (db_messages d)\<rparr>"
    using assms(1) by (auto simp: MessageDAL_moveToFolder_def)
  have clash: "(m_folder_id n, m_uid n) \<noteq> (fid, uid)" if "n \<in> set (db_messages d)" "m_id n \<noteq> Some i" for n
    using that assms(2) f ids_ok_inj [of _ f_id "db_folders d" f]
    by (fastforce simp: store_inv_def messages_ok_def list_all_iff message_ok_def uid_ok_def folders_ok_def)
  have ids: "map m_id (?up (db_messages d)) = map m_id (db_messages d)" by (rule map_update_where) simp
  have "distinct (map (\<lambda>m. (m_folder_id m, m_uid m)) (?up (db_messages d)))"
    by (rule distinct_update_where [where key = m_id and v = "(fid, uid)" and i = "Some i"])
      (use assms(2) clash in \<open>auto simp: store_inv_def messages_ok_def ids_ok_def\<close>)
  moreover have "1 \<le> uid" using assms(2) f by (auto simp: store_inv_def folders_ok_def folder_ok_def list_all_iff)
  then have "uid_ok (Some fid) (db_folders d) fid uid" using f by (auto simp: uid_ok_def)
  moreover have "uid_ok (Some fid) (db_folders d) g u" if "uid_ok None (db_folders d) g u" for g u
    using that by (force simp: uid_ok_def)
  ultimately have "messages_ok (Some fid) d'"
    using assms(2) by (auto simp: store_inv_def messages_ok_def list_all_iff message_ok_def d' ids user_exists_def)
  then show ?thesis
    using assms(2) users_ok_frame [of d d'] folders_ok_frame [of d d'] recipients_ok_frame [of d d']
    by (auto simp: store_inv_def d' message_exists_ids ids user_exists_def simp del: set_map)
qed

lemma user_update_inv:
  assumes "UserDAL_update engine d u = Inr d'" "store_inv p d"
  shows "store_inv p d'"
proof -
  obtain i where i: "u_id u = Some i" using assms(1) by (auto simp: UserDAL_update_def split: option.splits)
  let ?up = "update_where (\<lambda>v. u_id v = Some i) (\<lambda>_. user_row u)"
  have d': "d' = d\<lparr>db_users := ?up (db_users d)\<rparr>"
    and unique: "user_exists d i \<Longrightarrow> v \<in> set (db_users d) \<Longrightarrow> u_id v \<noteq> Some i \<Longrightarrow> u_username v \<noteq> c_text (u_username u)" for v
    using assms(1) by (auto simp: UserDAL_update_def i user_exists_def split: if_splits)
  have ids: "map u_id (?up (db_users d)) = map u_id (db_users d)"
    by (rule map_update_where) (simp add: user_row_def i)
  have "distinct (map u_username (?up (db_users d)))"
  proof (cases "user_exists d i")
    case True
    then show ?thesis
      by (intro distinct_update_where [where key = u_id and v = "c_text (u_username u)" and i = "Some i"])
        (use assms(2) unique in \<open>auto simp: store_inv_def users_ok_def ids_ok_def user_row_def\<close>)
  next
    case False
    then have "?up (db_users d) = db_users d" by (auto simp: update_where_def user_exists_def intro!: map_idI)
    then show ?thesis using assms(2) by (simp add: store_inv_def users_ok_def)
  qed
  then have "users_ok d'" using assms(2) by (simp add: store_inv_def users_ok_def d' ids)
  then show ?thesis
    using assms(2) folders_ok_frame [of d d'] messages_ok_frame [of p d d' p] recipients_ok_frame [of d d']
    by (auto simp: store_inv_def d' user_exists_ids ids message_exists_def simp del: set_map)
qed

lemma folder_update_inv:
  assumes "FolderDAL_update engine d f = Inr d'" "store_inv p d"
    and same: "\<And>g. g \<in> set (db_folders d) \<Longrightarrow> f_id g = f_id f \<Longrightarrow> folder_core g = folder_core f"
  shows "store_inv p d'"
proof -
  obtain i where i: "f_id f = Some i" using assms(1) by (auto simp: FolderDAL_update_def split: option.splits)
  have d': "d' = d\<lparr>db_folders := update_where (\<lambda>g. f_id g = Some i) (\<lambda>_. f\<lparr>f_name := c_text (f_name f)\<rparr>) (db_folders d)\<rparr>"
    using assms(1) by (auto simp: FolderDAL_update_def i)
  show ?thesis
    unfolding d' using assms(2) same i by (intro inv_update_folders) (auto simp: folder_core_def)
qed

section \<open>Cascading deletes\<close>

definition closed_below :: "folder list \<Rightarrow> int set \<Rightarrow> bool" where
  "closed_below fs S \<longleftrightarrow>
     (\<forall>f \<in> set fs. \<forall>i p. f_id f = Some i \<longrightarrow> f_parent_id f = Some p \<longrightarrow> p \<in> S \<longrightarrow> i \<in> S)"

lemma set_child_ids:
  "set (child_ids fs ids) = {i. \<exists>f \<in> set fs. f_id f = Some i \<and> (\<exists>p \<in> set ids. f_parent_id f = Some p)}"
  unfolding child_ids_def by (auto split: option.splits if_splits)

lemma closed_below_child_ids: "closed_below fs (set ids) \<longleftrightarrow> set (child_ids fs ids) \<subseteq> set ids"
  unfolding set_child_ids closed_below_def by blast

lemma folder_closure_closed:
  "closed_below fs (set ids) \<Longrightarrow> set (folder_closure n fs ids) = set ids"
proof (induction n arbitrary: ids)
  case (Suc n)
  then have "set (remdups (ids @ child_ids fs ids)) = set ids"
    unfolding closed_below_child_ids by auto
  then show ?case using Suc.IH [of "remdups (ids @ child_ids fs ids)"] Suc.prems by simp
qed simp

lemma folder_closure_seeds: "set ids \<subseteq> set (folder_closure n fs ids)"
proof (induction n arbitrary: ids)
  case (Suc n)
  then show ?case using Suc.IH [of "remdups (ids @ child_ids fs ids)"] by auto
qed simp

lemma folder_closure_grows:
  fixes fs
  defines "F \<equiv> {i. \<exists>f \<in> set fs. f_id f = Some i}"
  shows "closed_below fs (set (folder_closure n fs ids)) \<or> n < card (F - set ids)"
proof (induction n arbitrary: ids)
  have fin: "finite F" unfolding F_def by (rule finite_subset [of _ "(the \<circ> f_id) ` set fs"]) force+
  have new: "\<exists>i. i \<in> set (child_ids fs ids) \<and> i \<in> F - set ids" if "\<not> closed_below fs (set ids)" for ids
    using that unfolding closed_below_def set_child_ids F_def by blast
  {
    case 0
    then show ?case using new fin by (auto simp: card_gt_0_iff)
  next
    case (Suc n)
    let ?next = "remdups (ids @ child_ids fs ids)"
    show ?case
    proof (cases "closed_below fs (set ids)")
      case True
      then show ?thesis using folder_closure_closed [OF True, of "Suc n"] by simp
    next
      case False
      then obtain i where "i \<in> set (child_ids fs ids)" "i \<in> F - set ids" using new by blast
      then have "F - set ?next \<subset> F - set ids" by auto
      then have "card (F - set ?next) < card (F - set ids)" using fin by (intro psubset_card_mono) auto
      then show ?thesis using Suc.IH [of ?next] by auto
    qed
  }
qed

lemma folder_closure_saturated: "closed_below fs (set (folder_closure (length fs) fs ids))"
proof -
  let ?F = "{i. \<exists>f \<in> set fs. f_id f = Some i}"
  have "?F - set ids \<subseteq> set (map (the \<circ> f_id) fs)" by force
  then have "card (?F - set ids) \<le> card (set (map (the \<circ> f_id) fs))" by (intro card_mono) auto
  also have "\<dots> \<le> length fs" using card_length [of "map (the \<circ> f_id) fs"] by simp
  finally have "card (?F - set ids) \<le> length fs" .
  then show ?thesis using folder_closure_grows [of fs "length fs" ids] by auto
qed

lemma delete_messages_inv:
  assumes "store_inv p d"
  shows "store_inv p (delete_messages P d)"
proof -
  let ?d = "delete_messages P d"
  have keep: "message_exists ?d (r_message_id r)"
    if "r \<in> set (db_recipients ?d)" for r
    using that assms by (auto simp: delete_messages_def store_inv_def recipients_ok_def list_all_iff message_exists_def)
      blast
  have "messages_ok p ?d"
    using assms by (auto simp: store_inv_def messages_ok_def list_all_iff message_ok_def user_exists_def
        delete_messages_def ids_ok_filter distinct_map_filter)
  moreover have "recipients_ok ?d"
    using assms keep by (auto simp: store_inv_def recipients_ok_def list_all_iff)
      (auto simp: delete_messages_def ids_ok_filter)
  ultimately show ?thesis
    using assms users_ok_frame [of d ?d] folders_ok_frame [of d ?d]
    by (auto simp: store_inv_def delete_messages_def user_exists_def)
qed

lemma delete_folders_inv:
  assumes "store_inv p d"
  shows "store_inv p (delete_folders ids d)"
proof -
  let ?gone = "set (folder_closure (length (db_folders d)) (db_folders d) ids)"
  let ?d1 = "delete_messages (\<lambda>m. m_folder_id m \<in> ?gone) d" and ?d = "delete_folders ids d"
  let ?keep = "\<lambda>f. case f_id f of Some i \<Rightarrow> i \<notin> ?gone | None \<Rightarrow> True"
  have d: "?d = ?d1\<lparr>db_folders := filter ?keep (db_folders d)\<rparr>" by (simp add: delete_folders_def Let_def)
  have inv1: "store_inv p ?d1" by (rule delete_messages_inv [OF assms])
  have same: "db_folders ?d1 = db_folders d" "user_exists ?d = user_exists d" "user_exists ?d1 = user_exists d"
    by (simp_all add: d delete_messages_def user_exists_def fun_eq_iff)
  have parent: "folder_exists ?d q" if t: "f \<in> set (db_folders ?d)" "f_parent_id f = Some q" for f q
  proof -
    from t have f: "f \<in> set (db_folders d)" "?keep f" by (auto simp: d)
    obtain i where i: "f_id f = Some i"
      using assms f ids_ok_SomeE [of "seq_folders d" f_id "db_folders d" f] by (auto simp: store_inv_def folders_ok_def)
    obtain g where g: "g \<in> set (db_folders d)" "f_id g = Some q"
      using assms f t(2) by (fastforce simp: store_inv_def folders_ok_def list_all_iff folder_ok_def folder_exists_def)
    have "q \<notin> ?gone"
      using folder_closure_saturated [of "db_folders d" ids] f i t(2) by (auto simp: closed_below_def)
    then show ?thesis using g by (force simp: d folder_exists_def)
  qed
  have "folders_ok ?d"
    using assms parent same by (fastforce simp: store_inv_def folders_ok_def list_all_iff folder_ok_def
        ids_ok_filter split: option.splits simp: d delete_messages_def)
  moreover have "uid_ok p (db_folders ?d) (m_folder_id m) (m_uid m)"
    if "m \<in> set (db_messages ?d1)" "uid_ok p (db_folders d) (m_folder_id m) (m_uid m)" for m
    using that by (fastforce simp: d uid_ok_def delete_messages_def)
  then have "messages_ok p ?d"
    using inv1 same by (auto simp: store_inv_def messages_ok_def list_all_iff message_ok_def) (auto simp: d)
  ultimately show ?thesis
    using inv1 users_ok_frame [of ?d1 ?d] recipients_ok_frame [of ?d1 ?d]
    by (auto simp: store_inv_def d message_exists_def)
qed

lemma delete_user_inv:
  assumes "store_inv p d"
  shows "store_inv p (delete_user i d)"
proof -
  let ?own = "own_folder_ids i (db_folders d)"
  let ?d1 = "delete_folders ?own d"
  let ?d2 = "delete_messages (\<lambda>m. m_user_id m = i) ?d1" and ?d = "delete_user i d"
  have inv2: "store_inv p ?d2" by (intro delete_messages_inv delete_folders_inv assms)
  have d: "?d = ?d2\<lparr>db_users := filter (\<lambda>u. u_id u \<noteq> Some i) (db_users d)\<rparr>"
    by (simp add: delete_user_def Let_def)
  have users: "db_users ?d2 = db_users d" "seq_users ?d2 = seq_users d"
    by (simp_all add: delete_messages_def delete_folders_def Let_def)
  have ex: "user_exists ?d2 j \<Longrightarrow> j \<noteq> i \<Longrightarrow> user_exists ?d j" for j
    by (auto simp: d users user_exists_def)
  have fo: "f_user_id f \<noteq> i" if "f \<in> set (db_folders ?d2)" for f
  proof
    assume "f_user_id f = i"
    have f: "f \<in> set (db_folders d)" and keep: "\<And>j. f_id f = Some j \<Longrightarrow> j \<notin> set ?own"
      using that folder_closure_seeds [of ?own "length (db_folders d)" "db_folders d"]
      by (auto simp: delete_messages_def delete_folders_def Let_def)
    obtain j where "f_id f = Some j"
      using assms f ids_ok_SomeE [of "seq_folders d" f_id "db_folders d" f] by (auto simp: store_inv_def folders_ok_def)
    then show False using keep f \<open>f_user_id f = i\<close> by (force simp: own_folder_ids_def)
  qed
  have mo: "m_user_id m \<noteq> i" if "m \<in> set (db_messages ?d2)" for m
    using that by (simp add: delete_messages_def)
  have "users_ok ?d"
    using assms by (auto simp: store_inv_def users_ok_def d users ids_ok_filter distinct_map_filter
      delete_messages_def delete_folders_def Let_def)
  moreover have "folders_ok ?d"
    using inv2 ex fo by (auto simp: store_inv_def folders_ok_def list_all_iff folder_ok_def folder_exists_def
        split: option.splits simp: d)
  moreover have "messages_ok p ?d"
    using inv2 ex mo by (auto simp: store_inv_def messages_ok_def list_all_iff message_ok_def) (auto simp: d)
  ultimately show ?thesis
    using inv2 recipients_ok_frame [of ?d2 ?d] by (auto simp: store_inv_def d message_exists_def)
qed

lemma hardDelete_recipient_inv:
  assumes "store_inv p d"
  shows "store_inv p (d\<lparr>db_recipients := filter Q (db_recipients d)\<rparr>)"
  using assms users_ok_frame [of d "d\<lparr>db_recipients := filter Q (db_recipients d)\<rparr>"]
    folders_ok_frame [of d "d\<lparr>db_recipients := filter Q (db_recipients d)\<rparr>"]
    messages_ok_frame [of p d "d\<lparr>db_recipients := filter Q (db_recipients d)\<rparr>" p]
  by (auto simp: store_inv_def recipients_ok_def ids_ok_filter list_all_iff user_exists_def message_exists_def)

end
