(* ===== verification/Repository_Laws.thy ===== *)
theory Repository_Laws
  imports Store_Invariant
begin

text \<open>
  What the repositories promise their clients: every call keeps the integrity of the store
  (\<open>db_inv\<close>), a failed transaction leaves no trace, and a UID once used in a folder is never
  given to another message. The calls are collected in \<open>repo_call\<close>, so that an interleaving of
  the requests of several connections, which the write lock serialises, is a list of calls.
\<close>

section \<open>Calls\<close>

datatype repo_call =
    Deliver message int | SaveToFolder message int | Append message int
  | MarkSeen int bool | MarkDeleted int bool | MarkFlagged int bool | MarkAnswered int bool
  | MarkDraft int bool | UpdateFlags int bool bool bool bool bool bool | SetFlags int "string list"
  | MoveToFolder int int | Expunge int | HardDelete int | Copy int int
  | CreateFolder int "int option" string bool | RenameFolder int string | DeleteFolder int
  | IncrementNextUID int | ClearRecent int | CloseFolder int | SetSubscribed int bool
  | AddRecipient recipient | RemoveRecipient int
  | RegisterUser user string | ChangePassword int string | UpdateUser user | DeleteUser int
  | UpdateProfile int "string option" "string option" "string option" | UpdateAvatar int "string option"

text \<open>The folders the servers create start at the default \<^verbatim>\<open>next_uid = 1\<close> of \<^verbatim>\<open>Folder.h\<close>.\<close>

definition new_folder :: "int \<Rightarrow> int option \<Rightarrow> string \<Rightarrow> bool \<Rightarrow> folder" where
  "new_folder uid parent name subscribed =
     \<lparr>f_id = None, f_user_id = uid, f_parent_id = parent, f_name = name, f_next_uid = 1,
      f_is_subscribed = subscribed\<rparr>"

fun exec_call :: "(string \<Rightarrow> string option) \<Rightarrow> engine \<Rightarrow> repo_call \<Rightarrow> db \<Rightarrow> db" where
  "exec_call pwhash engine (Deliver m f) d = snd (deliver engine d m f)"
| "exec_call pwhash engine (SaveToFolder m f) d = snd (saveToFolder engine d m f)"
| "exec_call pwhash engine (Append m f) d = snd (append_message engine d m f)"
| "exec_call pwhash engine (MarkSeen i b) d = snd (markSeen engine d i b)"
| "exec_call pwhash engine (MarkDeleted i b) d = snd (markDeleted engine d i b)"
| "exec_call pwhash engine (MarkFlagged i b) d = snd (markFlagged engine d i b)"
| "exec_call pwhash engine (MarkAnswered i b) d = snd (markAnswered engine d i b)"
| "exec_call pwhash engine (MarkDraft i b) d = snd (markDraft engine d i b)"
| "exec_call pwhash engine (UpdateFlags i a b c e f g) d = snd (updateFlags engine d i a b c e f g)"
| "exec_call pwhash engine (SetFlags i fs) d = snd (setFlags engine d i fs)"
| "exec_call pwhash engine (MoveToFolder i f) d = snd (moveToFolder engine d i f)"
| "exec_call pwhash engine (Expunge f) d = snd (expunge engine d f)"
| "exec_call pwhash engine (HardDelete i) d = snd (hardDelete engine d i)"
| "exec_call pwhash engine (Copy i f) d = snd (copy_message engine d i f)"
| "exec_call pwhash engine (CreateFolder u p n s) d = snd (createFolder engine d (new_folder u p n s))"
| "exec_call pwhash engine (RenameFolder i n) d = snd (renameFolder engine d i n)"
| "exec_call pwhash engine (DeleteFolder i) d = snd (deleteFolder engine d i)"
| "exec_call pwhash engine (IncrementNextUID i) d = snd (incrementNextUID engine d i)"
| "exec_call pwhash engine (ClearRecent i) d = snd (clearRecentByFolder engine d i)"
| "exec_call pwhash engine (CloseFolder i) d = snd (closeFolder engine d i)"
| "exec_call pwhash engine (SetSubscribed i b) d = snd (setSubscribed engine d i b)"
| "exec_call pwhash engine (AddRecipient r) d = snd (addRecipient engine d r)"
| "exec_call pwhash engine (RemoveRecipient i) d = snd (removeRecipient engine d i)"
| "exec_call pwhash engine (RegisterUser u p) d = snd (registerUser pwhash engine d u p)"
| "exec_call pwhash engine (ChangePassword i p) d = snd (changePassword pwhash engine d i p)"
| "exec_call pwhash engine (UpdateUser u) d = snd (update_user engine d u)"
| "exec_call pwhash engine (DeleteUser i) d = snd (hardDelete_user engine d i)"
| "exec_call pwhash engine (UpdateProfile i a b c) d = snd (updateProfile engine d i a b c)"
| "exec_call pwhash engine (UpdateAvatar i a) d = snd (updateAvatar engine d i a)"

section \<open>UIDs only grow\<close>

text \<open>
  \<open>uid_extends d d'\<close>: from \<open>d\<close> to \<open>d'\<close> no folder's \<^verbatim>\<open>next_uid\<close> fell, a folder of \<open>d'\<close> is one of
  \<open>d\<close> or has a fresh identifier, and a message of \<open>d'\<close> was in the same place in \<open>d\<close> or has a UID
  that was not yet given out there.
\<close>

definition same_place :: "message \<Rightarrow> message \<Rightarrow> bool" where
  "same_place m n \<longleftrightarrow> m_id m = m_id n \<and> m_folder_id m = m_folder_id n \<and> m_uid m = m_uid n"

definition folders_extend :: "db \<Rightarrow> db \<Rightarrow> bool" where
  "folders_extend d d' \<longleftrightarrow> seq_folders d \<le> seq_folders d' \<and>
     (\<forall>g \<in> set (db_folders d'). (\<exists>f \<in> set (db_folders d). f_id f = f_id g \<and> f_next_uid f \<le> f_next_uid g) \<or>
        (\<exists>i. f_id g = Some i \<and> seq_folders d < i))"

definition messages_extend :: "db \<Rightarrow> db \<Rightarrow> bool" where
  "messages_extend d d' \<longleftrightarrow>
     (\<forall>n \<in> set (db_messages d'). (\<exists>m \<in> set (db_messages d). same_place m n) \<or>
        (\<forall>f \<in> set (db_folders d). f_id f = Some (m_folder_id n) \<longrightarrow> f_next_uid f \<le> m_uid n))"

definition uid_extends :: "db \<Rightarrow> db \<Rightarrow> bool" where
  "uid_extends d d' \<longleftrightarrow> folders_extend d d' \<and> messages_extend d d'"

lemma uid_extends_refl [simp]: "uid_extends d d"
  by (auto simp: uid_extends_def folders_extend_def messages_extend_def same_place_def)

lemma folders_extend_trans:
  assumes "folders_extend d1 d2" "folders_extend d2 d3"
  shows "folders_extend d1 d3"
  unfolding folders_extend_def
proof (intro conjI ballI)
  show "seq_folders d1 \<le> seq_folders d3" using assms by (auto simp: folders_extend_def)
next
  fix h assume "h \<in> set (db_folders d3)"
  then consider g where "g \<in> set (db_folders d2)" "f_id g = f_id h" "f_next_uid g \<le> f_next_uid h"
    | i where "f_id h = Some i" "seq_folders d2 < i"
    using assms(2) by (auto simp: folders_extend_def)
  then show "(\<exists>f \<in> set (db_folders d1). f_id f = f_id h \<and> f_next_uid f \<le> f_next_uid h) \<or>
      (\<exists>i. f_id h = Some i \<and> seq_folders d1 < i)"
  proof cases
    case 1
    then show ?thesis using assms(1) unfolding folders_extend_def by (metis order_trans)
  next
    case 2
    then show ?thesis using assms(1) unfolding folders_extend_def by force
  qed
qed

lemma uid_extends_trans:
  assumes ext: "uid_extends d1 d2" "uid_extends d2 d3" and inv: "store_inv p d1" "store_inv q d3"
  shows "uid_extends d1 d3"
proof -
  have "messages_extend d1 d3" unfolding messages_extend_def
  proof
    fix n assume n: "n \<in> set (db_messages d3)"
    show "(\<exists>m \<in> set (db_messages d1). same_place m n) \<or>
        (\<forall>f \<in> set (db_folders d1). f_id f = Some (m_folder_id n) \<longrightarrow> f_next_uid f \<le> m_uid n)"
    proof (cases "\<exists>m \<in> set (db_messages d2). same_place m n")
      case True
      then show ?thesis using ext(1) by (fastforce simp: uid_extends_def messages_extend_def same_place_def)
    next
      case False
      have "f_next_uid f \<le> m_uid n" if f: "f \<in> set (db_folders d1)" "f_id f = Some (m_folder_id n)" for f
      proof -
        have "m_folder_id n \<le> seq_folders d1"
          using inv(1) f ids_ok_SomeE [of "seq_folders d1" f_id "db_folders d1" f]
          by (auto simp: store_inv_def folders_ok_def)
        moreover obtain h where "h \<in> set (db_folders d3)" "f_id h = Some (m_folder_id n)"
          using inv(2) n by (auto simp: store_inv_def messages_ok_def list_all_iff message_ok_def uid_ok_def)
        moreover have "seq_folders d1 \<le> seq_folders d2" using ext(1) by (simp add: uid_extends_def folders_extend_def)
        ultimately obtain g where g: "g \<in> set (db_folders d2)" "f_id g = Some (m_folder_id n)"
          using ext(2) by (fastforce simp: uid_extends_def folders_extend_def)
        have "f_next_uid g \<le> m_uid n"
          using ext(2) n False g by (auto simp: uid_extends_def messages_extend_def)
        moreover have "f_next_uid f \<le> f_next_uid g"
          using ext(1) g f \<open>m_folder_id n \<le> seq_folders d1\<close> inv(1) ids_ok_inj [of "seq_folders d1" f_id "db_folders d1"]
          by (fastforce simp: uid_extends_def folders_extend_def store_inv_def folders_ok_def)
        ultimately show ?thesis by simp
      qed
      then show ?thesis by blast
    qed
  qed
  then show ?thesis using ext folders_extend_trans by (auto simp: uid_extends_def)
qed

section \<open>Every call is a step\<close>

definition store_step :: "db \<Rightarrow> db \<Rightarrow> bool" where
  "store_step d d' \<longleftrightarrow> db_inv d' \<and> uid_extends d d'"

lemma store_step_refl: "db_inv d \<Longrightarrow> store_step d d"
  by (simp add: store_step_def)

lemma uid_extends_keep:
  assumes "seq_folders d' = seq_folders d"
    and "\<And>g. g \<in> set (db_folders d') \<Longrightarrow> \<exists>f \<in> set (db_folders d). f_id f = f_id g \<and> f_next_uid f \<le> f_next_uid g"
    and "\<And>n. n \<in> set (db_messages d') \<Longrightarrow> \<exists>m \<in> set (db_messages d). same_place m n"
  shows "uid_extends d d'"
  using assms unfolding uid_extends_def folders_extend_def messages_extend_def by simp

lemma uid_extends_other:
  "seq_folders d' = seq_folders d \<Longrightarrow> set (db_folders d') \<subseteq> set (db_folders d) \<Longrightarrow>
   set (db_messages d') \<subseteq> set (db_messages d) \<Longrightarrow> uid_extends d d'"
  by (rule uid_extends_keep) (auto simp: same_place_def)

lemma uid_extends_messages:
  assumes "\<And>m. P m \<Longrightarrow> message_core (f m) = message_core m"
  shows "uid_extends d (d\<lparr>db_messages := update_where P f (db_messages d)\<rparr>)"
proof (rule uid_extends_keep)
  fix n assume "n \<in> set (db_messages (d\<lparr>db_messages := update_where P f (db_messages d)\<rparr>))"
  then obtain m where "m \<in> set (db_messages d)" "n = (if P m then f m else m)" by (auto simp: update_where_def)
  then show "\<exists>m \<in> set (db_messages d). same_place m n"
    using assms [of m] by (auto simp: message_core_def same_place_def split: if_splits)
qed auto

lemma uid_extends_folders:
  assumes "\<And>g. P g \<Longrightarrow> g \<in> set (db_folders d) \<Longrightarrow> f_id (h g) = f_id g \<and> f_next_uid g \<le> f_next_uid (h g)"
  shows "uid_extends d (d\<lparr>db_folders := update_where P h (db_folders d)\<rparr>)"
proof (rule uid_extends_keep)
  fix k assume "k \<in> set (db_folders (d\<lparr>db_folders := update_where P h (db_folders d)\<rparr>))"
  then obtain g where "g \<in> set (db_folders d)" "k = (if P g then h g else g)" by (auto simp: update_where_def)
  then show "\<exists>f \<in> set (db_folders d). f_id f = f_id k \<and> f_next_uid f \<le> f_next_uid k"
    using assms [of g] by (auto split: if_splits)
qed (auto simp: same_place_def)

lemma transaction_cases:
  obtains (fail) e where "transaction engine d name body = (Inl e, d)"
  | (commit) x d' where "body d = Inr (x, d')" "transaction engine d name body = (Inr x, d')"
  unfolding transaction_def
  by (cases "engine BEGIN_IMMEDIATE d = None"; cases "body d"; fastforce split: if_splits prod.splits)

lemma transaction_Inr: "transaction engine d name body = (Inr x, d') \<Longrightarrow> body d = Inr (x, d')"
  by (cases rule: transaction_cases [of engine d name body]) auto

lemma transaction_Inl: "transaction engine d name body = (Inl e, d') \<Longrightarrow> d' = d"
  by (cases rule: transaction_cases [of engine d name body]) auto

lemma transaction_step:
  assumes "db_inv d" "\<And>x d'. body d = Inr (x, d') \<Longrightarrow> store_step d d'"
  shows "store_step d (snd (transaction engine d name body))"
  using assms by (cases rule: transaction_cases [of engine d name body]) (simp_all add: store_step_refl)

lemma autocommit_step:
  assumes "db_inv d" "\<And>d'. r = Inr d' \<Longrightarrow> store_step d d'"
  shows "store_step d (snd (autocommit d r))"
  using assms by (auto simp: autocommit_def store_step_refl split: sum.split)

lemma autocommit_row_step:
  assumes "db_inv d" "\<And>x d'. r = Inr (x, d') \<Longrightarrow> store_step d d'"
  shows "store_step d (snd (autocommit_row d r))"
  using assms by (auto simp: autocommit_row_def store_step_refl split: sum.split)

lemma read_one_SomeD: "read_one engine q d rows = Some r \<Longrightarrow> r \<in> set rows"
  by (auto simp: read_one_def split: if_splits list.splits)

lemma find_folder_SomeD:
  "FolderDAL_findByID engine d i = Some f \<Longrightarrow> f \<in> set (db_folders d) \<and> f_id f = Some i"
  by (auto simp: FolderDAL_findByID_def dest!: read_one_SomeD)

lemma find_message_SomeD:
  "MessageDAL_findByID engine d i = Some m \<Longrightarrow> m \<in> set (db_messages d) \<and> m_id m = Some i"
  by (auto simp: MessageDAL_findByID_def dest!: read_one_SomeD)

lemma message_update_step:
  "db_inv d \<Longrightarrow> (\<And>m. message_core (f m) = message_core m) \<Longrightarrow>
   store_step d (d\<lparr>db_messages := update_where P f (db_messages d)\<rparr>)"
  by (simp add: store_step_def inv_update_messages uid_extends_messages)

lemma folder_flag_step:
  "db_inv d \<Longrightarrow> store_step d (d\<lparr>db_folders := update_where P (f_is_subscribed_update g) (db_folders d)\<rparr>)"
  unfolding store_step_def by (intro conjI inv_update_folders uid_extends_folders) (auto simp: folder_core_def)

lemma user_update_step:
  "db_inv d \<Longrightarrow> (\<And>u. user_core (f u) = user_core u) \<Longrightarrow>
   store_step d (d\<lparr>db_users := update_where P f (db_users d)\<rparr>)"
  by (simp add: store_step_def inv_update_users uid_extends_other)

text \<open>Storing a message at the folder's \<^verbatim>\<open>next_uid\<close> and then incrementing it.\<close>

lemma insert_uid_extends:
  assumes "MessageDAL_insert engine d m = Inr (m', d')" "db_inv d"
    and f: "f \<in> set (db_folders d)" "f_id f = Some (m_folder_id m)" "f_next_uid f = m_uid m"
  shows "uid_extends d d'"
proof -
  have d': "d' = d\<lparr>db_messages := db_messages d @ [(message_row m)\<lparr>m_id := Some (seq_messages d + 1)\<rparr>],
      seq_messages := seq_messages d + 1\<rparr>"
    using assms(1) by (auto simp: MessageDAL_insert_def Let_def)
  have "f_next_uid g \<le> m_uid m" if "g \<in> set (db_folders d)" "f_id g = Some (m_folder_id m)" for g
    using that f assms(2) ids_ok_inj [of _ f_id "db_folders d" g f] by (auto simp: store_inv_def folders_ok_def)
  then show ?thesis
    by (auto simp: uid_extends_def folders_extend_def messages_extend_def d' same_place_def message_row_def)
qed

lemma increment_uid_extends: "FolderDAL_incrementNextUID engine d i = Inr d' \<Longrightarrow> uid_extends d d'"
  by (auto simp: FolderDAL_incrementNextUID_def intro!: uid_extends_folders)

lemma assignUID_step:
  assumes "db_inv d"
  shows "store_step d (snd (assignUID engine d msg fid))"
  unfolding assignUID_def
proof (rule transaction_step [OF assms])
  fix x d2
  assume *: "(case FolderDAL_findByID engine d fid of None \<Rightarrow> Inl ''assignUID: folder not found''
    | Some f \<Rightarrow> (case MessageDAL_insert engine d (msg\<lparr>m_folder_id := fid, m_uid := f_next_uid f\<rparr>) of
         Inl e \<Rightarrow> Inl e
       | Inr (msg', d') \<Rightarrow> (case FolderDAL_incrementNextUID engine d' fid of Inl e \<Rightarrow> Inl e
            | Inr d'' \<Rightarrow> Inr (msg', d'')))) = Inr (x, d2)"
  then obtain f d1 where f: "FolderDAL_findByID engine d fid = Some f"
    and i: "MessageDAL_insert engine d (msg\<lparr>m_folder_id := fid, m_uid := f_next_uid f\<rparr>) = Inr (x, d1)"
    and n: "FolderDAL_incrementNextUID engine d1 fid = Inr d2"
    by (auto split: option.splits sum.splits)
  have inv1: "store_inv (Some fid) d1"
    using message_insert_inv [OF i assms] find_folder_SomeD [OF f] by auto
  have inv2: "db_inv d2" using increment_inv [OF n inv1] by simp
  have "uid_extends d d1" using insert_uid_extends [OF i assms] find_folder_SomeD [OF f] by auto
  then show "store_step d d2"
    using uid_extends_trans [OF _ increment_uid_extends [OF n] assms inv2] inv2 by (simp add: store_step_def)
qed

lemma copy_recipients_keep:
  "copy_recipients engine d mid rs = Inr d' \<Longrightarrow> store_inv p d \<Longrightarrow>
   store_inv p d' \<and> db_folders d' = db_folders d \<and> db_messages d' = db_messages d \<and> seq_folders d' = seq_folders d"
proof (induction rs arbitrary: d)
  case (Cons r rs)
  from Cons.prems(1) obtain r' d1 where i: "RecipientDAL_insert engine d (r\<lparr>r_id := None, r_message_id := mid\<rparr>) = Inr (r', d1)"
    and rest: "copy_recipients engine d1 mid rs = Inr d'" by (auto split: sum.splits)
  have "db_folders d1 = db_folders d \<and> db_messages d1 = db_messages d \<and> seq_folders d1 = seq_folders d"
    using i by (auto simp: RecipientDAL_insert_def Let_def)
  then show ?case using Cons.IH [OF rest recipient_insert_inv [OF i Cons.prems(2)]] by simp
qed simp

lemma copy_locked_step:
  assumes "db_inv d" and f: "folder \<in> set (db_folders d)" "f_id folder = Some fid"
  shows "store_step d (snd (copy_locked engine d msg folder rs fid))"
  unfolding copy_locked_def
proof (rule transaction_step [OF assms(1)], goal_cases)
  case (1 x d3)
  then obtain d1 d2 where i: "MessageDAL_insert engine d (msg\<lparr>m_id := None, m_folder_id := fid, m_uid := f_next_uid folder\<rparr>) = Inr (x, d1)"
    and r: "copy_recipients engine d1 (the (m_id x)) rs = Inr d2"
    and n: "FolderDAL_incrementNextUID engine d2 fid = Inr d3"
    by (auto split: sum.splits)
  have inv1: "store_inv (Some fid) d1" using message_insert_inv [OF i assms(1)] f by auto
  note r' = copy_recipients_keep [OF r inv1]
  have inv3: "db_inv d3" using increment_inv [OF n] r' by auto
  have "uid_extends d d1" using insert_uid_extends [OF i assms(1)] f by auto
  then have "uid_extends d d2"
    using r' by (simp add: uid_extends_def folders_extend_def messages_extend_def)
  then show ?case
    using uid_extends_trans [OF _ increment_uid_extends [OF n] assms(1) inv3] inv3 by (simp add: store_step_def)
qed

lemma moveToFolder_locked_step:
  assumes "db_inv d" and f: "folder \<in> set (db_folders d)" "f_id folder = Some fid"
  shows "store_step d (snd (moveToFolder_locked engine d folder i fid))"
  unfolding moveToFolder_locked_def
proof (rule transaction_step [OF assms(1)], goal_cases)
  case (1 x d2)
  then obtain d1 where m: "MessageDAL_moveToFolder engine d i fid (f_next_uid folder) = Inr d1"
    and n: "FolderDAL_incrementNextUID engine d1 fid = Inr d2"
    by (auto split: sum.splits)
  have inv1: "store_inv (Some fid) d1" using move_inv [OF m assms(1) f] by simp
  have inv2: "db_inv d2" using increment_inv [OF n inv1] by simp
  have d1: "d1 = d\<lparr>db_messages := update_where (\<lambda>n. m_id n = Some i)
      (\<lambda>n. n\<lparr>m_folder_id := fid, m_uid := f_next_uid folder\<rparr>) (db_messages d)\<rparr>"
    using m by (auto simp: MessageDAL_moveToFolder_def)
  have le: "f_next_uid g \<le> f_next_uid folder" if "g \<in> set (db_folders d)" "f_id g = Some fid" for g
    using that f assms(1) ids_ok_inj [of _ f_id "db_folders d" g folder] by (auto simp: store_inv_def folders_ok_def)
  have "messages_extend d d1" unfolding messages_extend_def
  proof
    fix n assume "n \<in> set (db_messages d1)"
    then obtain k where k: "k \<in> set (db_messages d)"
      "n = (if m_id k = Some i then k\<lparr>m_folder_id := fid, m_uid := f_next_uid folder\<rparr> else k)"
      by (auto simp: d1 update_where_def)
    then show "(\<exists>m \<in> set (db_messages d). same_place m n) \<or>
        (\<forall>f \<in> set (db_folders d). f_id f = Some (m_folder_id n) \<longrightarrow> f_next_uid f \<le> m_uid n)"
      using le by (cases "m_id k = Some i") (auto simp: same_place_def)
  qed
  then have "uid_extends d d1" by (auto simp: uid_extends_def folders_extend_def d1)
  then show ?case
    using uid_extends_trans [OF _ increment_uid_extends [OF n] assms(1) inv2] inv2 by (simp add: store_step_def)
qed

lemma delete_messages_step: "db_inv d \<Longrightarrow> store_step d (delete_messages P d)"
  unfolding store_step_def by (intro conjI delete_messages_inv uid_extends_other) (auto simp: delete_messages_def)

lemma delete_folders_step: "db_inv d \<Longrightarrow> store_step d (delete_folders ids d)"
  unfolding store_step_def
  by (intro conjI delete_folders_inv uid_extends_other) (auto simp: delete_folders_def delete_messages_def Let_def)

lemma delete_user_step: "db_inv d \<Longrightarrow> store_step d (delete_user i d)"
  unfolding store_step_def
  by (intro conjI delete_user_inv uid_extends_other)
    (auto simp: delete_user_def delete_folders_def delete_messages_def Let_def)

lemma store_step_trans: "db_inv d1 \<Longrightarrow> store_step d1 d2 \<Longrightarrow> store_step d2 d3 \<Longrightarrow> store_step d1 d3"
  unfolding store_step_def using uid_extends_trans by blast

lemma delete_each_step: "delete_each engine d ms = Inr d' \<Longrightarrow> db_inv d \<Longrightarrow> store_step d d'"
proof (induction ms arbitrary: d)
  case (Cons m ms)
  show ?case
  proof (cases "m_id m")
    case (Some i)
    then obtain d1 where "MessageDAL_hardDelete engine d i = Inr d1" and rest: "delete_each engine d1 ms = Inr d'"
      using Cons.prems by (auto split: sum.splits)
    then have "store_step d d1"
      using Cons.prems(2) by (auto simp: MessageDAL_hardDelete_def intro: delete_messages_step)
    then show ?thesis using Cons.IH [OF rest] Cons.prems(2) store_step_trans by (auto simp: store_step_def)
  qed (use Cons in auto)
qed (simp add: store_step_refl)

lemma expunge_locked_step: "db_inv d \<Longrightarrow> store_step d (snd (expunge_locked engine d ms))"
  unfolding expunge_locked_def by (rule transaction_step) (auto split: sum.splits intro: delete_each_step)

lemma folder_insert_step:
  assumes "FolderDAL_insert engine d f = Inr (f', d')" "db_inv d" "1 \<le> f_next_uid f"
  shows "store_step d d'"
proof -
  have "d' = d\<lparr>db_folders := db_folders d @ [f\<lparr>f_id := Some (seq_folders d + 1), f_name := c_text (f_name f)\<rparr>],
      seq_folders := seq_folders d + 1\<rparr>"
    using assms(1) by (auto simp: FolderDAL_insert_def Let_def)
  then have "uid_extends d d'"
    by (auto simp: uid_extends_def folders_extend_def messages_extend_def same_place_def)
  then show ?thesis using folder_insert_inv [OF assms] by (simp add: store_step_def)
qed

lemma renameFolder_locked_step:
  assumes "db_inv d" and f: "folder \<in> set (db_folders d)"
  shows "store_step d (snd (renameFolder_locked engine d folder name))"
  unfolding renameFolder_locked_def
proof (rule autocommit_step [OF assms(1)])
  fix d' assume u: "FolderDAL_update engine d (folder\<lparr>f_name := name\<rparr>) = Inr d'"
  have same: "g = folder" if "g \<in> set (db_folders d)" "f_id g = f_id folder" for g
    using that f assms(1) ids_ok_inj [of _ f_id "db_folders d" g folder] by (auto simp: store_inv_def folders_ok_def)
  have "db_inv d'" by (rule folder_update_inv [OF u assms(1)]) (use same in \<open>auto simp: folder_core_def\<close>)
  moreover have "uid_extends d d'"
    using u same by (auto simp: FolderDAL_update_def split: option.splits intro!: uid_extends_folders)
  ultimately show "store_step d d'" by (simp add: store_step_def)
qed

lemma create_folders_step:
  "db_inv d \<Longrightarrow> store_step d (snd (create_folders engine d uid names))"
proof (induction names arbitrary: d)
  case (Cons name names)
  let ?f = "\<lparr>f_id = None, f_user_id = uid, f_parent_id = None, f_name = name, f_next_uid = 1, f_is_subscribed = True\<rparr>"
  show ?case
  proof (cases "FolderDAL_insert engine d ?f")
    case (Inr r)
    then obtain f' d1 where ins: "FolderDAL_insert engine d ?f = Inr (f', d1)" by (cases r) auto
    have "store_step d d1" by (rule folder_insert_step [OF ins Cons.prems]) simp
    then show ?thesis using Cons ins store_step_trans by (simp add: store_step_def)
  qed (simp add: store_step_refl Cons.prems)
qed (simp add: store_step_refl)

lemma registerUser_step:
  assumes "db_inv d"
  shows "store_step d (snd (registerUser pwhash engine d u password))"
proof (cases "UserDAL_findByUsername engine d (u_username u) = None \<and> hashPassword pwhash password \<noteq> []")
  case True
  let ?u = "u\<lparr>u_password_hash := hashPassword pwhash password\<rparr>"
  show ?thesis
  proof (cases "UserDAL_insert engine d ?u")
    case (Inr r)
    then obtain u' d1 where ins: "UserDAL_insert engine d ?u = Inr (u', d1)" by (cases r) auto
    have "uid_extends d d1"
      using ins by (auto simp: UserDAL_insert_def Let_def intro: uid_extends_other)
    then have "store_step d d1" using user_insert_inv [OF ins assms] by (simp add: store_step_def)
    then have "store_step d (snd (create_folders engine d1 (the (u_id u')) default_folders))"
      using create_folders_step store_step_trans assms by (auto simp: store_step_def)
    then show ?thesis
      using True ins by (cases "create_folders engine d1 (the (u_id u')) default_folders")
        (simp add: registerUser_def Let_def split: option.splits)
  qed (use True assms in \<open>simp add: registerUser_def store_step_refl\<close>)
qed (use assms in \<open>auto simp: registerUser_def Let_def store_step_refl\<close>)

lemma deliver_step: "db_inv d \<Longrightarrow> store_step d (snd (deliver engine d m f))"
  by (auto simp: deliver_def Let_def store_step_refl assignUID_step split: option.splits)

lemma flags_step:
  "db_inv d \<Longrightarrow> store_step d (snd (autocommit d (MessageDAL_updateFlags engine d i a b c e f g)))"
  by (auto intro!: autocommit_step message_update_step
      simp: MessageDAL_updateFlags_def message_core_def set_flag_columns_def)

lemma setFlags_step: "db_inv d \<Longrightarrow> store_step d (snd (setFlags engine d i fs))"
  by (auto simp: setFlags_def store_step_refl flags_step split: option.splits sum.splits)

lemma closeFolder_step:
  assumes "db_inv d"
  shows "store_step d (snd (closeFolder engine d i))"
proof -
  obtain r d1 where e: "expunge engine d i = (r, d1)" by fastforce
  have s1: "store_step d d1"
    using expunge_locked_step [OF assms, of engine "MessageDAL_findDeleted engine d i INT_MAX 0"] e
    by (simp add: expunge_def)
  then have "db_inv d1" by (simp add: store_step_def)
  then have "store_step d1 (snd (autocommit d1 (MessageDAL_clearRecentByFolder engine d1 i)))"
    by (auto intro!: autocommit_step message_update_step
        simp: MessageDAL_clearRecentByFolder_def message_core_def)
  then show ?thesis
    using s1 store_step_trans [OF assms s1] by (cases r) (simp_all add: closeFolder_def e)
qed

lemma hardDelete_step: "db_inv d \<Longrightarrow> store_step d (snd (hardDelete engine d i))"
  by (auto simp: hardDelete_def store_step_refl MessageDAL_hardDelete_def delete_messages_step
      intro!: autocommit_step split: option.splits)

lemma mark_step:
  assumes "db_inv d"
  shows "store_step d (snd (markFlagged engine d i b))" "store_step d (snd (markAnswered engine d i b))"
    "store_step d (snd (markDraft engine d i b))" "store_step d (snd (updateFlags engine d i a1 a2 a3 a4 a5 a6))"
    "store_step d (snd (markSeen engine d i b))" "store_step d (snd (markDeleted engine d i b))"
  using assms by (auto simp: markFlagged_def markAnswered_def markDraft_def updateFlags_def flags_step
      store_step_refl markSeen_def markDeleted_def MessageDAL_updateSeen_def MessageDAL_updateDeleted_def
      message_core_def intro!: autocommit_step message_update_step split: option.splits)

lemma move_copy_step:
  assumes "db_inv d"
  shows "store_step d (snd (moveToFolder engine d i f))" "store_step d (snd (copy_message engine d i f))"
  using assms by (auto simp: moveToFolder_def copy_message_def store_step_refl moveToFolder_locked_step
      copy_locked_step dest!: find_folder_SomeD split: option.splits)

lemma folder_call_step:
  assumes "db_inv d"
  shows "store_step d (snd (createFolder engine d (new_folder u q n s)))"
    "store_step d (snd (renameFolder engine d i n))" "store_step d (snd (deleteFolder engine d i))"
    "store_step d (snd (incrementNextUID engine d i))" "store_step d (snd (clearRecentByFolder engine d i))"
    "store_step d (snd (setSubscribed engine d i b))"
proof -
  show "store_step d (snd (createFolder engine d (new_folder u q n s)))"
    using assms by (auto simp: createFolder_def store_step_refl new_folder_def
        intro!: autocommit_row_step elim!: folder_insert_step)
  show "store_step d (snd (renameFolder engine d i n))"
    using assms by (auto simp: renameFolder_def store_step_refl renameFolder_locked_step
        dest!: find_folder_SomeD split: option.splits)
  show "store_step d (snd (deleteFolder engine d i))"
    using assms by (auto simp: deleteFolder_def store_step_refl FolderDAL_hardDelete_def delete_folders_step
        intro!: autocommit_step split: option.splits)
  show "store_step d (snd (incrementNextUID engine d i))"
    using assms increment_inv [of engine d i _ None] increment_uid_extends
    by (auto simp: incrementNextUID_def store_step_refl intro!: autocommit_step split: option.splits)
      (simp add: store_step_def)
  show "store_step d (snd (clearRecentByFolder engine d i))"
    using assms by (auto simp: clearRecentByFolder_def store_step_refl MessageDAL_clearRecentByFolder_def
        message_core_def intro!: autocommit_step message_update_step split: option.splits)
  show "store_step d (snd (setSubscribed engine d i b))"
    using assms by (auto simp: setSubscribed_def store_step_refl FolderDAL_setSubscribed_def
        intro!: autocommit_step folder_flag_step split: option.splits)
qed

lemma recipient_call_step:
  assumes "db_inv d"
  shows "store_step d (snd (addRecipient engine d r))" "store_step d (snd (removeRecipient engine d i))"
proof -
  have "uid_extends d d'" if "RecipientDAL_insert engine d r = Inr (r', d')" for r' d'
    using that by (auto simp: RecipientDAL_insert_def Let_def intro: uid_extends_other)
  then show "store_step d (snd (addRecipient engine d r))"
    using assms recipient_insert_inv
    by (auto simp: addRecipient_def store_step_refl intro!: autocommit_row_step) (auto simp: store_step_def)
  show "store_step d (snd (removeRecipient engine d i))"
    using assms hardDelete_recipient_inv
    by (auto simp: removeRecipient_def store_step_refl RecipientDAL_hardDelete_def intro!: autocommit_step)
      (auto simp: store_step_def intro: uid_extends_other)
qed

lemma user_call_step:
  assumes "db_inv d"
  shows "store_step d (snd (changePassword pwhash engine d i pw))" "store_step d (snd (update_user engine d u))"
    "store_step d (snd (hardDelete_user engine d i))" "store_step d (snd (updateProfile engine d i a b c))"
    "store_step d (snd (updateAvatar engine d i v))"
proof -
  have "uid_extends d d'" if "UserDAL_update engine d u = Inr d'" for d'
    using that by (auto simp: UserDAL_update_def split: option.splits intro: uid_extends_other)
  then show "store_step d (snd (update_user engine d u))"
    using assms user_update_inv by (auto simp: update_user_def intro!: autocommit_step) (auto simp: store_step_def)
  show "store_step d (snd (changePassword pwhash engine d i pw))"
    using assms by (auto simp: changePassword_def store_step_refl UserDAL_updatePassword_def user_core_def
        intro!: autocommit_step user_update_step split: option.splits)
  show "store_step d (snd (hardDelete_user engine d i))"
    using assms by (auto simp: hardDelete_user_def store_step_refl UserDAL_hardDelete_def delete_user_step
        intro!: autocommit_step split: option.splits)
  show "store_step d (snd (updateProfile engine d i a b c))" "store_step d (snd (updateAvatar engine d i v))"
    using assms by (auto simp: updateProfile_def updateAvatar_def UserDAL_updateProfile_def UserDAL_updateAvatar_def
        user_core_def intro!: autocommit_step user_update_step)
qed

lemma exec_call_step: "db_inv d \<Longrightarrow> store_step d (exec_call pwhash engine c d)"
  by (cases c) (simp_all add: deliver_step saveToFolder_def append_message_def assignUID_step mark_step
      setFlags_step move_copy_step hardDelete_step expunge_def expunge_locked_step folder_call_step closeFolder_step
      recipient_call_step registerUser_step user_call_step)

interpretation repo: guarded_system "exec_call pwhash engine" db_inv uid_extends
  using exec_call_step uid_extends_trans by unfold_locales (auto simp: store_step_def)

lemma empty_db_inv: "db_inv empty_db"
  by (simp add: inv_defs empty_db_def ids_ok_def)

section \<open>Properties\<close>

text \<open>
  C8. Whatever calls the servers make, in whatever order, and whatever errors SQLite reports on
  the way, the store stays consistent: distinct identifiers, unique user names, valid foreign
  keys, unique (folder, UID) pairs and every UID below its folder's \<^verbatim>\<open>next_uid\<close>.
\<close>

theorem repository_keeps_integrity:
  "db_inv (fold (exec_call pwhash engine) calls empty_db)"
  by (rule repo.run_inv [OF empty_db_inv])

text \<open>
  C9. UIDs are never reused: if after some calls a folder has given out all UIDs below
  \<^verbatim>\<open>next_uid\<close>, then after any further calls a message of that folder with such a UID is one
  that was already there under the same identifier, however many messages were moved, copied,
  expunged or folders deleted in between.
\<close>

theorem uid_never_reused:
  assumes "d = fold (exec_call pwhash engine) calls empty_db"
    and "d' = fold (exec_call pwhash engine) (calls @ later) empty_db"
    and "f \<in> set (db_folders d)" "n \<in> set (db_messages d')"
    and "f_id f = Some (m_folder_id n)" "m_uid n < f_next_uid f"
  shows "\<exists>m \<in> set (db_messages d). m_id m = m_id n \<and> m_folder_id m = m_folder_id n \<and> m_uid m = m_uid n"
proof -
  have "uid_extends d d'"
    unfolding assms(1,2) by (rule repo.run_between [OF empty_db_inv])
  then show ?thesis
    using assms(3-) by (fastforce simp: uid_extends_def messages_extend_def same_place_def)
qed

definition alice :: user where
  "alice = \<lparr>u_id = None, u_username = ''alice'', u_password_hash = [], u_first_name = None,
     u_last_name = None, u_birthdate = None, u_avatar_b64 = None\<rparr>"

definition hello :: message where
  "hello = \<lparr>m_id = None, m_user_id = 1, m_folder_id = 0, m_uid = 0, m_raw_file_path = ''1.eml'',
     m_size_bytes = 5, m_mime_structure = None, m_message_id_header = None, m_in_reply_to = None,
     m_references_header = None, m_from_address = ''bob'', m_sender_address = None, m_subject = None,
     m_is_seen = False, m_is_deleted = False, m_is_draft = False, m_is_answered = False,
     m_is_flagged = False, m_is_recent = True, m_internal_date = ''today'', m_date_header = None\<rparr>"

definition first_calls :: "repo_call list" where
  "first_calls = [RegisterUser alice ''pw'', Deliver hello 0]"

definition later_calls :: "repo_call list" where
  "later_calls = [Deliver hello 0, Copy 1 2, MarkDeleted 2 True, Expunge 1]"

definition first_state :: db where
  "first_state = fold (exec_call Some healthy) first_calls empty_db"

definition later_state :: db where
  "later_state = fold (exec_call Some healthy) (first_calls @ later_calls) empty_db"

lemma first_folder:
  "case db_folders first_state of f # _ \<Rightarrow> f_id f = Some 1 \<and> f_next_uid f = 2 | [] \<Rightarrow> False"
  by code_simp

lemma later_message:
  "case db_messages later_state of n # _ \<Rightarrow> m_folder_id n = 1 \<and> m_uid n = 1 \<and> m_id n = Some 1 | [] \<Rightarrow> False"
  by code_simp

theorem uid_never_reused_witness:
  "\<exists>m \<in> set (db_messages first_state). m_id m = Some 1 \<and> m_folder_id m = 1 \<and> m_uid m = 1"
  using uid_never_reused [OF first_state_def later_state_def, of "hd (db_folders first_state)"
      "hd (db_messages later_state)"] first_folder later_message
  by (cases "db_folders first_state"; cases "db_messages later_state") auto

end
