(* ===== verification/Repository_Behaviour.thy ===== *)
theory Repository_Behaviour
  imports Repository_Laws
begin

text \<open>
  The functional behaviour of the repository calls the servers rely on: delivery, copy,
  expunge, the flag language of \<^verbatim>\<open>setFlags\<close>, registration and login, and what happens when a
  second writer comes between the read and the write of a call.
\<close>

section \<open>Delivery\<close>

lemma filter_unique:
  "distinct (map k rows) \<Longrightarrow> r \<in> set rows \<Longrightarrow> k r = v \<Longrightarrow> filter (\<lambda>x. k x = v) rows = [r]"
proof (induction rows)
  case (Cons x rows)
  then show ?case by (cases "k x = v") (auto simp: filter_empty_conv image_iff)
qed simp

lemma find_folder_healthy:
  assumes "store_inv p d" "f \<in> set (db_folders d)" "f_id f = Some i"
  shows "FolderDAL_findByID healthy d i = Some f"
  using assms filter_unique [of f_id "db_folders d" f "Some i"]
  by (simp add: FolderDAL_findByID_def read_one_healthy store_inv_def folders_ok_def ids_ok_def)

lemma find_message_healthy:
  assumes "store_inv p d" "m \<in> set (db_messages d)" "m_id m = Some i"
  shows "MessageDAL_findByID healthy d i = Some m"
  using assms filter_unique [of m_id "db_messages d" m "Some i"]
  by (simp add: MessageDAL_findByID_def read_one_healthy store_inv_def messages_ok_def ids_ok_def)

lemma find_uid_healthy:
  assumes "store_inv p d" "m \<in> set (db_messages d)"
  shows "MessageDAL_findByUID healthy d (m_folder_id m) (m_uid m) = Some m"
  using assms filter_unique [of "\<lambda>m. (m_folder_id m, m_uid m)" "db_messages d" m]
  by (simp add: MessageDAL_findByUID_def read_one_healthy store_inv_def messages_ok_def)

text \<open>No message sits at a folder's \<^verbatim>\<open>next_uid\<close>, so the UNIQUE index accepts it.\<close>

lemma uids_below:
  assumes "db_inv d" "f \<in> set (db_folders d)" "f_id f = Some fid" "n \<in> set (db_messages d)" "m_folder_id n = fid"
  shows "m_uid n < f_next_uid f"
  using assms ids_ok_inj [of _ f_id "db_folders d" _ f]
  by (fastforce simp: store_inv_def messages_ok_def list_all_iff message_ok_def uid_ok_def folders_ok_def)

lemma next_uid_free:
  assumes "db_inv d" "f \<in> set (db_folders d)" "f_id f = Some fid" "user_exists d u"
  shows "message_violation d (db_messages d) u fid (f_next_uid f) = None"
proof -
  note uids_below [OF assms(1-3)]
  moreover have "folder_exists d fid" using assms by (auto simp: folder_exists_def)
  ultimately show ?thesis using assms(4) by (force simp: message_violation_def)
qed

definition stored_row :: "db \<Rightarrow> message \<Rightarrow> int \<Rightarrow> folder \<Rightarrow> message" where
  "stored_row d msg fid f =
     (message_row (msg\<lparr>m_folder_id := fid, m_uid := f_next_uid f\<rparr>))\<lparr>m_id := Some (seq_messages d + 1)\<rparr>"

definition bump_uid :: "int \<Rightarrow> folder list \<Rightarrow> folder list" where
  "bump_uid fid fs = update_where (\<lambda>g. f_id g = Some fid) (\<lambda>g. g\<lparr>f_next_uid := f_next_uid g + 1\<rparr>) fs"

lemma assignUID_healthy:
  assumes "db_inv d" "f \<in> set (db_folders d)" "f_id f = Some fid" "user_exists d (m_user_id msg)"
  shows "assignUID healthy d msg fid =
    (Inr (msg\<lparr>m_folder_id := fid, m_uid := f_next_uid f, m_id := Some (seq_messages d + 1)\<rparr>),
     d\<lparr>db_messages := db_messages d @ [stored_row d msg fid f], seq_messages := seq_messages d + 1,
       db_folders := bump_uid fid (db_folders d)\<rparr>)"
  using find_folder_healthy [OF assms(1-3)] next_uid_free [OF assms]
  by (simp add: assignUID_def transaction_def MessageDAL_insert_def Let_def run_write_def stored_row_def
      FolderDAL_incrementNextUID_def bump_uid_def)

text \<open>
  Delivery to a user with an INBOX succeeds on a working database: exactly one row is added,
  in the INBOX, at its \<^verbatim>\<open>next_uid\<close>, unseen, recent and no draft; the counter moves by one, and
  looking that UID up finds the row.
\<close>

lemma deliver_to_inbox:
  assumes "db_inv d" "FolderDAL_findByName healthy d (m_user_id msg) ''INBOX'' = Some inbox"
    and "f_id inbox = Some fid"
  shows "\<exists>stored row d'. deliver healthy d msg 0 = (Inr stored, d') \<and>
     db_messages d' = db_messages d @ [row] \<and> db_folders d' = bump_uid fid (db_folders d) \<and>
     m_folder_id row = fid \<and> m_uid row = f_next_uid inbox \<and> m_user_id row = m_user_id msg \<and>
     m_raw_file_path row = c_text (m_raw_file_path msg) \<and>
     \<not> m_is_seen row \<and> m_is_recent row \<and> \<not> m_is_draft row \<and>
     m_id stored = m_id row \<and> MessageDAL_findByUID healthy d' fid (f_next_uid inbox) = Some row"
proof -
  let ?msg = "msg\<lparr>m_is_seen := False, m_is_recent := True, m_is_draft := False\<rparr>"
  have inbox: "inbox \<in> set (db_folders d)" "f_user_id inbox = m_user_id msg"
    using assms(2) by (auto simp: FolderDAL_findByName_def dest!: read_one_SomeD)
  then have "user_exists d (m_user_id ?msg)"
    using assms(1) by (auto simp: store_inv_def folders_ok_def list_all_iff folder_ok_def)
  note res = assignUID_healthy [OF assms(1) inbox(1) assms(3) this]
  have run: "deliver healthy d msg 0 = assignUID healthy d ?msg fid"
    using assms(2,3) by (simp add: deliver_def)
  let ?d = "snd (deliver healthy d msg 0)"
  have row: "stored_row d ?msg fid inbox \<in> set (db_messages ?d)" by (simp add: run res)
  have "db_inv ?d" using deliver_step [OF assms(1)] by (simp add: store_step_def)
  from find_uid_healthy [OF this row] show ?thesis
    by (simp add: run res) (simp add: stored_row_def message_row_def)
qed

lemma deliver_example:
  "FolderDAL_findByName healthy first_state (m_user_id hello) ''INBOX'' =
     Some \<lparr>f_id = Some 1, f_user_id = 1, f_parent_id = None, f_name = ''INBOX'', f_next_uid = 2, f_is_subscribed = True\<rparr>"
  by code_simp

lemma deliver_to_inbox_example:
  "\<exists>row. MessageDAL_findByUID healthy (snd (deliver healthy first_state hello 0)) 1 2 = Some row"
  using deliver_to_inbox [OF _ deliver_example] repo.run_inv [OF empty_db_inv, of Some healthy first_calls]
  by (fastforce simp: first_state_def [symmetric])

section \<open>Copy and expunge\<close>

lemma copy_recipients_rows:
  "copy_recipients engine d mid rs = Inr d' \<Longrightarrow>
   \<exists>new. db_recipients d' = db_recipients d @ new \<and> db_messages d' = db_messages d \<and>
     db_folders d' = db_folders d \<and> db_users d' = db_users d \<and>
     map (\<lambda>r. (r_message_id r, r_address r, r_type r)) new = map (\<lambda>r. (mid, c_text (r_address r), r_type r)) rs"
proof (induction rs arbitrary: d)
  case (Cons r rs)
  from Cons.prems obtain r' d1 where i: "RecipientDAL_insert engine d (r\<lparr>r_id := None, r_message_id := mid\<rparr>) = Inr (r', d1)"
    and rest: "copy_recipients engine d1 mid rs = Inr d'" by (auto split: sum.splits)
  have "typeFromString (typeToString (r_type r)) = r_type r" by (cases "r_type r") (simp_all add: typeFromString_def)
  then have "\<exists>q. db_recipients d1 = db_recipients d @ [q] \<and> db_messages d1 = db_messages d \<and>
      db_folders d1 = db_folders d \<and> db_users d1 = db_users d \<and>
      r_message_id q = mid \<and> r_address q = c_text (r_address r) \<and> r_type q = r_type r"
    using i by (auto simp: RecipientDAL_insert_def Let_def recipient_row_def)
  then show ?case using Cons.IH [OF rest] by (force simp: Cons_eq_map_conv)
qed simp

lemma fresh_message: "store_inv p d \<Longrightarrow> \<not> message_exists d (seq_messages d + 1)"
  by (auto simp: message_exists_def store_inv_def messages_ok_def elim!: ids_ok_SomeE)

definition copied_row :: "message \<Rightarrow> int \<Rightarrow> folder \<Rightarrow> int \<Rightarrow> message" where
  "copied_row msg fid folder mid =
     (message_row (msg\<lparr>m_folder_id := fid, m_uid := f_next_uid folder\<rparr>))\<lparr>m_id := Some mid\<rparr>"

definition addressee :: "recipient \<Rightarrow> int \<times> string \<times> recipient_type" where
  "addressee r = (r_message_id r, r_address r, r_type r)"

lemma copy_locked_Inr:
  assumes "copy_locked engine d msg folder rs fid = (Inr c, d')"
  shows "m_id c = Some (seq_messages d + 1) \<and>
    db_messages d' = db_messages d @ [copied_row msg fid folder (seq_messages d + 1)] \<and>
    db_folders d' = bump_uid fid (db_folders d) \<and> db_users d' = db_users d \<and>
    (\<exists>new. db_recipients d' = db_recipients d @ new \<and>
      map addressee new = map (\<lambda>r. (seq_messages d + 1, c_text (r_address r), r_type r)) rs)"
proof -
  let ?msg = "msg\<lparr>m_id := None, m_folder_id := fid, m_uid := f_next_uid folder\<rparr>"
  from transaction_Inr [OF assms [unfolded copy_locked_def]] obtain d1 d2 where i: "MessageDAL_insert engine d ?msg = Inr (c, d1)"
    and r: "copy_recipients engine d1 (the (m_id c)) rs = Inr d2"
    and n: "FolderDAL_incrementNextUID engine d2 fid = Inr d'"
    by (auto split: sum.splits)
  have d1: "d1 = d\<lparr>db_messages := db_messages d @ [copied_row msg fid folder (seq_messages d + 1)],
      seq_messages := seq_messages d + 1\<rparr>" and id: "m_id c = Some (seq_messages d + 1)"
    using i by (auto simp: MessageDAL_insert_def Let_def copied_row_def message_row_def)
  have d': "d' = d2\<lparr>db_folders := bump_uid fid (db_folders d2)\<rparr>"
    using n by (auto simp: FolderDAL_incrementNextUID_def bump_uid_def)
  show ?thesis using copy_recipients_rows [OF r] id unfolding d' d1 addressee_def by auto
qed

text \<open>
  C11. COPY is all or nothing, whatever SQLite reports at any of its statements: either the
  database is untouched, or exactly one message is added, the row of the original with a new
  identifier at the \<^verbatim>\<open>next_uid\<close> of the target, whose counter alone moves, and the new recipients
  are a leading part of those of the original, in order, each with the address and type of the
  original. They are all of them when the SELECT of the recipients is answered to its end; the
  code does not look at whether it was.
\<close>

theorem copy_all_or_nothing:
  assumes "db_inv d" "copy_message engine d i fid = (r, d')"
  shows "case r of
      Inl e \<Rightarrow> d' = d
    | Inr c \<Rightarrow> \<exists>msg \<in> set (db_messages d). \<exists>folder \<in> set (db_folders d). \<exists>mid new n.
        m_id msg = Some i \<and> f_id folder = Some fid \<and> m_id c = Some mid \<and> \<not> message_exists d mid \<and>
        db_messages d' = db_messages d @ [copied_row msg fid folder mid] \<and>
        db_folders d' = bump_uid fid (db_folders d) \<and> db_users d' = db_users d \<and>
        db_recipients d' = db_recipients d @ new \<and>
        map addressee new = map (\<lambda>r. (mid, c_text (r_address r), r_type r))
          (take n (filter (\<lambda>r. r_message_id r = i) (db_recipients d))) \<and>
        (select_ok engine (''RecipientDAL::findByMessage'', [Bind_int i]) d \<longrightarrow>
          length new = length (filter (\<lambda>r. r_message_id r = i) (db_recipients d)))"
proof (cases r)
  case (Inl e)
  then show ?thesis
    using assms(2) by (auto simp: copy_message_def copy_locked_def split: option.splits dest: transaction_Inl)
next
  case (Inr c)
  let ?q = "(''RecipientDAL::findByMessage'', [Bind_int i])"
  let ?rs = "filter (\<lambda>r. r_message_id r = i) (db_recipients d)"
  from Inr obtain msg folder where m: "MessageDAL_findByID engine d i = Some msg"
    and f: "FolderDAL_findByID engine d fid = Some folder"
    and run: "copy_locked engine d msg folder (RecipientDAL_findByMessage engine d i) fid = (Inr c, d')"
    using assms(2) by (auto simp: copy_message_def split: option.splits)
  obtain new where new: "db_recipients d' = db_recipients d @ new"
    "map addressee new = map (\<lambda>r. (seq_messages d + 1, c_text (r_address r), r_type r)) (read_many engine ?q d ?rs)"
    using copy_locked_Inr [OF run] by (auto simp: RecipientDAL_findByMessage_def)
  obtain n where n: "read_many engine ?q d ?rs = take n ?rs" using read_many_take by metis
  have "length new = length ?rs" if "select_ok engine ?q d"
    using arg_cong [OF new(2), of length] by (simp add: read_many_ok [OF that])
  then show ?thesis
    using copy_locked_Inr [OF run] find_message_SomeD [OF m] find_folder_SomeD [OF f]
      fresh_message [OF assms(1)] new [unfolded n]
    unfolding Inr sum.case by blast
qed

text \<open>A mailbox with a message to two recipients.\<close>

definition addressed_calls :: "repo_call list" where
  "addressed_calls = first_calls @
     [AddRecipient \<lparr>r_id = None, r_message_id = 1, r_address = ''bob@x'', r_type = To\<rparr>,
      AddRecipient \<lparr>r_id = None, r_message_id = 1, r_address = ''eve@x'', r_type = Cc\<rparr>]"

definition addressed_state :: db where
  "addressed_state = fold (exec_call Some healthy) addressed_calls empty_db"

lemma addressed_inv: "db_inv addressed_state"
  unfolding addressed_state_def by (rule repo.run_inv [OF empty_db_inv])

lemma copy_example:
  "map_sum id m_id (fst (copy_message healthy addressed_state 1 2)) = Inr (Some 2)"
  "map addressee (db_recipients addressed_state) = [(1, ''bob@x'', To), (1, ''eve@x'', Cc)]"
  by code_simp+

theorem copy_all_or_nothing_witness:
  "\<exists>msg \<in> set (db_messages addressed_state). \<exists>folder \<in> set (db_folders addressed_state).
     m_id msg = Some 1 \<and> f_id folder = Some 2 \<and>
     db_messages (snd (copy_message healthy addressed_state 1 2)) =
       db_messages addressed_state @ [copied_row msg 2 folder 2] \<and>
     map addressee (db_recipients (snd (copy_message healthy addressed_state 1 2))) =
       [(1, ''bob@x'', To), (1, ''eve@x'', Cc), (2, ''bob@x'', To), (2, ''eve@x'', Cc)]"
proof -
  obtain c d' where run: "copy_message healthy addressed_state 1 2 = (Inr c, d')" and c: "m_id c = Some 2"
    using copy_example(1) by (cases "copy_message healthy addressed_state 1 2"; cases "fst (copy_message healthy addressed_state 1 2)") auto
  obtain r1 r2 where rows: "db_recipients addressed_state = [r1, r2]"
    and r: "addressee r1 = (1, ''bob@x'', To)" "addressee r2 = (1, ''eve@x'', Cc)"
    using copy_example(2) by (auto simp: Cons_eq_map_conv map_eq_Cons_conv)
  have f: "filter (\<lambda>r. r_message_id r = 1) (db_recipients addressed_state) = [r1, r2]"
    using r by (simp add: rows addressee_def)
  obtain msg folder new n where *: "msg \<in> set (db_messages addressed_state)" "folder \<in> set (db_folders addressed_state)"
    "m_id msg = Some 1" "f_id folder = Some 2"
    "db_messages d' = db_messages addressed_state @ [copied_row msg 2 folder 2]"
    "db_recipients d' = db_recipients addressed_state @ new"
    "map addressee new = map (\<lambda>r. (2, c_text (r_address r), r_type r)) (take n [r1, r2])" "length new = 2"
    using copy_all_or_nothing [OF addressed_inv run] c unfolding f by auto
  have "take n [r1, r2] = [r1, r2]" using arg_cong [OF *(7), of length] *(8) by (intro take_all) simp
  then have "map addressee new = [(2, ''bob@x'', To), (2, ''eve@x'', Cc)]"
    using *(7) r by (simp add: addressee_def c_text_def)
  then show ?thesis using *(1-6) r by (intro bexI [of _ msg] bexI [of _ folder]) (simp_all add: run rows)
qed

text \<open>
  What is not looked at: with a SELECT of the recipients that SQLite refuses, or stops after
  its first row, COPY still reports success, and the copy has no recipients, or the first only.
\<close>

definition fails_at :: "sql \<Rightarrow> engine" where
  "fails_at call s d = (if s = call then Some ''disk I/O error'' else None)"

lemma copy_loses_recipients:
  "case copy_message (fails_at (PREPARE (''RecipientDAL::findByMessage'', [Bind_int 1]))) addressed_state 1 2 of
     (r, d') \<Rightarrow> \<not> isl r \<and> map addressee (db_recipients d') = [(1, ''bob@x'', To), (1, ''eve@x'', Cc)]"
  "case copy_message (fails_at (STEP (''RecipientDAL::findByMessage'', [Bind_int 1]) 1)) addressed_state 1 2 of
     (r, d') \<Rightarrow> \<not> isl r \<and>
       map addressee (db_recipients d') = [(1, ''bob@x'', To), (1, ''eve@x'', Cc), (2, ''bob@x'', To)]"
  by code_simp+

lemma delete_messages_twice:
  "delete_messages P (delete_messages Q d) = delete_messages (\<lambda>m. Q m \<or> P m) d"
proof -
  have "filter (\<lambda>r. \<not> (\<exists>m \<in> set (filter (\<lambda>m. \<not> Q m) (db_messages d)). P m \<and> m_id m = Some (r_message_id r)))
      (filter (\<lambda>r. \<not> (\<exists>m \<in> set (db_messages d). Q m \<and> m_id m = Some (r_message_id r))) (db_recipients d)) =
    filter (\<lambda>r. \<not> (\<exists>m \<in> set (db_messages d). (Q m \<or> P m) \<and> m_id m = Some (r_message_id r))) (db_recipients d)"
    by (auto simp: filter_filter intro!: filter_cong)
  then show ?thesis by (simp add: delete_messages_def conj_commute)
qed

lemma delete_each_Inr:
  assumes "delete_each engine d ms = Inr d'" "\<forall>m \<in> set ms. m_id m \<noteq> None"
  shows "d' = delete_messages (\<lambda>m. m_id m \<in> m_id ` set ms) d"
  using assms
proof (induction ms arbitrary: d)
  case Nil
  have "filter (\<lambda>r. True) (db_recipients d) = db_recipients d" by simp
  then show ?case using Nil by (simp add: delete_messages_def)
next
  case (Cons m ms)
  then obtain i where i: "m_id m = Some i" by auto
  then obtain d1 where "MessageDAL_hardDelete engine d i = Inr d1" and rest: "delete_each engine d1 ms = Inr d'"
    using Cons.prems by (auto split: sum.splits)
  then have "d1 = delete_messages (\<lambda>n. m_id n = Some i) d" by (auto simp: MessageDAL_hardDelete_def)
  then show ?case
    using Cons.IH [OF rest] Cons.prems i by (simp add: delete_messages_twice)
qed

text \<open>
  C12. EXPUNGE removes exactly the messages of the folder that carry the Deleted flag, with
  their recipients, or nothing at all when SQLite reports an error at a write; no other message,
  folder or user is touched. It is assumed that the SELECT of the flagged messages is answered
  to its end, and nothing of the other statements.
\<close>

theorem expunge_exact:
  assumes "db_inv d" "select_ok engine (''MessageDAL::findDeleted'', [Bind_int fid, Bind_int INT_MAX, Bind_int 0]) d"
    and "int (length (db_messages d)) \<le> INT_MAX"
  shows "case expunge engine d fid of
      (Inl e, d') \<Rightarrow> d' = d
    | (Inr _, d') \<Rightarrow> d' = delete_messages (\<lambda>m. m_folder_id m = fid \<and> m_is_deleted m) d"
proof (cases "expunge engine d fid")
  case (Pair r d')
  let ?gone = "filter (\<lambda>m. m_folder_id m = fid \<and> m_is_deleted m) (db_messages d)"
  let ?ms = "MessageDAL_findDeleted engine d fid INT_MAX 0"
  have "length (sort_key m_uid ?gone) \<le> nat INT_MAX"
    using nat_mono [OF assms(3)] length_filter_le [of "\<lambda>m. m_folder_id m = fid \<and> m_is_deleted m" "db_messages d"]
    by (simp del: length_filter_le)
  then have ms: "set ?ms = set ?gone"
    using assms(2) by (simp add: MessageDAL_findDeleted_def read_many_ok limit_offset_def folder_rows_def INT_MAX_def)
  have ids: "\<forall>m \<in> set ?ms. m_id m \<noteq> None"
    using assms(1) ms by (auto simp: store_inv_def messages_ok_def elim: ids_ok_SomeE)
  have hit: "m_id m \<in> m_id ` set ?ms \<longleftrightarrow> m_folder_id m = fid \<and> m_is_deleted m" if "m \<in> set (db_messages d)" for m
    using that assms(1) ms ids_ok_inj [of _ m_id "db_messages d"] by (fastforce simp: store_inv_def messages_ok_def)
  have cong: "delete_messages P d = delete_messages Q d" if "\<And>m. m \<in> set (db_messages d) \<Longrightarrow> P m = Q m" for P Q
    using that by (auto simp: delete_messages_def cong: filter_cong)
  show ?thesis
  proof (cases r)
    case (Inl e)
    then show ?thesis using Pair by (auto simp: expunge_def expunge_locked_def dest: transaction_Inl)
  next
    case (Inr x)
    then have "delete_each engine d ?ms = Inr d'"
      using transaction_Inr [of engine d "''expunge''"] Pair
      by (fastforce simp: expunge_def expunge_locked_def split: sum.splits)
    from delete_each_Inr [OF this ids] show ?thesis using Pair Inr cong [OF hit] by simp
  qed
qed

lemma expunge_example:
  "fst (expunge healthy first_state 1) = Inr ()" "length (db_messages first_state) = 1"
  by code_simp+

theorem expunge_exact_witness:
  "snd (expunge healthy first_state 1) = delete_messages (\<lambda>m. m_folder_id m = 1 \<and> m_is_deleted m) first_state"
  using expunge_exact [of first_state healthy 1] expunge_example
    repo.run_inv [OF empty_db_inv, of Some healthy first_calls, folded first_state_def]
  by (cases "expunge healthy first_state 1") (simp add: INT_MAX_def)

text \<open>
  The assumption on the SELECT is needed: with two messages flagged and an error at the second
  row, EXPUNGE removes the first, keeps the second and reports success.
\<close>

definition flagged_state :: db where
  "flagged_state = fold (exec_call Some healthy)
     (first_calls @ [Deliver hello 0, MarkDeleted 1 True, MarkDeleted 2 True]) empty_db"

lemma expunge_stops_short:
  "case expunge (fails_at (STEP (''MessageDAL::findDeleted'', [Bind_int 1, Bind_int INT_MAX, Bind_int 0]) 1))
      flagged_state 1 of
     (r, d') \<Rightarrow> r = Inr () \<and> map (\<lambda>m. (m_id m, m_is_deleted m)) (db_messages d') = [(Some 2, True)]"
  by code_simp

section \<open>The flag language\<close>

text \<open>The abstract view of \<^verbatim>\<open>setFlags\<close>: a set of flag names, each word adds or removes one.\<close>

definition known_flags :: "string set" where
  "known_flags = {flag_Seen, flag_Deleted, flag_Draft, flag_Answered,
     flag_Flagged, flag_Recent}"

definition flag_names :: "flag_set \<Rightarrow> string set" where
  "flag_names s = {x. (x = flag_Seen \<and> fl_seen s) \<or> (x = flag_Deleted \<and> fl_deleted s) \<or>
     (x = flag_Draft \<and> fl_draft s) \<or> (x = flag_Answered \<and> fl_answered s) \<or>
     (x = flag_Flagged \<and> fl_flagged s) \<or> (x = flag_Recent \<and> fl_recent s)}"

definition word_name :: "string \<Rightarrow> string" where
  "word_name w = (if has_flag_prefix w then tl w else w)"

definition flag_word :: "string \<Rightarrow> string set \<Rightarrow> string set" where
  "flag_word w S = (if w \<noteq> [] \<and> hd w = CHR ''-'' then S - {word_name w} else insert (word_name w) S)"

lemma apply_flag_refines:
  "case apply_flag w s of
     Inl e \<Rightarrow> word_name w \<notin> known_flags
   | Inr s' \<Rightarrow> word_name w \<in> known_flags \<and> flag_names s' = flag_word w (flag_names s)"
  unfolding apply_flag_def Let_def word_name_def [symmetric] flag_word_def known_flags_def flag_names_def
  by (cases "w = [] \<or> hd w \<noteq> CHR ''-''") (auto simp: set_eq_iff)

lemma apply_flags_refines:
  "case apply_flags ws s of
     Inl e \<Rightarrow> \<not> list_all (\<lambda>w. word_name w \<in> known_flags) ws
   | Inr s' \<Rightarrow> list_all (\<lambda>w. word_name w \<in> known_flags) ws \<and> flag_names s' = fold flag_word ws (flag_names s)"
proof (induction ws arbitrary: s)
  case (Cons w ws)
  show ?case
  proof (cases "apply_flag w s")
    case (Inr s')
    then show ?thesis using apply_flag_refines [of w s] Cons.IH [of s'] by (cases "apply_flags ws s'") simp_all
  qed (use apply_flag_refines [of w s] in simp)
qed simp

lemma find_updated:
  assumes "store_inv p d" "m \<in> set (db_messages d)" "m_id m = Some i" "\<And>n. message_core (f n) = message_core n"
  shows "MessageDAL_findByID healthy (d\<lparr>db_messages := update_where (\<lambda>n. m_id n = Some i) f (db_messages d)\<rparr>) i = Some (f m)"
proof -
  have "m_id (f n) = m_id n" for n using assms(4) [of n] by (simp add: message_core_def)
  then show ?thesis
    using assms(1-3) by (intro find_message_healthy [where p = p] inv_update_messages assms(4))
      (auto simp: update_where_def image_iff intro!: bexI [of _ m])
qed

text \<open>
  C13. \<^verbatim>\<open>setFlags\<close> refines operations on the set of flag names: with a signed word in the list it
  starts from the message's flags, otherwise from none; then each word in turn adds or removes
  its name. The message keeps its identity and place. A list with an unknown name changes nothing.
\<close>

theorem set_flags_refines:
  assumes "db_inv d" "m \<in> set (db_messages d)" "m_id m = Some i"
  shows "if list_all (\<lambda>w. word_name w \<in> known_flags) ws
    then \<exists>m' d'. setFlags healthy d i ws = (Inr (), d') \<and> MessageDAL_findByID healthy d' i = Some m' \<and>
      message_core m' = message_core m \<and>
      flag_names (flags_of m') = fold flag_word ws (if list_ex has_flag_prefix ws then flag_names (flags_of m) else {})
    else \<exists>e. setFlags healthy d i ws = (Inl e, d)"
proof -
  let ?s = "if list_ex has_flag_prefix ws then flags_of m else no_flags"
  have start: "flag_names ?s = (if list_ex has_flag_prefix ws then flag_names (flags_of m) else {})"
    by (simp add: flag_names_def no_flags_def)
  note find = find_message_healthy [OF assms]
  show ?thesis
  proof (cases "apply_flags ws ?s")
    case (Inl e)
    then show ?thesis using apply_flags_refines [of ws ?s] by (simp add: setFlags_def find)
  next
    case (Inr s)
    let ?f = "set_flag_columns (fl_seen s) (fl_deleted s) (fl_draft s) (fl_answered s) (fl_flagged s) (fl_recent s)"
    let ?d = "d\<lparr>db_messages := update_where (\<lambda>n. m_id n = Some i) ?f (db_messages d)\<rparr>"
    have core: "message_core (?f n) = message_core n" for n by (simp add: message_core_def set_flag_columns_def)
    have "setFlags healthy d i ws = (Inr (), ?d)"
      using Inr by (simp add: setFlags_def find MessageDAL_updateFlags_def run_write_def autocommit_def)
    moreover have "flags_of (?f m) = s" by (simp add: flags_of_def set_flag_columns_def)
    ultimately show ?thesis
      using apply_flags_refines [of ws ?s] Inr find_updated [OF assms core] core [of m] start by auto
  qed
qed

lemma set_flags_example:
  "list_all (\<lambda>w. word_name w \<in> known_flags) [CHR ''+'' # flag_Seen]"
  by (simp add: word_name_def has_flag_prefix_def known_flags_def flag_name_defs)

lemma first_message:
  "case db_messages first_state of m # _ \<Rightarrow> m_id m = Some 1 | [] \<Rightarrow> False"
  by code_simp

theorem set_flags_refines_witness:
  "\<exists>m' d'. setFlags healthy first_state 1 [CHR ''+'' # flag_Seen] = (Inr (), d') \<and>
     MessageDAL_findByID healthy d' 1 = Some m' \<and> flag_Seen \<in> flag_names (flags_of m')"
proof -
  obtain m where m: "m \<in> set (db_messages first_state)" "m_id m = Some 1"
    using first_message by (auto split: list.splits)
  have inv: "db_inv first_state"
    using repo.run_inv [OF empty_db_inv, of Some healthy first_calls] by (simp add: first_state_def)
  show ?thesis
    using set_flags_refines [OF inv m, of "[CHR ''+'' # flag_Seen]"] set_flags_example
    by (auto simp: flag_word_def word_name_def has_flag_prefix_def)
qed

section \<open>Registration and login\<close>

lemma c_text_idem [simp]: "c_text (c_text s) = c_text s"
  by (simp add: c_text_def takeWhile_takeWhile)

lemma c_text_Nil [simp]: "c_text [] = []"
  by (simp add: c_text_def)

lemma create_folders_users: "create_folders engine d uid names = (r, d') \<Longrightarrow> db_users d' = db_users d"
proof (induction names arbitrary: d)
  case (Cons name names)
  then show ?case by (auto simp: FolderDAL_insert_def Let_def split: sum.splits)
qed simp

lemma create_folders_rows:
  "create_folders engine d uid names = (None, d') \<Longrightarrow>
   \<exists>new. db_folders d' = db_folders d @ new \<and>
     map (\<lambda>f. (f_user_id f, f_parent_id f, f_name f, f_next_uid f, f_is_subscribed f)) new =
       map (\<lambda>n. (uid, None, c_text n, 1, True)) names"
proof (induction names arbitrary: d)
  case (Cons name names)
  let ?f = "\<lparr>f_id = None, f_user_id = uid, f_parent_id = None, f_name = name, f_next_uid = 1, f_is_subscribed = True\<rparr>"
  from Cons.prems obtain f' d1 where ins: "FolderDAL_insert engine d ?f = Inr (f', d1)"
    and rest: "create_folders engine d1 uid names = (None, d')" by (auto split: sum.splits)
  obtain new where "db_folders d' = db_folders d1 @ new"
    "map (\<lambda>f. (f_user_id f, f_parent_id f, f_name f, f_next_uid f, f_is_subscribed f)) new =
       map (\<lambda>n. (uid, None, c_text n, 1, True)) names" using Cons.IH [OF rest] by blast
  moreover have "db_folders d1 = db_folders d @ [?f\<lparr>f_id := Some (seq_folders d + 1), f_name := c_text name\<rparr>]"
    using ins by (auto simp: FolderDAL_insert_def Let_def)
  ultimately show ?case by (intro exI [of _ "?f\<lparr>f_id := Some (seq_folders d + 1), f_name := c_text name\<rparr> # new"]) simp
qed simp

lemma registerUser_Inr:
  assumes "registerUser pwhash engine d u password = (Inr u', d')"
  obtains d1 where "UserDAL_insert engine d (u\<lparr>u_password_hash := hashPassword pwhash password\<rparr>) = Inr (u', d1)"
    and "create_folders engine d1 (the (u_id u')) default_folders = (None, d')"
    and "UserDAL_findByUsername engine d (u_username u) = None" "hashPassword pwhash password \<noteq> []"
  using assms by (auto simp: registerUser_def Let_def split: if_splits sum.splits prod.splits option.splits)

text \<open>
  A registration that succeeds gives the user the five default folders, subscribed and
  empty, and a login with the registered name and password is accepted. Of libsodium it is used
  that a password verifies against its own hash and that the hash string has no NUL byte.
\<close>

lemma registered_login:
  assumes "\<And>p h. pwhash p = Some h \<Longrightarrow> verify h p \<and> NUL \<notin> set h"
    and "registerUser pwhash engine d u password = (Inr u', d')"
    and "select_ok engine (''UserDAL::findByUsername'', [Bind_text (c_text (u_username u))]) d'"
  shows "authorize verify engine d' (u_username u) password = Inr () \<and>
    (\<exists>new i. db_folders d' = db_folders d @ new \<and> u_id u' = Some i \<and>
      map (\<lambda>f. (f_user_id f, f_name f, f_next_uid f, f_is_subscribed f)) new =
        map (\<lambda>n. (i, n, 1, True)) default_folders)"
proof
  let ?h = "hashPassword pwhash password"
  from registerUser_Inr [OF assms(2)] obtain d1
    where ins: "UserDAL_insert engine d (u\<lparr>u_password_hash := ?h\<rparr>) = Inr (u', d1)"
      and fs: "create_folders engine d1 (the (u_id u')) default_folders = (None, d')" and h: "?h \<noteq> []" by metis
  have d1: "d1 = d\<lparr>db_users := db_users d @ [(user_row (u\<lparr>u_password_hash := ?h\<rparr>))\<lparr>u_id := Some (seq_users d + 1)\<rparr>],
      seq_users := seq_users d + 1\<rparr>" and id: "u_id u' = Some (seq_users d + 1)"
    and fresh: "\<forall>v \<in> set (db_users d). u_username v \<noteq> c_text (u_username u)"
    using ins by (auto simp: UserDAL_insert_def Let_def user_row_def split: if_splits)
  obtain hash where hash: "pwhash password = Some hash" "?h = c_text hash"
    using h by (auto simp: hashPassword_def split: option.splits)
  have "c_text hash = hash" using assms(1) [OF hash(1)] by (auto simp: c_text_def takeWhile_eq_all_conv)
  moreover have "UserDAL_findByUsername engine d' (u_username u) =
      Some (row_no_avatar ((user_row (u\<lparr>u_password_hash := ?h\<rparr>))\<lparr>u_id := Some (seq_users d + 1)\<rparr>))"
    using fresh assms(3) by (simp add: UserDAL_findByUsername_def read_one_ok create_folders_users [OF fs] d1 user_row_def)
  ultimately show "authorize verify engine d' (u_username u) password = Inr ()"
    using assms(1) [OF hash(1)] hash(2) by (simp add: authorize_def row_no_avatar_def user_row_def)
  have "c_text n = n" if "n \<in> set default_folders" for n
    using that by (auto simp: default_folders_def c_text_def)
  then have names: "map (\<lambda>n. (i, c_text n, 1 :: int, True)) default_folders = map (\<lambda>n. (i, n, 1, True)) default_folders" for i :: int
    by simp
  obtain new where new: "db_folders d' = db_folders d1 @ new"
    "map (\<lambda>f. (f_user_id f, f_parent_id f, f_name f, f_next_uid f, f_is_subscribed f)) new =
       map (\<lambda>n. (the (u_id u'), None, c_text n, 1, True)) default_folders"
    using create_folders_rows [OF fs] by blast
  have "map (\<lambda>f. (f_user_id f, f_name f, f_next_uid f, f_is_subscribed f)) new =
      map (\<lambda>n. (seq_users d + 1, c_text n, 1, True)) default_folders"
    using arg_cong [OF new(2), of "map (\<lambda>(a, _, b, c, e). (a, b, c, e))"] id by (simp add: comp_def)
  then show "\<exists>new i. db_folders d' = db_folders d @ new \<and> u_id u' = Some i \<and>
      map (\<lambda>f. (f_user_id f, f_name f, f_next_uid f, f_is_subscribed f)) new =
        map (\<lambda>n. (i, n, 1, True)) default_folders"
    using new(1) id d1 names by auto
qed

lemma register_example:
  "\<not> isl (fst (registerUser (\<lambda>p. Some ''hash'') healthy empty_db alice ''pw''))"
  by code_simp

lemma registered_login_example:
  "authorize (\<lambda>h p. h = ''hash'') healthy (snd (registerUser (\<lambda>p. Some ''hash'') healthy empty_db alice ''pw''))
     ''alice'' ''pw'' = Inr ()"
  using registered_login [of "\<lambda>p. Some ''hash''" "\<lambda>h p. h = ''hash''" healthy empty_db alice "''pw''"
      "projr (fst (registerUser (\<lambda>p. Some ''hash'') healthy empty_db alice ''pw''))"] register_example
  by (auto simp: alice_def prod_eq_iff)

text \<open>
  After a password change a login is judged by the hash of the new password alone. Where
  hashing fails the call still reports success and the stored hash is the empty string.
\<close>

lemma change_password_decides_login:
  assumes "db_inv d" "u \<in> set (db_users d)" "u_id u = Some i" "NUL \<notin> set (u_username u)"
  shows "\<exists>d'. changePassword pwhash healthy d i new = (Inr (), d') \<and>
     authorize verify healthy d' (u_username u) password =
       (if verify (case pwhash new of None \<Rightarrow> [] | Some h \<Rightarrow> c_text h) password then Inr ()
        else Inl ''authorize: invalid credentials'')"
proof -
  let ?f = "\<lambda>v. v\<lparr>u_password_hash := c_text (hashPassword pwhash new)\<rparr>"
  let ?d = "d\<lparr>db_users := update_where (\<lambda>v. u_id v = Some i) ?f (db_users d)\<rparr>"
  have dist: "distinct (map u_id (db_users d))" "distinct (map u_username (db_users d))"
    using assms(1) by (simp_all add: store_inv_def users_ok_def ids_ok_def)
  have find: "UserDAL_findByID healthy d i = Some u"
    using filter_unique [OF dist(1) assms(2,3)] by (simp add: UserDAL_findByID_def read_one_healthy)
  have "map u_username (update_where (\<lambda>v. u_id v = Some i) ?f (db_users d)) = map u_username (db_users d)"
    by (rule map_update_where) simp
  moreover have "?f u \<in> set (update_where (\<lambda>v. u_id v = Some i) ?f (db_users d))"
    using assms(2,3) by (auto simp: update_where_def image_iff intro!: bexI [of _ u])
  ultimately have "filter (\<lambda>v. u_username v = u_username u) (db_users ?d) = [?f u]"
    using filter_unique [of u_username "db_users ?d" "?f u"] dist(2) by simp
  moreover have "c_text (u_username u) = u_username u"
    using assms(4) by (auto simp: c_text_def takeWhile_eq_all_conv)
  ultimately have "UserDAL_findByUsername healthy ?d (u_username u) = Some (row_no_avatar (?f u))"
    by (simp add: UserDAL_findByUsername_def read_one_healthy)
  moreover have "changePassword pwhash healthy d i new = (Inr (), ?d)"
    by (simp add: changePassword_def find UserDAL_updatePassword_def run_write_def autocommit_def)
  moreover have "c_text (hashPassword pwhash new) = (case pwhash new of None \<Rightarrow> [] | Some h \<Rightarrow> c_text h)"
    by (cases "pwhash new") (simp_all add: hashPassword_def)
  ultimately show ?thesis by (cases "pwhash new") (simp_all add: authorize_def row_no_avatar_def)
qed

lemma first_user:
  "case db_users first_state of u # _ \<Rightarrow> u_id u = Some 1 \<and> u_username u = ''alice'' | [] \<Rightarrow> False"
  by code_simp

lemma change_password_decides_login_example:
  "\<exists>d'. changePassword (\<lambda>p. None) healthy first_state 1 ''new'' = (Inr (), d') \<and>
     authorize (\<lambda>h p. h = p) healthy d' ''alice'' ''new'' = Inl ''authorize: invalid credentials''"
proof -
  obtain u where u: "u \<in> set (db_users first_state)" "u_id u = Some 1" "u_username u = ''alice''"
    using first_user by (auto split: list.splits)
  have inv: "db_inv first_state"
    using repo.run_inv [OF empty_db_inv, of Some healthy first_calls] by (simp add: first_state_def)
  show ?thesis
    using change_password_decides_login [OF inv u(1,2), of "\<lambda>p. None" "''new''" "\<lambda>h p. h = p" "''new''"] u(3)
    by auto
qed

section \<open>A writer between the read and the write\<close>

lemma update_folder_healthy:
  assumes "store_inv p d" "f \<in> set (db_folders d)" "f_id f = Some fid" "f_user_id g = f_user_id f"
    "f_parent_id g = f_parent_id f" "f_id g = Some fid"
  shows "FolderDAL_update healthy d g =
    Inr (d\<lparr>db_folders := update_where (\<lambda>h. f_id h = Some fid) (\<lambda>_. g\<lparr>f_name := c_text (f_name g)\<rparr>) (db_folders d)\<rparr>)"
proof -
  have "folder_ok d f" using assms(1,2) by (simp add: store_inv_def folders_ok_def list_all_iff)
  then have "folder_fk d g = None" using assms(4,5) by (auto simp: folder_ok_def folder_fk_def split: option.splits)
  then show ?thesis by (simp add: FolderDAL_update_def assms(6) run_write_def)
qed

lemma bump_uid_mem:
  "f \<in> set fs \<Longrightarrow> f_id f = Some fid \<Longrightarrow> f\<lparr>f_next_uid := f_next_uid f + 1\<rparr> \<in> set (bump_uid fid fs)"
  by (force simp: bump_uid_def update_where_def)

text \<open>
  \<^verbatim>\<open>renameFolder\<close> reads the folder before it takes the write lock and writes all its columns
  back. If a message is stored in the folder in between, the rename puts the old \<^verbatim>\<open>next_uid\<close>
  back, and from then on storing into that folder is refused by the UNIQUE index.
\<close>

lemma rename_race_blocks_delivery:
  assumes "db_inv d" "f \<in> set (db_folders d)" "f_id f = Some fid" "user_exists d (m_user_id msg)"
    and "d1 = snd (assignUID healthy d msg fid)" "d2 = snd (renameFolder_locked healthy d1 f name)"
  shows "assignUID healthy d2 msg' fid = (Inl uid_error, d2)"
proof -
  let ?row = "f\<lparr>f_name := c_text name\<rparr>"
  let ?up = "update_where (\<lambda>h. f_id h = Some fid) (\<lambda>_. ?row)"
  have d1: "d1 = d\<lparr>db_messages := db_messages d @ [stored_row d msg fid f], seq_messages := seq_messages d + 1,
       db_folders := bump_uid fid (db_folders d)\<rparr>"
    using assignUID_healthy [OF assms(1-4)] assms(5) by simp
  have inv1: "db_inv d1" using assignUID_step [OF assms(1)] assms(5) by (simp add: store_step_def)
  have f1: "f\<lparr>f_next_uid := f_next_uid f + 1\<rparr> \<in> set (db_folders d1)" using bump_uid_mem [OF assms(2,3)] by (simp add: d1)
  have d2: "d2 = d1\<lparr>db_folders := ?up (db_folders d1)\<rparr>"
    using update_folder_healthy [OF inv1 f1, of fid "f\<lparr>f_name := name\<rparr>"] assms(3,6)
    by (simp add: renameFolder_locked_def autocommit_def)
  have "distinct (map f_id (db_folders d1))" using inv1 by (simp add: store_inv_def folders_ok_def ids_ok_def)
  moreover have "map f_id (?up (db_folders d1)) = map f_id (db_folders d1)"
    by (rule map_update_where) (simp add: assms(3))
  moreover have "?row \<in> set (?up (db_folders d1))"
    using f1 assms(3) by (force simp: update_where_def)
  ultimately have "filter (\<lambda>g. f_id g = Some fid) (?up (db_folders d1)) = [?row]"
    using filter_unique [of f_id "?up (db_folders d1)" ?row "Some fid"] assms(3) by simp
  then have find: "FolderDAL_findByID healthy d2 fid = Some ?row"
    by (simp add: FolderDAL_findByID_def read_one_healthy d2)
  have "stored_row d msg fid f \<in> set (db_messages d2)" by (simp add: d2 d1)
  then have "message_violation d2 (db_messages d2) u fid (f_next_uid f) = Some uid_error" for u
    by (force simp: message_violation_def stored_row_def message_row_def)
  then show ?thesis
    by (simp add: assignUID_def transaction_def find MessageDAL_insert_def Let_def run_write_def)
qed

lemma rename_race_blocks_delivery_example:
  "\<exists>f. assignUID healthy (snd (renameFolder_locked healthy (snd (assignUID healthy first_state hello 1)) f ''Box''))
     hello 1 = (Inl uid_error, snd (renameFolder_locked healthy (snd (assignUID healthy first_state hello 1)) f ''Box''))"
proof -
  obtain f where f: "f \<in> set (db_folders first_state)" "f_id f = Some 1"
    using first_folder by (auto split: list.splits)
  have inv: "db_inv first_state"
    using repo.run_inv [OF empty_db_inv, of Some healthy first_calls] by (simp add: first_state_def)
  have "user_exists first_state (m_user_id hello)"
    using first_user by (auto simp: user_exists_def hello_def split: list.splits)
  from rename_race_blocks_delivery [OF inv f this refl refl] show ?thesis by blast
qed

end
