(* ===== verification/Smtp_Session.thy ===== *)
theory Smtp_Session
  imports Mime_Parser Base64_Stream Repository_Laws
begin

text \<open>
  The SMTP server: \<^verbatim>\<open>server/SmtpParser.cpp\<close>, \<^verbatim>\<open>server/SmtpSession.cpp\<close>, \<^verbatim>\<open>proto/SmtpResponse.hpp\<close>
  and the connection loop of \<^verbatim>\<open>server/server_main.cpp\<close>.

  A session is the record of the data members of \<^verbatim>\<open>SmtpSession\<close>. \<open>ProcessLine\<close> takes it with
  the world (database and files) and gives the reply with both, or the exception that leaves the
  call. The operating system is a record of parameters (\<open>mail_env\<close>): whether directories and
  files can be created, how much of a file is written, the clock and the random digits.
\<close>

section \<open>SmtpParser\<close>

datatype smtp_command_type =
  HELO | EHLO | MAIL | RCPT | DATA | RSET | NOOP | QUIT | UNKNOWN | STARTTLS | AUTH

record smtp_command =
  sc_type :: smtp_command_type
  sc_argument :: string

definition StripAngleBrackets :: "string \<Rightarrow> string" where
  "StripAngleBrackets s =
     (if 2 \<le> length s \<and> hd s = CHR ''<'' \<and> last s = CHR ''>'' then substr s 1 (length s - 2) else s)"

definition auth_argument :: "string \<Rightarrow> string" where
  "auth_argument arg =
     (case find_char arg SP of
        None \<Rightarrow> ToUpper arg
      | Some sp \<Rightarrow> ToUpper (substr arg 0 sp) @ '' '' @ substr_from arg (sp + 1))"

definition SmtpParse :: "string \<Rightarrow> smtp_command" where
  "SmtpParse line =
     (let clean = pop_back_if CR line; upper = ToUpper clean in
      if StartsWith upper ''HELO '' then \<lparr>sc_type = HELO, sc_argument = Trim (substr_from clean 5)\<rparr>
      else if StartsWith upper ''EHLO '' then \<lparr>sc_type = EHLO, sc_argument = Trim (substr_from clean 5)\<rparr>
      else if StartsWith upper ''MAIL FROM:''
      then \<lparr>sc_type = MAIL, sc_argument = StripAngleBrackets (Trim (substr_from clean 10))\<rparr>
      else if StartsWith upper ''RCPT TO:''
      then \<lparr>sc_type = RCPT, sc_argument = StripAngleBrackets (Trim (substr_from clean 8))\<rparr>
      else if upper = ''DATA'' then \<lparr>sc_type = DATA, sc_argument = []\<rparr>
      else if upper = ''RSET'' then \<lparr>sc_type = RSET, sc_argument = []\<rparr>
      else if upper = ''NOOP'' then \<lparr>sc_type = NOOP, sc_argument = []\<rparr>
      else if upper = ''QUIT'' then \<lparr>sc_type = QUIT, sc_argument = []\<rparr>
      else if upper = ''STARTTLS'' then \<lparr>sc_type = STARTTLS, sc_argument = []\<rparr>
      else if StartsWith upper ''AUTH '' then \<lparr>sc_type = AUTH, sc_argument = auth_argument (substr_from clean 5)\<rparr>
      else \<lparr>sc_type = UNKNOWN, sc_argument = []\<rparr>)"

section \<open>SmtpResponse\<close>

definition ServiceReady :: "string \<Rightarrow> string" where
  "ServiceReady domain = ''220 '' @ domain @ '' Service ready'' @ CRLF"

definition Ok250 :: string where
  "Ok250 = ''250 OK'' @ CRLF"

definition Hello :: "string \<Rightarrow> string" where
  "Hello domain = ''250 '' @ domain @ '' greets you'' @ CRLF"

definition Ehlo :: "string \<Rightarrow> bool \<Rightarrow> string" where
  "Ehlo domain tls_active =
     ''250-'' @ domain @ CRLF @ (if tls_active then [] else ''250-STARTTLS'' @ CRLF) @ ''250 AUTH LOGIN PLAIN'' @ CRLF"

definition StartMailInput :: string where
  "StartMailInput = ''354 End data with <CR><LF>.<CR><LF>'' @ CRLF"

definition MessageStorageFailed :: string where
  "MessageStorageFailed = ''452 Message storage failed'' @ CRLF"

definition BadSequence :: string where
  "BadSequence = ''503 Bad sequence of commands'' @ CRLF"

definition MessageTooLarge :: string where
  "MessageTooLarge = ''552 Message size exceeds fixed maximum'' @ CRLF"

definition SyntaxError :: string where
  "SyntaxError = ''500 Syntax error'' @ CRLF"

definition NotImplemented :: string where
  "NotImplemented = ''502 Command not implemented'' @ CRLF"

definition Closing :: string where
  "Closing = ''221 Bye'' @ CRLF"

definition StartTls :: string where
  "StartTls = ''220 Ready to start TLS'' @ CRLF"

definition AuthChallenge :: "string \<Rightarrow> string" where
  "AuthChallenge b64 = ''334 '' @ b64 @ CRLF"

definition AuthSucceeded :: string where
  "AuthSucceeded = ''235 Authentication successful'' @ CRLF"

definition AuthFailed :: string where
  "AuthFailed = ''535 Authentication credentials invalid'' @ CRLF"

definition AuthRequired :: string where
  "AuthRequired = ''530 Authentication required'' @ CRLF"

definition EncryptionRequired :: string where
  "EncryptionRequired = ''538 Encryption required for requested auth mechanism'' @ CRLF"

definition UnrecognizedAuthMech :: string where
  "UnrecognizedAuthMech = ''504 Unrecognized authentication mechanism'' @ CRLF"

section \<open>Session state\<close>

datatype smtp_state =
    WAIT_HELO | WAIT_MAIL | WAIT_RCPT | WAIT_DATA | RECEIVING_DATA | CLOSED | ST_STARTTLS
  | AUTH_WAIT_USER | AUTH_WAIT_PASS

record smtp_session =
  ss_state :: smtp_state
  ss_domain :: string
  ss_sender :: string
  ss_recipients :: "string list"
  ss_body :: string
  ss_authenticated :: bool
  ss_secure :: bool
  ss_auth_username :: string
  ss_logger :: bool

definition MAX_MESSAGE_SIZE :: nat where
  "MAX_MESSAGE_SIZE = 10 * 1024 * 1024"

definition MAX_SMTP_LINE :: nat where
  "MAX_SMTP_LINE = 512"

text \<open>Evaluation compares the limits as integers.\<close>

lemma message_size_code [code_unfold]: "MAX_MESSAGE_SIZE < n \<longleftrightarrow> 10485760 < int n"
  by (simp add: MAX_MESSAGE_SIZE_def)

lemma line_size_code [code_unfold]: "MAX_SMTP_LINE < n \<longleftrightarrow> 512 < int n"
  by (simp add: MAX_SMTP_LINE_def)

definition SmtpSession :: "string \<Rightarrow> bool \<Rightarrow> smtp_session" where
  "SmtpSession domain logger =
     \<lparr>ss_state = WAIT_HELO, ss_domain = domain, ss_sender = [], ss_recipients = [], ss_body = [],
      ss_authenticated = False, ss_secure = False, ss_auth_username = [], ss_logger = logger\<rparr>"

text \<open>The world a session acts on, and the libraries behind it.\<close>

record world =
  w_db :: db
  w_files :: file_system

record backend =
  be_engine :: engine
  be_pwhash :: "string \<Rightarrow> string option"
  be_verify :: "string \<Rightarrow> string \<Rightarrow> bool"

text \<open>
  The operating system during one call: whether a directory and a file can be created, how many
  bytes of a file are written before an error (\<open>None\<close>: all), and for the n-th recipient the
  clock in milliseconds, the sixteen random digits and the formatted UTC time.
\<close>

record mail_env =
  me_mkdir :: "string \<Rightarrow> bool"
  me_open :: "string \<Rightarrow> bool"
  me_written :: "string \<Rightarrow> nat option"
  me_ms :: "nat \<Rightarrow> int"
  me_random :: "nat \<Rightarrow> nat list"
  me_clock :: "nat \<Rightarrow> string"

definition ExtractUsername :: "string \<Rightarrow> string" where
  "ExtractUsername addr = (case find_char addr (CHR 0x40) of None \<Rightarrow> addr | Some pos \<Rightarrow> substr addr 0 pos)"

section \<open>Storing a message\<close>

definition GenerateMailFilename :: "int \<Rightarrow> nat list \<Rightarrow> string" where
  "GenerateMailFilename ms digits =
     int_to_string ms @ ''_'' @ map (\<lambda>k. ''0123456789abcdef'' ! (k mod 16)) digits @ ''.eml''"

definition WriteMailToFile ::
  "mail_env \<Rightarrow> nat \<Rightarrow> string \<Rightarrow> string \<Rightarrow> file_system \<Rightarrow> string \<times> file_system" where
  "WriteMailToFile env n mail_dir body fs =
     (if \<not> me_mkdir env mail_dir then ([], fs)
      else let path = mail_dir @ ''/'' @ GenerateMailFilename (me_ms env n) (me_random env n) in
        if \<not> me_open env path then ([], fs)
        else case me_written env path of
          None \<Rightarrow> (path, fs_write path (map byte_of_char body) fs)
        | Some k \<Rightarrow> ([], fs_write path (take k (map byte_of_char body)) fs))"

definition mime_structure_of :: "email \<Rightarrow> string" where
  "mime_structure_of parsed =
     (if attachments parsed \<noteq> [] then
        ''multipart/mixed; parts='' @ nat_to_string (1 + length (attachments parsed)) @
        ''; attachments='' @ nat_to_string (length (attachments parsed))
      else if HasHtml parsed then ''multipart/alternative; parts=2; attachments=0''
      else ''text/plain'')"

definition nonempty :: "string \<Rightarrow> string option" where
  "nonempty s = (if s = [] then None else Some s)"

text \<open>The \<^verbatim>\<open>Message\<close> of one recipient; \<open>None\<close> stands for \<^verbatim>\<open>mime_ok == false\<close>.\<close>

definition new_message ::
  "int \<Rightarrow> string \<Rightarrow> string \<Rightarrow> string \<Rightarrow> string \<Rightarrow> email option \<Rightarrow> message" where
  "new_message uid path body clock envelope_sender parsed =
     \<lparr>m_id = None, m_user_id = uid, m_folder_id = 0, m_uid = 0, m_raw_file_path = path,
      m_size_bytes = int (length body),
      m_mime_structure = map_option mime_structure_of parsed,
      m_message_id_header = (case parsed of None \<Rightarrow> None | Some e \<Rightarrow> nonempty (message_id e)),
      m_in_reply_to = (case parsed of None \<Rightarrow> None | Some e \<Rightarrow> nonempty (in_reply_to e)),
      m_references_header = (case parsed of None \<Rightarrow> None | Some e \<Rightarrow> nonempty (references e)),
      m_from_address = (case parsed of None \<Rightarrow> envelope_sender
        | Some e \<Rightarrow> if sender e \<noteq> [] then sender e else envelope_sender),
      m_sender_address = None,
      m_subject = (case parsed of None \<Rightarrow> None | Some e \<Rightarrow> nonempty (subject e)),
      m_is_seen = False, m_is_deleted = False, m_is_draft = False, m_is_answered = False,
      m_is_flagged = False, m_is_recent = True, m_internal_date = clock,
      m_date_header = (case parsed of None \<Rightarrow> None | Some e \<Rightarrow> nonempty (date e))\<rparr>"

definition add_mime_recipients ::
  "engine \<Rightarrow> int \<Rightarrow> string \<Rightarrow> string list \<Rightarrow> recipient_type \<Rightarrow> db \<Rightarrow> db" where
  "add_mime_recipients engine mid recipient_addr addrs ty d =
     fold (\<lambda>addr d. if addr = [] \<or> (ty = To \<and> addr = recipient_addr) then d
            else snd (addRecipient engine d \<lparr>r_id = None, r_message_id = mid, r_address = addr, r_type = ty\<rparr>))
       addrs d"

definition auto_user :: "string \<Rightarrow> user" where
  "auto_user username =
     \<lparr>u_id = None, u_username = username, u_password_hash = ''smtp_auto'', u_first_name = None,
      u_last_name = None, u_birthdate = None, u_avatar_b64 = None\<rparr>"

text \<open>The user of a recipient, registered on the fly when unknown; \<open>None\<close> is \<^verbatim>\<open>continue\<close>.\<close>

definition find_or_register :: "backend \<Rightarrow> db \<Rightarrow> string \<Rightarrow> user option \<times> db" where
  "find_or_register be d username =
     (case UserDAL_findByUsername (be_engine be) d username of
        Some u \<Rightarrow> (Some u, d)
      | None \<Rightarrow>
          (case registerUser (be_pwhash be) (be_engine be) d (auto_user username) [] of
             (Inl e, d') \<Rightarrow> (None, d')
           | (Inr _, d') \<Rightarrow> (UserDAL_findByUsername (be_engine be) d' username, d')))"

definition save_recipient ::
  "backend \<Rightarrow> mail_env \<Rightarrow> smtp_session \<Rightarrow> email option \<Rightarrow> nat \<Rightarrow> string \<Rightarrow> world \<Rightarrow> bool \<times> world" where
  "save_recipient be env s parsed n recipient_addr w =
     (let engine = be_engine be; username = ExtractUsername recipient_addr in
      case find_or_register be (w_db w) username of
        (None, d1) \<Rightarrow> (False, w\<lparr>w_db := d1\<rparr>)
      | (Some u, d1) \<Rightarrow>
          (case u_id u of
             None \<Rightarrow> (False, w\<lparr>w_db := d1\<rparr>)
           | Some uid \<Rightarrow>
               (case FolderDAL_findByName engine d1 uid ''INBOX'' of
                  None \<Rightarrow> (False, w\<lparr>w_db := d1\<rparr>)
                | Some inbox \<Rightarrow>
                    (case f_id inbox of
                       None \<Rightarrow> (False, w\<lparr>w_db := d1\<rparr>)
                     | Some fid \<Rightarrow>
                         (case WriteMailToFile env n (''mailstore/'' @ username) (ss_body s) (w_files w) of
                            (path, fs) \<Rightarrow>
                              if path = [] then (False, \<lparr>w_db = d1, w_files = fs\<rparr>)
                              else (case deliver engine d1
                                      (new_message uid path (ss_body s) (me_clock env n) (ss_sender s) parsed) fid of
                                 (Inl e, d2) \<Rightarrow> (False, \<lparr>w_db = d2, w_files = fs\<rparr>)
                               | (Inr msg, d2) \<Rightarrow>
                                   (let mid = the (m_id msg);
                                        d3 = snd (addRecipient engine d2
                                               \<lparr>r_id = None, r_message_id = mid, r_address = recipient_addr, r_type = To\<rparr>);
                                        d4 = (case parsed of
                                                None \<Rightarrow> d3
                                              | Some e \<Rightarrow>
                                                  add_mime_recipients engine mid recipient_addr (bcc_addrs e) Bcc
                                                    (add_mime_recipients engine mid recipient_addr (cc_addrs e) Cc
                                                      (add_mime_recipients engine mid recipient_addr (to_addrs e) To d3)))
                                    in (True, \<lparr>w_db = d4, w_files = fs\<rparr>))))))))"

fun save_recipients ::
  "backend \<Rightarrow> mail_env \<Rightarrow> smtp_session \<Rightarrow> email option \<Rightarrow> nat \<Rightarrow> string list \<Rightarrow> world \<Rightarrow> bool \<times> world" where
  "save_recipients be env s parsed n [] w = (False, w)"
| "save_recipients be env s parsed n (r # rs) w =
     (case save_recipient be env s parsed n r w of
        (saved, w1) \<Rightarrow> (case save_recipients be env s parsed (Suc n) rs w1 of (any, w2) \<Rightarrow> (saved \<or> any, w2)))"

definition parsed_body :: "smtp_session \<Rightarrow> email option" where
  "parsed_body s =
     (if ss_logger s then (case ParseEmail (ss_body s) new_email of (ok, e) \<Rightarrow> if ok then Some e else None) else None)"

definition SaveMessage :: "backend \<Rightarrow> mail_env \<Rightarrow> smtp_session \<Rightarrow> world \<Rightarrow> bool \<times> world" where
  "SaveMessage be env s w =
     (if ss_recipients s = [] then (False, w)
      else save_recipients be env s (parsed_body s) 0 (ss_recipients s) w)"

section \<open>Handlers\<close>

definition ResetMessage :: "smtp_session \<Rightarrow> smtp_session" where
  "ResetMessage s = s\<lparr>ss_sender := [], ss_recipients := [], ss_body := []\<rparr>"

definition ResetToHelo :: "smtp_session \<Rightarrow> smtp_session" where
  "ResetToHelo s = ResetMessage (s\<lparr>ss_state := WAIT_HELO, ss_authenticated := False, ss_auth_username := []\<rparr>)"

definition HandleHelo :: "smtp_session \<Rightarrow> smtp_command \<Rightarrow> string \<times> smtp_session" where
  "HandleHelo s c =
     (let s1 = (ResetToHelo s)\<lparr>ss_state := WAIT_MAIL\<rparr> in
      if sc_type c = EHLO then (Ehlo (ss_domain s1) (ss_secure s1), s1) else (Hello (ss_domain s1), s1))"

definition HandleMail :: "smtp_session \<Rightarrow> smtp_command \<Rightarrow> string \<times> smtp_session" where
  "HandleMail s c =
     (if ss_state s \<noteq> WAIT_MAIL then (BadSequence, s)
      else if \<not> ss_authenticated s then (AuthRequired, s)
      else (Ok250, s\<lparr>ss_sender := ExtractUsername (sc_argument c), ss_state := WAIT_RCPT\<rparr>))"

definition HandleRcpt :: "smtp_session \<Rightarrow> smtp_command \<Rightarrow> string \<times> smtp_session" where
  "HandleRcpt s c =
     (if ss_state s \<noteq> WAIT_RCPT then (BadSequence, s)
      else (Ok250, s\<lparr>ss_recipients := ss_recipients s @ [ExtractUsername (sc_argument c)]\<rparr>))"

definition HandleData :: "smtp_session \<Rightarrow> string \<times> smtp_session" where
  "HandleData s =
     (if ss_state s \<noteq> WAIT_RCPT \<or> ss_recipients s = [] then (BadSequence, s)
      else (StartMailInput, s\<lparr>ss_state := RECEIVING_DATA\<rparr>))"

definition HandleRset :: "smtp_session \<Rightarrow> string \<times> smtp_session" where
  "HandleRset s = (Ok250, (ResetMessage s)\<lparr>ss_state := WAIT_MAIL\<rparr>)"

definition HandleNoop :: "smtp_session \<Rightarrow> string \<times> smtp_session" where
  "HandleNoop s = (Ok250, s)"

definition HandleQuit :: "smtp_session \<Rightarrow> string \<times> smtp_session" where
  "HandleQuit s = (Closing, s\<lparr>ss_state := CLOSED\<rparr>)"

definition HandleStartTLS :: "smtp_session \<Rightarrow> string \<times> smtp_session" where
  "HandleStartTLS s =
     (if ss_state s \<noteq> WAIT_MAIL then (BadSequence, s) else (StartTls, s\<lparr>ss_state := ST_STARTTLS\<rparr>))"

text \<open>The bytes between the first two NULs and those after the second: \<^verbatim>\<open>[authzid] NUL user NUL password\<close>.\<close>

definition split_credentials :: "string \<Rightarrow> (string \<times> string) option" where
  "split_credentials blob =
     (case find_char blob NUL of
        None \<Rightarrow> None
      | Some first_nul \<Rightarrow>
          (case find_char_from blob NUL (first_nul + 1) of
             None \<Rightarrow> None
           | Some second_nul \<Rightarrow>
               Some (ExtractUsername (substr blob (first_nul + 1) (second_nul - first_nul - 1)),
                     substr_from blob (second_nul + 1))))"

definition bytes_to_string :: "byte list \<Rightarrow> string" where
  "bytes_to_string bs = map char_of_byte bs"

definition label_challenge :: "string \<Rightarrow> string outcome" where
  "label_challenge label =
     (case EncodeBase64 (map byte_of_char label) of Inl e \<Rightarrow> Inl e | Inr b64 \<Rightarrow> Inr (AuthChallenge b64))"

definition authorized :: "backend \<Rightarrow> db \<Rightarrow> string \<Rightarrow> string \<Rightarrow> bool" where
  "authorized be d username password \<longleftrightarrow> \<not> isl (authorize (be_verify be) (be_engine be) d username password)"

definition HandleAuth ::
  "backend \<Rightarrow> db \<Rightarrow> smtp_session \<Rightarrow> smtp_command \<Rightarrow> (string \<times> smtp_session) outcome" where
  "HandleAuth be d s c =
     (if ss_state s \<noteq> WAIT_MAIL then Inr (BadSequence, s)
      else if ss_authenticated s then Inr (BadSequence, s)
      else if \<not> ss_secure s then Inr (EncryptionRequired, s)
      else let sp = find_char (sc_argument c) SP;
               mechanism = (case sp of None \<Rightarrow> sc_argument c | Some p \<Rightarrow> substr (sc_argument c) 0 p);
               initial = (case sp of None \<Rightarrow> [] | Some p \<Rightarrow> substr_from (sc_argument c) (p + 1))
           in if mechanism = ''LOGIN'' then
                (case label_challenge ''Username:'' of
                   Inl e \<Rightarrow> Inl e
                 | Inr r \<Rightarrow> Inr (r, s\<lparr>ss_state := AUTH_WAIT_USER\<rparr>))
              else if mechanism = ''PLAIN'' then
                (if initial = [] then Inr (AuthChallenge [], s\<lparr>ss_state := AUTH_WAIT_PASS\<rparr>)
                 else case DecodeBase64 initial of
                   Inl e \<Rightarrow> Inl e
                 | Inr decoded \<Rightarrow>
                     if decoded = [] then Inr (AuthFailed, s)
                     else case split_credentials (bytes_to_string decoded) of
                       None \<Rightarrow> Inr (AuthFailed, s)
                     | Some (username, password) \<Rightarrow>
                         if authorized be d username password
                         then Inr (AuthSucceeded, s\<lparr>ss_authenticated := True\<rparr>)
                         else Inr (AuthFailed, s))
              else Inr (UnrecognizedAuthMech, s))"

definition HandleAuthLine ::
  "backend \<Rightarrow> db \<Rightarrow> smtp_session \<Rightarrow> string \<Rightarrow> (string \<times> smtp_session) outcome" where
  "HandleAuthLine be d s line =
     (case DecodeBase64 line of
        Inl e \<Rightarrow> Inl e
      | Inr decoded \<Rightarrow>
          if decoded = [] \<and> line \<noteq> [] then Inr (AuthFailed, s\<lparr>ss_state := WAIT_MAIL, ss_auth_username := []\<rparr>)
          else if ss_state s = AUTH_WAIT_USER then
            (case label_challenge ''Password:'' of
               Inl e \<Rightarrow> Inl e
             | Inr r \<Rightarrow> Inr (r, s\<lparr>ss_auth_username := ExtractUsername (bytes_to_string decoded), ss_state := AUTH_WAIT_PASS\<rparr>))
          else if ss_state s = AUTH_WAIT_PASS then
            (let v = bytes_to_string decoded; s1 = s\<lparr>ss_state := WAIT_MAIL\<rparr> in
             if ss_auth_username s = [] then
               (case split_credentials v of
                  None \<Rightarrow> Inr (AuthFailed, s1)
                | Some (username, password) \<Rightarrow>
                    if authorized be d username password
                    then Inr (AuthSucceeded, s1\<lparr>ss_authenticated := True\<rparr>) else Inr (AuthFailed, s1))
             else
               (let s2 = s1\<lparr>ss_auth_username := []\<rparr> in
                if authorized be d (ss_auth_username s) v
                then Inr (AuthSucceeded, s2\<lparr>ss_authenticated := True\<rparr>) else Inr (AuthFailed, s2)))
          else Inr (SyntaxError, s))"

definition receive_line ::
  "backend \<Rightarrow> mail_env \<Rightarrow> string \<Rightarrow> smtp_session \<Rightarrow> world \<Rightarrow> string \<times> smtp_session \<times> world" where
  "receive_line be env line s w =
     (if line = ''.'' then
        (case SaveMessage be env s w of
           (False, w') \<Rightarrow> (MessageStorageFailed, (ResetMessage s)\<lparr>ss_state := WAIT_MAIL\<rparr>, w')
         | (True, w') \<Rightarrow> (Ok250, ResetMessage (s\<lparr>ss_state := WAIT_MAIL\<rparr>), w'))
      else let body = ss_body s @ line @ [LF] in
        if MAX_MESSAGE_SIZE < length body
        then (MessageTooLarge, ResetMessage (s\<lparr>ss_body := body, ss_state := WAIT_MAIL\<rparr>), w)
        else ([], s\<lparr>ss_body := body\<rparr>, w))"

definition dispatch_command ::
  "backend \<Rightarrow> smtp_command \<Rightarrow> smtp_session \<Rightarrow> db \<Rightarrow> (string \<times> smtp_session) outcome" where
  "dispatch_command be c s d =
     (case sc_type c of
        HELO \<Rightarrow> Inr (HandleHelo s c)
      | EHLO \<Rightarrow> Inr (HandleHelo s c)
      | AUTH \<Rightarrow> HandleAuth be d s c
      | MAIL \<Rightarrow> Inr (HandleMail s c)
      | RCPT \<Rightarrow> Inr (HandleRcpt s c)
      | DATA \<Rightarrow> Inr (HandleData s)
      | RSET \<Rightarrow> Inr (HandleRset s)
      | NOOP \<Rightarrow> Inr (HandleNoop s)
      | QUIT \<Rightarrow> Inr (HandleQuit s)
      | UNKNOWN \<Rightarrow> Inr (NotImplemented, s)
      | STARTTLS \<Rightarrow> Inr (HandleStartTLS s))"

definition ProcessLine ::
  "backend \<Rightarrow> mail_env \<Rightarrow> string \<Rightarrow> smtp_session \<Rightarrow> world \<Rightarrow> (string \<times> smtp_session \<times> world) outcome" where
  "ProcessLine be env line s w =
     (if MAX_SMTP_LINE < length line then Inr (SyntaxError, s, w)
      else if ss_state s = AUTH_WAIT_USER \<or> ss_state s = AUTH_WAIT_PASS
      then map_sum id (\<lambda>(r, s'). (r, s', w)) (HandleAuthLine be (w_db w) s line)
      else if ss_state s = RECEIVING_DATA then Inr (receive_line be env line s w)
      else map_sum id (\<lambda>(r, s'). (r, s', w)) (dispatch_command be (SmtpParse line) s (w_db w)))"

section \<open>The connection loop\<close>

text \<open>
  One connection of \<^verbatim>\<open>server_main.cpp\<close>: it runs with a session, has ended, or an exception has
  left \<^verbatim>\<open>ProcessLine\<close> (the packaged task of the thread pool keeps it in a future nobody reads, and the connection is closed). What the network does
  for a received line: whether the reply can be sent and whether the TLS handshake succeeds.
\<close>

datatype connection = Running smtp_session world | Ended world | Crashed cpp_error world

record received =
  rc_line :: string
  rc_env :: mail_env
  rc_send_ok :: bool
  rc_tls_ok :: bool

definition after_reply :: "received \<Rightarrow> smtp_session \<Rightarrow> world \<Rightarrow> connection" where
  "after_reply r s w =
     (if ss_state s = ST_STARTTLS
      then (if rc_tls_ok r then Running (ResetToHelo (s\<lparr>ss_secure := True\<rparr>)) w else Ended w)
      else if ss_state s = CLOSED then Ended w else Running s w)"

fun serve :: "backend \<Rightarrow> received \<Rightarrow> connection \<Rightarrow> connection" where
  "serve be r (Running s w) =
     (case ProcessLine be (rc_env r) (rc_line r) s w of
        Inl e \<Rightarrow> Crashed e w
      | Inr (response, s', w') \<Rightarrow>
          if response \<noteq> [] \<and> \<not> rc_send_ok r then Ended w' else after_reply r s' w')"
| "serve be r (Ended w) = Ended w"
| "serve be r (Crashed e w) = Crashed e w"

definition accepted :: "string \<Rightarrow> bool \<Rightarrow> world \<Rightarrow> connection" where
  "accepted domain greeting_sent w = (if greeting_sent then Running (SmtpSession domain True) w else Ended w)"

end
