(* ===== verification/Smtp_Laws.thy ===== *)
theory Smtp_Laws
  imports Smtp_Session Repository_Behaviour
begin

text \<open>
  What one SMTP connection guarantees over every dialogue: the session automaton's invariant, who may
  store mail, that the connection keeps the integrity of the store, and how DATA collects the lines.
\<close>

section \<open>The store under a session\<close>

lemma step_inv: "store_step d d' \<Longrightarrow> db_inv d'"
  by (simp add: store_step_def)

lemma add_mime_recipients_step:
  "db_inv d \<Longrightarrow> store_step d (add_mime_recipients engine mid r addrs ty d)"
  unfolding add_mime_recipients_def
proof (induction addrs arbitrary: d)
  case (Cons a addrs)
  let ?d = "if a = [] \<or> (ty = To \<and> a = r) then d
    else snd (addRecipient engine d \<lparr>r_id = None, r_message_id = mid, r_address = a, r_type = ty\<rparr>)"
  have step: "store_step d ?d" using recipient_call_step(1) [OF Cons.prems] store_step_refl [OF Cons.prems] by simp
  show ?case
    using store_step_trans [OF Cons.prems step Cons.IH [OF step_inv [OF step]]]
    by (simp only: fold.simps comp_apply)
qed (simp add: store_step_refl)

lemma find_or_register_step:
  "db_inv d \<Longrightarrow> store_step d (snd (find_or_register be d username))"
  using registerUser_step [of d "be_pwhash be" "be_engine be" "auto_user username" "[]"]
  by (auto simp: find_or_register_def store_step_refl split: option.splits prod.splits sum.splits)

lemma save_recipient_step:
  assumes inv: "db_inv (w_db w)"
  shows "store_step (w_db w) (w_db (snd (save_recipient be env s parsed n r w)))"
proof -
  obtain uo d1 where u: "find_or_register be (w_db w) (ExtractUsername r) = (uo, d1)" by fastforce
  have s1: "store_step (w_db w) d1" using find_or_register_step [OF inv] u by (metis snd_conv)
  note inv1 = step_inv [OF s1]
  have s2: "store_step (w_db w) d2" if "deliver (be_engine be) d1 m f = (x, d2)" for m f x d2
    using deliver_step [OF inv1, of "be_engine be" m f] that store_step_trans [OF inv s1] by simp
  have s3: "store_step (w_db w) (snd (addRecipient (be_engine be) d2 q))"
    if "deliver (be_engine be) d1 m f = (x, d2)" for m f x d2 q
    using recipient_call_step(1) [OF step_inv [OF s2 [OF that]]] store_step_trans [OF inv s2 [OF that]] by blast
  have s4: "store_step (w_db w) (add_mime_recipients engine mid a addrs ty d)" if "store_step (w_db w) d"
    for engine mid a addrs ty d
    using add_mime_recipients_step [OF step_inv [OF that]] store_step_trans [OF inv that] by blast
  show ?thesis
    unfolding save_recipient_def Let_def u
    using s1 by (auto simp: s2 s3 s4 split: option.splits prod.splits sum.splits)
qed

lemma save_recipients_step:
  "db_inv (w_db w) \<Longrightarrow> store_step (w_db w) (w_db (snd (save_recipients be env s parsed n rs w)))"
proof (induction rs arbitrary: n w)
  case (Cons r rs)
  obtain b w1 where r: "save_recipient be env s parsed n r w = (b, w1)" by fastforce
  have s1: "store_step (w_db w) (w_db w1)" using save_recipient_step [OF Cons.prems] r by (metis snd_conv)
  have "store_step (w_db w1) (w_db (snd (save_recipients be env s parsed (Suc n) rs w1)))"
    by (rule Cons.IH [OF step_inv [OF s1]])
  from store_step_trans [OF Cons.prems s1 this] show ?case
    by (cases "save_recipients be env s parsed (Suc n) rs w1") (simp add: r)
qed (simp add: store_step_refl)

lemma SaveMessage_step:
  "db_inv (w_db w) \<Longrightarrow> store_step (w_db w) (w_db (snd (SaveMessage be env s w)))"
  by (simp add: SaveMessage_def store_step_refl save_recipients_step)

section \<open>The session automaton\<close>

definition smtp_inv :: "smtp_session \<Rightarrow> bool" where
  "smtp_inv s \<longleftrightarrow>
     (ss_state s \<in> {WAIT_RCPT, RECEIVING_DATA} \<longrightarrow> ss_authenticated s) \<and>
     (ss_authenticated s \<longrightarrow> ss_secure s) \<and>
     (ss_state s \<in> {AUTH_WAIT_USER, AUTH_WAIT_PASS} \<longrightarrow> ss_secure s \<and> \<not> ss_authenticated s) \<and>
     (ss_state s = RECEIVING_DATA \<longrightarrow> ss_recipients s \<noteq> []) \<and>
     length (ss_body s) \<le> MAX_MESSAGE_SIZE \<and>
     (ss_body s \<noteq> [] \<longrightarrow> ss_state s = RECEIVING_DATA) \<and>
     (ss_auth_username s \<noteq> [] \<longrightarrow> ss_state s = AUTH_WAIT_PASS) \<and>
     ss_state s \<noteq> WAIT_DATA"

lemmas handler_defs = HandleHelo_def HandleMail_def HandleRcpt_def HandleData_def HandleRset_def
  HandleNoop_def HandleQuit_def HandleStartTLS_def ResetToHelo_def ResetMessage_def Let_def

lemma HandleAuth_inv:
  "HandleAuth be d s c = Inr (r, s') \<Longrightarrow> smtp_inv s \<Longrightarrow> smtp_inv s'"
  by (auto simp: HandleAuth_def Let_def smtp_inv_def split: if_splits sum.splits option.splits)

lemma HandleAuthLine_inv:
  "HandleAuthLine be d s line = Inr (r, s') \<Longrightarrow> smtp_inv s \<Longrightarrow>
   ss_state s = AUTH_WAIT_USER \<or> ss_state s = AUTH_WAIT_PASS \<Longrightarrow> smtp_inv s'"
  by (auto simp: HandleAuthLine_def Let_def smtp_inv_def split: if_splits sum.splits option.splits)

lemma dispatch_inv:
  assumes "dispatch_command be c s d = Inr (r, s')" "smtp_inv s"
    "ss_state s \<notin> {RECEIVING_DATA, AUTH_WAIT_USER, AUTH_WAIT_PASS}"
  shows "smtp_inv s'"
proof (cases "sc_type c = AUTH")
  case True
  then show ?thesis using assms HandleAuth_inv by (auto simp: dispatch_command_def)
next
  case False
  then show ?thesis
    using assms by (cases "sc_type c")
      (auto simp: dispatch_command_def handler_defs smtp_inv_def MAX_MESSAGE_SIZE_def split: if_splits)
qed

lemma receive_line_inv:
  assumes "smtp_inv s" "ss_state s = RECEIVING_DATA"
  shows "smtp_inv (fst (snd (receive_line be env line s w)))"
  using assms by (auto simp: receive_line_def ResetMessage_def smtp_inv_def Let_def split: prod.splits bool.splits)

lemma receive_line_step:
  "db_inv (w_db w) \<Longrightarrow> store_step (w_db w) (w_db (snd (snd (receive_line be env line s w))))"
  using SaveMessage_step [of w be env s]
  by (auto simp: receive_line_def Let_def store_step_refl split: prod.splits bool.splits)

lemma ProcessLine_inv:
  assumes "ProcessLine be env line s w = Inr (r, s', w')" "smtp_inv s" "db_inv (w_db w)"
  shows "smtp_inv s' \<and> store_step (w_db w) (w_db w')"
  using assms receive_line_inv [of s be env line w] receive_line_step [OF assms(3), of be env line s]
  by (auto simp: ProcessLine_def map_sum_def store_step_refl split: if_splits sum.splits
      dest: HandleAuthLine_inv dispatch_inv)

fun conn_world :: "connection \<Rightarrow> world" where
  "conn_world (Running s w) = w"
| "conn_world (Ended w) = w"
| "conn_world (Crashed e w) = w"

fun conn_inv :: "connection \<Rightarrow> bool" where
  "conn_inv (Running s w) \<longleftrightarrow> smtp_inv s \<and> ss_state s \<notin> {ST_STARTTLS, CLOSED} \<and> db_inv (w_db w)"
| "conn_inv (Ended w) \<longleftrightarrow> db_inv (w_db w)"
| "conn_inv (Crashed e w) \<longleftrightarrow> db_inv (w_db w)"

lemma conn_inv_db: "conn_inv c \<Longrightarrow> db_inv (w_db (conn_world c))"
  by (cases c) auto

lemma serve_step:
  assumes "conn_inv c"
  shows "conn_inv (serve be r c) \<and> store_step (w_db (conn_world c)) (w_db (conn_world (serve be r c)))"
proof (cases c)
  case (Running s w)
  show ?thesis
  proof (cases "ProcessLine be (rc_env r) (rc_line r) s w")
    case (Inl e)
    then show ?thesis using assms Running by (simp add: store_step_refl)
  next
    case (Inr x)
    then obtain resp s' w' where p: "ProcessLine be (rc_env r) (rc_line r) s w = Inr (resp, s', w')" by (cases x) auto
    have "smtp_inv s'" "store_step (w_db w) (w_db w')" using ProcessLine_inv [OF p] assms Running by auto
    moreover have "smtp_inv (ResetToHelo (s'\<lparr>ss_secure := True\<rparr>))"
      by (simp add: smtp_inv_def ResetToHelo_def ResetMessage_def MAX_MESSAGE_SIZE_def)
    moreover have "ss_state (ResetToHelo (s'\<lparr>ss_secure := True\<rparr>)) = WAIT_HELO"
      by (simp add: ResetToHelo_def ResetMessage_def)
    ultimately show ?thesis using Running p by (auto simp: after_reply_def step_inv)
  qed
qed (use assms in \<open>auto simp: store_step_refl\<close>)

interpretation smtp: guarded_system "serve be" conn_inv "\<lambda>c c'. uid_extends (w_db (conn_world c)) (w_db (conn_world c'))"
proof (unfold_locales, goal_cases)
  case (4 s u t)
  then show ?case using uid_extends_trans [OF _ _ conn_inv_db conn_inv_db] by blast
qed (use serve_step in \<open>auto simp: store_step_def\<close>)

lemma accepted_inv: "db_inv (w_db w) \<Longrightarrow> conn_inv (accepted domain sent w)"
  by (simp add: accepted_def SmtpSession_def smtp_inv_def MAX_MESSAGE_SIZE_def)

section \<open>Properties of every dialogue\<close>

text \<open>
  Whatever lines a client sends and whatever the network, the file system and SQLite do, a connection that
  has the server for itself keeps its invariant.
\<close>

lemma smtp_session_invariant:
  assumes "db_inv (w_db w)"
  shows "conn_inv (fold (serve be) rs (accepted domain sent w))"
  by (rule smtp.run_inv [OF accepted_inv [OF assms]])

definition empty_world :: world where
  "empty_world = \<lparr>w_db = empty_db, w_files = []\<rparr>"

definition test_backend :: backend where
  "test_backend = \<lparr>be_engine = healthy, be_pwhash = Some, be_verify = (=)\<rparr>"

definition test_env :: mail_env where
  "test_env = \<lparr>me_mkdir = (\<lambda>_. True), me_open = (\<lambda>_. True), me_written = (\<lambda>_. None), me_ms = (\<lambda>n. 7),
     me_random = (\<lambda>n. replicate 16 n), me_clock = (\<lambda>_. ''2024-01-01 00:00:00'')\<rparr>"

definition received_line :: "mail_env \<Rightarrow> string \<Rightarrow> received" where
  "received_line env l = \<lparr>rc_line = l, rc_env = env, rc_send_ok = True, rc_tls_ok = True\<rparr>"

lemma empty_world_inv: "db_inv (w_db empty_world)"
  by (simp add: empty_world_def empty_db_inv)

lemma ProcessLine_world:
  assumes "ProcessLine be env line s w = Inr (r, s', w')" "w' \<noteq> w"
  shows "ss_state s = RECEIVING_DATA \<and> line = ''.'' \<and> length line \<le> MAX_SMTP_LINE"
  using assms by (auto simp: ProcessLine_def receive_line_def Let_def map_sum_def split: if_splits sum.splits prod.splits)

text \<open>A line changes the store in one situation only.\<close>

lemma stored_when_authenticated:
  assumes inv: "conn_inv c" and changed: "conn_world (serve be r c) \<noteq> conn_world c"
  shows "\<exists>s w. c = Running s w \<and> ss_state s = RECEIVING_DATA \<and> ss_authenticated s \<and> ss_secure s \<and>
    ss_recipients s \<noteq> [] \<and> rc_line r = ''.''"
proof (cases c)
  case (Running s w0)
  then obtain resp s' w' where p: "ProcessLine be (rc_env r) (rc_line r) s w0 = Inr (resp, s', w')" "w' \<noteq> w0"
    using changed by (auto simp: after_reply_def split: sum.splits if_splits prod.splits)
  from ProcessLine_world [OF p] show ?thesis
    using inv Running by (auto simp: smtp_inv_def)
qed (use changed in auto)

definition alice_world :: world where
  "alice_world = \<lparr>w_db = first_state, w_files = []\<rparr>"

definition alice_lines :: "string list" where
  "alice_lines = [''EHLO a'', ''STARTTLS'', ''EHLO a'', ''AUTH PLAIN AGFsaWNlAHB3'', ''MAIL FROM:<alice>'',
     ''RCPT TO:<alice>'', ''DATA'', ''Hi'']"

definition alice_connection :: connection where
  "alice_connection = fold (serve test_backend) (map (received_line test_env) alice_lines)
     (accepted ''localhost'' True alice_world)"

lemma alice_world_inv: "db_inv (w_db alice_world)"
  using repo.run_inv [OF empty_db_inv, of Some healthy first_calls] by (simp add: alice_world_def first_state_def)

section \<open>Collecting and storing a message\<close>

definition data_text :: "string list \<Rightarrow> string" where
  "data_text ls = concat (map (\<lambda>l. l @ [LF]) (filter (\<lambda>l. length l \<le> MAX_SMTP_LINE) ls))"

lemma serve_line_collected:
  assumes "ss_state s = RECEIVING_DATA" "rc_line r \<noteq> ''.''" "rc_send_ok r"
    and "length (ss_body s @ data_text [rc_line r]) \<le> MAX_MESSAGE_SIZE"
  shows "serve be r (Running s w) = Running (s\<lparr>ss_body := ss_body s @ data_text [rc_line r]\<rparr>) w"
  using assms by (auto simp: ProcessLine_def receive_line_def Let_def after_reply_def data_text_def split: if_splits)

lemma serve_data_line:
  assumes "ss_state s = RECEIVING_DATA" "l \<noteq> ''.''" "length (ss_body s @ data_text [l]) \<le> MAX_MESSAGE_SIZE"
  shows "serve be (received_line env l) (Running s w) = Running (s\<lparr>ss_body := ss_body s @ data_text [l]\<rparr>) w"
  using serve_line_collected [of s "received_line env l"] assms by (simp add: received_line_def)

lemma fold_data:
  assumes "ss_state s = RECEIVING_DATA" "''.'' \<notin> set ls" "length (ss_body s @ data_text ls) \<le> MAX_MESSAGE_SIZE"
  shows "fold (serve be) (map (received_line env) ls) (Running s w) = Running (s\<lparr>ss_body := ss_body s @ data_text ls\<rparr>) w"
  using assms
proof (induction ls arbitrary: s)
  case Nil
  then show ?case by (simp add: data_text_def)
next
  case (Cons l ls)
  have split: "data_text (l # ls) = data_text [l] @ data_text ls" by (simp add: data_text_def)
  have "serve be (received_line env l) (Running s w) = Running (s\<lparr>ss_body := ss_body s @ data_text [l]\<rparr>) w"
    using Cons.prems by (intro serve_data_line) (simp_all only: split length_append, auto)
  then show ?case
    using Cons.IH [of "s\<lparr>ss_body := ss_body s @ data_text [l]\<rparr>"] Cons.prems by (simp add: split)
qed

end
