(* ===== verification/Smtp_Dialogue.thy ===== *)
theory Smtp_Dialogue
  imports Smtp_Laws
begin

text \<open>
  Complete SMTP dialogues: the delivery of a message from MAIL to the final dot, the
  authentication exchange, the account that a message to an unknown user creates, and what an
  ill-formed authentication line does to the server.
\<close>

section \<open>Parsing of the commands of a dialogue\<close>

lemma pop_back_other: "c \<noteq> d \<Longrightarrow> pop_back_if c (s @ [d]) = s @ [d]"
  by (simp add: pop_back_if_def)

lemma ToUpper_append [simp]: "ToUpper (s @ t) = ToUpper s @ ToUpper t"
  by (simp add: ToUpper_def)

lemma StripAngleBrackets_wrap [simp]: "StripAngleBrackets (CHR ''<'' # a @ [CHR ''>'']) = a"
  by (simp add: StripAngleBrackets_def substr_def)

lemma keyword_upper [simp]:
  "ToUpper ''MAIL FROM:<'' = ''MAIL FROM:<''" "ToUpper ''RCPT TO:<'' = ''RCPT TO:<''"
  "ToUpper ''AUTH PLAIN '' = ''AUTH PLAIN ''" "ToUpper ''PLAIN'' = ''PLAIN''" "ToUpper ''DATA'' = ''DATA''"
  by (simp_all add: ToUpper_def to_upper_char_def code_of_def)

lemma parse_mail: "SmtpParse (''MAIL FROM:<'' @ a @ ''>'') = \<lparr>sc_type = MAIL, sc_argument = a\<rparr>"
proof -
  have "pop_back_if CR (''MAIL FROM:<'' @ a @ ''>'') = ''MAIL FROM:<'' @ a @ ''>''"
    using pop_back_other [of CR "CHR ''>''" "''MAIL FROM:<'' @ a"] by simp
  moreover have "Trim (CHR ''<'' # a @ [CHR ''>'']) = CHR ''<'' # a @ [CHR ''>'']"
    by (rule Trim_ink_ends) (simp_all add: is_trim_ws_def)
  ultimately show ?thesis
    unfolding SmtpParse_def Let_def by (simp add: StartsWith_def ToUpper_def to_upper_char_def code_of_def)
qed

lemma parse_rcpt: "SmtpParse (''RCPT TO:<'' @ a @ ''>'') = \<lparr>sc_type = RCPT, sc_argument = a\<rparr>"
proof -
  have "pop_back_if CR (''RCPT TO:<'' @ a @ ''>'') = ''RCPT TO:<'' @ a @ ''>''"
    using pop_back_other [of CR "CHR ''>''" "''RCPT TO:<'' @ a"] by simp
  moreover have "Trim (CHR ''<'' # a @ [CHR ''>'']) = CHR ''<'' # a @ [CHR ''>'']"
    by (rule Trim_ink_ends) (simp_all add: is_trim_ws_def)
  ultimately show ?thesis
    unfolding SmtpParse_def Let_def by (simp add: StartsWith_def ToUpper_def to_upper_char_def code_of_def)
qed

lemma parse_data: "SmtpParse ''DATA'' = \<lparr>sc_type = DATA, sc_argument = []\<rparr>"
  by (simp add: SmtpParse_def Let_def pop_back_if_def StartsWith_def)

lemma ExtractUsername_takeWhile: "ExtractUsername s = takeWhile (\<lambda>c. c \<noteq> CHR 0x40) s"
proof (cases "find_char s (CHR 0x40)")
  case None
  then have "CHR 0x40 \<notin> set s" by (auto simp: find_char_def find_idx_None)
  then have "takeWhile (\<lambda>c. c \<noteq> CHR 0x40) s = s" by (auto simp: takeWhile_eq_all_conv)
  then show ?thesis by (simp only: ExtractUsername_def None option.case)
next
  case (Some i)
  then show ?thesis
    using find_idx_take_drop [of "\<lambda>x. x = CHR 0x40" s i] by (simp add: ExtractUsername_def find_char_def substr_def)
qed

lemma ExtractUsername_idem [simp]: "ExtractUsername (ExtractUsername s) = ExtractUsername s"
  by (simp add: ExtractUsername_takeWhile takeWhile_takeWhile)

section \<open>Storing for one recipient\<close>

lemma addRecipient_keeps:
  "db_messages (snd (addRecipient engine d r)) = db_messages d \<and> db_folders (snd (addRecipient engine d r)) = db_folders d \<and>
   db_users (snd (addRecipient engine d r)) = db_users d"
  by (auto simp: addRecipient_def autocommit_row_def RecipientDAL_insert_def Let_def run_write_def
      split: option.splits sum.splits)

lemma add_mime_recipients_keeps:
  "db_messages (add_mime_recipients engine mid r addrs ty d) = db_messages d \<and>
   db_folders (add_mime_recipients engine mid r addrs ty d) = db_folders d"
  unfolding add_mime_recipients_def
  by (induction addrs arbitrary: d) (simp_all add: addRecipient_keeps)

definition env_works :: "mail_env \<Rightarrow> bool" where
  "env_works env \<longleftrightarrow> (\<forall>p. me_mkdir env p \<and> me_open env p \<and> me_written env p = None)"

definition mail_path :: "mail_env \<Rightarrow> nat \<Rightarrow> string \<Rightarrow> string" where
  "mail_path env n username =
     ''mailstore/'' @ username @ ''/'' @ GenerateMailFilename (me_ms env n) (me_random env n)"

lemma WriteMailToFile_works:
  "env_works env \<Longrightarrow> WriteMailToFile env n (''mailstore/'' @ username) body fs =
     (mail_path env n username, fs_write (mail_path env n username) (map byte_of_char body) fs)"
  by (simp add: WriteMailToFile_def env_works_def mail_path_def Let_def)

lemma save_recipient_works:
  fixes n
  assumes "be_engine be = healthy" "env_works env" "db_inv (w_db w)"
    and "UserDAL_findByUsername healthy (w_db w) (ExtractUsername r) = Some u" "u_id u = Some uid"
    and "FolderDAL_findByName healthy (w_db w) uid ''INBOX'' = Some inbox" "f_id inbox = Some fid"
  defines "path \<equiv> mail_path env n (ExtractUsername r)"
  shows "\<exists>w' row. save_recipient be env s parsed n r w = (True, w') \<and>
     db_messages (w_db w') = db_messages (w_db w) @ [row] \<and> m_folder_id row = fid \<and> m_user_id row = uid \<and>
     m_uid row = f_next_uid inbox \<and> m_raw_file_path row = c_text path \<and>
     m_size_bytes row = int (length (ss_body s)) \<and> \<not> m_is_seen row \<and>
     w_files w' = fs_write path (map byte_of_char (ss_body s)) (w_files w)"
proof -
  let ?d = "w_db w" and ?m = "new_message uid path (ss_body s) (me_clock env n) (ss_sender s) parsed"
  let ?m' = "?m\<lparr>m_is_seen := False, m_is_recent := True, m_is_draft := False\<rparr>"
  have inbox: "inbox \<in> set (db_folders ?d)" "f_user_id inbox = uid"
    using assms(6) by (auto simp: FolderDAL_findByName_def dest!: read_one_SomeD)
  have "user_exists ?d uid"
    using assms(3) inbox by (auto simp: store_inv_def folders_ok_def list_all_iff folder_ok_def)
  then have ex: "user_exists ?d (m_user_id ?m')" by (simp add: new_message_def)
  have "0 < fid"
    using assms(3,7) inbox ids_ok_SomeE [of "seq_folders ?d" f_id "db_folders ?d" inbox]
    by (auto simp: store_inv_def folders_ok_def)
  then have deliv: "deliver healthy ?d ?m fid = assignUID healthy ?d ?m' fid" by (simp add: deliver_def)
  have "path \<noteq> []" by (simp add: path_def mail_path_def)
  moreover have "find_or_register be ?d (ExtractUsername r) = (Some u, ?d)"
    using assms(1,4) by (simp add: find_or_register_def)
  ultimately show ?thesis
    using assms(1,5-7) WriteMailToFile_works [OF assms(2)]
      assignUID_healthy [OF assms(3) inbox(1) assms(7) ex]
    unfolding save_recipient_def Let_def
    by (simp add: deliv path_def [symmetric] add_mime_recipients_keeps addRecipient_keeps split: option.splits)
      (simp add: stored_row_def message_row_def new_message_def)
qed

section \<open>The delivery dialogue\<close>

definition mail_dialogue :: "string \<Rightarrow> string \<Rightarrow> string list \<Rightarrow> string list" where
  "mail_dialogue from rcpt ls =
     [''MAIL FROM:<'' @ from @ ''>'', ''RCPT TO:<'' @ rcpt @ ''>'', ''DATA''] @ ls @ [''.'']"

lemma serve_command:
  assumes "ss_state s \<notin> {RECEIVING_DATA, AUTH_WAIT_USER, AUTH_WAIT_PASS}" "length l \<le> MAX_SMTP_LINE"
    and "dispatch_command be (SmtpParse l) s (w_db w) = Inr (r, s')" "ss_state s' \<notin> {ST_STARTTLS, CLOSED}"
  shows "serve be (received_line env l) (Running s w) = Running s' w"
  using assms by (simp add: received_line_def ProcessLine_def after_reply_def)

lemma serve_envelope:
  assumes "ss_state s = WAIT_MAIL" "ss_authenticated s" "length from \<le> 500" "length rcpt \<le> 500"
  shows "fold (serve be) (map (received_line env) (take 3 (mail_dialogue from rcpt ls))) (Running s w) =
    Running (s\<lparr>ss_state := RECEIVING_DATA, ss_sender := ExtractUsername from,
      ss_recipients := ss_recipients s @ [ExtractUsername rcpt]\<rparr>) w"
proof -
  let ?s1 = "s\<lparr>ss_sender := ExtractUsername from, ss_state := WAIT_RCPT\<rparr>"
  let ?s2 = "?s1\<lparr>ss_recipients := ss_recipients s @ [ExtractUsername rcpt]\<rparr>"
  have 1: "serve be (received_line env (''MAIL FROM:<'' @ from @ ''>'')) (Running s w) = Running ?s1 w"
    by (rule serve_command [where r = Ok250])
      (use assms in \<open>simp_all only: parse_mail, simp_all add: dispatch_command_def HandleMail_def MAX_SMTP_LINE_def\<close>)
  have 2: "serve be (received_line env (''RCPT TO:<'' @ rcpt @ ''>'')) (Running ?s1 w) = Running ?s2 w"
    by (rule serve_command [where r = Ok250])
      (use assms in \<open>simp_all only: parse_rcpt, simp_all add: dispatch_command_def HandleRcpt_def MAX_SMTP_LINE_def\<close>)
  have 3: "serve be (received_line env ''DATA'') (Running ?s2 w) = Running (?s2\<lparr>ss_state := RECEIVING_DATA\<rparr>) w"
    by (rule serve_command [where r = StartMailInput])
      (simp_all only: parse_data, simp_all add: dispatch_command_def HandleData_def MAX_SMTP_LINE_def)
  show ?thesis
    unfolding mail_dialogue_def using 1 2 3 by (simp add: numeral_eq_Suc)
qed

lemma smtp_delivers:
  assumes be: "be_engine be = healthy" and env: "env_works env" and inv: "db_inv (w_db w)"
    and s: "ss_state s = WAIT_MAIL" "ss_authenticated s" "ss_body s = []" "ss_recipients s = []"
    and short: "length from \<le> 500" "length rcpt \<le> 500"
    and ls: "''.'' \<notin> set ls" "length (data_text ls) \<le> MAX_MESSAGE_SIZE"
    and user: "UserDAL_findByUsername healthy (w_db w) (ExtractUsername rcpt) = Some u" "u_id u = Some uid"
    and inbox: "FolderDAL_findByName healthy (w_db w) uid ''INBOX'' = Some inbox" "f_id inbox = Some fid"
  shows "\<exists>s' w' row. fold (serve be) (map (received_line env) (mail_dialogue from rcpt ls)) (Running s w) = Running s' w' \<and>
     ss_state s' = WAIT_MAIL \<and> ss_authenticated s' \<and> ss_recipients s' = [] \<and> ss_body s' = [] \<and>
     db_messages (w_db w') = db_messages (w_db w) @ [row] \<and> m_folder_id row = fid \<and> m_uid row = f_next_uid inbox \<and>
     \<not> m_is_seen row \<and> m_raw_file_path row = c_text (mail_path env 0 (ExtractUsername rcpt)) \<and>
     m_size_bytes row = int (length (data_text ls)) \<and>
     map_of (w_files w') (mail_path env 0 (ExtractUsername rcpt)) = Some (map byte_of_char (data_text ls))"
proof -
  let ?user = "ExtractUsername rcpt" and ?path = "mail_path env 0 (ExtractUsername rcpt)"
  let ?s = "s\<lparr>ss_state := RECEIVING_DATA, ss_sender := ExtractUsername from, ss_recipients := [?user]\<rparr>"
  let ?sb = "?s\<lparr>ss_body := data_text ls\<rparr>"
  have head: "fold (serve be) (map (received_line env) (take 3 (mail_dialogue from rcpt ls))) (Running s w) = Running ?s w"
    using serve_envelope [OF s(1,2) short] s(4) by simp
  have "length (ss_body ?s @ data_text ls) \<le> MAX_MESSAGE_SIZE" using s(3) ls(2) by simp
  from fold_data [OF _ ls(1) this] have mid:
    "fold (serve be) (map (received_line env) ls) (Running ?s w) = Running ?sb w" using s(3) by simp
  from save_recipient_works [OF be env inv, of ?user u uid inbox fid ?sb "parsed_body ?sb" 0] user inbox
  obtain w' row where run: "save_recipient be env ?sb (parsed_body ?sb) 0 ?user w = (True, w')"
    and row: "db_messages (w_db w') = db_messages (w_db w) @ [row]" "m_folder_id row = fid"
      "m_uid row = f_next_uid inbox" "m_raw_file_path row = c_text ?path" "m_size_bytes row = int (length (data_text ls))"
      "\<not> m_is_seen row"
    and files: "w_files w' = fs_write ?path (map byte_of_char (data_text ls)) (w_files w)"
    by auto
  have "SaveMessage be env ?sb w = (True, w')" using run by (simp add: SaveMessage_def)
  then have dot: "serve be (received_line env ''.'') (Running ?sb w) =
      Running (ResetMessage (?sb\<lparr>ss_state := WAIT_MAIL\<rparr>)) w'"
    by (simp add: received_line_def ProcessLine_def MAX_SMTP_LINE_def receive_line_def after_reply_def ResetMessage_def Ok250_def)
  have D: "take 3 (mail_dialogue from rcpt ls) @ ls @ [''.''] = mail_dialogue from rcpt ls"
    by (simp add: mail_dialogue_def)
  have "fold (serve be) (map (received_line env) (take 3 (mail_dialogue from rcpt ls) @ ls @ [''.''])) (Running s w) =
      Running (ResetMessage (?sb\<lparr>ss_state := WAIT_MAIL\<rparr>)) w'"
    by (simp only: map_append fold_append comp_apply head mid list.map fold_simps dot)
  then show ?thesis
    unfolding D using row files s(2) by (auto simp: ResetMessage_def fs_write_def)
qed

text \<open>
  C20. A complete delivery: from an authenticated session, MAIL, RCPT to a known user, DATA, the
  lines and the dot leave exactly one new message in the user's INBOX, unseen and at its
  \<^verbatim>\<open>next_uid\<close>, whose file holds the collected lines; the session is ready for the next message.
\<close>

theorem smtp_delivery:
  assumes be: "be_engine be = healthy" and env: "env_works env" and inv: "db_inv (w_db w)"
    and s: "ss_state s = WAIT_MAIL" "ss_authenticated s" "ss_body s = []" "ss_recipients s = []"
    and short: "length from \<le> 500" "length rcpt \<le> 500"
    and ls: "''.'' \<notin> set ls" "length (data_text ls) \<le> MAX_MESSAGE_SIZE"
    and user: "UserDAL_findByUsername healthy (w_db w) (ExtractUsername rcpt) = Some u" "u_id u = Some uid"
    and inbox: "FolderDAL_findByName healthy (w_db w) uid ''INBOX'' = Some inbox" "f_id inbox = Some fid"
  shows "\<exists>s' w' row. fold (serve be) (map (received_line env) (mail_dialogue from rcpt ls)) (Running s w) = Running s' w' \<and>
     ss_state s' = WAIT_MAIL \<and> ss_authenticated s' \<and> ss_recipients s' = [] \<and> ss_body s' = [] \<and>
     db_messages (w_db w') = db_messages (w_db w) @ [row] \<and> m_folder_id row = fid \<and> m_uid row = f_next_uid inbox \<and>
     \<not> m_is_seen row \<and> m_raw_file_path row = c_text (mail_path env 0 (ExtractUsername rcpt)) \<and>
     m_size_bytes row = int (length (data_text ls)) \<and>
     map_of (w_files w') (mail_path env 0 (ExtractUsername rcpt)) = Some (map byte_of_char (data_text ls))"
  by (rule smtp_delivers [OF assms])

lemma alice_ready:
  "UserDAL_findByUsername healthy first_state ''alice'' \<noteq> None"
  "map_option u_id (UserDAL_findByUsername healthy first_state ''alice'') = Some (Some 1)"
  "map_option (\<lambda>f. (f_id f, f_next_uid f)) (FolderDAL_findByName healthy first_state 1 ''INBOX'') = Some (Some 1, 2)"
  by code_simp+

theorem smtp_delivery_witness:
  "\<exists>s' w' row. fold (serve test_backend) (map (received_line test_env) (mail_dialogue ''bob'' ''alice'' [''Hi'']))
       (Running ((SmtpSession ''d'' True)\<lparr>ss_state := WAIT_MAIL, ss_authenticated := True\<rparr>) alice_world) = Running s' w' \<and>
     db_messages (w_db w') = db_messages first_state @ [row] \<and> m_uid row = 2"
proof -
  obtain u inbox where u: "UserDAL_findByUsername healthy first_state ''alice'' = Some u" "u_id u = Some 1"
    and i: "FolderDAL_findByName healthy first_state 1 ''INBOX'' = Some inbox" "f_id inbox = Some 1" "f_next_uid inbox = 2"
    using alice_ready by auto
  have name: "ExtractUsername ''alice'' = ''alice''" by (simp add: ExtractUsername_takeWhile)
  have env: "env_works test_env" by (simp add: env_works_def test_env_def)
  show ?thesis
    using smtp_delivery [of test_backend test_env alice_world
        "(SmtpSession ''d'' True)\<lparr>ss_state := WAIT_MAIL, ss_authenticated := True\<rparr>" "''bob''" "''alice''" "[''Hi'']" u 1 inbox 1]
      env alice_world_inv u i
    by (fastforce simp: test_backend_def SmtpSession_def name alice_world_def data_text_def MAX_SMTP_LINE_def MAX_MESSAGE_SIZE_def)
qed

section \<open>Authentication\<close>

lemma bytes_string [simp]: "bytes_to_string (map byte_of_char s) = s"
  by (induction s) (simp_all add: bytes_to_string_def byte_of_char_def char_of_byte_def unat_of_nat code_of_def)

lemma decode_plain_quads: "DecodeBase64 (plain_quads data) = Inr data"
proof -
  have "find (\<lambda>c. \<not> is_valid_base64 c) (plain_quads data) = None"
    using plain_quads_valid by (auto simp: find_None_iff)
  then show ?thesis by (simp add: DecodeBase64_def length_plain_quads strict.decode_plain)
qed

lemma split_credentials_plain:
  assumes "NUL \<notin> set user"
  shows "split_credentials (NUL # user @ NUL # password) = Some (ExtractUsername user, password)"
proof -
  have "find_idx (\<lambda>x. x = NUL) (user @ NUL # password) = Some (length user)"
    using find_idx_append_notin [of user "\<lambda>x. x = NUL" "NUL # password"] assms by auto
  then show ?thesis
    by (simp add: split_credentials_def find_char_def find_char_from_def find_idx_from_def substr_def)
qed

definition plain_login :: "string \<Rightarrow> string \<Rightarrow> string" where
  "plain_login user password = plain_quads (map byte_of_char (NUL # user @ NUL # password))"

lemma parse_auth_plain:
  assumes "list_all is_valid_base64 b64"
  shows "SmtpParse (''AUTH PLAIN '' @ b64) = \<lparr>sc_type = AUTH, sc_argument = ''PLAIN '' @ b64\<rparr>"
proof -
  have "last (''AUTH PLAIN '' @ b64) \<noteq> CR"
    using assms by (cases b64 rule: rev_cases) (auto dest: valid_not_break)
  then have "pop_back_if CR (''AUTH PLAIN '' @ b64) = ''AUTH PLAIN '' @ b64" by (simp only: pop_back_if_def) simp
  moreover have "auth_argument (''PLAIN '' @ b64) = ''PLAIN '' @ b64"
    by (simp add: auth_argument_def find_char_def substr_def ToUpper_def to_upper_char_def code_of_def)
  ultimately show ?thesis
    unfolding SmtpParse_def Let_def by (simp add: StartsWith_def ToUpper_def to_upper_char_def code_of_def)
qed

lemma auth_plain_core:
  assumes "ss_state s = WAIT_MAIL" "\<not> ss_authenticated s" "ss_secure s" "NUL \<notin> set user"
    and "length (''AUTH PLAIN '' @ plain_login user password) \<le> MAX_SMTP_LINE"
  shows "ProcessLine be env (''AUTH PLAIN '' @ plain_login user password) s w =
    Inr (if authorized be (w_db w) (ExtractUsername user) password
         then (AuthSucceeded, s\<lparr>ss_authenticated := True\<rparr>, w) else (AuthFailed, s, w))"
proof -
  let ?b = "plain_login user password"
  have v: "list_all is_valid_base64 ?b" using plain_quads_valid by (simp add: plain_login_def list_all_iff)
  have dec: "DecodeBase64 ?b = Inr (map byte_of_char (NUL # user @ NUL # password))"
    unfolding plain_login_def by (rule decode_plain_quads)
  have ne: "?b \<noteq> []" using length_plain_quads [of "map byte_of_char (NUL # user @ NUL # password)"]
    by (auto simp: plain_login_def)
  have arg: "find_char (''PLAIN '' @ ?b) SP = Some 5" by (simp add: find_char_def)
  have "HandleAuth be (w_db w) s \<lparr>sc_type = AUTH, sc_argument = ''PLAIN '' @ ?b\<rparr> =
      Inr (if authorized be (w_db w) (ExtractUsername user) password
         then (AuthSucceeded, s\<lparr>ss_authenticated := True\<rparr>) else (AuthFailed, s))"
    unfolding HandleAuth_def Let_def smtp_command.simps arg
    using assms(1-3) ne split_credentials_plain [OF assms(4)]
    by (simp add: substr_def dec bytes_string [of "NUL # user @ NUL # password", simplified])
  then show ?thesis
    using assms(1,5) unfolding ProcessLine_def parse_auth_plain [OF v] by (simp add: dispatch_command_def)
qed

text \<open>
  AUTH PLAIN over TLS decides by the user repository alone: the credentials in their base64
  form authenticate the session exactly when the repository authorizes them, and a refusal
  leaves the session as it was.
\<close>

lemma auth_plain_decides:
  assumes "ss_state s = WAIT_MAIL" "\<not> ss_authenticated s" "ss_secure s" "NUL \<notin> set user"
    and "length (''AUTH PLAIN '' @ plain_login user password) \<le> MAX_SMTP_LINE"
  shows "ProcessLine be env (''AUTH PLAIN '' @ plain_login user password) s w =
    Inr (if authorized be (w_db w) (ExtractUsername user) password
         then (AuthSucceeded, s\<lparr>ss_authenticated := True\<rparr>, w) else (AuthFailed, s, w))"
  using assms by (rule auth_plain_core)

lemma auth_plain_decides_example:
  "ProcessLine test_backend test_env (''AUTH PLAIN '' @ plain_login ''alice'' ''pw'')
     ((SmtpSession ''d'' True)\<lparr>ss_state := WAIT_MAIL, ss_secure := True\<rparr>) alice_world =
   Inr (AuthSucceeded, (SmtpSession ''d'' True)\<lparr>ss_state := WAIT_MAIL, ss_secure := True, ss_authenticated := True\<rparr>, alice_world)"
proof -
  have "authorized test_backend first_state ''alice'' ''pw''" by code_simp
  moreover have "ExtractUsername ''alice'' = ''alice''" by (simp add: ExtractUsername_takeWhile)
  moreover have "length (''AUTH PLAIN '' @ plain_login ''alice'' ''pw'') \<le> MAX_SMTP_LINE"
    by (simp add: plain_login_def length_plain_quads MAX_SMTP_LINE_def)
  ultimately show ?thesis
    using auth_plain_decides [of "(SmtpSession ''d'' True)\<lparr>ss_state := WAIT_MAIL, ss_secure := True\<rparr>" "''alice''" "''pw''"
        test_backend test_env alice_world]
    by (simp add: SmtpSession_def alice_world_def)
qed

text \<open>
  While the server waits for credentials, a line with any byte outside the base64 alphabet
  makes \<^verbatim>\<open>DecodeBase64\<close> throw; the session does not catch the exception and the packaged task of the
  thread pool keeps it in a future nobody reads, so the connection ends without the 535 reply.
\<close>

lemma auth_line_crash:
  assumes "ss_state s = AUTH_WAIT_USER \<or> ss_state s = AUTH_WAIT_PASS"
    and "length l \<le> MAX_SMTP_LINE" "c \<in> set l" "\<not> is_valid_base64 c"
  shows "\<exists>e. serve be (received_line env l) (Running s w) = Crashed e w"
proof -
  obtain c' where "find (\<lambda>c. \<not> is_valid_base64 c) l = Some c'"
    using assms(3,4) by (cases "find (\<lambda>c. \<not> is_valid_base64 c) l") (auto simp: find_None_iff)
  then show ?thesis
    using assms(1,2) by (auto simp: received_line_def ProcessLine_def HandleAuthLine_def DecodeBase64_def)
qed

lemma auth_line_crash_example:
  "\<exists>e. serve test_backend (received_line test_env ''*'')
     (Running ((SmtpSession ''d'' True)\<lparr>ss_state := AUTH_WAIT_USER, ss_secure := True\<rparr>) empty_world) = Crashed e empty_world"
  by (rule auth_line_crash [where c = "CHR ''*''"])
    (simp_all add: MAX_SMTP_LINE_def is_valid_base64_def code_of_def)

section \<open>Accounts created by delivery\<close>

lemma create_folders_healthy:
  "user_exists d uid \<Longrightarrow> \<exists>d'. create_folders healthy d uid names = (None, d')"
proof (induction names arbitrary: d)
  case (Cons name names)
  let ?f = "\<lparr>f_id = None, f_user_id = uid, f_parent_id = None, f_name = name, f_next_uid = 1, f_is_subscribed = True\<rparr>"
  let ?d = "d\<lparr>db_folders := db_folders d @ [?f\<lparr>f_id := Some (seq_folders d + 1), f_name := c_text name\<rparr>],
    seq_folders := seq_folders d + 1\<rparr>"
  have "FolderDAL_insert healthy d ?f = Inr (?f\<lparr>f_id := Some (seq_folders d + 1)\<rparr>, ?d)"
    using Cons.prems by (simp add: FolderDAL_insert_def Let_def run_write_def folder_fk_def)
  moreover have "user_exists ?d uid" using Cons.prems by (simp add: user_exists_def)
  ultimately show ?case using Cons.IH [of ?d] by (simp del: healthy_simp)
qed simp

text \<open>
  C23. Mail to a name that nobody has registered creates the account. It is registered with the
  empty password (the placeholder \<^verbatim>\<open>smtp_auto\<close> of the code is overwritten by its hash), so
  from then on anyone may log in under that name with the empty password.
\<close>

theorem unknown_recipient_open_account:
  assumes "\<And>p h. be_pwhash be p = Some h \<Longrightarrow> be_verify be h p \<and> NUL \<notin> set h"
    and "be_engine be = healthy" "be_pwhash be [] = Some h" "h \<noteq> []"
    and "UserDAL_findByUsername healthy d username = None"
  shows "\<exists>d'. snd (find_or_register be d username) = d' \<and> authorized be d' username []"
proof -
  let ?u = "auto_user username"
  let ?u1 = "?u\<lparr>u_password_hash := hashPassword (be_pwhash be) []\<rparr>"
  have hash: "hashPassword (be_pwhash be) [] = h"
    using assms(1) [OF assms(3)] assms(3) by (auto simp: hashPassword_def c_text_def takeWhile_eq_all_conv)
  have fresh: "\<forall>v \<in> set (db_users d). u_username v \<noteq> c_text username"
    using assms(5) by (auto simp: UserDAL_findByUsername_def read_one_healthy filter_empty_conv split: list.splits)
  let ?d1 = "d\<lparr>db_users := db_users d @ [(user_row ?u1)\<lparr>u_id := Some (seq_users d + 1)\<rparr>], seq_users := seq_users d + 1\<rparr>"
  have ins: "UserDAL_insert healthy d ?u1 = Inr (?u1\<lparr>u_id := Some (seq_users d + 1)\<rparr>, ?d1)"
    using fresh by (auto simp: UserDAL_insert_def Let_def run_write_def user_row_def auto_user_def)
  have "user_exists ?d1 (seq_users d + 1)" by (simp add: user_exists_def)
  from create_folders_healthy [OF this, of default_folders] obtain d2
    where "create_folders healthy ?d1 (seq_users d + 1) default_folders = (None, d2)" by blast
  then have reg: "registerUser (be_pwhash be) healthy d ?u [] = (Inr (?u1\<lparr>u_id := Some (seq_users d + 1)\<rparr>), d2)"
    using assms(4,5) hash ins by (simp add: registerUser_def Let_def auto_user_def)
  have "authorize (be_verify be) healthy d2 username [] = Inr ()"
    using registered_login [OF assms(1) reg] by (simp add: auto_user_def)
  then show ?thesis using reg assms(2,5) by (simp add: find_or_register_def authorized_def)
qed

definition salted_backend :: backend where
  "salted_backend = \<lparr>be_engine = healthy, be_pwhash = (\<lambda>p. Some ''hash''), be_verify = (\<lambda>h p. h = ''hash'')\<rparr>"

theorem unknown_recipient_open_account_witness:
  "\<exists>d'. snd (find_or_register salted_backend empty_db ''carol'') = d' \<and> authorized salted_backend d' ''carol'' []"
  by (rule unknown_recipient_open_account [where h = "''hash''"])
    (simp_all add: salted_backend_def UserDAL_findByUsername_def read_one_def empty_db_def)

section \<open>Keywords\<close>

lemma upper_lower [simp]: "to_upper_char (to_lower_char c) = to_upper_char c"
  by (auto simp: to_upper_char_def to_lower_char_def code_of_def)

text \<open>
  Command keywords are recognised in any mix of cases: a line and its lower-case form give the
  same command.
\<close>

lemma keywords_case_insensitive:
  "sc_type (SmtpParse (ToLower line)) = sc_type (SmtpParse line)"
proof -
  have cr: "to_lower_char c = CR \<longleftrightarrow> c = CR" for c
    by (auto simp: to_lower_char_def code_of_def char_of_eq_iff take_bit_nat_eq_self)
  have pop: "pop_back_if CR (ToLower line) = ToLower (pop_back_if CR line)"
    by (cases line rule: rev_cases) (auto simp: pop_back_if_def ToLower_def cr)
  have up: "ToUpper (ToLower s) = ToUpper s" for s by (simp add: ToUpper_def ToLower_def)
  show ?thesis unfolding SmtpParse_def Let_def pop up by simp
qed

end
