(* ===== verification/Imap_Parser.thy ===== *)
theory Imap_Parser
  imports Prelude
begin

text \<open>
  \<^verbatim>\<open>imap-server/src/ImapParser.cpp\<close> and the command names of \<^verbatim>\<open>ImapUtils.cpp\<close>.

  The element parser keeps a position in its string; here each function takes the rest of the
  string and gives the element with the rest behind it. The argument loop makes no progress on a
  closing parenthesis where an element should start, so it is a partial function: \<open>None\<close> is the
  loop that does not end.
\<close>

section \<open>Commands\<close>

datatype imap_command_type =
    Login | Logout | Capability | Noop | Select | List_cmd | Lsub | Status | Fetch | Store | Create
  | Delete | Rename | Copy_cmd | Expunge_cmd | UidFetch | UidStore | UidCopy | Subscribe | Unsubscribe
  | Close | Check | Unknown_cmd | StartTLS

record imap_command =
  ic_tag :: string
  ic_type :: imap_command_type
  ic_args :: "string list"

definition command_names :: "(string \<times> imap_command_type) list" where
  "command_names =
     [(''LOGIN'', Login), (''LOGOUT'', Logout), (''CAPABILITY'', Capability), (''NOOP'', Noop),
      (''SELECT'', Select), (''LIST'', List_cmd), (''LSUB'', Lsub), (''STATUS'', Status),
      (''FETCH'', Fetch), (''STORE'', Store), (''CREATE'', Create), (''DELETE'', Delete),
      (''RENAME'', Rename), (''COPY'', Copy_cmd), (''EXPUNGE'', Expunge_cmd), (''UID'', UidFetch),
      (''SUBSCRIBE'', Subscribe), (''UNSUBSCRIBE'', Unsubscribe), (''CLOSE'', Close),
      (''CHECK'', Check), (''STARTTLS'', StartTLS)]"

definition StringToCommandType :: "string \<Rightarrow> imap_command_type" where
  "StringToCommandType cmd =
     (case map_of command_names (ToUpper cmd) of Some t \<Rightarrow> t | None \<Rightarrow> Unknown_cmd)"

fun CommandTypeToString :: "imap_command_type \<Rightarrow> string" where
  "CommandTypeToString Login = ''LOGIN''"
| "CommandTypeToString Logout = ''LOGOUT''"
| "CommandTypeToString Capability = ''CAPABILITY''"
| "CommandTypeToString Noop = ''NOOP''"
| "CommandTypeToString Select = ''SELECT''"
| "CommandTypeToString List_cmd = ''LIST''"
| "CommandTypeToString Lsub = ''LSUB''"
| "CommandTypeToString Status = ''STATUS''"
| "CommandTypeToString Fetch = ''FETCH''"
| "CommandTypeToString Store = ''STORE''"
| "CommandTypeToString Create = ''CREATE''"
| "CommandTypeToString Delete = ''DELETE''"
| "CommandTypeToString Rename = ''RENAME''"
| "CommandTypeToString Copy_cmd = ''COPY''"
| "CommandTypeToString Expunge_cmd = ''EXPUNGE''"
| "CommandTypeToString UidFetch = ''UID FETCH''"
| "CommandTypeToString UidStore = ''UID STORE''"
| "CommandTypeToString UidCopy = ''UID COPY''"
| "CommandTypeToString Subscribe = ''SUBSCRIBE''"
| "CommandTypeToString Unsubscribe = ''UNSUBSCRIBE''"
| "CommandTypeToString Close = ''CLOSE''"
| "CommandTypeToString Check = ''CHECK''"
| "CommandTypeToString StartTLS = ''STARTTLS''"
| "CommandTypeToString Unknown_cmd = ''UNKNOWN''"

section \<open>Elements\<close>

definition SkipWhitespace :: "string \<Rightarrow> string" where
  "SkipWhitespace s = dropWhile (\<lambda>c. c = SP) s"

text \<open>The characters up to the closing quote; a backslash quotes the character behind it.\<close>

fun quoted_body :: "string \<Rightarrow> string \<times> string" where
  "quoted_body [] = ([], [])"
| "quoted_body (c # cs) =
     (if c = DQUOTE then ([], cs)
      else if c = BSLASH \<and> cs \<noteq> [] then (case quoted_body (tl cs) of (r, rest) \<Rightarrow> (hd cs # r, rest))
      else (case quoted_body cs of (r, rest) \<Rightarrow> (c # r, rest)))"

definition ParseQuoted :: "string \<Rightarrow> string \<times> string" where
  "ParseQuoted s = (if s = [] \<or> hd s \<noteq> DQUOTE then ([], s) else quoted_body (tl s))"

text \<open>The inner loop over the other kind of bracket, to its matching end.\<close>

fun bracket_body :: "char \<Rightarrow> char \<Rightarrow> nat \<Rightarrow> string \<Rightarrow> string \<times> string" where
  "bracket_body opn cls depth [] = ([], [])"
| "bracket_body opn cls depth (c # cs) =
     (if depth = 0 then ([], c # cs)
      else (case bracket_body opn cls (if c = opn then depth + 1 else if c = cls then depth - 1 else depth) cs of
              (r, rest) \<Rightarrow> (c # r, rest)))"

lemma quoted_body_length: "length (snd (quoted_body s)) \<le> length s"
proof (induction s rule: quoted_body.induct)
  case (2 c cs)
  then show ?case
    by (cases cs) (auto split: prod.splits)
qed simp

lemma bracket_body_length: "length (snd (bracket_body opn cls depth s)) \<le> length s"
  by (induction opn cls depth s rule: bracket_body.induct) (auto split: prod.splits simp: le_SucI)

text \<open>
  \<^verbatim>\<open>ParseList\<close> and \<^verbatim>\<open>ParseResponse\<close> are the same loop with the brackets exchanged.
\<close>

function nested_body :: "char \<Rightarrow> char \<Rightarrow> char \<Rightarrow> char \<Rightarrow> nat \<Rightarrow> string \<Rightarrow> string \<times> string" where
  "nested_body opn cls iopn icls depth s =
     (if s = [] \<or> depth = 0 then ([], s)
      else if hd s = opn then (case nested_body opn cls iopn icls (depth + 1) (tl s) of (r, rest) \<Rightarrow> (opn # r, rest))
      else if hd s = cls then (case nested_body opn cls iopn icls (depth - 1) (tl s) of (r, rest) \<Rightarrow> (cls # r, rest))
      else if hd s = iopn then
        (let b = bracket_body iopn icls 1 (tl s) in
         case nested_body opn cls iopn icls depth (snd b) of (r, rest) \<Rightarrow> (iopn # fst b @ r, rest))
      else if hd s = DQUOTE then
        (let q = quoted_body (tl s) in
         case nested_body opn cls iopn icls depth (snd q) of
           (r, rest) \<Rightarrow> (DQUOTE # fst q @ DQUOTE # r, rest))
      else (case nested_body opn cls iopn icls depth (tl s) of (r, rest) \<Rightarrow> (hd s # r, rest)))"
  by pat_completeness auto
termination
proof (relation "measure (\<lambda>(opn, cls, iopn, icls, depth, s). length s)", goal_cases)
  case (4 opn cls iopn icls depth s b)
  have "length (snd b) \<le> length (tl s)" using 4 bracket_body_length [of iopn icls 1 "tl s"] by simp
  then show ?case using 4 by (cases s) auto
next
  case (5 opn cls iopn icls depth s q)
  have "length (snd q) \<le> length (tl s)" using 5 quoted_body_length [of "tl s"] by simp
  then show ?case using 5 by (cases s) auto
qed auto

declare nested_body.simps [simp del]

definition ParseList :: "string \<Rightarrow> string \<times> string" where
  "ParseList s =
     (if s = [] \<or> hd s \<noteq> CHR ''('' then ([], s)
      else case nested_body (CHR ''('') (CHR '')'') (CHR ''['') (CHR '']'') 1 (tl s) of
        (r, rest) \<Rightarrow> (CHR ''('' # r, rest))"

definition ParseResponse :: "string \<Rightarrow> string \<times> string" where
  "ParseResponse s =
     (if s = [] \<or> hd s \<noteq> CHR ''['' then ([], s)
      else case nested_body (CHR ''['') (CHR '']'') (CHR ''('') (CHR '')'') 1 (tl s) of
        (r, rest) \<Rightarrow> (CHR ''['' # r, rest))"

definition ParseLiteral :: "string \<Rightarrow> string \<times> string" where
  "ParseLiteral s =
     (if s = [] \<or> hd s \<noteq> CHR 0x7B then ([], s)
      else let body = takeWhile (\<lambda>c. c \<noteq> CHR 0x7D) (tl s); rest = dropWhile (\<lambda>c. c \<noteq> CHR 0x7D) (tl s)
           in (hd s # body @ take 1 rest, drop 1 rest))"

definition atom_end :: "char \<Rightarrow> bool" where
  "atom_end c \<longleftrightarrow> c = SP \<or> c = CHR ''('' \<or> c = CHR '')'' \<or> c = DQUOTE \<or> c = CHR 0x7B"

definition ParseAtom :: "string \<Rightarrow> string \<times> string" where
  "ParseAtom s = (takeWhile (\<lambda>c. \<not> atom_end c) s, dropWhile (\<lambda>c. \<not> atom_end c) s)"

definition ParseElement :: "string \<Rightarrow> string \<times> string" where
  "ParseElement s =
     (if s = [] then ([], s)
      else if hd s = DQUOTE then ParseQuoted s
      else if hd s = CHR ''('' then ParseList s
      else if hd s = CHR 0x7B then ParseLiteral s
      else ParseAtom s)"

partial_function (option) ParseArgs :: "string \<Rightarrow> string list option" where
  "ParseArgs s =
     (if s = [] then Some []
      else let s1 = SkipWhitespace s in
        if s1 = [] then Some []
        else let e = ParseElement s1;
                 keep = (if length (snd e) < length s1 then [fst e] else []);
                 s3 = SkipWhitespace (snd e)
             in if s3 = [] then Some keep
                else Option.bind (ParseArgs s3) (\<lambda>args. Some (keep @ args)))"

definition ParseArguments :: "string \<Rightarrow> string list option" where
  "ParseArguments args = ParseArgs args"

section \<open>Command lines\<close>

definition uid_command :: "string \<Rightarrow> imap_command_type" where
  "uid_command sub =
     (let upper = ToUpper sub in
      if upper = ''FETCH'' then UidFetch else if upper = ''STORE'' then UidStore
      else if upper = ''COPY'' then UidCopy else Unknown_cmd)"

definition ImapParse :: "string \<Rightarrow> imap_command option" where
  "ImapParse line =
     (case find_char line SP of
        None \<Rightarrow> Some \<lparr>ic_tag = [], ic_type = Unknown_cmd, ic_args = []\<rparr>
      | Some sp \<Rightarrow>
          (let tag = substr line 0 sp; rest = substr_from line (sp + 1);
               commandStr = (case find_char rest SP of None \<Rightarrow> rest | Some p \<Rightarrow> substr rest 0 p);
               argsStr = (case find_char rest SP of None \<Rightarrow> [] | Some p \<Rightarrow> substr_from rest (p + 1))
           in if ToUpper commandStr = ''UID'' then
                (case find_char argsStr SP of
                   None \<Rightarrow> Some \<lparr>ic_tag = tag, ic_type = Unknown_cmd, ic_args = []\<rparr>
                 | Some p \<Rightarrow>
                     (let t = uid_command (substr argsStr 0 p) in
                      if t = Unknown_cmd then Some \<lparr>ic_tag = tag, ic_type = Unknown_cmd, ic_args = []\<rparr>
                      else map_option (\<lambda>args. \<lparr>ic_tag = tag, ic_type = t, ic_args = args\<rparr>)
                             (ParseArguments (substr_from argsStr (p + 1)))))
              else map_option (\<lambda>args. \<lparr>ic_tag = tag, ic_type = StringToCommandType commandStr, ic_args = args\<rparr>)
                     (ParseArguments argsStr)))"

end
