(* ===== verification/Imap_Utils.thy ===== *)
theory Imap_Utils
  imports Imap_Parser Mime_Parser Repository
begin

text \<open>
  \<^verbatim>\<open>imap-server/src/ImapUtils.cpp\<close>: sequence sets, dates, envelopes, body structures and body
  sections, and the replies of \<^verbatim>\<open>proto/ImapResponse.hpp\<close>. Message files are read through
  \<open>read_file\<close>, the content of a path or \<open>None\<close> when it cannot be opened.
\<close>

section \<open>Replies\<close>

definition Imap_Ok :: "string \<Rightarrow> string \<Rightarrow> string" where
  "Imap_Ok tag msg = tag @ '' OK '' @ msg @ CRLF"

definition Imap_No :: "string \<Rightarrow> string \<Rightarrow> string" where
  "Imap_No tag msg = tag @ '' NO '' @ msg @ CRLF"

definition Imap_Bad :: "string \<Rightarrow> string \<Rightarrow> string" where
  "Imap_Bad tag msg = tag @ '' BAD '' @ msg @ CRLF"

definition Imap_Untagged :: "string \<Rightarrow> string" where
  "Imap_Untagged msg = ''* '' @ msg @ CRLF"

definition Imap_Capability :: string where
  "Imap_Capability = ''* CAPABILITY IMAP4rev1'' @ CRLF"

definition Imap_Flags :: string where
  "Imap_Flags = ''* FLAGS ('' @ flag_Seen @ '' '' @ flag_Answered @ '' '' @ flag_Flagged @ '' '' @ flag_Draft @ '' '' @
     flag_Deleted @ '' '' @ flag_Recent @ '')'' @ CRLF"

definition Imap_Exists :: "nat \<Rightarrow> string" where
  "Imap_Exists n = ''* '' @ nat_to_string n @ '' EXISTS'' @ CRLF"

definition Imap_Recent :: "nat \<Rightarrow> string" where
  "Imap_Recent n = ''* '' @ nat_to_string n @ '' RECENT'' @ CRLF"

definition mailbox_line :: "string \<Rightarrow> char \<Rightarrow> string \<Rightarrow> string \<Rightarrow> string" where
  "mailbox_line kind separator mailbox attributes =
     ''* '' @ kind @ '' ('' @ [BSLASH] @ attributes @ '') '' @ [DQUOTE, separator, DQUOTE] @ '' '' @
     [DQUOTE] @ mailbox @ [DQUOTE] @ CRLF"

definition Imap_List :: "char \<Rightarrow> string \<Rightarrow> string \<Rightarrow> string" where
  "Imap_List separator mailbox attributes = mailbox_line ''LIST'' separator mailbox attributes"

definition Imap_Lsub :: "char \<Rightarrow> string \<Rightarrow> string \<Rightarrow> string" where
  "Imap_Lsub separator mailbox attributes = mailbox_line ''LSUB'' separator mailbox attributes"

definition Imap_Status :: "string \<Rightarrow> string \<Rightarrow> string" where
  "Imap_Status mailbox items = ''* STATUS '' @ mailbox @ '' ('' @ items @ '')'' @ CRLF"

definition Imap_Fetch :: "nat \<Rightarrow> string \<Rightarrow> string" where
  "Imap_Fetch n items = ''* '' @ nat_to_string n @ '' FETCH '' @ items @ CRLF"

section \<open>Lists and numbers\<close>

definition SplitArgs :: "string \<Rightarrow> string list" where
  "SplitArgs s = stream_tokens s"

fun JoinArgs :: "string list \<Rightarrow> string" where
  "JoinArgs [] = []"
| "JoinArgs [a] = a"
| "JoinArgs (a # b # args) = a @ '', '' @ JoinArgs (b # args)"

definition TrimParentheses :: "string \<Rightarrow> string" where
  "TrimParentheses s =
     (if 2 \<le> length s \<and> hd s = CHR ''('' \<and> last s = CHR '')'' then substr s 1 (length s - 2) else s)"

definition Split :: "string \<Rightarrow> char \<Rightarrow> string list" where
  "Split s delim = getlines delim s"

definition digits_value :: "string \<Rightarrow> int" where
  "digits_value ds = foldl (\<lambda>n c. 10 * n + (int (code_of c) - 48)) 0 ds"

text \<open>Blanks, an optional sign and digits, as \<^verbatim>\<open>strtoll\<close> and the stream extraction read them.\<close>

definition read_integer :: "string \<Rightarrow> (int \<times> string) option" where
  "read_integer s =
     (let s1 = dropWhile is_space_char s;
          neg = (s1 \<noteq> [] \<and> hd s1 = CHR ''-'');
          s2 = (if s1 \<noteq> [] \<and> (hd s1 = CHR ''-'' \<or> hd s1 = CHR ''+'') then tl s1 else s1);
          ds = takeWhile is_digit_char s2
      in if ds = [] then None
         else Some (if neg then - digits_value ds else digits_value ds, dropWhile is_digit_char s2))"

definition INT64_MAX :: int where
  "INT64_MAX = 9223372036854775807"

definition stoll :: "string \<Rightarrow> int outcome" where
  "stoll s =
     (case read_integer s of
        None \<Rightarrow> Inl (invalid_argument ''stoll'')
      | Some (v, _) \<Rightarrow> if v < - INT64_MAX - 1 \<or> INT64_MAX < v then Inl (out_of_range ''stoll'') else Inr v)"

definition stoi :: "string \<Rightarrow> int outcome" where
  "stoi s =
     (case read_integer s of
        None \<Rightarrow> Inl (invalid_argument ''stoi'')
      | Some (v, _) \<Rightarrow> if v < - INT_MAX - 1 \<or> INT_MAX < v then Inl (out_of_range ''stoi'') else Inr v)"

text \<open>An \<^verbatim>\<open>int64_t\<close> converted to \<^verbatim>\<open>int\<close>, modulo \<open>2 ^ 32\<close>.\<close>

definition to_int32 :: "int \<Rightarrow> int" where
  "to_int32 v = (v + 2147483648) mod 4294967296 - 2147483648"

section \<open>Sequence sets\<close>

text \<open>
  The loop \<^verbatim>\<open>for (int64_t i = first; i <= second; ++i)\<close>. \<open>room\<close> is the number of elements that the vector can
  still take before \<^verbatim>\<open>push_back\<close> throws; \<open>None\<close> is the undefined behaviour of \<^verbatim>\<open>++i\<close> at the largest
  64-bit number.
\<close>

fun range_loop :: "nat \<Rightarrow> int \<Rightarrow> int \<Rightarrow> int list outcome option" where
  "range_loop 0 i second = (if i \<le> second then Some (Inl bad_alloc) else Some (Inr []))"
| "range_loop (Suc room) i second =
     (if i \<le> second then
        (if i = INT64_MAX then None else map_option (map_sum id (\<lambda>r. i # r)) (range_loop room (i + 1) second))
      else Some (Inr []))"

definition sequence_bound :: "int \<Rightarrow> string \<Rightarrow> int outcome" where
  "sequence_bound maxValue s = (if s = ''*'' then Inr maxValue else stoll s)"

definition sequence_part :: "nat \<Rightarrow> int \<Rightarrow> string \<Rightarrow> int list outcome option" where
  "sequence_part room maxValue part =
     (case find_char part (CHR '':'') of
        None \<Rightarrow>
          (case sequence_bound maxValue part of
             Inl e \<Rightarrow> Some (Inl e)
           | Inr v \<Rightarrow> if room = 0 then Some (Inl bad_alloc) else Some (Inr [v]))
      | Some p \<Rightarrow>
          (case sequence_bound maxValue (substr part 0 p) of
             Inl e \<Rightarrow> Some (Inl e)
           | Inr first \<Rightarrow>
               (case sequence_bound maxValue (substr_from part (p + 1)) of
                  Inl e \<Rightarrow> Some (Inl e)
                | Inr second \<Rightarrow> range_loop room (min first second) (max first second))))"

fun sequence_parts :: "nat \<Rightarrow> int \<Rightarrow> string list \<Rightarrow> int list outcome option" where
  "sequence_parts room maxValue [] = Some (Inr [])"
| "sequence_parts room maxValue (p # ps) =
     (case sequence_part room maxValue p of
        None \<Rightarrow> None
      | Some (Inl e) \<Rightarrow> Some (Inl e)
      | Some (Inr xs) \<Rightarrow> map_option (map_sum id (\<lambda>ys. xs @ ys)) (sequence_parts (room - length xs) maxValue ps))"

text \<open>\<^verbatim>\<open>std::sort\<close> and \<^verbatim>\<open>std::unique\<close>: the sorted list without duplicates.\<close>

definition ParseSequenceSet :: "nat \<Rightarrow> string \<Rightarrow> int \<Rightarrow> int list outcome option" where
  "ParseSequenceSet room sequenceSet maxValue =
     map_option (map_sum id (\<lambda>res. remdups_adj (sort res))) (sequence_parts room maxValue (Split sequenceSet (CHR '','')))"

text \<open>
  \<^verbatim>\<open>SortMessagesByTimeDescending\<close>: \<^verbatim>\<open>std::sort\<close> leaves the order of messages with the same date
  open, so the function is the relation between the list before and the lists it may leave.
\<close>

definition SortMessagesByTimeDescending :: "message list \<Rightarrow> message list \<Rightarrow> bool" where
  "SortMessagesByTimeDescending messages result \<longleftrightarrow>
     (\<forall>m \<in> set messages \<union> set result. count_list result m = count_list messages m) \<and>
     sorted_wrt (\<lambda>a b. \<not> m_internal_date b > m_internal_date a) result"

section \<open>Dates\<close>

definition months :: "string list" where
  "months = [''Jan'', ''Feb'', ''Mar'', ''Apr'', ''May'', ''Jun'', ''Jul'', ''Aug'', ''Sep'', ''Oct'', ''Nov'', ''Dec'']"

definition days :: "string list" where
  "days = [''Sun'', ''Mon'', ''Tue'', ''Wed'', ''Thu'', ''Fri'', ''Sat'']"

text \<open>\<^verbatim>\<open>ss >> i\<close> for an \<^verbatim>\<open>int\<close> and \<^verbatim>\<open>ss >> c\<close> for a \<^verbatim>\<open>char\<close>.\<close>

definition extract_int :: "string \<Rightarrow> (int \<times> string) option" where
  "extract_int s =
     (case read_integer s of
        None \<Rightarrow> None
      | Some (v, rest) \<Rightarrow> if v < - INT_MAX - 1 \<or> INT_MAX < v then None else Some (v, rest))"

definition extract_char :: "string \<Rightarrow> (char \<times> string) option" where
  "extract_char s = (case dropWhile is_space_char s of [] \<Rightarrow> None | c # rest \<Rightarrow> Some (c, rest))"

record date_fields =
  df_year :: int
  df_month :: int
  df_day :: int
  df_hour :: int
  df_minute :: int
  df_second :: int
  df_marks :: string

definition extract_date :: "string \<Rightarrow> date_fields option" where
  "extract_date s =
     Option.bind (extract_int s) (\<lambda>(year, s).
     Option.bind (extract_char s) (\<lambda>(dash1, s).
     Option.bind (extract_int s) (\<lambda>(month, s).
     Option.bind (extract_char s) (\<lambda>(dash2, s).
     Option.bind (extract_int s) (\<lambda>(day, s).
     Option.bind (extract_int s) (\<lambda>(hour, s).
     Option.bind (extract_char s) (\<lambda>(colon1, s).
     Option.bind (extract_int s) (\<lambda>(minute, s).
     Option.bind (extract_char s) (\<lambda>(colon2, s).
     Option.bind (extract_int s) (\<lambda>(second, s).
       Some \<lparr>df_year = year, df_month = month, df_day = day, df_hour = hour, df_minute = minute,
             df_second = second, df_marks = [dash1, dash2, colon1, colon2]\<rparr>))))))))))"

definition date_values_ok :: "date_fields \<Rightarrow> bool" where
  "date_values_ok f \<longleftrightarrow>
     \<not> (df_year f < 1900 \<or> df_month f < 1 \<or> 12 < df_month f \<or> df_day f < 1 \<or> 31 < df_day f \<or>
        df_hour f < 0 \<or> 23 < df_hour f \<or> df_minute f < 0 \<or> 59 < df_minute f \<or> df_second f < 0 \<or> 59 < df_second f)"

definition parse_date :: "string \<Rightarrow> string \<Rightarrow> date_fields outcome" where
  "parse_date fname s =
     (if s = [] then Inl (runtime_error (fname @ '': empty date string''))
      else case extract_date s of
        None \<Rightarrow> Inl (runtime_error (fname @ '': failed to parse date string '' @ [CHR 0x27] @ s @ [CHR 0x27]))
      | Some f \<Rightarrow>
          if df_marks f \<noteq> ''--::'' then Inl (runtime_error (fname @ '': invalid date format in '' @ [CHR 0x27] @ s @ [CHR 0x27]))
          else if \<not> date_values_ok f
          then Inl (runtime_error (fname @ '': invalid date values in '' @ [CHR 0x27] @ s @ [CHR 0x27]))
          else Inr f)"

definition two_digits :: "int \<Rightarrow> string" where
  "two_digits v = (if v < 10 then ''0'' else []) @ int_to_string v"

definition clock_text :: "date_fields \<Rightarrow> string" where
  "clock_text f = two_digits (df_hour f) @ '':'' @ two_digits (df_minute f) @ '':'' @ two_digits (df_second f) @ '' +0000''"

definition day_of_week :: "int \<Rightarrow> int \<Rightarrow> int \<Rightarrow> int" where
  "day_of_week year month day =
     (let m = (if month < 3 then month + 12 else month); y = (if month < 3 then year - 1 else year);
          dow = (day + (13 * (m + 1)) div 5 + y + y div 4 - y div 100 + y div 400) mod 7
      in (dow + 6) mod 7)"

definition DateToEmlDate :: "string \<Rightarrow> string outcome" where
  "DateToEmlDate s =
     (case parse_date ''DateToEmlDate'' s of
        Inl e \<Rightarrow> Inl e
      | Inr f \<Rightarrow>
          Inr (days ! nat (day_of_week (df_year f) (df_month f) (df_day f)) @ '', '' @ two_digits (df_day f) @ '' '' @
               months ! nat (df_month f - 1) @ '' '' @ int_to_string (df_year f) @ '' '' @ clock_text f))"

definition DateToIMAPInternal :: "string \<Rightarrow> string outcome" where
  "DateToIMAPInternal s =
     (case parse_date ''DateToIMAPInternal'' s of
        Inl e \<Rightarrow> Inl e
      | Inr f \<Rightarrow>
          Inr (two_digits (df_day f) @ ''-'' @ months ! nat (df_month f - 1) @ ''-'' @ int_to_string (df_year f) @
               '' '' @ clock_text f))"

end
