(* ===== verification/Imap_Body.thy ===== *)
theory Imap_Body
  imports Imap_Utils
begin

text \<open>
  \<^verbatim>\<open>imap-server/src/ImapUtils.cpp\<close>, the half that reads message files: parsed emails, envelopes,
  body structures, body sections and the flag list of a message. A file is read through
  \<open>read_file\<close>: the content of a path, or \<open>None\<close> when the stream does not open.
\<close>

section \<open>Message files\<close>

definition GetParsedEmail :: "(string \<Rightarrow> string option) \<Rightarrow> message \<Rightarrow> email option" where
  "GetParsedEmail read_file msg =
     (case read_file (m_raw_file_path msg) of
        None \<Rightarrow> None
      | Some raw_mime \<Rightarrow> (case ParseEmail raw_mime new_email of (ok, m) \<Rightarrow> if ok then Some m else None))"

definition GetParsedMimePart :: "(string \<Rightarrow> string option) \<Rightarrow> message \<Rightarrow> mime_part option" where
  "GetParsedMimePart read_file msg =
     (case read_file (m_raw_file_path msg) of None \<Rightarrow> None | Some raw_mime \<Rightarrow> ParseStructure raw_mime)"

definition GetBodyContent :: "(string \<Rightarrow> string option) \<Rightarrow> message \<Rightarrow> string" where
  "GetBodyContent read_file msg =
     (case read_file (m_raw_file_path msg) of None \<Rightarrow> [] | Some raw \<Rightarrow> raw)"

section \<open>Envelopes\<close>

definition quoted :: "string \<Rightarrow> string" where
  "quoted s = [DQUOTE] @ s @ [DQUOTE]"

text \<open>The display name in front of the angle bracket at \<open>bracket_start\<close>.\<close>

definition personal_name :: "string \<Rightarrow> nat \<Rightarrow> string" where
  "personal_name raw_email bracket_start =
     (let name = substr raw_email 0 bracket_start in
      case find_last_idx (\<lambda>c. \<not> (c = SP \<or> c = TAB)) name of
        None \<Rightarrow> ''NIL''
      | Some name_end \<Rightarrow>
          (let n = substr name 0 (name_end + 1) in
           quoted (if hd n = DQUOTE \<and> last n = DQUOTE \<and> 1 < length n then substr n 1 (length n - 2) else n)))"

definition FormatAddress :: "string \<Rightarrow> string" where
  "FormatAddress raw_email =
     (if raw_email = [] \<or> raw_email = ''NIL'' then ''NIL''
      else
        (let (name, email_part) =
           (case (find_char raw_email (CHR ''<''), find_char raw_email (CHR ''>'')) of
              (Some s, Some e) \<Rightarrow>
                if s < e then (if 0 < s then personal_name raw_email s else ''NIL'', substr raw_email (s + 1) (e - s - 1))
                else (''NIL'', raw_email)
            | _ \<Rightarrow> (''NIL'', raw_email));
           mailbox = (case find_char email_part (CHR ''@'') of Some p \<Rightarrow> substr email_part 0 p | None \<Rightarrow> email_part);
           host = (case find_char email_part (CHR ''@'') of Some p \<Rightarrow> substr_from email_part (p + 1) | None \<Rightarrow> ''unknown'')
         in ''('' @ name @ '' NIL '' @ quoted mailbox @ '' '' @ quoted host @ '')''))"

text \<open>The lambda \<^verbatim>\<open>get_list_of_receipients\<close>: the last blank becomes the closing parenthesis.\<close>

definition recipient_list :: "recipient list \<Rightarrow> string" where
  "recipient_list recs =
     (if recs = [] then ''NIL ''
      else butlast (''('' @ concat (map (\<lambda>r. FormatAddress (r_address r) @ '' '') recs)) @ '')'')"

definition BuildEnvelope :: "engine \<Rightarrow> db \<Rightarrow> message \<Rightarrow> email option \<Rightarrow> string outcome" where
  "BuildEnvelope engine d msg email_opt =
     (case m_id msg of
        None \<Rightarrow> Inl bad_optional_access
      | Some i \<Rightarrow>
          (let sender_email = (case email_opt of Some m \<Rightarrow> sender m | None \<Rightarrow> []);
               subj = (case email_opt of Some m \<Rightarrow> subject m
                       | None \<Rightarrow> (case m_subject msg of Some s \<Rightarrow> s | None \<Rightarrow> []));
               message_id = (case email_opt of Some m \<Rightarrow> message_id m
                             | None \<Rightarrow> ''<'' @ int_to_string i @ ''@test.com>'');
               in_reply = (case email_opt of Some m \<Rightarrow> in_reply_to m
                           | None \<Rightarrow> (case m_in_reply_to msg of Some s \<Rightarrow> s | None \<Rightarrow> ''NIL''));
               all = RecipientDAL_findByMessage engine d i;
               of_type = (\<lambda>t. recipient_list (filter (\<lambda>r. r_type r = t) all))
           in case (case email_opt of Some m \<Rightarrow> Inr (date m) | None \<Rightarrow> DateToEmlDate (m_internal_date msg)) of
                Inl e \<Rightarrow> Inl e
              | Inr date_text \<Rightarrow>
                  Inr (''('' @ quoted date_text @ '' '' @ quoted subj @ '' '' @
                       FormatAddress sender_email @ '' '' @ FormatAddress sender_email @ '' '' @
                       FormatAddress sender_email @ '' '' @ of_type To @ of_type Cc @ of_type Bcc @
                       (if in_reply \<noteq> [] \<and> in_reply \<noteq> ''NIL'' then ''<'' @ in_reply @ ''> '' else ''NIL '') @
                       quoted message_id @ '')'')))"

section \<open>Body structures\<close>

fun BuildBodystructureFromMimePart :: "mime_part \<Rightarrow> string" where
  "BuildBodystructureFromMimePart (MimePart ty sub cs enc fname sz lns boundary children) =
     (if ty = ''multipart'' then
        ''('' @ concat (map BuildBodystructureFromMimePart children) @ '' '' @ quoted sub @
        (if boundary \<noteq> [] then '' ('' @ quoted ''boundary'' @ '' '' @ quoted boundary @ '')'' else '' NIL'') @ '' NIL NIL)''
      else
        ''('' @ quoted ty @ '' '' @ quoted sub @ '' ('' @ quoted ''charset'' @ '' '' @ quoted cs @ '') NIL NIL '' @
        quoted enc @ '' '' @ nat_to_string sz @ '' '' @ nat_to_string lns @ '')'')"

definition count_lines :: "string \<Rightarrow> nat" where
  "count_lines s = length (filter (\<lambda>c. c = LF) s)"

definition text_structure :: "string \<Rightarrow> string \<Rightarrow> string \<Rightarrow> string \<Rightarrow> string" where
  "text_structure sub cs enc content =
     ''('' @ quoted ''text'' @ '' '' @ quoted sub @ '' ('' @ quoted ''charset'' @ '' '' @ quoted cs @ '') NIL NIL '' @
     quoted enc @ '' '' @ nat_to_string (length content) @ '' '' @ nat_to_string (count_lines content) @ '')''"

definition boundary_params :: "string \<Rightarrow> string \<Rightarrow> string" where
  "boundary_params kind b = '' '' @ quoted kind @ '' ('' @ quoted ''boundary'' @ '' '' @ quoted b @ '') NIL NIL)''"

text \<open>\<open>fresh\<close>: the two boundaries that calls of \<^verbatim>\<open>MimeBuilder::GenerateBoundary\<close> would draw.\<close>

definition BuildBodystructure :: "string \<times> string \<Rightarrow> message \<Rightarrow> email option \<Rightarrow> mime_part option \<Rightarrow> string" where
  "BuildBodystructure fresh msg email_opt mime_part_opt =
     (case mime_part_opt of
        Some part \<Rightarrow> BuildBodystructureFromMimePart part
      | None \<Rightarrow>
          (case email_opt of
             None \<Rightarrow> ''('' @ quoted ''text'' @ '' '' @ quoted ''plain'' @ '' ('' @ quoted ''charset'' @ '' '' @
                     quoted '' utf-8 '' @ '') NIL NIL '' @ quoted ''7bit'' @ '' '' @ int_to_string (m_size_bytes msg) @ '' 0)''
           | Some m \<Rightarrow>
               (let plain_part = text_structure ''plain'' (charset m) (plain_text_encoding m) (plain_text m);
                    html_part = text_structure ''html'' (charset m) (html_text_encoding m) (html_text m);
                    alt_bound = (if boundary_alternative m = [] then fst fresh else boundary_alternative m);
                    text_block = (if HasHtml m then ''('' @ plain_part @ html_part @ boundary_params ''alternative'' alt_bound
                                  else plain_part);
                    mix_bound = (if boundary_mixed m = [] then snd fresh else boundary_mixed m)
                in if \<not> HasAttachments m then text_block
                   else ''('' @ text_block @
                     concat (map (\<lambda>att. '' ('' @ quoted ''application'' @ '' '' @ quoted ''octet-stream'' @ '' ('' @
                        quoted ''name'' @ '' '' @ quoted (file_name att) @ '') NIL NIL '' @ quoted ''base64'' @ '' '' @
                        nat_to_string (file_size att) @ '')'') (attachments m)) @
                     boundary_params ''mixed'' mix_bound)))"

section \<open>Body sections\<close>

definition strip_line_end :: "string \<Rightarrow> string" where
  "strip_line_end s =
     (if 2 \<le> length s \<and> s ! (length s - 2) = CR \<and> s ! (length s - 1) = LF then take (length s - 2) s
      else if 1 \<le> length s \<and> s ! (length s - 1) = LF then take (length s - 1) s
      else s)"

text \<open>
  The loop of \<^verbatim>\<open>ExtractPartBySection\<close>; \<open>k\<close> is \<^verbatim>\<open>part_num - current_part\<close>, and the position
  is \<open>None\<close> when it is \<^verbatim>\<open>npos\<close>.
\<close>

fun extract_part :: "string \<Rightarrow> string \<Rightarrow> nat \<Rightarrow> nat option \<Rightarrow> string" where
  "extract_part raw delimiter 0 pos = []"
| "extract_part raw delimiter (Suc k) pos =
     (case Option.bind pos (find_sub_from delimiter raw) of
        None \<Rightarrow> []
      | Some next_delim \<Rightarrow>
          (let part_start = skip_eol raw (next_delim + length delimiter);
               next_delim2 = find_sub_from delimiter raw part_start;
               part_end = (case next_delim2 of Some e \<Rightarrow> e | None \<Rightarrow> length raw)
           in if k = 0 then strip_line_end (substr raw part_start (part_end - part_start))
              else extract_part raw delimiter k next_delim2))"

definition ExtractPartBySection :: "string \<Rightarrow> string \<Rightarrow> int \<Rightarrow> string" where
  "ExtractPartBySection raw_mime boundary part_num =
     extract_part raw_mime (''--'' @ boundary) (nat part_num) (Some 0)"

text \<open>Items are joined with blanks until one ends in a bracket; the rest of the items behind.\<close>

fun join_section :: "string \<Rightarrow> string list \<Rightarrow> string \<times> string list" where
  "join_section content [] = (content, [])"
| "join_section content (i # items) =
     (if content \<noteq> [] \<and> last content \<noteq> CHR '']'' then join_section (content @ '' '' @ i) items
      else (content, i # items))"

lemma join_section_length: "length (snd (join_section content items)) \<le> length items"
  by (induction content items rule: join_section.induct) auto

function CombineSplitBodySections :: "string list \<Rightarrow> string list" where
  "CombineSplitBodySections [] = []"
| "CombineSplitBodySections (item # items) =
     (let upper = ToUpper item in
      if StartsWith upper ''BODY[HEADER.FIELDS'' \<or> StartsWith upper ''BODY.PEEK[HEADER.FIELDS'' then
        (let is_peek = StartsWith upper ''BODY.PEEK['';
             joined = join_section (substr_from item (if is_peek then 10 else 5)) items;
             content = (if fst joined \<noteq> [] \<and> last (fst joined) \<noteq> CHR '']'' then fst joined @ '']'' else fst joined)
         in ((if is_peek then ''BODY.PEEK['' else ''BODY['') @ content) # CombineSplitBodySections (snd joined))
      else item # CombineSplitBodySections items)"
  by pat_completeness auto
termination by (relation "measure length") (auto simp: le_imp_less_Suc join_section_length)

text \<open>The position of the dot in front of the first letter behind a dot; \<open>0\<close> when there is none.\<close>

fun suffix_scan :: "char \<Rightarrow> string \<Rightarrow> nat \<Rightarrow> nat" where
  "suffix_scan before [] i = 0"
| "suffix_scan before (c # cs) i = (if is_alpha_char c \<and> before = CHR ''.'' then i - 1 else suffix_scan c cs (i + 1))"

definition suffix_pos :: "string \<Rightarrow> nat" where
  "suffix_pos s = (case s of [] \<Rightarrow> 0 | c # cs \<Rightarrow> suffix_scan c cs 1)"

fun section_path :: "string list \<Rightarrow> int list outcome" where
  "section_path [] = Inr []"
| "section_path (s # ss) =
     (case stoi s of
        Inl e \<Rightarrow> Inl e
      | Inr n \<Rightarrow> (case section_path ss of Inl e \<Rightarrow> Inl e | Inr ns \<Rightarrow> Inr (n # ns)))"

text \<open>The walk along the part numbers, on the current headers and body; \<open>None\<close> is \<^verbatim>\<open>return ""\<close>.\<close>

fun walk_parts :: "int list \<Rightarrow> string \<Rightarrow> string \<Rightarrow> (string \<times> string) option" where
  "walk_parts [] headers body = Some (headers, body)"
| "walk_parts (n # ns) headers body =
     (let boundary = ExtractBoundary (GetHeaderValue headers ''Content-Type:'') in
      if boundary = [] then (if ns \<noteq> [] then None else Some (headers, body))
      else
        (let part = ExtractPartBySection body boundary n in
         if part = [] then None
         else (case SplitHeadersAndBody part of
                 (h, b) \<Rightarrow> walk_parts ns h (dropWhile (\<lambda>c. c = CR \<or> c = LF) b))))"

definition numbered_section :: "string \<Rightarrow> string \<Rightarrow> string \<Rightarrow> string outcome" where
  "numbered_section headers body upper_section =
     (let is_multipart = contains_sub (GetHeaderValue headers ''Content-Type:'') ''multipart'';
          sp = suffix_pos upper_section;
          path_str = (if 0 < sp then substr upper_section 0 sp else upper_section);
          suffix = (if 0 < sp then substr_from upper_section sp else [])
      in case section_path (Split path_str (CHR ''.'')) of
           Inl e \<Rightarrow> Inl e
         | Inr path \<Rightarrow>
             if \<not> is_multipart then
               Inr (if path = [1]
                    then (if suffix = ''.HEADER'' \<or> suffix = ''.MIME'' then headers @ CRLF @ CRLF else body)
                    else [])
             else
               Inr (case walk_parts path headers body of
                      None \<Rightarrow> []
                    | Some (h, b) \<Rightarrow> if suffix = ''.HEADER'' \<or> suffix = ''.MIME'' then h @ CRLF @ CRLF else b))"

definition GetBodySection :: "(string \<Rightarrow> string option) \<Rightarrow> message \<Rightarrow> string \<Rightarrow> string outcome" where
  "GetBodySection read_file msg sect =
     (let raw_mime = GetBodyContent read_file msg in
      if raw_mime = [] then Inr []
      else case SplitHeadersAndBody raw_mime of
        (headers, body) \<Rightarrow>
          (let upper = ToUpper sect in
           if upper = ''HEADER'' then Inr (headers @ CRLF @ CRLF)
           else if upper = ''TEXT'' then Inr body
           else if upper = ''MIME'' then Inr (headers @ CRLF @ CRLF)
           else if StartsWith upper ''HEADER.'' then Inr (headers @ CRLF @ CRLF)
           else if upper \<noteq> [] \<and> is_digit_char (hd upper) then numbered_section headers body upper
           else Inr raw_mime))"

section \<open>Flags\<close>

definition flag_words :: "message \<Rightarrow> string list" where
  "flag_words msg =
     (if m_is_seen msg then [flag_Seen] else []) @ (if m_is_deleted msg then [flag_Deleted] else []) @
     (if m_is_draft msg then [flag_Draft] else []) @ (if m_is_answered msg then [flag_Answered] else []) @
     (if m_is_flagged msg then [flag_Flagged] else []) @ (if m_is_recent msg then [flag_Recent] else [])"

text \<open>Each flag is appended with a blank behind it, and the last blank is dropped.\<close>

definition flag_list :: "message \<Rightarrow> string" where
  "flag_list msg = ''FLAGS ('' @ pop_back_if SP (concat (map (\<lambda>f. f @ '' '') (flag_words msg))) @ '')''"

definition FormatFlagsResponse :: "message \<Rightarrow> string" where
  "FormatFlagsResponse msg = ''('' @ flag_list msg @ '')''"

end
