(* ===== verification/Imap_Dispatcher.thy ===== *)
theory Imap_Dispatcher
  imports Imap_Body
begin

text \<open>
  \<^verbatim>\<open>imap-server/src/ImapCommandDispatcher.cpp\<close>: the command handlers of an IMAP session.

  A handler takes the dispatcher's state (its data members, next to the database it reaches
  through the repositories) and gives the reply with the new state. The reply is an outcome: an
  exception that leaves the handler is \<open>Inl\<close>, and \<open>None\<close> is a call whose behaviour is undefined, which
  \<^verbatim>\<open>ParseSequenceSet\<close> may be. Reads use the default arguments of the repository, limit 50 and
  offset 0.
\<close>

section \<open>State\<close>

datatype session_state = NonAuthenticated | Authenticated | Selected

record mailbox_state =
  mb_name :: string
  mb_exists :: nat
  mb_recent :: nat
  mb_unseen :: nat
  mb_flags :: "string list"
  mb_id :: "int option"
  mb_readOnly :: bool

definition MailboxState :: mailbox_state where
  "MailboxState = \<lparr>mb_name = [], mb_exists = 0, mb_recent = 0, mb_unseen = 0, mb_flags = [], mb_id = None,
     mb_readOnly = False\<rparr>"

record imap_dispatcher =
  id_state :: session_state
  id_user_name :: string
  id_user_id :: "int option"
  id_mailbox :: mailbox_state
  id_db :: db

definition ImapCommandDispatcher :: "db \<Rightarrow> imap_dispatcher" where
  "ImapCommandDispatcher d =
     \<lparr>id_state = NonAuthenticated, id_user_name = [], id_user_id = None, id_mailbox = MailboxState, id_db = d\<rparr>"

text \<open>
  What the handlers use from outside: the SQL engine, libsodium's \<^verbatim>\<open>crypto_pwhash_str_verify\<close>,
  the message files, two boundaries of \<^verbatim>\<open>MimeBuilder::GenerateBoundary\<close>, and how many numbers the
  vector of a sequence set can take before the memory is used up.
\<close>

record imap_env =
  ie_engine :: engine
  ie_verify :: "string \<Rightarrow> string \<Rightarrow> bool"
  ie_read_file :: "string \<Rightarrow> string option"
  ie_boundaries :: "string \<times> string"
  ie_room :: nat

type_synonym handler_result = "string outcome option \<times> imap_dispatcher"

definition answer :: "string \<Rightarrow> imap_dispatcher \<Rightarrow> handler_result" where
  "answer r s = (Some (Inr r), s)"

text \<open>\<^verbatim>\<open>std::optional::value\<close> outside a try block.\<close>

definition with_value :: "'a option \<Rightarrow> imap_dispatcher \<Rightarrow> ('a \<Rightarrow> handler_result) \<Rightarrow> handler_result" where
  "with_value v s f = (case v of None \<Rightarrow> (Some (Inl bad_optional_access), s) | Some x \<Rightarrow> f x)"

definition opt_value :: "'a option \<Rightarrow> 'a outcome" where
  "opt_value v = (case v of None \<Rightarrow> Inl bad_optional_access | Some x \<Rightarrow> Inr x)"

definition find_by_folder :: "engine \<Rightarrow> db \<Rightarrow> int \<Rightarrow> message list" where
  "find_by_folder engine d fid = MessageDAL_findByFolder engine d fid 50 0"

fun RequiresAuth :: "imap_command_type \<Rightarrow> bool" where
  "RequiresAuth Login = False"
| "RequiresAuth Logout = False"
| "RequiresAuth Capability = False"
| "RequiresAuth Noop = False"
| "RequiresAuth StartTLS = False"
| "RequiresAuth _ = True"

section \<open>Session commands\<close>

definition Imap_HandleLogin :: "imap_env \<Rightarrow> imap_command \<Rightarrow> imap_dispatcher \<Rightarrow> handler_result" where
  "Imap_HandleLogin env cmd s =
     (case ic_args cmd of
        [name, password] \<Rightarrow>
          (case authorize (ie_verify env) (ie_engine env) (id_db s) name password of
             Inl _ \<Rightarrow> answer (Imap_No (ic_tag cmd) ''Login failed'') s
           | Inr _ \<Rightarrow>
               (case UserDAL_findByUsername (ie_engine env) (id_db s) name of
                  None \<Rightarrow> answer (Imap_No (ic_tag cmd) ''Login failed'') s
                | Some u \<Rightarrow>
                    (let s' = s\<lparr>id_user_name := name, id_user_id := u_id u, id_state := Authenticated\<rparr>
                     in with_value (u_id u) s' (\<lambda>_. answer (Imap_Ok (ic_tag cmd) ''Login successful'') s'))))
      | _ \<Rightarrow> answer (Imap_Bad (ic_tag cmd) ''Missing arguments'') s)"

definition Imap_HandleLogout :: "imap_command \<Rightarrow> imap_dispatcher \<Rightarrow> handler_result" where
  "Imap_HandleLogout cmd s = answer (Imap_Untagged ''BYE Logout'' @ Imap_Ok (ic_tag cmd) ''Logout completed'') s"

definition Imap_HandleCapability :: "imap_command \<Rightarrow> imap_dispatcher \<Rightarrow> handler_result" where
  "Imap_HandleCapability cmd s = answer (Imap_Capability @ Imap_Ok (ic_tag cmd) ''Capability completed'') s"

definition Imap_HandleNoop :: "imap_command \<Rightarrow> imap_dispatcher \<Rightarrow> handler_result" where
  "Imap_HandleNoop cmd s = answer (Imap_Ok (ic_tag cmd) ''Noop completed'') s"

definition Imap_HandleStartTLS :: "imap_command \<Rightarrow> imap_dispatcher \<Rightarrow> handler_result" where
  "Imap_HandleStartTLS cmd s =
     answer (if ic_args cmd \<noteq> [] then Imap_Bad (ic_tag cmd) ''STARTTLS takes no arguments''
             else ic_tag cmd @ '' OK Begin TLS negotiation now'' @ CRLF) s"

section \<open>Mailboxes\<close>

definition select_reply :: "string \<Rightarrow> folder \<Rightarrow> int \<Rightarrow> message list \<Rightarrow> string" where
  "select_reply tag f fid msgs =
     Imap_Flags @ ''* OK [UIDVALIDITY '' @ int_to_string fid @ '']'' @ CRLF @
     ''* OK [PERMANENTFLAGS ('' @ flag_Seen @ '' '' @ flag_Answered @ '' '' @ flag_Flagged @ '' '' @ flag_Draft @ '' '' @
     flag_Deleted @ '' '' @ [BSLASH] @ ''*)]'' @ CRLF @
     ''* OK [UNSEEN '' @ nat_to_string (length (filter (\<lambda>m. \<not> m_is_seen m) msgs)) @ '']'' @ CRLF @
     Imap_Exists (length msgs) @ ''* OK [UIDNEXT '' @ int_to_string (f_next_uid f) @ '']'' @ CRLF @
     Imap_Recent (length (filter m_is_recent msgs)) @ Imap_Ok tag ''[READ-WRITE] Select completed''"

definition Imap_HandleSelect :: "imap_env \<Rightarrow> imap_command \<Rightarrow> imap_dispatcher \<Rightarrow> handler_result" where
  "Imap_HandleSelect env cmd s =
     (case ic_args cmd of
        [name] \<Rightarrow>
          with_value (id_user_id s) s (\<lambda>uid.
            case FolderDAL_findByName (ie_engine env) (id_db s) uid name of
              None \<Rightarrow> answer (Imap_Bad (ic_tag cmd) ''Mailbox not found'') s
            | Some f \<Rightarrow>
                (let s1 = s\<lparr>id_mailbox := (id_mailbox s)\<lparr>mb_name := f_name f\<rparr>\<rparr> in
                 with_value (f_id f) s1 (\<lambda>fid.
                   (let msgs = find_by_folder (ie_engine env) (id_db s) fid;
                        mb = (id_mailbox s1)\<lparr>mb_exists := length msgs, mb_recent := length (filter m_is_recent msgs),
                               mb_id := Some fid\<rparr>
                    in answer (select_reply (ic_tag cmd) f fid msgs)
                         (s1\<lparr>id_mailbox := mb, id_state := Selected,
                             id_db := snd (clearRecentByFolder (ie_engine env) (id_db s) fid)\<rparr>)))))
      | _ \<Rightarrow> answer (Imap_Bad (ic_tag cmd) ''Invalid arguments number'') s)"

definition Imap_HandleList :: "imap_env \<Rightarrow> imap_command \<Rightarrow> imap_dispatcher \<Rightarrow> handler_result" where
  "Imap_HandleList env cmd s =
     (case ic_args cmd of
        [_, pattern] \<Rightarrow>
          if pattern = [] then answer (Imap_List (CHR ''/'') [] ''Noselect'' @ Imap_Ok (ic_tag cmd) ''List completed'') s
          else with_value (id_user_id s) s (\<lambda>uid.
            answer (concat (map (\<lambda>f. Imap_List (CHR ''/'') (f_name f) ''HasNoChildren'')
                              (FolderDAL_findByUser (ie_engine env) (id_db s) uid 50 0)) @
                    Imap_Ok (ic_tag cmd) ''List completed'') s)
      | _ \<Rightarrow> answer (Imap_Bad (ic_tag cmd) ''Invalid arguments number'') s)"

definition Imap_HandleLsub :: "imap_env \<Rightarrow> imap_command \<Rightarrow> imap_dispatcher \<Rightarrow> handler_result" where
  "Imap_HandleLsub env cmd s =
     (case ic_args cmd of
        [_, pattern] \<Rightarrow>
          if pattern = [] then answer (Imap_Lsub (CHR ''/'') [] ''Noselect'' @ Imap_Ok (ic_tag cmd) ''Lsub completed'') s
          else with_value (id_user_id s) s (\<lambda>uid.
            answer (concat (map (\<lambda>f. Imap_Lsub (CHR ''/'') (f_name f) ''HasNoChildren'')
                              (filter f_is_subscribed (FolderDAL_findByUser (ie_engine env) (id_db s) uid 50 0))) @
                    Imap_Ok (ic_tag cmd) ''Lsub completed'') s)
      | _ \<Rightarrow> answer (Imap_Bad (ic_tag cmd) ''Invalid arguments number'') s)"

definition status_item :: "folder \<Rightarrow> int \<Rightarrow> message list \<Rightarrow> string \<Rightarrow> string option" where
  "status_item f fid msgs req =
     (if req = ''MESSAGES'' then Some (''MESSAGES '' @ nat_to_string (length msgs) @ '' '')
      else if req = ''RECENT'' then Some (''RECENT '' @ nat_to_string (length (filter m_is_recent msgs)) @ '' '')
      else if req = ''UIDNEXT'' then Some (''UIDNEXT '' @ int_to_string (f_next_uid f) @ '' '')
      else if req = ''UIDVALIDITY'' then Some (''UIDVALIDITY '' @ int_to_string fid @ '' '')
      else if req = ''UNSEEN'' then Some (''UNSEEN '' @ nat_to_string (length (filter (\<lambda>m. \<not> m_is_seen m) msgs)) @ '' '')
      else None)"

definition Imap_HandleStatus :: "imap_env \<Rightarrow> imap_command \<Rightarrow> imap_dispatcher \<Rightarrow> handler_result" where
  "Imap_HandleStatus env cmd s =
     (case ic_args cmd of
        [name, items] \<Rightarrow>
          with_value (id_user_id s) s (\<lambda>uid.
            case FolderDAL_findByName (ie_engine env) (id_db s) uid name of
              None \<Rightarrow> answer (Imap_Bad (ic_tag cmd) ''Mailbox not found'') s
            | Some f \<Rightarrow>
                with_value (f_id f) s (\<lambda>fid.
                  (let found = List.map_filter (status_item f fid (find_by_folder (ie_engine env) (id_db s) fid))
                         (SplitArgs (TrimParentheses items))
                   in if found = [] then answer (Imap_Bad (ic_tag cmd) ''Invalid status data items'') s
                      else answer (Imap_Status name (pop_back_if SP (concat found)) @
                                   Imap_Ok (ic_tag cmd) ''Status completed'') s)))
      | _ \<Rightarrow> answer (Imap_Bad (ic_tag cmd) ''Invalid arguments number'') s)"

text \<open>
  The chain of parents of a new mailbox: the first name is any folder of the user, every
  further one must be the folder found before it. \<open>Inl\<close> is the name that was refused.
\<close>

fun parent_chain :: "engine \<Rightarrow> db \<Rightarrow> int \<Rightarrow> string list \<Rightarrow> folder option \<Rightarrow> string + folder option" where
  "parent_chain engine d uid [] prev = Inr prev"
| "parent_chain engine d uid (n # ns) prev =
     (case FolderDAL_findByName engine d uid n of
        None \<Rightarrow> Inl n
      | Some f \<Rightarrow> if prev = None \<or> prev = Some f then parent_chain engine d uid ns (Some f) else Inl n)"

definition create_in :: "imap_env \<Rightarrow> imap_command \<Rightarrow> imap_dispatcher \<Rightarrow> int \<Rightarrow> int option \<Rightarrow> string \<Rightarrow> handler_result" where
  "create_in env cmd s uid parent name =
     (case createFolder (ie_engine env) (id_db s)
             \<lparr>f_id = None, f_user_id = uid, f_parent_id = parent, f_name = name, f_next_uid = 1,
              f_is_subscribed = False\<rparr> of
        (Inr _, d) \<Rightarrow> answer (Imap_Ok (ic_tag cmd) ''Create completed'') (s\<lparr>id_db := d\<rparr>)
      | (Inl e, d) \<Rightarrow> answer (Imap_No (ic_tag cmd) (''Create failed: '' @ e)) (s\<lparr>id_db := d\<rparr>))"

definition Imap_HandleCreate :: "imap_env \<Rightarrow> imap_command \<Rightarrow> imap_dispatcher \<Rightarrow> handler_result" where
  "Imap_HandleCreate env cmd s =
     (case ic_args cmd of
        [name] \<Rightarrow>
          (let names = Split name (CHR ''/'') in
           if name = [] \<or> [] \<in> set names
           then answer (Imap_No (ic_tag cmd) ''Create failed: invalid mailbox name'') s
           else with_value (id_user_id s) s (\<lambda>uid.
             if length names \<noteq> 1 then
               (case parent_chain (ie_engine env) (id_db s) uid (butlast names) None of
                  Inl n \<Rightarrow> answer (Imap_Bad (ic_tag cmd) (''Parent folder doesn`t exist: '' @ n)) s
                | Inr prev \<Rightarrow>
                    (case Option.bind prev f_id of
                       None \<Rightarrow> answer (Imap_Bad (ic_tag cmd) ''Parent folder doesn`t exist'') s
                     | Some p \<Rightarrow> create_in env cmd s uid (Some p) name))
             else create_in env cmd s uid None name))
      | _ \<Rightarrow> answer (Imap_Bad (ic_tag cmd) ''Invalid parameters number'') s)"

definition Imap_HandleDelete :: "imap_env \<Rightarrow> imap_command \<Rightarrow> imap_dispatcher \<Rightarrow> handler_result" where
  "Imap_HandleDelete env cmd s =
     (case ic_args cmd of
        [name] \<Rightarrow>
          with_value (id_user_id s) s (\<lambda>uid.
            case FolderDAL_findByName (ie_engine env) (id_db s) uid name of
              None \<Rightarrow> answer (Imap_Bad (ic_tag cmd) ''No such folder'') s
            | Some f \<Rightarrow>
                if f_name f = ''INBOX'' then answer (Imap_No (ic_tag cmd) ''Can`t delete INBOX folder'') s
                else with_value (f_id f) s (\<lambda>fid.
                  case deleteFolder (ie_engine env) (id_db s) fid of
                    (Inr _, d) \<Rightarrow> answer (Imap_Ok (ic_tag cmd) ''Delete completed'') (s\<lparr>id_db := d\<rparr>)
                  | (Inl e, d) \<Rightarrow> answer (Imap_Bad (ic_tag cmd) (''Delete failed: '' @ e)) (s\<lparr>id_db := d\<rparr>)))
      | _ \<Rightarrow> answer (Imap_Bad (ic_tag cmd) ''Invalid parameters number'') s)"

definition Imap_HandleRename :: "imap_env \<Rightarrow> imap_command \<Rightarrow> imap_dispatcher \<Rightarrow> handler_result" where
  "Imap_HandleRename env cmd s =
     (case ic_args cmd of
        [name, new_name] \<Rightarrow>
          with_value (id_user_id s) s (\<lambda>uid.
            case FolderDAL_findByName (ie_engine env) (id_db s) uid name of
              None \<Rightarrow> answer (Imap_No (ic_tag cmd) ''No mailbox with specified name'') s
            | Some f \<Rightarrow>
                with_value (f_id f) s (\<lambda>fid.
                  case renameFolder (ie_engine env) (id_db s) fid new_name of
                    (Inr _, d) \<Rightarrow> answer (Imap_Ok (ic_tag cmd) ''Rename completed'') (s\<lparr>id_db := d\<rparr>)
                  | (Inl e, d) \<Rightarrow> answer (Imap_Bad (ic_tag cmd) (''Rename failed: '' @ e)) (s\<lparr>id_db := d\<rparr>)))
      | _ \<Rightarrow> answer (Imap_Bad (ic_tag cmd) ''Invalid arguments number'') s)"

text \<open>\<^verbatim>\<open>HandleSubscribe\<close> and \<^verbatim>\<open>HandleUnsubscribe\<close> differ in the value and the word of the reply.\<close>

definition change_subscription :: "bool \<Rightarrow> string \<Rightarrow> imap_env \<Rightarrow> imap_command \<Rightarrow> imap_dispatcher \<Rightarrow> handler_result" where
  "change_subscription subscribed word env cmd s =
     (case ic_args cmd of
        [name] \<Rightarrow>
          with_value (id_user_id s) s (\<lambda>uid.
            case Option.bind (FolderDAL_findByName (ie_engine env) (id_db s) uid name) f_id of
              None \<Rightarrow> answer (Imap_Bad (ic_tag cmd) ''Mailbox does not exist'') s
            | Some fid \<Rightarrow>
                (case setSubscribed (ie_engine env) (id_db s) fid subscribed of
                   (Inr _, d) \<Rightarrow> answer (Imap_Ok (ic_tag cmd) (word @ '' completed'')) (s\<lparr>id_db := d\<rparr>)
                 | (Inl e, d) \<Rightarrow> answer (Imap_No (ic_tag cmd) e) (s\<lparr>id_db := d\<rparr>)))
      | _ \<Rightarrow> answer (Imap_Bad (ic_tag cmd) ''Invalid arguments number'') s)"

definition Imap_HandleSubscribe :: "imap_env \<Rightarrow> imap_command \<Rightarrow> imap_dispatcher \<Rightarrow> handler_result" where
  "Imap_HandleSubscribe = change_subscription True ''SUBSCRIBE''"

definition Imap_HandleUnsubscribe :: "imap_env \<Rightarrow> imap_command \<Rightarrow> imap_dispatcher \<Rightarrow> handler_result" where
  "Imap_HandleUnsubscribe = change_subscription False ''UNSUBSCRIBE''"

definition no_mailbox :: "imap_command \<Rightarrow> imap_dispatcher \<Rightarrow> handler_result" where
  "no_mailbox cmd s = answer (Imap_Bad (ic_tag cmd) ''No mailbox selected'') s"

definition Imap_HandleClose :: "imap_env \<Rightarrow> imap_command \<Rightarrow> imap_dispatcher \<Rightarrow> handler_result" where
  "Imap_HandleClose env cmd s =
     (if id_state s \<noteq> Selected then no_mailbox cmd s
      else with_value (mb_id (id_mailbox s)) s (\<lambda>fid.
        case expunge (ie_engine env) (id_db s) fid of
          (Inr _, d) \<Rightarrow> answer (Imap_Ok (ic_tag cmd) ''Close completed'')
                         (s\<lparr>id_db := d, id_state := Authenticated, id_mailbox := MailboxState\<rparr>)
        | (Inl e, d) \<Rightarrow> answer (Imap_No (ic_tag cmd) ''Close failed'') (s\<lparr>id_db := d\<rparr>)))"

definition Imap_HandleCheck :: "imap_command \<Rightarrow> imap_dispatcher \<Rightarrow> handler_result" where
  "Imap_HandleCheck cmd s =
     (if id_state s \<noteq> Selected then no_mailbox cmd s else answer (Imap_Ok (ic_tag cmd) ''Check completed'') s)"

end
