(* ===== verification/Imap_Messages.thy ===== *)
theory Imap_Messages
  imports Imap_Dispatcher
begin

text \<open>
  \<^verbatim>\<open>imap-server/src/ImapCommandDispatcher.cpp\<close>, the commands on messages: FETCH, STORE, COPY,
  EXPUNGE, their UID forms, and \<^verbatim>\<open>Dispatch\<close>. \<^verbatim>\<open>HandleFetch\<close> and \<^verbatim>\<open>HandleUidFetch\<close> build an item of a
  message with the same statements, here \<open>fetch_item\<close>; the loops of \<^verbatim>\<open>HandleStore\<close> and
  \<^verbatim>\<open>HandleUidStore\<close>, and of \<^verbatim>\<open>HandleCopy\<close> and \<^verbatim>\<open>HandleUidCopy\<close>, differ in how they find a message,
  which is an argument \<open>lookup\<close> here.
\<close>

section \<open>FETCH items\<close>

definition expand_macro :: "string \<Rightarrow> string list" where
  "expand_macro item =
     (let upper = ToUpper item in
      if upper = ''ALL'' then [''FLAGS'', ''INTERNALDATE'', ''RFC822.SIZE'', ''ENVELOPE'']
      else if upper = ''FAST'' then [''FLAGS'', ''INTERNALDATE'', ''RFC822.SIZE'']
      else if upper = ''FULL'' then [''FLAGS'', ''INTERNALDATE'', ''RFC822.SIZE'', ''ENVELOPE'', ''BODY'']
      else [upper])"

definition fetch_names :: "string \<Rightarrow> string list" where
  "fetch_names arg = concat (map expand_macro (CombineSplitBodySections (SplitArgs (TrimParentheses arg))))"

text \<open>A literal: its length in braces, a line break, its octets.\<close>

definition literal :: "string \<Rightarrow> string" where
  "literal s = '' '' @ [CHR 0x7B] @ nat_to_string (length s) @ [CHR 0x7D] @ CRLF @ s"

text \<open>\<^verbatim>\<open>if (!acc.empty()) acc += ", "; acc += x;\<close>\<close>

definition join_addresses :: "string list \<Rightarrow> string" where
  "join_addresses xs = foldl (\<lambda>acc x. (if acc = [] then [] else acc @ '', '') @ x) [] xs"

definition cc_line :: "string \<Rightarrow> string" where
  "cc_line cc = (if cc = [] then [] else ''Cc: '' @ cc @ CRLF)"

definition email_header :: "email \<Rightarrow> string" where
  "email_header m =
     ''From: '' @ sender m @ CRLF @ ''To: '' @ join_addresses (to_addrs m) @ CRLF @
     cc_line (join_addresses (cc_addrs m)) @ ''Subject: '' @ subject m @ CRLF @ ''Date: '' @ date m @ CRLF @
     ''Message-ID: '' @ message_id m @ CRLF @ CRLF"

definition row_header :: "engine \<Rightarrow> db \<Rightarrow> message \<Rightarrow> string outcome" where
  "row_header engine d msg =
     (case m_id msg of
        None \<Rightarrow> Inl bad_optional_access
      | Some i \<Rightarrow>
          (let sender_name = (case UserDAL_findByID engine d (m_user_id msg) of Some u \<Rightarrow> u_username u | None \<Rightarrow> ''unknown'');
               of_type = (\<lambda>t. join_addresses (map r_address
                  (filter (\<lambda>r. r_type r = t) (RecipientDAL_findByMessage engine d i))))
           in Inr (''From: '' @ sender_name @ ''@test.com'' @ CRLF @ ''To: '' @ of_type To @ CRLF @ cc_line (of_type Cc) @
                   ''Subject: '' @ (case m_subject msg of Some t \<Rightarrow> t | None \<Rightarrow> []) @ CRLF @
                   ''Date: '' @ m_internal_date msg @ CRLF @ CRLF)))"

definition fetch_header :: "imap_env \<Rightarrow> db \<Rightarrow> message \<Rightarrow> string outcome" where
  "fetch_header env d msg =
     map_sum id (\<lambda>h. ''RFC822.HEADER'' @ literal h)
       (case GetParsedEmail (ie_read_file env) msg of
          Some m \<Rightarrow> Inr (email_header m)
        | None \<Rightarrow> row_header (ie_engine env) d msg)"

text \<open>\<^verbatim>\<open>BODY[HEADER.FIELDS]\<close> reads \<^verbatim>\<open>cmd.m_args[2]\<close> whether or not there is a third argument.\<close>

definition fetch_header_fields :: "imap_env \<Rightarrow> string list \<Rightarrow> message \<Rightarrow> string \<Rightarrow> string outcome" where
  "fetch_header_fields env args msg item =
     (let raw_mime = GetBodyContent (ie_read_file env) msg in
      if raw_mime = [] then Inl (runtime_error ''File doesn`t have content'')
      else if length args \<le> 2 then Inl (undefined_behaviour ''m_args[2]'')
      else
        (let headers = fst (SplitHeadersAndBody raw_mime);
             headers_list = TrimParentheses (args ! 2);
             field = (\<lambda>req. let v = GetHeaderValue headers (req @ '':'') in
                        if v = [] then [] else req @ '': '' @ v @ CRLF);
             result = concat (map field (stream_tokens headers_list)) @ CRLF
         in Inr (butlast item @ '' ('' @ headers_list @ '')]'' @ literal result @ '' '')))"

definition fetch_section :: "imap_env \<Rightarrow> message \<Rightarrow> string \<Rightarrow> string outcome" where
  "fetch_section env msg item =
     (let is_peek = StartsWith item ''BODY.PEEK[''; start = (if is_peek then 10 else 5) in
      case find_char_from item (CHR '']'') start of
        None \<Rightarrow> Inl (invalid_argument (''Invalid BODY section: '' @ item))
      | Some e \<Rightarrow>
          (let sect = substr item start (e - start) in
           map_sum id
             (\<lambda>content. (if is_peek then ''BODY.PEEK['' else ''BODY['') @ sect @ '']'' @ literal content @ '' '')
             (GetBodySection (ie_read_file env) msg sect)))"

definition fetch_structure :: "imap_env \<Rightarrow> message \<Rightarrow> string" where
  "fetch_structure env msg =
     BuildBodystructure (ie_boundaries env) msg (GetParsedEmail (ie_read_file env) msg)
       (GetParsedMimePart (ie_read_file env) msg)"

definition fetch_item :: "imap_env \<Rightarrow> db \<Rightarrow> string list \<Rightarrow> message \<Rightarrow> string \<Rightarrow> string outcome" where
  "fetch_item env d args msg item =
     (if item = ''FLAGS'' then Inr (flag_list msg @ '' '')
      else if item = ''INTERNALDATE''
      then map_sum id (\<lambda>t. ''INTERNALDATE '' @ quoted t @ '' '') (DateToIMAPInternal (m_internal_date msg))
      else if item = ''RFC822.SIZE'' then Inr (''RFC822.SIZE '' @ int_to_string (m_size_bytes msg) @ '' '')
      else if item = ''ENVELOPE''
      then map_sum id (\<lambda>t. ''ENVELOPE '' @ t @ '' '')
             (BuildEnvelope (ie_engine env) d msg (GetParsedEmail (ie_read_file env) msg))
      else if item = ''BODY[]'' \<or> item = ''RFC822'' \<or> item = ''RFC822.TEXT''
      then Inr (item @ literal (GetBodyContent (ie_read_file env) msg) @ '' '')
      else if item = ''RFC822.HEADER'' then fetch_header env d msg
      else if item = ''BODYSTRUCTURE'' then Inr (''BODYSTRUCTURE '' @ fetch_structure env msg @ '' '')
      else if item = ''BODY'' then Inr (''BODY '' @ fetch_structure env msg @ '' '')
      else if item = ''BODY[HEADER.FIELDS]'' \<or> item = ''BODY.PEEK[HEADER.FIELDS]''
      then fetch_header_fields env args msg item
      else if StartsWith item ''BODY['' \<or> StartsWith item ''BODY.PEEK['' then fetch_section env msg item
      else if item = ''UID'' then Inr (''UID '' @ int_to_string (m_uid msg) @ '' '')
      else Inl (invalid_argument (''Invalid fetch attribute: '' @ item)))"

fun fetch_items :: "imap_env \<Rightarrow> db \<Rightarrow> string list \<Rightarrow> message \<Rightarrow> string list \<Rightarrow> string outcome" where
  "fetch_items env d args msg [] = Inr []"
| "fetch_items env d args msg (i # is) =
     (case fetch_item env d args msg i of
        Inl e \<Rightarrow> Inl e
      | Inr t \<Rightarrow> map_sum id (\<lambda>r. t @ r) (fetch_items env d args msg is))"

fun fetch_each ::
  "imap_env \<Rightarrow> db \<Rightarrow> string list \<Rightarrow> (message \<Rightarrow> string) \<Rightarrow> string list \<Rightarrow> (nat \<times> message) list \<Rightarrow> string outcome" where
  "fetch_each env d args opening items [] = Inr []"
| "fetch_each env d args opening items ((n, msg) # ps) =
     (case fetch_items env d args msg items of
        Inl e \<Rightarrow> Inl e
      | Inr t \<Rightarrow>
          map_sum id (\<lambda>r. Imap_Fetch n (pop_back_if SP (opening msg @ t) @ '')'') @ r)
            (fetch_each env d args opening items ps))"

text \<open>The catch clauses of the two handlers; undefined behaviour is not an exception.\<close>

fun fetch_reply :: "string \<Rightarrow> string \<Rightarrow> string outcome \<Rightarrow> string outcome" where
  "fetch_reply tag done_msg (Inr r) = Inr (r @ Imap_Ok tag done_msg)"
| "fetch_reply tag done_msg (Inl (invalid_argument w)) = Inr (Imap_Bad tag w)"
| "fetch_reply tag done_msg (Inl (runtime_error w)) = Inr (Imap_Bad tag w)"
| "fetch_reply tag done_msg (Inl (undefined_behaviour w)) = Inl (undefined_behaviour w)"
| "fetch_reply tag done_msg (Inl _) = Inr (Imap_Bad tag ''Invalid message sequence'')"

section \<open>FETCH\<close>

text \<open>The messages a sequence set names; the numbers are converted to \<^verbatim>\<open>int\<close> first.\<close>

definition nth_message :: "message list \<Rightarrow> int \<Rightarrow> message option" where
  "nth_message msgs k = (if 0 < k \<and> k \<le> int (length msgs) then Some (msgs ! nat (k - 1)) else None)"

definition selected_messages :: "message list \<Rightarrow> int list \<Rightarrow> message list" where
  "selected_messages msgs ids = List.map_filter (\<lambda>k. nth_message msgs (to_int32 k)) ids"

definition size_t_of :: "int \<Rightarrow> nat" where
  "size_t_of v = nat (v mod 18446744073709551616)"

text \<open>\<^verbatim>\<open>size_t seq_num = lists_ids[i]\<close> for the i-th message that was selected.\<close>

definition fetch_pairs :: "message list \<Rightarrow> int list \<Rightarrow> (nat \<times> message) list" where
  "fetch_pairs msgs ids = zip (map size_t_of ids) (selected_messages msgs ids)"

definition Imap_HandleFetch :: "imap_env \<Rightarrow> imap_command \<Rightarrow> imap_dispatcher \<Rightarrow> handler_result" where
  "Imap_HandleFetch env cmd s =
     (if id_state s \<noteq> Selected then no_mailbox cmd s
      else if length (ic_args cmd) < 2 then answer (Imap_Bad (ic_tag cmd) ''Missing arguments'') s
      else
        (map_option (fetch_reply (ic_tag cmd) ''Fetch completed'')
          (case mb_id (id_mailbox s) of
             None \<Rightarrow> Some (Inl bad_optional_access)
           | Some fid \<Rightarrow>
               (let msgs = find_by_folder (ie_engine env) (id_db s) fid in
                map_option
                  (\<lambda>r. case r of
                     Inl e \<Rightarrow> Inl e
                   | Inr ids \<Rightarrow> fetch_each env (id_db s) (ic_args cmd) (\<lambda>_. ''('') (fetch_names (ic_args cmd ! 1))
                                 (fetch_pairs msgs ids))
                  (ParseSequenceSet (ie_room env) (ic_args cmd ! 0) (int (length msgs))))),
         s))"

definition uid_pairs :: "engine \<Rightarrow> db \<Rightarrow> int \<Rightarrow> message list \<Rightarrow> int list \<Rightarrow> (nat \<times> message) list" where
  "uid_pairs engine d fid msgs uids =
     List.map_filter
       (\<lambda>uid. map_option
          (\<lambda>msg. (case find_idx (\<lambda>m. m_uid m = uid) msgs of Some i \<Rightarrow> i + 1 | None \<Rightarrow> 0, msg))
          (MessageDAL_findByUID engine d fid uid)) uids"

definition Imap_HandleUidFetch :: "imap_env \<Rightarrow> imap_command \<Rightarrow> imap_dispatcher \<Rightarrow> handler_result" where
  "Imap_HandleUidFetch env cmd s =
     (if id_state s \<noteq> Selected then no_mailbox cmd s
      else if length (ic_args cmd) < 2 then answer (Imap_Bad (ic_tag cmd) ''Missing arguments'') s
      else
        (map_option
          (\<lambda>r. fetch_reply (ic_tag cmd) ''Uid Fetch completed''
            (case r of
               Inl e \<Rightarrow> Inl e
             | Inr uids \<Rightarrow>
                 (case mb_id (id_mailbox s) of
                    None \<Rightarrow> Inl bad_optional_access
                  | Some fid \<Rightarrow>
                      fetch_each env (id_db s) (ic_args cmd) (\<lambda>m. ''(UID '' @ int_to_string (m_uid m) @ '' '')
                        (fetch_names (ic_args cmd ! 1))
                        (uid_pairs (ie_engine env) (id_db s) fid (find_by_folder (ie_engine env) (id_db s) fid) uids))))
          (ParseSequenceSet (ie_room env) (ic_args cmd ! 0) INT64_MAX),
         s))"

section \<open>STORE\<close>

definition valid_system_flags :: "string list" where
  "valid_system_flags = [flag_Seen, flag_Deleted, flag_Draft, flag_Answered, flag_Flagged, flag_Recent]"

text \<open>\<^verbatim>\<open>cmd.m_args[1][0]\<close>: the first character, NUL when the argument is empty.\<close>

definition first_char :: "string \<Rightarrow> char" where
  "first_char s = (if s = [] then NUL else hd s)"

definition flags_to_send :: "string \<Rightarrow> string list \<Rightarrow> string list" where
  "flags_to_send mode raw_flags =
     (if first_char mode = CHR ''+'' \<or> first_char mode = CHR ''-''
      then map (\<lambda>f. first_char mode # f) raw_flags else raw_flags)"

text \<open>
  The loop over the keys of the command, next to the numbers the replies carry. The database is
  the one the statements before left, also when a missing id throws.
\<close>

fun store_each ::
  "engine \<Rightarrow> (db \<Rightarrow> int \<Rightarrow> message option) \<Rightarrow> bool \<Rightarrow> (message \<Rightarrow> string) \<Rightarrow> string list \<Rightarrow> (nat \<times> int) list \<Rightarrow> db \<Rightarrow>
   string outcome \<times> db" where
  "store_each engine lookup silent render flags [] d = (Inr [], d)"
| "store_each engine lookup silent render flags ((n, k) # ks) d =
     (case lookup d k of
        None \<Rightarrow> store_each engine lookup silent render flags ks d
      | Some msg \<Rightarrow>
          (case m_id msg of
             None \<Rightarrow> (Inl bad_optional_access, d)
           | Some i \<Rightarrow>
               (let (r, d') = setFlags engine d i flags;
                    line = (if silent \<or> (case r of Inl _ \<Rightarrow> True | Inr _ \<Rightarrow> False) then []
                            else (case MessageDAL_findByID engine d' i of
                                    None \<Rightarrow> [] | Some u \<Rightarrow> Imap_Fetch n (render u)))
                in apfst (map_sum id (\<lambda>t. line @ t)) (store_each engine lookup silent render flags ks d'))))"

definition is_silent :: "string \<Rightarrow> bool" where
  "is_silent mode \<longleftrightarrow> contains_sub mode ''.SILENT''"

text \<open>The first flag that is not a system flag.\<close>

definition unknown_flag :: "string list \<Rightarrow> string option" where
  "unknown_flag flags = find (\<lambda>f. f \<notin> set valid_system_flags) flags"

definition Imap_HandleStore :: "imap_env \<Rightarrow> imap_command \<Rightarrow> imap_dispatcher \<Rightarrow> handler_result" where
  "Imap_HandleStore env cmd s =
     (if id_state s \<noteq> Selected then no_mailbox cmd s
      else case ic_args cmd of
        [sset, mode, flag_arg] \<Rightarrow>
          (let raw_flags = SplitArgs (TrimParentheses flag_arg);
               failed = answer (Imap_Bad (ic_tag cmd) ''Error processing STORE'')
           in case unknown_flag raw_flags of
                Some f \<Rightarrow> answer (Imap_Bad (ic_tag cmd) (''Unknown flag: '' @ f)) s
              | None \<Rightarrow>
                  (case mb_id (id_mailbox s) of
                     None \<Rightarrow> failed s
                   | Some fid \<Rightarrow>
                       (let msgs = find_by_folder (ie_engine env) (id_db s) fid in
                        case ParseSequenceSet (ie_room env) sset (int (length msgs)) of
                          None \<Rightarrow> (None, s)
                        | Some (Inl e) \<Rightarrow> failed s
                        | Some (Inr ids) \<Rightarrow>
                            (case store_each (ie_engine env) (\<lambda>_ k. nth_message msgs k) (is_silent mode) FormatFlagsResponse
                                    (flags_to_send mode raw_flags) (map (\<lambda>k. (nat (to_int32 k), to_int32 k)) ids) (id_db s) of
                               (Inl e, d) \<Rightarrow> failed (s\<lparr>id_db := d\<rparr>)
                             | (Inr r, d) \<Rightarrow> answer (r @ Imap_Ok (ic_tag cmd) ''Store completed'') (s\<lparr>id_db := d\<rparr>)))))
      | _ \<Rightarrow> answer (Imap_Bad (ic_tag cmd) ''Invalid arguments number'') s)"

definition Imap_HandleUidStore :: "imap_env \<Rightarrow> imap_command \<Rightarrow> imap_dispatcher \<Rightarrow> handler_result" where
  "Imap_HandleUidStore env cmd s =
     (if id_state s \<noteq> Selected then no_mailbox cmd s
      else case ic_args cmd of
        [sset, mode, flag_arg] \<Rightarrow>
          (let raw_flags = SplitArgs (TrimParentheses flag_arg);
               failed = answer (Imap_Bad (ic_tag cmd) ''Invalid message sequence'')
           in case unknown_flag raw_flags of
                Some f \<Rightarrow> answer (Imap_Bad (ic_tag cmd) (''Unknown flag: '' @ f)) s
              | None \<Rightarrow>
                  (case ParseSequenceSet (ie_room env) sset INT64_MAX of
                     None \<Rightarrow> (None, s)
                   | Some (Inl e) \<Rightarrow> failed s
                   | Some (Inr uids) \<Rightarrow>
                       (case mb_id (id_mailbox s) of
                          None \<Rightarrow> (if uids = [] then answer (Imap_Ok (ic_tag cmd) ''Uid Store completed'') s else failed s)
                        | Some fid \<Rightarrow>
                            (case store_each (ie_engine env) (\<lambda>d uid. MessageDAL_findByUID (ie_engine env) d fid uid)
                                    (is_silent mode)
                                    (\<lambda>u. ''(UID '' @ int_to_string (m_uid u) @ '' '' @ FormatFlagsResponse u @ '')'')
                                    (flags_to_send mode raw_flags) (zip [1..<length uids + 1] uids) (id_db s) of
                               (Inl e, d) \<Rightarrow> failed (s\<lparr>id_db := d\<rparr>)
                             | (Inr r, d) \<Rightarrow> answer (r @ Imap_Ok (ic_tag cmd) ''Uid Store completed'') (s\<lparr>id_db := d\<rparr>)))))
      | _ \<Rightarrow> answer (Imap_Bad (ic_tag cmd) ''Missing arguments'') s)"

section \<open>COPY and EXPUNGE\<close>

fun copy_each ::
  "engine \<Rightarrow> (db \<Rightarrow> int \<Rightarrow> message option) \<Rightarrow> int option \<Rightarrow> int list \<Rightarrow> db \<Rightarrow> unit outcome \<times> db" where
  "copy_each engine lookup dest [] d = (Inr (), d)"
| "copy_each engine lookup dest (k # ks) d =
     (case lookup d k of
        None \<Rightarrow> copy_each engine lookup dest ks d
      | Some msg \<Rightarrow>
          (case (m_id msg, dest) of
             (Some i, Some fid) \<Rightarrow> copy_each engine lookup dest ks (snd (copy_message engine d i fid))
           | _ \<Rightarrow> (Inl bad_optional_access, d)))"

text \<open>The end of both handlers: the reply of the loop, or of the catch clause.\<close>

definition copy_reply :: "imap_command \<Rightarrow> string \<Rightarrow> imap_dispatcher \<Rightarrow> unit outcome \<times> db \<Rightarrow> handler_result" where
  "copy_reply cmd done_msg s result =
     (case result of
        (Inl e, d) \<Rightarrow> answer (Imap_Bad (ic_tag cmd) ''Invalid message sequence'') (s\<lparr>id_db := d\<rparr>)
      | (Inr _, d) \<Rightarrow> answer (Imap_Ok (ic_tag cmd) done_msg) (s\<lparr>id_db := d\<rparr>))"

definition Imap_HandleCopy :: "imap_env \<Rightarrow> imap_command \<Rightarrow> imap_dispatcher \<Rightarrow> handler_result" where
  "Imap_HandleCopy env cmd s =
     (if id_state s \<noteq> Selected then no_mailbox cmd s
      else case ic_args cmd of
        [sset, name] \<Rightarrow>
          with_value (id_user_id s) s (\<lambda>uid.
            case FolderDAL_findByName (ie_engine env) (id_db s) uid name of
              None \<Rightarrow> answer (Imap_Bad (ic_tag cmd) ''No such folder'') s
            | Some dest \<Rightarrow>
                (case mb_id (id_mailbox s) of
                   None \<Rightarrow> copy_reply cmd ''Copy completed'' s (Inl bad_optional_access, id_db s)
                 | Some fid \<Rightarrow>
                     (let msgs = find_by_folder (ie_engine env) (id_db s) fid in
                      case ParseSequenceSet (ie_room env) sset (int (length msgs)) of
                        None \<Rightarrow> (None, s)
                      | Some (Inl e) \<Rightarrow> copy_reply cmd ''Copy completed'' s (Inl e, id_db s)
                      | Some (Inr ids) \<Rightarrow>
                          copy_reply cmd ''Copy completed'' s
                            (copy_each (ie_engine env) (\<lambda>_ k. nth_message msgs k) (f_id dest) (map to_int32 ids) (id_db s)))))
      | _ \<Rightarrow> answer (Imap_Bad (ic_tag cmd) ''Missing arguments'') s)"

definition Imap_HandleUidCopy :: "imap_env \<Rightarrow> imap_command \<Rightarrow> imap_dispatcher \<Rightarrow> handler_result" where
  "Imap_HandleUidCopy env cmd s =
     (if id_state s \<noteq> Selected then no_mailbox cmd s
      else case ic_args cmd of
        [sset, name] \<Rightarrow>
          with_value (id_user_id s) s (\<lambda>uid.
            case FolderDAL_findByName (ie_engine env) (id_db s) uid name of
              None \<Rightarrow> answer (Imap_Bad (ic_tag cmd) ''No such folder'') s
            | Some dest \<Rightarrow>
                (case ParseSequenceSet (ie_room env) sset INT64_MAX of
                   None \<Rightarrow> (None, s)
                 | Some (Inl e) \<Rightarrow> copy_reply cmd ''Uid Copy completed'' s (Inl e, id_db s)
                 | Some (Inr uids) \<Rightarrow>
                     (case mb_id (id_mailbox s) of
                        None \<Rightarrow> copy_reply cmd ''Uid Copy completed'' s
                                  (if uids = [] then Inr () else Inl bad_optional_access, id_db s)
                      | Some fid \<Rightarrow>
                          copy_reply cmd ''Uid Copy completed'' s
                            (copy_each (ie_engine env) (\<lambda>d u. MessageDAL_findByUID (ie_engine env) d fid u)
                               (f_id dest) uids (id_db s)))))
      | _ \<Rightarrow> answer (Imap_Bad (ic_tag cmd) ''Missing arguments'') s)"

text \<open>The messages to expunge with their sequence numbers, the highest number first.\<close>

definition expunged :: "message list \<Rightarrow> (message \<times> nat) list" where
  "expunged msgs = rev (filter (\<lambda>p. m_is_deleted (fst p)) (zip msgs [1..<length msgs + 1]))"

fun expunge_each :: "engine \<Rightarrow> (message \<times> nat) list \<Rightarrow> db \<Rightarrow> string outcome \<times> db" where
  "expunge_each engine [] d = (Inr [], d)"
| "expunge_each engine ((msg, n) # ps) d =
     (case m_id msg of
        None \<Rightarrow> (Inl bad_optional_access, d)
      | Some i \<Rightarrow>
          (let (r, d') = hardDelete engine d i;
               line = (case r of Inl _ \<Rightarrow> [] | Inr _ \<Rightarrow> Imap_Untagged (nat_to_string n @ '' EXPUNGE''))
           in apfst (map_sum id (\<lambda>t. line @ t)) (expunge_each engine ps d')))"

definition Imap_HandleExpunge :: "imap_env \<Rightarrow> imap_command \<Rightarrow> imap_dispatcher \<Rightarrow> handler_result" where
  "Imap_HandleExpunge env cmd s =
     (if id_state s \<noteq> Selected then no_mailbox cmd s
      else if ic_args cmd \<noteq> [] then answer (Imap_Bad (ic_tag cmd) ''Invalid arguments'') s
      else with_value (mb_id (id_mailbox s)) s (\<lambda>fid.
        case expunge_each (ie_engine env) (expunged (find_by_folder (ie_engine env) (id_db s) fid)) (id_db s) of
          (Inl e, d) \<Rightarrow> (Some (Inl e), s\<lparr>id_db := d\<rparr>)
        | (Inr r, d) \<Rightarrow> answer (r @ Imap_Ok (ic_tag cmd) ''Expunge completed'') (s\<lparr>id_db := d\<rparr>)))"

section \<open>Dispatch\<close>

fun imap_handler :: "imap_command_type \<Rightarrow> imap_env \<Rightarrow> imap_command \<Rightarrow> imap_dispatcher \<Rightarrow> handler_result" where
  "imap_handler Login env cmd s = Imap_HandleLogin env cmd s"
| "imap_handler Logout env cmd s = Imap_HandleLogout cmd s"
| "imap_handler Capability env cmd s = Imap_HandleCapability cmd s"
| "imap_handler Noop env cmd s = Imap_HandleNoop cmd s"
| "imap_handler Select env cmd s = Imap_HandleSelect env cmd s"
| "imap_handler List_cmd env cmd s = Imap_HandleList env cmd s"
| "imap_handler Lsub env cmd s = Imap_HandleLsub env cmd s"
| "imap_handler Status env cmd s = Imap_HandleStatus env cmd s"
| "imap_handler Fetch env cmd s = Imap_HandleFetch env cmd s"
| "imap_handler Store env cmd s = Imap_HandleStore env cmd s"
| "imap_handler Create env cmd s = Imap_HandleCreate env cmd s"
| "imap_handler Delete env cmd s = Imap_HandleDelete env cmd s"
| "imap_handler Rename env cmd s = Imap_HandleRename env cmd s"
| "imap_handler Copy_cmd env cmd s = Imap_HandleCopy env cmd s"
| "imap_handler Expunge_cmd env cmd s = Imap_HandleExpunge env cmd s"
| "imap_handler UidFetch env cmd s = Imap_HandleUidFetch env cmd s"
| "imap_handler UidStore env cmd s = Imap_HandleUidStore env cmd s"
| "imap_handler UidCopy env cmd s = Imap_HandleUidCopy env cmd s"
| "imap_handler Subscribe env cmd s = Imap_HandleSubscribe env cmd s"
| "imap_handler Unsubscribe env cmd s = Imap_HandleUnsubscribe env cmd s"
| "imap_handler Close env cmd s = Imap_HandleClose env cmd s"
| "imap_handler Check env cmd s = Imap_HandleCheck cmd s"
| "imap_handler StartTLS env cmd s = Imap_HandleStartTLS cmd s"
| "imap_handler Unknown_cmd env cmd s = answer (Imap_Bad (ic_tag cmd) ''Command not implemented'') s"

definition Imap_Dispatch :: "imap_env \<Rightarrow> imap_command \<Rightarrow> imap_dispatcher \<Rightarrow> handler_result" where
  "Imap_Dispatch env cmd s = imap_handler (ic_type cmd) env cmd s"

end
