(* ===== verification/Imap_Session.thy ===== *)
theory Imap_Session
  imports Imap_Messages Repository_Laws
begin

text \<open>
  \<^verbatim>\<open>imap-server/src/ImapSession.cpp\<close>: one connection as a machine driven by its callbacks.

  The callbacks run on one strand, so each is a step of its own: a line arrived, the task of the
  thread pool is done, a write is done, the handshake ended, a timer fired, an operation failed.
  Which of them can occur is in the guards: a callback occurs only while its operation is
  outstanding. A cancelled timer does not fire. The key exchange of
  \<^verbatim>\<open>ServerSecureChannel\<close> is the outcome of the handshake. A command that never returns, or whose
  behaviour is undefined, has no step: the session stays with its task outstanding.
\<close>

section \<open>State\<close>

record imap_session =
  is_disp :: imap_dispatcher
  is_secure :: bool
  is_starttls_pending :: bool
  is_queue :: "string list"
  is_writing :: bool
  is_closing :: bool
  is_open :: bool
  is_reading :: bool
  is_task :: "imap_command option"
  is_handshaking :: bool
  is_sent :: "(bool \<times> string) list"

text \<open>
  The fields from \<open>is_open\<close> on are not data members: the state of the socket, the operations that
  are outstanding, and what was written so far with the protection it was written under.
\<close>

definition WriteResponse :: "string \<Rightarrow> imap_session \<Rightarrow> imap_session" where
  "WriteResponse msg s = s\<lparr>is_queue := is_queue s @ [msg], is_writing := True\<rparr>"

definition ReadCommand :: "imap_session \<Rightarrow> imap_session" where
  "ReadCommand s = s\<lparr>is_reading := True\<rparr>"

definition UpgradeToTLS :: "imap_session \<Rightarrow> imap_session" where
  "UpgradeToTLS s = s\<lparr>is_handshaking := True\<rparr>"

definition close_socket :: "imap_session \<Rightarrow> imap_session" where
  "close_socket s = s\<lparr>is_open := False\<rparr>"

definition new_imap_session :: "db \<Rightarrow> imap_session" where
  "new_imap_session d =
     \<lparr>is_disp = ImapCommandDispatcher d, is_secure = False, is_starttls_pending = False, is_queue = [],
      is_writing = False, is_closing = False, is_open = True, is_reading = False, is_task = None,
      is_handshaking = False, is_sent = []\<rparr>"

definition SendBanner :: "imap_session \<Rightarrow> imap_session" where
  "SendBanner s = ReadCommand (WriteResponse (''* OK IMAP Server Ready'' @ CRLF) s)"

definition Start :: "db \<Rightarrow> imap_session" where
  "Start d = SendBanner (new_imap_session d)"

section \<open>Commands\<close>

definition HandleCommand :: "string \<Rightarrow> imap_session \<Rightarrow> imap_session option" where
  "HandleCommand line s =
     (case ImapParse line of
        None \<Rightarrow> None
      | Some cmd \<Rightarrow>
          if ic_type cmd = Unknown_cmd
          then Some (ReadCommand (WriteResponse (ic_tag cmd @ '' BAD Command not recognized'' @ CRLF) s))
          else if RequiresAuth (ic_type cmd) \<and> id_state (is_disp s) = NonAuthenticated
          then Some (ReadCommand (WriteResponse (ic_tag cmd @ '' BAD Not authenticated'' @ CRLF) s))
          else Some (s\<lparr>is_task := Some cmd\<rparr>))"

text \<open>The response of the task: the reply, or the text of its catch clause.\<close>

fun task_response :: "string outcome option \<Rightarrow> string option" where
  "task_response (Some (Inr r)) = Some r"
| "task_response (Some (Inl (undefined_behaviour w))) = None"
| "task_response (Some (Inl e)) = Some (''BAD Internal server error'' @ CRLF)"
| "task_response None = None"

text \<open>The lambda that \<^verbatim>\<open>HandleCommand\<close> posts back to the strand.\<close>

definition finish_command :: "imap_command \<Rightarrow> string \<Rightarrow> imap_session \<Rightarrow> imap_session" where
  "finish_command cmd response s =
     (if ic_type cmd = StartTLS \<and> is_secure s
      then ReadCommand (WriteResponse (ic_tag cmd @ '' BAD TLS already active'' @ CRLF) s)
      else if ic_type cmd = StartTLS then WriteResponse response (s\<lparr>is_starttls_pending := True\<rparr>)
      else if ic_type cmd \<noteq> Logout then ReadCommand (WriteResponse response s)
      else WriteResponse response s)"

definition task_done :: "imap_env \<Rightarrow> imap_command \<Rightarrow> imap_session \<Rightarrow> imap_session option" where
  "task_done env cmd s =
     (case Imap_Dispatch env cmd (is_disp s) of
        (r, disp) \<Rightarrow>
          map_option (\<lambda>response. finish_command cmd response (s\<lparr>is_disp := disp, is_task := None\<rparr>)) (task_response r))"

section \<open>Writing\<close>

text \<open>The completion handler of \<^verbatim>\<open>Write\<close> on success; both branches of \<^verbatim>\<open>Write\<close> have the same.\<close>

definition write_done :: "imap_session \<Rightarrow> imap_session" where
  "write_done s =
     (let s1 = s\<lparr>is_queue := tl (is_queue s), is_sent := is_sent s @ [(is_secure s, hd (is_queue s))]\<rparr> in
      if is_queue s1 \<noteq> [] then s1
      else let s2 = s1\<lparr>is_writing := False\<rparr> in
        if is_closing s2 then close_socket s2
        else if is_starttls_pending s2 then UpgradeToTLS (s2\<lparr>is_starttls_pending := False\<rparr>)
        else s2)"

definition idle_timeout :: "imap_session \<Rightarrow> imap_session" where
  "idle_timeout s =
     WriteResponse (Imap_Untagged ''BYE Autologout; idle for too long'') (s\<lparr>is_closing := True\<rparr>)"

definition handshake_done :: "bool \<Rightarrow> imap_session \<Rightarrow> imap_session" where
  "handshake_done ok s =
     (if ok then ReadCommand (s\<lparr>is_handshaking := False, is_secure := True\<rparr>)
      else close_socket (s\<lparr>is_handshaking := False\<rparr>))"

section \<open>Steps\<close>

datatype imap_event =
    Line_Read string | Read_Failed | Idle_Timeout | Task_Done | Write_Done | Write_Failed
  | Handshake_Done bool | Handshake_Timeout | Other_Client "repo_call list"

text \<open>
  Between the commands of a session other clients of the same database run repository calls of
  their own; \<open>pwhash\<close> is any outcome of their password hashing.
\<close>

definition other_client :: "imap_env \<Rightarrow> (string \<Rightarrow> string option) \<Rightarrow> repo_call list \<Rightarrow> imap_session \<Rightarrow> imap_session" where
  "other_client env pwhash calls s =
     s\<lparr>is_disp := (is_disp s)\<lparr>id_db := fold (exec_call pwhash (ie_engine env)) calls (id_db (is_disp s))\<rparr>\<rparr>"

inductive imap_step :: "imap_env \<Rightarrow> imap_session \<Rightarrow> imap_event \<Rightarrow> imap_session \<Rightarrow> bool" for env where
  line_read: "is_reading s \<Longrightarrow> is_open s \<Longrightarrow> HandleCommand line (s\<lparr>is_reading := False\<rparr>) = Some s'
     \<Longrightarrow> imap_step env s (Line_Read line) s'"
| read_failed: "is_reading s \<Longrightarrow> imap_step env s Read_Failed (close_socket (s\<lparr>is_reading := False\<rparr>))"
| idle: "is_reading s \<Longrightarrow> is_open s \<Longrightarrow> imap_step env s Idle_Timeout (idle_timeout s)"
| task: "is_task s = Some cmd \<Longrightarrow> task_done env cmd s = Some s' \<Longrightarrow> imap_step env s Task_Done s'"
| write_ok: "is_writing s \<Longrightarrow> is_open s \<Longrightarrow> imap_step env s Write_Done (write_done s)"
| write_failed: "is_writing s \<Longrightarrow> imap_step env s Write_Failed (close_socket s)"
| handshake: "is_handshaking s \<Longrightarrow> imap_step env s (Handshake_Done ok) (handshake_done ok s)"
| handshake_timeout: "is_handshaking s \<Longrightarrow> imap_step env s Handshake_Timeout (close_socket s)"
| other: "imap_step env s (Other_Client calls) (other_client env pwhash calls s)"

inductive_cases imap_stepE: "imap_step env s e s'"

inductive imap_reach :: "imap_env \<Rightarrow> db \<Rightarrow> imap_session \<Rightarrow> bool" for env d where
  reach_start: "imap_reach env d (Start d)"
| reach_step: "imap_reach env d s \<Longrightarrow> imap_step env s e s' \<Longrightarrow> imap_reach env d s'"

end
