(* ===== verification/Imap_Laws.thy ===== *)
theory Imap_Laws
  imports Imap_Session Repository_Behaviour
begin

text \<open>
  Laws of the IMAP handlers and of the session around them: every handler keeps the store
  integrity and the links of its state (a session that is logged in has a user id, a selected one
  a mailbox id), so \<^verbatim>\<open>std::optional::value\<close> never throws; before the login nothing reaches the
  database; the callbacks of STARTTLS never overlap with other traffic.
\<close>

section \<open>What every handler keeps\<close>

definition links_ok :: "imap_dispatcher \<Rightarrow> bool" where
  "links_ok s \<longleftrightarrow> (id_state s \<noteq> NonAuthenticated \<longrightarrow> id_user_id s \<noteq> None) \<and>
     (id_state s = Selected \<longrightarrow> mb_id (id_mailbox s) \<noteq> None)"

definition imap_inv :: "imap_dispatcher \<Rightarrow> bool" where
  "imap_inv s \<longleftrightarrow> db_inv (id_db s) \<and> links_ok s"

fun no_exception :: "'a outcome option \<Rightarrow> bool" where
  "no_exception (Some (Inl (undefined_behaviour w))) = True"
| "no_exception (Some (Inl e)) = False"
| "no_exception r = True"

definition handled :: "imap_dispatcher \<Rightarrow> handler_result \<Rightarrow> bool" where
  "handled s res \<longleftrightarrow> store_step (id_db s) (id_db (snd res)) \<and> links_ok (snd res) \<and> no_exception (fst res) \<and>
     (id_state s \<noteq> NonAuthenticated \<longrightarrow> id_state (snd res) \<noteq> NonAuthenticated)"

lemma handled_to:
  "store_step (id_db s) (id_db s') \<Longrightarrow> links_ok s' \<Longrightarrow>
   (id_state s \<noteq> NonAuthenticated \<longrightarrow> id_state s' \<noteq> NonAuthenticated) \<Longrightarrow> handled s (answer r s')"
  by (simp add: handled_def answer_def)

lemma handled_same [simp]: "imap_inv s \<Longrightarrow> handled s (answer r s)"
  by (simp add: handled_def answer_def imap_inv_def store_step_refl)

lemma handled_db: "imap_inv s \<Longrightarrow> store_step (id_db s) d \<Longrightarrow> handled s (answer r (s\<lparr>id_db := d\<rparr>))"
  by (simp add: handled_def answer_def imap_inv_def links_ok_def)

lemma handled_no_mailbox [simp]: "imap_inv s \<Longrightarrow> handled s (no_mailbox cmd s)"
  by (simp add: no_mailbox_def)

lemma handled_value: "v \<noteq> None \<Longrightarrow> (\<And>x. v = Some x \<Longrightarrow> handled s (f x)) \<Longrightarrow> handled s (with_value v s' f)"
  by (auto simp: with_value_def)

lemma handled_hang: "imap_inv s \<Longrightarrow> handled s (None, s)"
  by (simp add: handled_def imap_inv_def store_step_refl)

text \<open>Rows that were read have their identifiers.\<close>

lemma ids_ok_some: "ids_ok n (map f rows) \<Longrightarrow> r \<in> set rows \<Longrightarrow> f r \<noteq> None"
  by (fastforce simp: ids_ok_def split: option.splits)

lemma folder_name_id: "db_inv d \<Longrightarrow> FolderDAL_findByName engine d uid name = Some f \<Longrightarrow> f_id f \<noteq> None"
  unfolding FolderDAL_findByName_def
  by (drule read_one_SomeD) (auto simp: inv_defs dest: ids_ok_some)

lemma user_name_id: "db_inv d \<Longrightarrow> UserDAL_findByUsername engine d name = Some u \<Longrightarrow> u_id u \<noteq> None"
  unfolding UserDAL_findByUsername_def
  by (drule read_one_SomeD) (auto simp: inv_defs row_no_avatar_def dest: ids_ok_some)

lemma message_row_id: "db_inv d \<Longrightarrow> m \<in> set (db_messages d) \<Longrightarrow> m_id m \<noteq> None"
  by (auto simp: inv_defs dest: ids_ok_some)

lemma find_by_folder_rows: "m \<in> set (find_by_folder engine d fid) \<Longrightarrow> m \<in> set (db_messages d)"
  unfolding find_by_folder_def MessageDAL_findByFolder_def
  by (auto simp: limit_offset_def folder_rows_def Let_def split: if_splits
      dest!: subsetD [OF read_many_subset] in_set_takeD in_set_dropD)

lemma find_by_folder_id: "db_inv d \<Longrightarrow> m \<in> set (find_by_folder engine d fid) \<Longrightarrow> m_id m \<noteq> None"
  using find_by_folder_rows message_row_id by blast

lemma find_uid_id: "db_inv d \<Longrightarrow> MessageDAL_findByUID engine d fid uid = Some m \<Longrightarrow> m_id m \<noteq> None"
  unfolding MessageDAL_findByUID_def by (drule read_one_SomeD) (auto dest: message_row_id)

section \<open>Session and mailbox commands\<close>

lemma login_handled: "imap_inv s \<Longrightarrow> handled s (Imap_HandleLogin env cmd s)"
  unfolding Imap_HandleLogin_def Let_def
  by (auto split: list.split sum.split option.split intro!: handled_value handled_to
      simp: imap_inv_def links_ok_def store_step_refl dest: user_name_id)

lemma plain_handled:
  assumes "imap_inv s"
  shows "handled s (Imap_HandleLogout cmd s)" "handled s (Imap_HandleCapability cmd s)"
    "handled s (Imap_HandleNoop cmd s)" "handled s (Imap_HandleStartTLS cmd s)" "handled s (Imap_HandleCheck cmd s)"
  using assms
  by (simp_all add: Imap_HandleLogout_def Imap_HandleCapability_def Imap_HandleNoop_def Imap_HandleStartTLS_def Imap_HandleCheck_def)

lemma user_known: "imap_inv s \<Longrightarrow> id_state s \<noteq> NonAuthenticated \<Longrightarrow> id_user_id s \<noteq> None"
  by (simp add: imap_inv_def links_ok_def)

lemma mailbox_known: "imap_inv s \<Longrightarrow> id_state s = Selected \<Longrightarrow> mb_id (id_mailbox s) \<noteq> None"
  by (simp add: imap_inv_def links_ok_def)

lemma imap_inv_db: "imap_inv s \<Longrightarrow> db_inv (id_db s)"
  by (simp add: imap_inv_def)

lemma select_handled:
  assumes "imap_inv s" "id_state s \<noteq> NonAuthenticated"
  shows "handled s (Imap_HandleSelect env cmd s)"
proof -
  have "store_step (id_db s) (snd (clearRecentByFolder (ie_engine env) (id_db s) fid))" for fid
    by (rule folder_call_step [OF imap_inv_db [OF assms(1)]])
  then show ?thesis
    unfolding Imap_HandleSelect_def Let_def
    using assms user_known [OF assms] folder_name_id [OF imap_inv_db [OF assms(1)]]
    by (auto split: list.split option.split intro!: handled_value handled_to simp: links_ok_def)
qed

lemma list_handled:
  assumes "imap_inv s" "id_state s \<noteq> NonAuthenticated"
  shows "handled s (Imap_HandleList env cmd s)" "handled s (Imap_HandleLsub env cmd s)"
    "handled s (Imap_HandleStatus env cmd s)"
  unfolding Imap_HandleList_def Imap_HandleLsub_def Imap_HandleStatus_def Let_def
  using assms user_known [OF assms] folder_name_id [OF imap_inv_db [OF assms(1)]]
  by (auto split: list.split option.split intro!: handled_value)

lemma create_in_handled: "imap_inv s \<Longrightarrow> handled s (create_in env cmd s uid parent name)"
  using folder_call_step(1) [OF imap_inv_db, of s "ie_engine env" uid parent name False]
  by (auto simp: create_in_def new_folder_def split: prod.split sum.split intro: handled_db)

lemma create_handled:
  assumes "imap_inv s" "id_state s \<noteq> NonAuthenticated"
  shows "handled s (Imap_HandleCreate env cmd s)"
  unfolding Imap_HandleCreate_def Let_def
  using assms user_known [OF assms]
  by (auto split: list.split option.split sum.split intro!: handled_value create_in_handled)

text \<open>A repository call whose result only chooses the reply.\<close>

lemma call_handled:
  assumes "imap_inv s" "store_step (id_db s) (snd c)"
  shows "handled s (case c of (Inr x, d) \<Rightarrow> answer (f x) (s\<lparr>id_db := d\<rparr>) | (Inl e, d) \<Rightarrow> answer (g e) (s\<lparr>id_db := d\<rparr>))"
  using assms by (auto split: prod.split sum.split intro: handled_db)

lemma delete_rename_handled:
  assumes "imap_inv s" "id_state s \<noteq> NonAuthenticated"
  shows "handled s (Imap_HandleDelete env cmd s)" "handled s (Imap_HandleRename env cmd s)"
  unfolding Imap_HandleDelete_def Imap_HandleRename_def
  using assms user_known [OF assms] folder_name_id [OF imap_inv_db [OF assms(1)]]
    folder_call_step(2,3) [OF imap_inv_db [OF assms(1)]]
  by (auto split: list.split option.split intro!: handled_value call_handled)

lemma subscription_handled:
  assumes "imap_inv s" "id_state s \<noteq> NonAuthenticated"
  shows "handled s (change_subscription b word env cmd s)"
  unfolding change_subscription_def
  using assms user_known [OF assms] folder_call_step(6) [OF imap_inv_db [OF assms(1)]]
  by (auto split: list.split option.split intro!: handled_value call_handled)

lemma close_handled:
  assumes "imap_inv s"
  shows "handled s (Imap_HandleClose env cmd s)"
proof (cases "id_state s = Selected")
  case True
  obtain fid where fid: "mb_id (id_mailbox s) = Some fid" using mailbox_known [OF assms True] by auto
  obtain r d where e: "expunge (ie_engine env) (id_db s) fid = (r, d)" by fastforce
  have "store_step (id_db s) d"
    using expunge_locked_step [OF imap_inv_db [OF assms]] e by (metis expunge_def snd_conv)
  then show ?thesis
    using True fid e assms
    by (cases r) (auto simp: Imap_HandleClose_def with_value_def imap_inv_def links_ok_def intro!: handled_to)
qed (use assms in \<open>simp add: Imap_HandleClose_def\<close>)

section \<open>Message commands\<close>

lemma fetch_reply_caught: "no_exception (Some (fetch_reply tag done_msg r))"
  by (cases "(tag, done_msg, r)" rule: fetch_reply.cases) auto

lemma caught_handled: "imap_inv s \<Longrightarrow> handled s (map_option (\<lambda>x. fetch_reply tag done_msg (f x)) r, s)"
  by (cases r) (simp_all add: handled_def imap_inv_def store_step_refl fetch_reply_caught)

lemma fetch_handled:
  assumes "imap_inv s"
  shows "handled s (Imap_HandleFetch env cmd s)" "handled s (Imap_HandleUidFetch env cmd s)"
  unfolding Imap_HandleFetch_def Imap_HandleUidFetch_def
  using assms by (simp_all add: caught_handled [where f = "\<lambda>x. x"] caught_handled)

lemma store_each_step: "db_inv d \<Longrightarrow> store_step d (snd (store_each engine lookup silent render flags ks d))"
proof (induction ks arbitrary: d)
  case (Cons p ks)
  obtain n k where p: "p = (n, k)" by (cases p)
  have step: "store_step d (snd (setFlags engine d i flags))" for i by (rule setFlags_step [OF Cons.prems])
  have rest: "store_step d (snd (store_each engine lookup silent render flags ks (snd (setFlags engine d i flags))))" for i
    using step [of i] Cons.IH [of "snd (setFlags engine d i flags)"] store_step_trans [OF Cons.prems step]
    by (auto simp: store_step_def)
  show ?case
    using Cons p rest store_step_refl [OF Cons.prems] by (auto simp: Let_def split_beta split: option.split)
qed (simp add: store_step_refl)

lemma store_handled:
  assumes "imap_inv s"
  shows "handled s (Imap_HandleStore env cmd s)" "handled s (Imap_HandleUidStore env cmd s)"
proof -
  have loop: "handled s (case store_each (ie_engine env) lookup silent render flags ks (id_db s) of
      (Inl e, d) \<Rightarrow> answer (f e) (s\<lparr>id_db := d\<rparr>) | (Inr r, d) \<Rightarrow> answer (g r) (s\<lparr>id_db := d\<rparr>))"
    for lookup silent render flags ks f g
    using store_each_step [OF imap_inv_db [OF assms], of "ie_engine env" lookup silent render flags ks] assms
    by (auto split: prod.split sum.split intro: handled_db)
  show "handled s (Imap_HandleStore env cmd s)" "handled s (Imap_HandleUidStore env cmd s)"
    unfolding Imap_HandleStore_def Imap_HandleUidStore_def Let_def
    using assms by (auto split: list.split option.split sum.split intro!: loop handled_hang)
qed

lemma copy_each_step: "db_inv d \<Longrightarrow> store_step d (snd (copy_each engine lookup dest ks d))"
proof (induction ks arbitrary: d)
  case (Cons k ks)
  have step: "store_step d (snd (copy_message engine d i fid))" for i fid by (rule move_copy_step [OF Cons.prems])
  have "store_step d (snd (copy_each engine lookup dest ks (snd (copy_message engine d i fid))))" for i fid
    using step [of i fid] Cons.IH [of "snd (copy_message engine d i fid)"] store_step_trans [OF Cons.prems step]
    by (auto simp: store_step_def)
  then show ?case using Cons store_step_refl [OF Cons.prems] by (auto split: option.split)
qed (simp add: store_step_refl)

lemma copy_reply_handled:
  "imap_inv s \<Longrightarrow> store_step (id_db s) (snd r) \<Longrightarrow> handled s (copy_reply cmd done_msg s r)"
  by (auto simp: copy_reply_def split: prod.split sum.split intro: handled_db)

lemma copy_handled:
  assumes "imap_inv s"
  shows "handled s (Imap_HandleCopy env cmd s)" "handled s (Imap_HandleUidCopy env cmd s)"
proof -
  have user: "id_state s = Selected \<Longrightarrow> id_user_id s \<noteq> None" using user_known [OF assms] by simp
  note loop = copy_each_step [OF imap_inv_db [OF assms]] and same = store_step_refl [OF imap_inv_db [OF assms]]
  show "handled s (Imap_HandleCopy env cmd s)" "handled s (Imap_HandleUidCopy env cmd s)"
    unfolding Imap_HandleCopy_def Imap_HandleUidCopy_def Let_def
    using assms user loop same
    by (auto split: list.split option.split sum.split intro!: copy_reply_handled handled_hang handled_value)
qed

lemma expunge_each_step:
  "db_inv d \<Longrightarrow> store_step d (snd (expunge_each engine ps d)) \<and>
     ((\<forall>p \<in> set ps. m_id (fst p) \<noteq> None) \<longrightarrow> (\<exists>r. fst (expunge_each engine ps d) = Inr r))"
proof (induction ps arbitrary: d)
  case (Cons p ps)
  obtain m n where p: "p = (m, n)" by (cases p)
  show ?case
  proof (cases "m_id m")
    case None
    then show ?thesis using p store_step_refl [OF Cons.prems] by simp
  next
    case (Some i)
    obtain r d1 where h: "hardDelete engine d i = (r, d1)" by fastforce
    have step: "store_step d d1" using hardDelete_step [OF Cons.prems, of engine i] h by simp
    then show ?thesis
      using Cons.IH [of d1] store_step_trans [OF Cons.prems step] p Some h
      by (auto simp: Let_def store_step_def)
  qed
qed (simp add: store_step_refl)

lemma expunged_rows: "p \<in> set (expunged msgs) \<Longrightarrow> fst p \<in> set msgs"
  unfolding expunged_def by (cases p) (auto simp del: upt_Suc dest: set_zip_leftD)

lemma expunge_handled:
  assumes "imap_inv s"
  shows "handled s (Imap_HandleExpunge env cmd s)"
proof (cases "id_state s = Selected \<and> ic_args cmd = []")
  case True
  obtain fid where fid: "mb_id (id_mailbox s) = Some fid" using mailbox_known [OF assms] True by auto
  let ?ps = "expunged (find_by_folder (ie_engine env) (id_db s) fid)"
  have ids: "\<forall>p \<in> set ?ps. m_id (fst p) \<noteq> None"
    using expunged_rows find_by_folder_id [OF imap_inv_db [OF assms]] by blast
  obtain r d where e: "expunge_each (ie_engine env) ?ps (id_db s) = (Inr r, d)" "store_step (id_db s) d"
    using expunge_each_step [OF imap_inv_db [OF assms], of "ie_engine env" ?ps] ids by (metis prod.collapse)
  then show ?thesis using True fid assms by (simp add: Imap_HandleExpunge_def with_value_def handled_db)
qed (use assms in \<open>auto simp: Imap_HandleExpunge_def\<close>)

section \<open>Dispatch\<close>

lemma dispatch_handled:
  assumes "imap_inv s" "RequiresAuth (ic_type cmd) \<Longrightarrow> id_state s \<noteq> NonAuthenticated"
  shows "handled s (Imap_Dispatch env cmd s)"
  using assms
  by (cases "ic_type cmd") (simp_all add: Imap_Dispatch_def login_handled plain_handled select_handled list_handled
      fetch_handled store_handled create_handled delete_rename_handled copy_handled expunge_handled
      Imap_HandleSubscribe_def Imap_HandleUnsubscribe_def subscription_handled close_handled)

lemma open_command_keeps_db:
  "\<not> RequiresAuth (ic_type cmd) \<Longrightarrow> id_db (snd (Imap_Dispatch env cmd s)) = id_db s"
  by (cases "ic_type cmd") (auto simp: Imap_Dispatch_def Imap_HandleLogin_def Imap_HandleLogout_def Imap_HandleCapability_def
      Imap_HandleNoop_def Imap_HandleStartTLS_def answer_def with_value_def Let_def split: list.split sum.split option.split)

text \<open>A command behind the gate of \<^verbatim>\<open>ImapSession::HandleCommand\<close>, as a request on the dispatcher.\<close>

definition gated_command :: "imap_env \<Rightarrow> imap_command \<Rightarrow> imap_dispatcher \<Rightarrow> imap_dispatcher" where
  "gated_command env cmd s =
     (if RequiresAuth (ic_type cmd) \<and> id_state s = NonAuthenticated then s else snd (Imap_Dispatch env cmd s))"

lemma gated_command_step:
  assumes "imap_inv s"
  shows "imap_inv (gated_command env cmd s) \<and> uid_extends (id_db s) (id_db (gated_command env cmd s))"
  using assms dispatch_handled [OF assms, of cmd env]
  by (auto simp: gated_command_def handled_def imap_inv_def store_step_def)

interpretation imap: guarded_system "gated_command env" imap_inv "\<lambda>s t. uid_extends (id_db s) (id_db t)"
  using gated_command_step uid_extends_trans
  by unfold_locales (auto simp: imap_inv_def)

section \<open>The session\<close>

text \<open>The dispatcher of a session only changes by its commands and by other clients.\<close>

lemma step_disp:
  assumes "imap_step env s e s'"
  shows "is_disp s' = is_disp s \<or>
    (\<exists>cmd. e = Task_Done \<and> is_task s = Some cmd \<and> is_disp s' = snd (Imap_Dispatch env cmd (is_disp s))) \<or>
    (\<exists>calls pwhash. e = Other_Client calls \<and> s' = other_client env pwhash calls s)"
  using assms
proof (cases rule: imap_step.cases)
  case (task cmd)
  then show ?thesis
    by (auto simp: task_done_def finish_command_def ReadCommand_def WriteResponse_def split: prod.splits)
qed (auto simp: HandleCommand_def ReadCommand_def WriteResponse_def close_socket_def idle_timeout_def write_done_def
      UpgradeToTLS_def handshake_done_def Let_def split: option.splits if_splits)

text \<open>A task is only outstanding for a command that passed the gate.\<close>

definition gate_passed :: "imap_session \<Rightarrow> bool" where
  "gate_passed s \<longleftrightarrow> (\<forall>cmd. is_task s = Some cmd \<longrightarrow> RequiresAuth (ic_type cmd) \<longrightarrow> id_state (is_disp s) \<noteq> NonAuthenticated)"

lemma step_task:
  assumes "imap_step env s e s'" "is_task s' = Some cmd"
  shows "is_task s = Some cmd \<or> (RequiresAuth (ic_type cmd) \<longrightarrow> id_state (is_disp s') \<noteq> NonAuthenticated)"
  using assms
proof (cases rule: imap_step.cases)
  case (line_read line)
  then show ?thesis using assms(2)
    by (auto simp: HandleCommand_def ReadCommand_def WriteResponse_def split: option.splits if_splits)
next
  case (task c)
  then show ?thesis using assms(2)
    by (auto simp: task_done_def finish_command_def ReadCommand_def WriteResponse_def split: prod.splits if_splits)
qed (auto simp: ReadCommand_def WriteResponse_def close_socket_def idle_timeout_def write_done_def other_client_def
      UpgradeToTLS_def handshake_done_def Let_def split: if_splits)

definition session_inv :: "db \<Rightarrow> imap_session \<Rightarrow> bool" where
  "session_inv d s \<longleftrightarrow> imap_inv (is_disp s) \<and> uid_extends d (id_db (is_disp s)) \<and> gate_passed s"

lemma session_inv_start: "db_inv d \<Longrightarrow> session_inv d (Start d)"
  by (simp add: session_inv_def Start_def SendBanner_def ReadCommand_def WriteResponse_def new_imap_session_def
      ImapCommandDispatcher_def imap_inv_def links_ok_def gate_passed_def)

lemma other_client_inv:
  assumes "imap_inv (is_disp s)"
  shows "imap_inv (is_disp (other_client env pwhash calls s)) \<and>
    uid_extends (id_db (is_disp s)) (id_db (is_disp (other_client env pwhash calls s)))"
  using assms repo.run_inv [of "id_db (is_disp s)" pwhash "ie_engine env" calls]
    repo.run_rel [of "id_db (is_disp s)" pwhash "ie_engine env" calls]
  by (simp add: other_client_def imap_inv_def links_ok_def)

lemma task_handled:
  assumes "imap_inv (is_disp s)" "gate_passed s" "is_task s = Some cmd"
  shows "handled (is_disp s) (Imap_Dispatch env cmd (is_disp s))"
  using assms(2,3) by (intro dispatch_handled [OF assms(1)]) (simp add: gate_passed_def)

lemma session_inv_step:
  assumes "imap_step env s e s'" "session_inv d s" "db_inv d"
  shows "session_inv d s'"
proof -
  have inv: "imap_inv (is_disp s)" and ext: "uid_extends d (id_db (is_disp s))" and gate: "gate_passed s"
    using assms(2) by (auto simp: session_inv_def)
  have key: "imap_inv (is_disp s') \<and> uid_extends (id_db (is_disp s)) (id_db (is_disp s')) \<and>
      (id_state (is_disp s) \<noteq> NonAuthenticated \<longrightarrow> id_state (is_disp s') \<noteq> NonAuthenticated)"
    using step_disp [OF assms(1)]
  proof (elim disjE exE conjE)
    fix cmd assume t: "is_task s = Some cmd" "is_disp s' = snd (Imap_Dispatch env cmd (is_disp s))"
    then show ?thesis using task_handled [OF inv gate t(1), of env] by (simp add: handled_def imap_inv_def store_step_def)
  next
    fix calls pwhash assume "s' = other_client env pwhash calls s"
    then show ?thesis using other_client_inv [OF inv] by (simp add: other_client_def)
  qed (simp add: inv)
  moreover have "gate_passed s'"
    using step_task [OF assms(1)] gate key by (auto simp: gate_passed_def)
  moreover have "uid_extends d (id_db (is_disp s'))"
    using uid_extends_trans [OF ext _ assms(3)] key imap_inv_db by blast
  ultimately show ?thesis by (simp add: session_inv_def)
qed

lemma reach_inv: "imap_reach env d s \<Longrightarrow> db_inv d \<Longrightarrow> session_inv d s"
  by (induction rule: imap_reach.induct) (auto intro: session_inv_start session_inv_step)

section \<open>Operations that exclude each other\<close>

text \<open>
  While the reply to STARTTLS is on its way and during the key exchange nothing else is
  outstanding: no read, no task, and during the exchange no write either.
\<close>

definition traffic_inv :: "imap_session \<Rightarrow> bool" where
  "traffic_inv s \<longleftrightarrow>
     (is_writing s \<longleftrightarrow> is_queue s \<noteq> []) \<and>
     (is_reading s \<longrightarrow> is_task s = None) \<and>
     (is_task s \<noteq> None \<or> is_reading s \<longrightarrow> \<not> is_starttls_pending s \<and> \<not> is_handshaking s) \<and>
     (is_starttls_pending s \<longrightarrow> \<not> is_handshaking s \<and> \<not> is_secure s) \<and>
     (is_handshaking s \<longrightarrow> is_queue s = [] \<and> \<not> is_secure s)"

lemma traffic_inv_start: "traffic_inv (Start d)"
  by (simp add: traffic_inv_def Start_def SendBanner_def ReadCommand_def WriteResponse_def new_imap_session_def)

lemma finish_traffic:
  assumes "traffic_inv s" "is_task s = Some cmd"
  shows "traffic_inv (finish_command cmd r (s\<lparr>is_disp := disp, is_task := None\<rparr>))"
proof -
  have "\<not> is_starttls_pending s" "\<not> is_handshaking s" "\<not> is_reading s" using assms by (auto simp: traffic_inv_def)
  then show ?thesis
    using assms(1)
    by (cases "ic_type cmd = StartTLS"; cases "is_secure s"; cases "ic_type cmd = Logout")
      (simp_all add: traffic_inv_def finish_command_def ReadCommand_def WriteResponse_def)
qed

lemma traffic_inv_step:
  assumes "imap_step env s e s'" "traffic_inv s"
  shows "traffic_inv s'"
  using assms
proof (cases rule: imap_step.cases)
  case (line_read line)
  then show ?thesis using assms(2)
    by (auto simp: traffic_inv_def HandleCommand_def ReadCommand_def WriteResponse_def split: option.splits if_splits)
next
  case (task cmd)
  then show ?thesis using finish_traffic [OF assms(2)] by (auto simp: task_done_def split: prod.splits)
next
  case write_ok
  then show ?thesis using assms(2)
    by (auto simp: traffic_inv_def write_done_def UpgradeToTLS_def close_socket_def Let_def)
qed (auto simp: traffic_inv_def ReadCommand_def WriteResponse_def close_socket_def idle_timeout_def handshake_done_def
      other_client_def)

lemma reach_traffic: "imap_reach env d s \<Longrightarrow> traffic_inv s"
  by (induction rule: imap_reach.induct) (auto intro: traffic_inv_start traffic_inv_step)

text \<open>The way from an idle session to the key exchange, whatever the arguments of STARTTLS are.\<close>

lemma starttls_steps:
  assumes "ImapParse line = Some cmd" "ic_type cmd = StartTLS"
    and "is_reading s" "is_open s" "\<not> is_secure s" "is_queue s = []" "\<not> is_closing s"
  shows "\<exists>s1 s2 s3. imap_step env s (Line_Read line) s1 \<and> imap_step env s1 Task_Done s2 \<and>
    imap_step env s2 Write_Done s3 \<and> is_handshaking s3 \<and>
    is_sent s3 = is_sent s @ [(False, if ic_args cmd \<noteq> [] then Imap_Bad (ic_tag cmd) ''STARTTLS takes no arguments''
      else ic_tag cmd @ '' OK Begin TLS negotiation now'' @ CRLF)]"
proof (intro exI conjI)
  let ?s1 = "s\<lparr>is_reading := False, is_task := Some cmd\<rparr>"
  let ?r = "if ic_args cmd \<noteq> [] then Imap_Bad (ic_tag cmd) ''STARTTLS takes no arguments''
      else ic_tag cmd @ '' OK Begin TLS negotiation now'' @ CRLF"
  let ?s2 = "WriteResponse ?r (?s1\<lparr>is_task := None, is_starttls_pending := True\<rparr>)"
  show "imap_step env s (Line_Read line) ?s1"
    using assms by (intro imap_step.line_read) (auto simp: HandleCommand_def)
  have "Imap_Dispatch env cmd (is_disp s) = (Some (Inr ?r), is_disp s)"
    using assms(2) by (simp add: Imap_Dispatch_def Imap_HandleStartTLS_def answer_def)
  then show "imap_step env ?s1 Task_Done ?s2"
    using assms by (intro imap_step.task) (auto simp: task_done_def finish_command_def)
  show "imap_step env ?s2 Write_Done (write_done ?s2)"
    using assms(4) by (intro imap_step.write_ok) (auto simp: WriteResponse_def)
  show "is_handshaking (write_done ?s2)" "is_sent (write_done ?s2) = is_sent s @ [(False, ?r)]"
    using assms by (auto simp: write_done_def WriteResponse_def UpgradeToTLS_def Let_def)
qed

section \<open>Properties\<close>

text \<open>One session alone, with repository calls of other clients between its steps.\<close>

lemma imap_session_integrity:
  assumes "imap_reach env d s" "db_inv d"
  shows "db_inv (id_db (is_disp s)) \<and> uid_extends d (id_db (is_disp s))"
  using reach_inv [OF assms] by (simp add: session_inv_def imap_inv_def)

lemma open_step_keeps_db:
  assumes inv: "imap_inv (is_disp s)" and gate: "gate_passed s" and step: "imap_step env s e s'"
    and closed: "id_state (is_disp s') = NonAuthenticated" and own: "\<forall>calls. e \<noteq> Other_Client calls"
  shows "id_db (is_disp s') = id_db (is_disp s)"
  using step_disp [OF step]
proof (elim disjE exE conjE)
  fix cmd assume t: "is_task s = Some cmd" "is_disp s' = snd (Imap_Dispatch env cmd (is_disp s))"
  have "id_state (is_disp s) = NonAuthenticated"
    using task_handled [OF inv gate t(1), of env] t(2) closed by (auto simp: handled_def)
  then have "\<not> RequiresAuth (ic_type cmd)" using gate t(1) by (auto simp: gate_passed_def)
  then show ?thesis using open_command_keeps_db t(2) by simp
qed (use own in auto)

text \<open>
  During the key exchange of STARTTLS the session neither reads nor runs a command nor
  writes: no reply can mix with the keys, and no line sent in the clear is taken as a command of
  the protected session.
\<close>

lemma starttls_exclusive:
  assumes "imap_reach env d s" "is_handshaking s"
  shows "\<not> is_reading s \<and> is_task s = None \<and> \<not> is_writing s \<and> is_queue s = [] \<and> \<not> is_secure s"
  using reach_traffic [OF assms(1)] assms(2) by (auto simp: traffic_inv_def)

text \<open>
  STARTTLS with an argument is answered with BAD, and yet the session starts the key exchange
  as soon as that answer is written, so a client that gives up on TLS there loses the connection.
\<close>

lemma refused_starttls_still_upgrades:
  assumes "ImapParse line = Some cmd" "ic_type cmd = StartTLS" "ic_args cmd \<noteq> []"
    and "is_reading s" "is_open s" "\<not> is_secure s" "is_queue s = []" "\<not> is_closing s"
  shows "\<exists>s1 s2 s3. imap_step env s (Line_Read line) s1 \<and> imap_step env s1 Task_Done s2 \<and>
    imap_step env s2 Write_Done s3 \<and> is_handshaking s3 \<and>
    is_sent s3 = is_sent s @ [(False, Imap_Bad (ic_tag cmd) ''STARTTLS takes no arguments'')]"
  using starttls_steps [OF assms(1,2,4-8), of env] assms(3) by simp

section \<open>Examples\<close>

definition test_imap_env :: imap_env where
  "test_imap_env = \<lparr>ie_engine = healthy, ie_verify = (\<lambda>h p. h = p), ie_read_file = (\<lambda>_. None), ie_boundaries = ([], []), ie_room = 1000\<rparr>"

definition noop_session :: imap_session where
  "noop_session = (Start empty_db)\<lparr>is_reading := False, is_task := Some \<lparr>ic_tag = ''a'', ic_type = Noop, ic_args = []\<rparr>\<rparr>"

lemma parse_noop: "ImapParse ''a NOOP'' = Some \<lparr>ic_tag = ''a'', ic_type = Noop, ic_args = []\<rparr>"
proof -
  have "ParseArguments [] = Some []" by (simp add: ParseArguments_def ParseArgs.simps)
  moreover have "StringToCommandType ''NOOP'' = Noop" by code_simp
  moreover have "ToUpper ''NOOP'' \<noteq> ''UID''" by code_simp
  ultimately show ?thesis by (simp add: ImapParse_def find_char_def substr_def)
qed

lemma noop_line: "imap_step test_imap_env (Start empty_db) (Line_Read ''a NOOP'') noop_session"
  by (rule imap_step.line_read)
    (simp_all add: HandleCommand_def parse_noop noop_session_def Start_def SendBanner_def ReadCommand_def WriteResponse_def
      new_imap_session_def)

definition answered_session :: imap_session where
  "answered_session = finish_command \<lparr>ic_tag = ''a'', ic_type = Noop, ic_args = []\<rparr> (Imap_Ok ''a'' ''Noop completed'')
     (noop_session\<lparr>is_task := None\<rparr>)"

lemma noop_step: "imap_step test_imap_env noop_session Task_Done answered_session"
  by (rule imap_step.task)
    (auto simp: task_done_def Imap_Dispatch_def Imap_HandleNoop_def answer_def answered_session_def noop_session_def)

definition idle_session :: imap_session where
  "idle_session = write_done (Start empty_db)"

lemma idle_reach: "imap_reach test_imap_env empty_db idle_session"
proof (rule reach_step [OF reach_start])
  show "imap_step test_imap_env (Start empty_db) Write_Done idle_session"
    unfolding idle_session_def
    by (rule imap_step.write_ok) (simp_all add: Start_def SendBanner_def ReadCommand_def WriteResponse_def new_imap_session_def)
qed

lemma idle_state:
  "is_reading idle_session" "is_open idle_session" "\<not> is_secure idle_session" "is_queue idle_session = []"
  "\<not> is_closing idle_session" "is_sent idle_session = [(False, ''* OK IMAP Server Ready'' @ CRLF)]"
  by (simp_all add: idle_session_def write_done_def Start_def SendBanner_def ReadCommand_def WriteResponse_def
      new_imap_session_def Let_def)

lemma parse_starttls:
  "ImapParse ''a STARTTLS'' = Some \<lparr>ic_tag = ''a'', ic_type = StartTLS, ic_args = []\<rparr>"
  "ImapParse ''a STARTTLS x'' = Some \<lparr>ic_tag = ''a'', ic_type = StartTLS, ic_args = [''x'']\<rparr>"
proof -
  have "ParseArguments [] = Some []" by (simp add: ParseArguments_def ParseArgs.simps)
  moreover have "ParseArguments ''x'' = Some [''x'']"
    unfolding ParseArguments_def
    by (subst ParseArgs.simps) (simp add: Let_def SkipWhitespace_def ParseElement_def ParseAtom_def atom_end_def)
  moreover have "StringToCommandType ''STARTTLS'' = StartTLS" "ToUpper ''STARTTLS'' \<noteq> ''UID''" by code_simp+
  ultimately show "ImapParse ''a STARTTLS'' = Some \<lparr>ic_tag = ''a'', ic_type = StartTLS, ic_args = []\<rparr>"
    "ImapParse ''a STARTTLS x'' = Some \<lparr>ic_tag = ''a'', ic_type = StartTLS, ic_args = [''x'']\<rparr>"
    by (simp_all add: ImapParse_def find_char_def substr_def)
qed

lemma starttls_exclusive_example:
  "\<exists>s :: imap_session. is_handshaking s \<and> \<not> is_reading s \<and> is_task s = None \<and> \<not> is_writing s \<and> is_queue s = [] \<and> \<not> is_secure s"
proof -
  obtain s1 s2 s3 where st: "imap_step test_imap_env idle_session (Line_Read ''a STARTTLS'') s1"
    "imap_step test_imap_env s1 Task_Done s2" "imap_step test_imap_env s2 Write_Done s3" and h: "is_handshaking s3"
    using starttls_steps [OF parse_starttls(1) _ idle_state(1-5), of test_imap_env] by auto
  then have "imap_reach test_imap_env empty_db s3" using idle_reach by (blast intro: reach_step)
  from starttls_exclusive [OF this h] h show ?thesis by (intro exI [of _ s3]) simp
qed

lemma refused_starttls_still_upgrades_example:
  "\<exists>s1 s2 s3. imap_step test_imap_env idle_session (Line_Read ''a STARTTLS x'') s1 \<and>
    imap_step test_imap_env s1 Task_Done s2 \<and> imap_step test_imap_env s2 Write_Done s3 \<and> is_handshaking s3 \<and>
    is_sent s3 = [(False, ''* OK IMAP Server Ready'' @ CRLF), (False, Imap_Bad ''a'' ''STARTTLS takes no arguments'')]"
  using refused_starttls_still_upgrades [OF parse_starttls(2) _ _ idle_state(1-5), of test_imap_env]
  by (simp add: idle_state(6))

end
