(* ===== verification/Imap_Expunge.thy ===== *)
theory Imap_Expunge
  imports Imap_Laws
begin

text \<open>
  The answers to EXPUNGE (\<^verbatim>\<open>ImapCommandDispatcher::HandleExpunge\<close>) as a client reads them: each
  \<^verbatim>\<open>* n EXPUNGE\<close> takes the n-th message out of the list the client holds, and renumbers the rest.
\<close>

section \<open>The list of a client\<close>

definition drop_nth :: "nat \<Rightarrow> 'a list \<Rightarrow> 'a list" where
  "drop_nth n xs = take (n - 1) xs @ drop n xs"

definition expunge_line :: "nat \<Rightarrow> string" where
  "expunge_line n = Imap_Untagged (nat_to_string n @ '' EXPUNGE'')"

lemma fold_drop_append:
  assumes "sorted_wrt (>) ns" "\<forall>n \<in> set ns. 1 \<le> n \<and> n \<le> length xs"
  shows "fold drop_nth ns (xs @ ys) = fold drop_nth ns xs @ ys"
  using assms
proof (induction ns arbitrary: xs)
  case (Cons n ns)
  then have "drop_nth n (xs @ ys) = drop_nth n xs @ ys" "length (drop_nth n xs) = length xs - 1"
    by (auto simp: drop_nth_def)
  moreover have "\<forall>k \<in> set ns. 1 \<le> k \<and> k \<le> length xs - 1" using Cons.prems by fastforce
  ultimately show ?case using Cons by simp
qed simp

lemma zip_numbers_snoc: "zip (xs @ [x]) [1..<length (xs @ [x]) + 1] = zip xs [1..<length xs + 1] @ [(x, length xs + 1)]"
proof -
  have "[1..<length (xs @ [x]) + 1] = [1..<length xs + 1] @ [length xs + 1]" by simp
  then show ?thesis by (simp only:) (simp del: upt_Suc)
qed

lemma numbers_sorted:
  "sorted_wrt (>) (map snd (filter Q (rev (zip xs [1..<length xs + 1]))))"
proof (induction xs rule: rev_induct)
  case (snoc x xs)
  have "n < length xs + 1" if "n \<in> set (map snd (filter Q (rev (zip xs [1..<length xs + 1]))))" for n
    using that by (auto simp del: upt_Suc dest: set_zip_rightD)
  then show ?case using snoc unfolding zip_numbers_snoc by (auto simp del: upt_Suc)
qed simp

lemma fold_drop_filter:
  "fold drop_nth (map snd (filter (\<lambda>p. Q (fst p)) (rev (zip xs [1..<length xs + 1])))) xs = filter (\<lambda>x. \<not> Q x) xs"
proof (induction xs rule: rev_induct)
  case (snoc x xs)
  let ?ns = "map snd (filter (\<lambda>p. Q (fst p)) (rev (zip xs [1..<length xs + 1])))"
  have "\<forall>n \<in> set ?ns. 1 \<le> n \<and> n \<le> length xs" by (auto simp del: upt_Suc dest!: set_zip_rightD)
  from fold_drop_append [OF numbers_sorted this, of "[x]"] have "fold drop_nth ?ns (xs @ [x]) = filter (\<lambda>x. \<not> Q x) xs @ [x]"
    unfolding snoc .
  moreover have "drop_nth (length xs + 1) (xs @ [x]) = xs" by (simp add: drop_nth_def)
  ultimately show ?case using snoc unfolding zip_numbers_snoc by (simp del: upt_Suc)
qed simp

section \<open>The handler\<close>

text \<open>What one deletion does to the rows, whether it succeeds or fails.\<close>

lemma hardDelete_rows:
  assumes "hardDelete engine d i = (r, d')"
  shows "case r of Inl _ \<Rightarrow> d' = d | Inr _ \<Rightarrow> db_messages d' = filter (\<lambda>m. m_id m \<noteq> Some i) (db_messages d)"
  using assms
  by (auto simp: hardDelete_def MessageDAL_hardDelete_def run_write_def autocommit_def delete_messages_def
      split: option.splits sum.splits)

lemma expunge_each_reply:
  assumes "expunge_each engine ps d = (r, d')" "distinct (map (m_id \<circ> fst) ps)" "\<forall>p \<in> set ps. m_id (fst p) \<noteq> None"
    and "\<forall>p \<in> set ps. fst p \<in> set (db_messages d)"
  shows "r = Inr (concat (map expunge_line (map snd (filter (\<lambda>p. fst p \<notin> set (db_messages d')) ps)))) \<and>
    set (db_messages d') \<subseteq> set (db_messages d) \<and>
    (\<forall>m \<in> set (db_messages d). m_id m \<notin> set (map (m_id \<circ> fst) ps) \<longrightarrow> m \<in> set (db_messages d'))"
  using assms
proof (induction ps arbitrary: d r)
  case (Cons p ps)
  obtain msg n i where p: "p = (msg, n)" "m_id msg = Some i" using Cons.prems(3) by (cases p) auto
  obtain r1 d1 where h: "hardDelete engine d i = (r1, d1)" by fastforce
  obtain r2 where e: "expunge_each engine ps d1 = (r2, d')" using Cons.prems(1) p h by (cases "expunge_each engine ps d1") auto
  note rows = hardDelete_rows [OF h]
  have other: "m \<in> set (db_messages d) \<Longrightarrow> m_id m \<noteq> Some i \<Longrightarrow> m \<in> set (db_messages d1)" for m
    using rows by (cases r1) auto
  have "\<forall>q \<in> set ps. fst q \<in> set (db_messages d1)"
  proof
    fix q assume "q \<in> set ps"
    then have "m_id (fst q) \<in> m_id ` fst ` set ps" "fst q \<in> set (db_messages d)" using Cons.prems(4) by auto
    moreover have "Some i \<notin> m_id ` fst ` set ps" using Cons.prems(2) p by (simp add: image_comp)
    ultimately show "fst q \<in> set (db_messages d1)" by (metis other)
  qed
  from Cons.IH [OF e _ _ this] Cons.prems(2,3)
  have IH: "r2 = Inr (concat (map expunge_line (map snd (filter (\<lambda>p. fst p \<notin> set (db_messages d')) ps))))"
    "set (db_messages d') \<subseteq> set (db_messages d1)"
    "\<forall>m \<in> set (db_messages d1). m_id m \<notin> set (map (m_id \<circ> fst) ps) \<longrightarrow> m \<in> set (db_messages d')" by auto
  have gone: "msg \<in> set (db_messages d') \<longleftrightarrow> isl r1"
  proof (cases r1)
    case (Inl x)
    then show ?thesis using rows IH(3) Cons.prems(2,4) p by auto
  next
    case (Inr x)
    then show ?thesis using rows IH(2) p by auto
  qed
  have "set (db_messages d1) \<subseteq> set (db_messages d)" using rows by (cases r1) auto
  moreover have "r = Inr (concat (map expunge_line (map snd (filter (\<lambda>p. fst p \<notin> set (db_messages d')) (p # ps)))))"
    using Cons.prems(1) p h e IH(1) gone by (cases r1) (auto simp: expunge_line_def)
  ultimately show ?case using IH(2,3) other p by auto
qed simp

lemma view_rows:
  assumes "db_inv d"
  shows "set (find_by_folder engine d fid) \<subseteq> set (db_messages d)" "distinct (map m_id (find_by_folder engine d fid))"
proof -
  let ?rows = "folder_rows (\<lambda>m. True) d fid"
  have "distinct (map m_id (filter P (db_messages d)))" for P
    using assms by (simp add: inv_defs ids_ok_def distinct_map_filter)
  then have "distinct (map m_id ?rows)"
    unfolding folder_rows_def by (metis distinct_map distinct_sort set_sort)
  moreover have "set ?rows \<subseteq> set (db_messages d)" by (auto simp: folder_rows_def)
  ultimately show "set (find_by_folder engine d fid) \<subseteq> set (db_messages d)" "distinct (map m_id (find_by_folder engine d fid))"
    using read_many_take [of engine "(''MessageDAL::findByFolder'', [Bind_int fid, Bind_int 50, Bind_int 0])" d
        "take 50 ?rows"]
    by (auto simp: find_by_folder_def MessageDAL_findByFolder_def limit_offset_def take_map [symmetric]
        dest!: in_set_takeD)
qed

lemma expunged_messages: "set (map fst (expunged view)) = set (filter m_is_deleted view)"
proof -
  have "map fst (filter (\<lambda>p. m_is_deleted (fst p)) (zip view [1..<length view + 1])) = filter m_is_deleted view"
    using filter_map [of m_is_deleted fst "zip view [1..<length view + 1]"] by (simp add: comp_def del: upt_Suc)
  from arg_cong [OF this, of set] show ?thesis by (simp add: expunged_def del: upt_Suc)
qed

lemma expunged_distinct:
  assumes "distinct (map m_id view)"
  shows "distinct (map (m_id \<circ> fst) (expunged view))"
proof -
  have "map m_id (map fst (zip view [1..<length view + 1])) = map m_id view" by (simp del: upt_Suc)
  then have "distinct (map (m_id \<circ> fst) (zip view [1..<length view + 1]))" using assms by (metis list.map_comp)
  then show ?thesis by (simp add: expunged_def distinct_map_filter rev_map [symmetric] del: upt_Suc)
qed

text \<open>
  C37. The answers to EXPUNGE tell a client the truth, also when deletions fail: applied one after
  the other to the list of messages of the mailbox, they leave exactly the messages that are
  still in the database, and a message disappears only if it was in that list with the Deleted
  flag.
\<close>

theorem expunge_replies_exact:
  assumes "db_inv (id_db s)" "id_state s = Selected" "mb_id (id_mailbox s) = Some fid" "ic_args cmd = []"
  shows "\<exists>ns s'. Imap_HandleExpunge env cmd s =
      answer (concat (map expunge_line ns) @ Imap_Ok (ic_tag cmd) ''Expunge completed'') s' \<and>
    fold drop_nth ns (find_by_folder (ie_engine env) (id_db s) fid) =
      filter (\<lambda>m. m \<in> set (db_messages (id_db s'))) (find_by_folder (ie_engine env) (id_db s) fid) \<and>
    (\<forall>m \<in> set (db_messages (id_db s)) - set (db_messages (id_db s')).
       m \<in> set (find_by_folder (ie_engine env) (id_db s) fid) \<and> m_is_deleted m)"
proof -
  let ?view = "find_by_folder (ie_engine env) (id_db s) fid" and ?d = "id_db s"
  let ?ps = "expunged ?view"
  obtain r d' where e: "expunge_each (ie_engine env) ?ps ?d = (r, d')" by fastforce
  note fsts = expunged_messages [of ?view] and dist = expunged_distinct [OF view_rows(2) [OF assms(1)]]
  have rows: "\<forall>p \<in> set ?ps. fst p \<in> set (db_messages ?d)"
    using fsts view_rows(1) [OF assms(1)] by (fastforce simp: image_iff)
  have inj: "ids_ok (seq_messages ?d) (map m_id (db_messages ?d))" using assms(1) by (simp add: inv_defs)
  have ids: "\<forall>p \<in> set ?ps. m_id (fst p) \<noteq> None" using rows ids_ok_some [OF inj] by blast
  note reply = expunge_each_reply [OF e dist ids rows]
  have gone: "m \<in> set ?view \<and> m_is_deleted m" if "m \<in> set (db_messages ?d)" "m \<notin> set (db_messages d')" for m
  proof -
    have "m_id m \<in> set (map (m_id \<circ> fst) ?ps)" using reply that by blast
    then obtain p where "p \<in> set ?ps" "m_id (fst p) = m_id m" by auto
    then have "m = fst p" using ids_ok_inj [OF inj that(1)] rows by auto
    then have "m \<in> set (map fst ?ps)" using \<open>p \<in> set ?ps\<close> by simp
    then show ?thesis unfolding fsts by simp
  qed
  define ns where "ns = map snd (filter (\<lambda>p. fst p \<notin> set (db_messages d')) ?ps)"
  have "ns = map snd (filter (\<lambda>p. m_is_deleted (fst p) \<and> fst p \<notin> set (db_messages d')) (rev (zip ?view [1..<length ?view + 1])))"
    unfolding ns_def expunged_def by (simp add: rev_filter conj_commute del: upt_Suc)
  then have "fold drop_nth ns ?view = filter (\<lambda>m. \<not> (m_is_deleted m \<and> m \<notin> set (db_messages d'))) ?view"
    using fold_drop_filter [of "\<lambda>m. m_is_deleted m \<and> m \<notin> set (db_messages d')" ?view] by simp
  also have "\<dots> = filter (\<lambda>m. m \<in> set (db_messages d')) ?view"
    using gone view_rows(1) [OF assms(1), of "ie_engine env" fid] by (intro filter_cong) auto
  finally show ?thesis
    using reply e gone assms(2-4)
    by (intro exI [of _ ns] exI [of _ "s\<lparr>id_db := d'\<rparr>"]) (simp add: Imap_HandleExpunge_def with_value_def ns_def)
qed

section \<open>Example\<close>

definition expunge_calls :: "repo_call list" where
  "expunge_calls = first_calls @ [Deliver hello 0, MarkDeleted 1 True]"

definition expunge_state :: imap_dispatcher where
  "expunge_state = (let s = ImapCommandDispatcher (fold (exec_call Some healthy) expunge_calls empty_db) in
     s\<lparr>id_state := Selected, id_user_id := Some 1, id_mailbox := (id_mailbox s)\<lparr>mb_name := ''INBOX'', mb_id := Some 1\<rparr>\<rparr>)"

theorem expunge_replies_exact_witness:
  "\<exists>ns s'. Imap_HandleExpunge test_imap_env \<lparr>ic_tag = ''a'', ic_type = Expunge_cmd, ic_args = []\<rparr> expunge_state =
      answer (concat (map expunge_line ns) @ Imap_Ok ''a'' ''Expunge completed'') s' \<and>
    fold drop_nth ns (find_by_folder healthy (id_db expunge_state) 1) =
      filter (\<lambda>m. m \<in> set (db_messages (id_db s'))) (find_by_folder healthy (id_db expunge_state) 1)"
proof -
  have "db_inv (id_db expunge_state)"
    using repo.run_inv [OF empty_db_inv, of Some healthy expunge_calls]
    by (simp add: expunge_state_def Let_def ImapCommandDispatcher_def)
  from expunge_replies_exact [OF this, of 1 "\<lparr>ic_tag = ''a'', ic_type = Expunge_cmd, ic_args = []\<rparr>" test_imap_env]
  show ?thesis by (auto simp: expunge_state_def Let_def test_imap_env_def)
qed

end
