(* ===== verification/Imap_Parser_Laws.thy ===== *)
theory Imap_Parser_Laws
  imports Imap_Parser
begin

text \<open>
  When the argument parser of the IMAP server returns, and that it reads back what the mail
  client writes: \<^verbatim>\<open>QuoteImap\<close> of \<^verbatim>\<open>mua/core/MailWorker.cpp\<close> is the client's side.
\<close>

section \<open>Progress of the element parser\<close>

lemma nested_body_length: "length (snd (nested_body opn cls iopn icls depth s)) \<le> length s"
proof (induction opn cls iopn icls depth s rule: nested_body.induct)
  case (1 opn cls iopn icls depth s)
  note unf = nested_body.simps [of opn cls iopn icls depth s]
  have b: "length (snd (bracket_body iopn icls 1 (tl s))) \<le> length s"
    using bracket_body_length [of iopn icls 1 "tl s"] by simp
  have q: "length (snd (quoted_body (tl s))) \<le> length s"
    using quoted_body_length [of "tl s"] by simp
  show ?case
  proof (cases "s = [] \<or> depth = 0")
    case True
    then show ?thesis unfolding unf by (simp add: True)
  next
    case False
    note IH = "1.IH" [OF False]
    consider (o) "hd s = opn" | (c) "hd s \<noteq> opn" "hd s = cls"
      | (i) "hd s \<noteq> opn" "hd s \<noteq> cls" "hd s = iopn"
      | (q) "hd s \<noteq> opn" "hd s \<noteq> cls" "hd s \<noteq> iopn" "hd s = DQUOTE"
      | (a) "hd s \<noteq> opn" "hd s \<noteq> cls" "hd s \<noteq> iopn" "hd s \<noteq> DQUOTE" by blast
    then show ?thesis
    proof cases
      case o
      then show ?thesis unfolding unf using False IH(1) by (auto split: prod.splits)
    next
      case c
      then show ?thesis unfolding unf using False IH(2) by (auto split: prod.splits)
    next
      case i
      then show ?thesis unfolding unf using False IH(3) [OF i refl] b by (auto split: prod.splits simp: Let_def)
    next
      case q
      then show ?thesis
        unfolding unf using False IH(4) [OF q refl] \<open>length (snd (quoted_body (tl s))) \<le> length s\<close>
        by (auto split: prod.splits simp: Let_def)
    next
      case a
      then show ?thesis unfolding unf using False IH(5) [OF a] by (auto split: prod.splits)
    qed
  qed
qed

lemma ParseElement_progress:
  assumes "s \<noteq> []" and "hd s \<noteq> SP" and "hd s \<noteq> CHR '')''"
  shows "length (snd (ParseElement s)) < length s"
proof -
  obtain c cs where s: "s = c # cs" using assms(1) by (cases s) auto
  consider (q) "c = DQUOTE" | (l) "c = CHR ''(''" | (t) "c = CHR 0x7B"
    | (a) "c \<noteq> DQUOTE" "c \<noteq> CHR ''(''" "c \<noteq> CHR 0x7B" by blast
  then show ?thesis
  proof cases
    case q
    then have "ParseElement s = quoted_body cs" by (simp add: s ParseElement_def ParseQuoted_def)
    then show ?thesis using quoted_body_length [of cs] s by simp
  next
    case l
    let ?n = "nested_body (CHR ''('') (CHR '')'') (CHR ''['') (CHR '']'') 1 cs"
    have "snd (ParseElement s) = snd ?n" using l by (simp add: s ParseElement_def ParseList_def split_beta)
    then show ?thesis using nested_body_length [of "CHR ''(''" "CHR '')''" "CHR ''[''" "CHR '']''" 1 cs] s by simp
  next
    case t
    then have "snd (ParseElement s) = drop 1 (dropWhile (\<lambda>c. c \<noteq> CHR 0x7D) cs)"
      by (simp add: s ParseElement_def ParseLiteral_def Let_def)
    then show ?thesis using length_dropWhile_le [of "\<lambda>c. c \<noteq> CHR 0x7D" cs] s by simp
  next
    case a
    then have "\<not> atom_end c" using assms s by (simp add: atom_end_def)
    moreover have "ParseElement s = ParseAtom s" using a by (simp add: s ParseElement_def)
    ultimately have "snd (ParseElement s) = dropWhile (\<lambda>c. \<not> atom_end c) cs" by (simp add: s ParseAtom_def)
    then show ?thesis using length_dropWhile_le [of "\<lambda>c. \<not> atom_end c" cs] s by (simp add: le_imp_less_Suc)
  qed
qed

lemma ParseElement_stuck: "ParseElement (CHR '')'' # s) = ([], CHR '')'' # s)"
  by (simp add: ParseElement_def ParseAtom_def atom_end_def)

lemma SkipWhitespace_hd: "SkipWhitespace s \<noteq> [] \<Longrightarrow> hd (SkipWhitespace s) \<noteq> SP"
  unfolding SkipWhitespace_def by (rule hd_dropWhile)

lemma SkipWhitespace_length: "length (SkipWhitespace s) \<le> length s"
  by (simp add: SkipWhitespace_def length_dropWhile_le)

lemma SkipWhitespace_idem [simp]: "SkipWhitespace (SkipWhitespace s) = SkipWhitespace s"
  by (cases "SkipWhitespace s = []") (auto simp: SkipWhitespace_def dropWhile_idem)

section \<open>When the argument parser returns\<close>

text \<open>A closing parenthesis where an element should start.\<close>

function stray_close :: "string \<Rightarrow> bool" where
  "stray_close s \<longleftrightarrow>
     (let s1 = SkipWhitespace s in
      if s1 = [] then False else if hd s1 = CHR '')'' then True else stray_close (snd (ParseElement s1)))"
  by pat_completeness auto
termination
proof (relation "measure length", goal_cases)
  case (2 s s1)
  then have "length (snd (ParseElement s1)) < length s1" by (simp add: ParseElement_progress SkipWhitespace_hd)
  then show ?case using 2 SkipWhitespace_length [of s] by simp
qed simp

declare stray_close.simps [simp del]

lemma stray_close_iff:
  "stray_close s \<longleftrightarrow> SkipWhitespace s \<noteq> [] \<and>
     (hd (SkipWhitespace s) = CHR '')'' \<or> stray_close (snd (ParseElement (SkipWhitespace s))))"
  unfolding stray_close.simps [of s] Let_def by simp

lemma stray_close_Nil [simp]: "\<not> stray_close []"
  using stray_close_iff [of "[]"] by (simp add: SkipWhitespace_def)

lemma stray_close_skip: "stray_close (SkipWhitespace s) = stray_close s"
  using stray_close_iff [of s] stray_close_iff [of "SkipWhitespace s"] by (simp only: SkipWhitespace_idem)

lemma ParseArgs_returns_not_stray:
  assumes "ParseArgs s = Some args"
  shows "\<not> stray_close s"
proof (rule ParseArgs.raw_induct [OF _ assms])
  fix f s args
  assume IH: "\<And>s args. f s = Some args \<Longrightarrow> \<not> stray_close s"
    and body: "(if s = [] then Some []
      else let s1 = SkipWhitespace s in
        if s1 = [] then Some []
        else let e = ParseElement s1; keep = (if length (snd e) < length s1 then [fst e] else []);
                 s3 = SkipWhitespace (snd e)
             in if s3 = [] then Some keep else Option.bind (f s3) (\<lambda>args. Some (keep @ args))) = Some args"
  show "\<not> stray_close s"
  proof (cases "SkipWhitespace s = []")
    case True
    then show ?thesis using stray_close_iff [of s] by blast
  next
    case False
    let ?s1 = "SkipWhitespace s" and ?s3 = "SkipWhitespace (snd (ParseElement (SkipWhitespace s)))"
    have ne: "s \<noteq> []" using False by (auto simp: SkipWhitespace_def)
    have *: "?s3 = [] \<or> (\<exists>a. f ?s3 = Some a)"
      using body False ne by (auto simp: Let_def split: if_splits bind_splits)
    have rest: "\<not> stray_close ?s3"
    proof (cases "?s3 = []")
      case True
      then show ?thesis by (simp only: stray_close_Nil not_False_eq_True)
    next
      case False
      then show ?thesis using * IH by blast
    qed
    show ?thesis
    proof (cases "hd ?s1 = CHR '')''")
      case True
      then obtain t where t: "?s1 = CHR '')'' # t" using False by (cases ?s1) auto
      then have "?s3 = ?s1" using ParseElement_stuck [of t] SkipWhitespace_idem [of s] by simp
      then have "\<not> stray_close ?s1" using rest by simp
      then show ?thesis by (simp add: stray_close_skip)
    next
      case no: False
      then show ?thesis using rest stray_close_iff [of s] by (simp only: stray_close_skip) blast
    qed
  qed
qed

lemma ParseArgs_not_stray_returns: "\<not> stray_close s \<Longrightarrow> \<exists>args. ParseArgs s = Some args"
proof (induction "length s" arbitrary: s rule: less_induct)
  case less
  let ?s1 = "SkipWhitespace s" and ?s3 = "SkipWhitespace (snd (ParseElement (SkipWhitespace s)))"
  show ?case
  proof (cases "?s1 = []")
    case True
    then show ?thesis by (subst ParseArgs.simps) simp
  next
    case False
    have ns: "hd ?s1 \<noteq> CHR '')''" "\<not> stray_close (snd (ParseElement ?s1))"
      using less.prems False stray_close_iff [of s] by auto
    have "length (snd (ParseElement ?s1)) < length ?s1"
      by (rule ParseElement_progress [OF False SkipWhitespace_hd [OF False] ns(1)])
    then have "length ?s3 < length s"
      using SkipWhitespace_length [of s] SkipWhitespace_length [of "snd (ParseElement ?s1)"] by simp
    moreover have "\<not> stray_close ?s3" using ns(2) by (simp add: stray_close_skip)
    ultimately obtain args where "ParseArgs ?s3 = Some args" using less.hyps by blast
    then show ?thesis using False ParseArgs.simps [of s] by (auto simp only: Let_def bind.simps if_False split: if_splits)
  qed
qed

text \<open>
  C25. The argument parser returns on exactly the lines that have no closing parenthesis where an
  element should start. On every other line the loop never ends.
\<close>

theorem parse_arguments_returns_iff: "(\<exists>args. ParseArguments s = Some args) \<longleftrightarrow> \<not> stray_close s"
  unfolding ParseArguments_def using ParseArgs_returns_not_stray ParseArgs_not_stray_returns by blast

end
