(* ===== verification/Mua_Text.thy ===== *)
theory Mua_Text
  imports Imap_Parser_Laws Mime_Parser Imap_Utils
begin

text \<open>
  The text functions of the mail client, \<^verbatim>\<open>mua/core/MailWorker.cpp\<close> (its anonymous namespace) and
  the dot-stuffing of \<^verbatim>\<open>MailWorker::handleSendMail\<close>: what the client writes to the servers and how
  it reads their replies. The lemmas relate both sides: the IMAP server's parser reads back what
  the client quotes.
\<close>

section \<open>Writing commands\<close>

fun escape_imap :: "string \<Rightarrow> string" where
  "escape_imap [] = []"
| "escape_imap (c # cs) = (if c = BSLASH \<or> c = DQUOTE then BSLASH # c # escape_imap cs else c # escape_imap cs)"

definition QuoteImap :: "string \<Rightarrow> string" where
  "QuoteImap value = DQUOTE # escape_imap value @ [DQUOTE]"

text \<open>\<^verbatim>\<open>nextTag\<close> with the counter it leaves; \<^verbatim>\<open>m_tagCounter\<close> is a \<^verbatim>\<open>uint32_t\<close>.\<close>

definition nextTag :: "u32 \<Rightarrow> string \<times> u32" where
  "nextTag counter = (''A'' @ nat_to_string (unat (counter + 1)), counter + 1)"

definition login_line :: "string \<Rightarrow> string \<Rightarrow> string \<Rightarrow> string" where
  "login_line tag username password = tag @ '' LOGIN '' @ QuoteImap username @ '' '' @ QuoteImap password"

definition BuildSmtpPlainAuthPayload :: "string \<Rightarrow> string \<Rightarrow> string option" where
  "BuildSmtpPlainAuthPayload username password =
     (case EncodeBase64 ([0] @ map byte_of_char username @ [0] @ map byte_of_char password) of
        Inl _ \<Rightarrow> None
      | Inr encoded \<Rightarrow>
          (let out = filter (\<lambda>c. c \<noteq> LF) (filter (\<lambda>c. c \<noteq> CR) encoded)
           in if out = [] then None else Some out))"

record send_mail_command =
  sm_sender :: string
  sm_to :: "string list"
  sm_cc :: "string list"
  sm_bcc :: "string list"
  sm_recipients :: "string list"
  sm_subject :: string
  sm_body :: string
  sm_htmlBody :: string
  sm_attachments :: "string list"

fun dedup_recipients :: "string list \<Rightarrow> string list \<Rightarrow> string list" where
  "dedup_recipients seen [] = []"
| "dedup_recipients seen (r # rs) =
     (if r = [] then dedup_recipients seen rs
      else if r \<in> set seen then dedup_recipients seen rs
      else r # dedup_recipients (r # seen) rs)"

definition CollectRecipients :: "send_mail_command \<Rightarrow> string list" where
  "CollectRecipients cmd = dedup_recipients [] (sm_to cmd @ sm_cc cmd @ sm_bcc cmd @ sm_recipients cmd)"

text \<open>The lines of the payload between DATA and the final dot.\<close>

definition stuff_line :: "string \<Rightarrow> string" where
  "stuff_line raw =
     (let l = pop_back_if CR raw in if l \<noteq> [] \<and> hd l = CHR ''.'' then CHR ''.'' # l else l)"

definition data_lines :: "string \<Rightarrow> string list" where
  "data_lines payload = map stuff_line (getlines LF payload)"

section \<open>Reading replies\<close>

definition HasSmtpCode :: "string \<Rightarrow> int \<Rightarrow> bool" where
  "HasSmtpCode response code \<longleftrightarrow> 3 \<le> length response \<and> take 3 response = int_to_string code"

definition digit_of :: "char \<Rightarrow> int" where
  "digit_of c = int (code_of c) - 48"

definition TryParseSmtpCode :: "string \<Rightarrow> int option" where
  "TryParseSmtpCode response =
     (if length response < 3 then None
      else if \<not> is_digit_char (response ! 0) \<or> \<not> is_digit_char (response ! 1) \<or> \<not> is_digit_char (response ! 2) then None
      else Some (digit_of (response ! 0) * 100 + digit_of (response ! 1) * 10 + digit_of (response ! 2)))"

text \<open>\<^verbatim>\<open>appendLogicalLines\<close>: the lines of a chunk, without line ends and without empty lines.\<close>

definition logical_lines :: "string \<Rightarrow> string list" where
  "logical_lines chunk = filter (\<lambda>l. l \<noteq> []) (map (pop_back_if CR) (getlines LF chunk))"

definition GetSmtpCode :: "string list \<Rightarrow> int" where
  "GetSmtpCode lines =
     (if lines = [] then - 1 else case TryParseSmtpCode (last lines) of None \<Rightarrow> - 1 | Some code \<Rightarrow> code)"

fun JoinSmtpLines :: "string list \<Rightarrow> string" where
  "JoinSmtpLines [] = []"
| "JoinSmtpLines [l] = l"
| "JoinSmtpLines (l # m # ls) = l @ '' | '' @ JoinSmtpLines (m # ls)"

definition SplitAddressList :: "string \<Rightarrow> string list" where
  "SplitAddressList raw = split_addresses raw [] 0 False"

fun collapse :: "bool \<Rightarrow> string \<Rightarrow> string" where
  "collapse prevSpace [] = []"
| "collapse prevSpace (c # cs) =
     (if is_space_char c then (if prevSpace then collapse True cs else SP # collapse True cs)
      else c # collapse False cs)"

definition CollapseWhitespace :: "string \<Rightarrow> string" where
  "CollapseWhitespace value = Trim (collapse False value)"

fun strip_tags :: "bool \<Rightarrow> string \<Rightarrow> string" where
  "strip_tags inTag [] = []"
| "strip_tags inTag (c # cs) =
     (if c = CHR ''<'' then strip_tags True cs
      else if c = CHR ''>'' then strip_tags False cs
      else if \<not> inTag then c # strip_tags inTag cs
      else strip_tags inTag cs)"

definition StripHtmlTags :: "string \<Rightarrow> string" where
  "StripHtmlTags html = strip_tags False html"

fun join_words :: "string list \<Rightarrow> string" where
  "join_words [] = []"
| "join_words [w] = w"
| "join_words (w # v # ws) = w @ '' '' @ join_words (v # ws)"

definition BuildPreview :: "string \<Rightarrow> string \<Rightarrow> nat \<Rightarrow> string" where
  "BuildPreview plainBody htmlBody maxWords =
     (let base = CollapseWhitespace (if plainBody = [] then StripHtmlTags htmlBody else plainBody) in
      if base = [] \<or> maxWords = 0 then [] else join_words (take maxWords (stream_tokens base)))"

fun ExtractFlags :: "string list \<Rightarrow> bool \<times> bool" where
  "ExtractFlags [] = (False, False)"
| "ExtractFlags (line # lines) =
     (if \<not> contains_sub line ''FLAGS ('' then ExtractFlags lines
      else (contains_sub line flag_Seen, contains_sub line flag_Flagged))"

definition NormalizeFlag :: "string \<Rightarrow> string" where
  "NormalizeFlag raw =
     (if raw = [] then raw
      else if hd raw = BSLASH \<or> hd raw = CHR ''$'' then raw
      else let lower = ToLower raw in
        if lower = ''seen'' then flag_Seen
        else if lower = ''flagged'' \<or> lower = ''important'' then flag_Flagged
        else if lower = ''deleted'' then flag_Deleted
        else raw)"

definition IsStarredFolder :: "string \<Rightarrow> bool" where
  "IsStarredFolder folderName \<longleftrightarrow> ToLower folderName = ''starred''"

text \<open>The number in the last braces of a line; \<^verbatim>\<open>stoull\<close> throws above \<open>2 ^ 64 - 1\<close>.\<close>

definition literal_size :: "string \<Rightarrow> nat option" where
  "literal_size line =
     (case find_last_idx (\<lambda>c. c = CHR 0x7D) line of
        None \<Rightarrow> None
      | Some close \<Rightarrow>
          if close = 0 then None
          else (case find_last_idx (\<lambda>c. c = CHR 0x7B) (take (close + 1) line) of
                  None \<Rightarrow> None
                | Some opn \<Rightarrow>
                    if close \<le> opn + 1 then None
                    else let value = substr line (opn + 1) (close - opn - 1) in
                      if \<not> list_all is_digit_char value then None
                      else if 18446744073709551615 < digits_value value then None
                      else Some (nat (digits_value value))))"

fun payload_lines :: "nat \<Rightarrow> string \<Rightarrow> string list \<Rightarrow> string" where
  "payload_lines n payload [] = payload"
| "payload_lines n payload (l # ls) =
     (let p = payload @ l @ [LF] in if n \<le> length p then p else payload_lines n p ls)"

fun from_literal :: "string list \<Rightarrow> (nat \<times> string list) option" where
  "from_literal [] = None"
| "from_literal (l # ls) = (case literal_size l of Some n \<Rightarrow> Some (n, ls) | None \<Rightarrow> from_literal ls)"

definition ExtractRfc822Payload :: "string list \<Rightarrow> string" where
  "ExtractRfc822Payload lines =
     (case from_literal lines of
        None \<Rightarrow> []
      | Some (n, rest) \<Rightarrow> if rest = [] \<or> n = 0 then [] else take n (payload_lines n [] rest))"

text \<open>
  The reply loop of \<^verbatim>\<open>MailWorker::imapExchange\<close>: the lines of a frame, then the untagged lines up to
  the tagged one; \<open>None\<close> when the frame has no tagged line.
\<close>

definition frame_lines :: "string \<Rightarrow> string list" where
  "frame_lines frame = map (pop_back_if CR) (getlines LF frame)"

fun scan_reply :: "string \<Rightarrow> string list \<Rightarrow> bool option \<times> string list" where
  "scan_reply tag [] = (None, [])"
| "scan_reply tag (line # lines) =
     (if StartsWith line (tag @ '' OK'') then (Some True, [])
      else if StartsWith line (tag @ '' NO'') \<or> StartsWith line (tag @ '' BAD'') then (Some False, [])
      else (case scan_reply tag lines of (ok, untagged) \<Rightarrow> (ok, line # untagged)))"

definition ExtractEnvelopeSubject :: "string \<Rightarrow> string" where
  "ExtractEnvelopeSubject line =
     (case find_sub ''ENVELOPE ('' line of
        None \<Rightarrow> []
      | Some envPos \<Rightarrow>
          (case find_char_from line DQUOTE envPos of
             None \<Rightarrow> []
           | Some firstQuote \<Rightarrow>
               (case find_char_from line DQUOTE (firstQuote + 1) of
                  None \<Rightarrow> []
                | Some firstEnd \<Rightarrow>
                    (case find_char_from line DQUOTE (firstEnd + 1) of
                       None \<Rightarrow> []
                     | Some subjectStart \<Rightarrow>
                         (case find_char_from line DQUOTE (subjectStart + 1) of
                            None \<Rightarrow> []
                          | Some subjectEnd \<Rightarrow> substr line (subjectStart + 1) (subjectEnd - subjectStart - 1))))))"

definition replace_reserved :: "char \<Rightarrow> char" where
  "replace_reserved c =
     (if c = BSLASH \<or> c = CHR ''/'' \<or> c = CHR '':'' \<or> c = CHR ''*'' \<or> c = CHR ''?'' \<or> c = DQUOTE \<or> c = CHR ''<''
         \<or> c = CHR ''>'' \<or> c = CHR ''|''
      then CHR ''_'' else c)"

text \<open>\<^verbatim>\<open>std::filesystem::path::filename\<close> on POSIX: the characters behind the last slash.\<close>

definition path_filename :: "string \<Rightarrow> string" where
  "path_filename p = (case find_last_idx (\<lambda>c. c = CHR ''/'') p of None \<Rightarrow> p | Some i \<Rightarrow> drop (i + 1) p)"

definition SanitizeAttachmentFileName :: "string \<Rightarrow> string" where
  "SanitizeAttachmentFileName raw =
     (let baseName = path_filename raw in
      if baseName = [] then ''attachment.bin'' else map replace_reserved baseName)"

definition TryDecodeAttachmentBytes :: "attachment \<Rightarrow> byte list option" where
  "TryDecodeAttachmentBytes a =
     (if base64_data a = [] then None
      else case DecodeBase64 (base64_data a) of
        Inr bytes \<Rightarrow> Some bytes
      | Inl _ \<Rightarrow> Some (map byte_of_char (base64_data a)))"

end
