(* ===== verification/Imap_Utils_Laws.thy ===== *)
theory Imap_Utils_Laws
  imports Imap_Utils "HOL-Library.Multiset"
begin

text \<open>
  Sequence sets against their meaning, including those that do not fit into the memory, and
  the day of the week of \<^verbatim>\<open>DateToEmlDate\<close> against the civil calendar; the order of the messages
  after \<^verbatim>\<open>SortMessagesByTimeDescending\<close>.
\<close>

section \<open>Numbers and their text\<close>

lemma digits_value_snoc: "digits_value (ds @ [c]) = 10 * digits_value ds + (int (code_of c) - 48)"
  by (simp add: digits_value_def)

lemma nat_to_string_digits:
  "digits_value (nat_to_string n) = int n \<and> list_all is_digit_char (nat_to_string n) \<and> nat_to_string n \<noteq> []"
proof (induction n rule: nat_to_string.induct)
  case (1 n)
  have c: "code_of (char_of (48 + k)) = 48 + k" if "k < 10" for k :: nat
    using that by (simp add: code_of_def)
  show ?case
  proof (cases "n < 10")
    case True
    then show ?thesis
      using c [of n] by (simp add: nat_to_string.simps [of n] digits_value_def is_digit_char_def)
  next
    case False
    have "10 * int (n div 10) + int (n mod 10) = int n" "n mod 10 \<le> 9" by presburger+
    then show ?thesis
      using False 1 c [of "n mod 10"]
      by (simp add: nat_to_string.simps [of n] digits_value_snoc is_digit_char_def)
  qed
qed

lemma nat_to_string_chars:
  "c \<in> set (nat_to_string n) \<Longrightarrow> is_digit_char c"
  using nat_to_string_digits [of n] by (simp add: list_all_iff)

lemma nat_to_string_no_break:
  "c \<in> set (nat_to_string n) \<Longrightarrow> c \<noteq> CR \<and> c \<noteq> LF \<and> c \<noteq> CHR 0x7B \<and> c \<noteq> CHR '','' \<and> c \<noteq> CHR '':'' \<and> c \<noteq> CHR ''*''"
  by (drule nat_to_string_chars) (auto simp: is_digit_char_def code_of_def)

lemma digit_not_special:
  "is_digit_char c \<Longrightarrow> \<not> is_space_char c \<and> c \<noteq> CHR ''-'' \<and> c \<noteq> CHR ''+''"
  by (auto simp: is_digit_char_def is_space_char_def code_of_def)

lemma read_integer_digits:
  assumes "ds \<noteq> []" "list_all is_digit_char ds"
  shows "read_integer ds = Some (digits_value ds, [])"
proof -
  obtain c cs where ds: "ds = c # cs" using assms(1) by (cases ds) auto
  have c: "is_digit_char c" "list_all is_digit_char cs" using assms(2) ds by auto
  have "takeWhile is_digit_char cs = cs" "dropWhile is_digit_char cs = []"
    using c(2) by (auto simp: list_all_iff takeWhile_eq_all_conv)
  then show ?thesis using ds c(1) digit_not_special [OF c(1)]
    by (simp add: read_integer_def del: takeWhile_eq_all_conv dropWhile_eq_Nil_conv)
qed

lemma stoll_nat: "int n \<le> INT64_MAX \<Longrightarrow> stoll (nat_to_string n) = Inr (int n)"
  using nat_to_string_digits [of n] read_integer_digits [of "nat_to_string n"]
  by (auto simp: stoll_def INT64_MAX_def)

section \<open>The range loop\<close>

text \<open>
  The numbers of the range when they fit into the memory; an exception when they do not; undefined behaviour when
  they fit and reach the largest 64-bit number.
\<close>

lemma range_loop_spec:
  assumes "i \<le> second" "second \<le> INT64_MAX"
  shows "range_loop room i second =
    (if room < length [i..second] then Some (Inl bad_alloc)
     else if second = INT64_MAX then None else Some (Inr [i..second]))"
  using assms
proof (induction room i second rule: range_loop.induct)
  case (1 i second)
  then show ?case by (simp add: upto_rec1)
next
  case (2 room i second)
  show ?case
  proof (cases "i = second")
    case True
    then show ?thesis by (cases room) (simp_all add: upto_rec1)
  next
    case False
    with 2 have le: "i + 1 \<le> second" "i \<noteq> INT64_MAX" by linarith+
    with 2 have "range_loop room (i + 1) second =
      (if room < length [i + 1..second] then Some (Inl bad_alloc)
       else if second = INT64_MAX then None else Some (Inr [i + 1..second]))" by simp
    then show ?thesis using 2(2) le(2) by (simp add: upto_rec1 [of i second] del: length_upto)
  qed
qed

section \<open>Sequence sets and their meaning\<close>

datatype seq_num = Num nat | Star

datatype seq_item = One seq_num | Range seq_num seq_num

fun num_text :: "seq_num \<Rightarrow> string" where
  "num_text (Num n) = nat_to_string n"
| "num_text Star = ''*''"

fun item_text :: "seq_item \<Rightarrow> string" where
  "item_text (One x) = num_text x"
| "item_text (Range x y) = num_text x @ '':'' @ num_text y"

fun set_text :: "seq_item list \<Rightarrow> string" where
  "set_text [] = []"
| "set_text [i] = item_text i"
| "set_text (i # j # is) = item_text i @ '','' @ set_text (j # is)"

fun num_value :: "int \<Rightarrow> seq_num \<Rightarrow> int" where
  "num_value maxv (Num n) = int n"
| "num_value maxv Star = maxv"

text \<open>The numbers an item means, and whether it is a range that reaches the largest 64-bit number.\<close>

fun item_numbers :: "int \<Rightarrow> seq_item \<Rightarrow> int list" where
  "item_numbers maxv (One x) = [num_value maxv x]"
| "item_numbers maxv (Range x y) = [min (num_value maxv x) (num_value maxv y)..max (num_value maxv x) (num_value maxv y)]"

fun overflows :: "int \<Rightarrow> seq_item \<Rightarrow> bool" where
  "overflows maxv (One x) = False"
| "overflows maxv (Range x y) \<longleftrightarrow> max (num_value maxv x) (num_value maxv y) = INT64_MAX"

text \<open>The items up to the first such range.\<close>

fun read_items :: "int \<Rightarrow> seq_item list \<Rightarrow> seq_item list" where
  "read_items maxv [] = []"
| "read_items maxv (i # is) = (if overflows maxv i then [i] else i # read_items maxv is)"

fun item_in_range :: "seq_item \<Rightarrow> bool" where
  "item_in_range (One x) \<longleftrightarrow> num_value 0 x \<le> INT64_MAX"
| "item_in_range (Range x y) \<longleftrightarrow> num_value 0 x \<le> INT64_MAX \<and> num_value 0 y \<le> INT64_MAX"

lemma num_text_chars: "c \<in> set (num_text x) \<Longrightarrow> c \<noteq> CHR '','' \<and> c \<noteq> CHR '':''"
  using nat_to_string_no_break by (cases x) auto

lemma num_text_nonempty: "num_text x \<noteq> []"
  using nat_to_string_digits by (cases x) auto

lemma num_range:
  "num_value 0 x \<le> INT64_MAX \<Longrightarrow> 0 \<le> maxv \<Longrightarrow> maxv \<le> INT64_MAX \<Longrightarrow> 0 \<le> num_value maxv x \<and> num_value maxv x \<le> INT64_MAX"
  by (cases x) auto

lemma sequence_bound_text:
  "num_value 0 x \<le> INT64_MAX \<Longrightarrow> sequence_bound maxv (num_text x) = Inr (num_value maxv x)"
proof (cases x)
  case (Num n)
  assume le: "num_value 0 x \<le> INT64_MAX"
  have "nat_to_string n \<noteq> ''*''"
    using nat_to_string_no_break [of "CHR ''*''" n] by (metis list.set_intros(1))
  then show ?thesis using Num le stoll_nat [of n] by (simp add: sequence_bound_def)
qed (simp add: sequence_bound_def)

lemma find_idx_append: "\<forall>c \<in> set s. \<not> P c \<Longrightarrow> P c' \<Longrightarrow> find_idx P (s @ c' # rest) = Some (length s)"
  by (induction s) auto

lemma sequence_part_text:
  assumes "item_in_range i" "0 \<le> maxv" "maxv \<le> INT64_MAX"
  shows "sequence_part room maxv (item_text i) =
    (if room < length (item_numbers maxv i) then Some (Inl bad_alloc)
     else if overflows maxv i then None else Some (Inr (item_numbers maxv i)))"
proof (cases i)
  case (One x)
  have "find_char (num_text x) (CHR '':'') = None"
    using num_text_chars unfolding find_char_def find_idx_None by blast
  then show ?thesis using One assms sequence_bound_text [of x maxv] by (simp add: sequence_part_def)
next
  case (Range x y)
  define lo where "lo = min (num_value maxv x) (num_value maxv y)"
  define hi where "hi = max (num_value maxv x) (num_value maxv y)"
  have x: "num_value 0 x \<le> INT64_MAX" and y: "num_value 0 y \<le> INT64_MAX" using assms(1) Range by auto
  have "find_char (item_text i) (CHR '':'') = Some (length (num_text x))"
    unfolding find_char_def Range item_text.simps append_Cons append_Nil
    by (rule find_idx_append) (use num_text_chars in auto)
  then have part: "sequence_part room maxv (item_text i) = range_loop room lo hi"
    using Range sequence_bound_text [OF x, of maxv] sequence_bound_text [OF y, of maxv]
    by (simp add: sequence_part_def substr_def lo_def hi_def)
  have "lo \<le> hi" "hi \<le> INT64_MAX"
    using num_range [OF x assms(2,3)] num_range [OF y assms(2,3)] by (auto simp: lo_def hi_def)
  moreover have "overflows maxv i \<longleftrightarrow> hi = INT64_MAX" "item_numbers maxv i = [lo..hi]"
    using Range by (simp_all only: lo_def hi_def overflows.simps item_numbers.simps)
  ultimately show ?thesis unfolding part by (simp only: range_loop_spec)
qed

lemma sequence_parts_text:
  assumes "0 \<le> maxv" "maxv \<le> INT64_MAX"
  shows "\<forall>i \<in> set is. item_in_range i \<Longrightarrow> sequence_parts room maxv (map item_text is) =
     (if room < length (concat (map (item_numbers maxv) (read_items maxv is))) then Some (Inl bad_alloc)
      else if list_ex (overflows maxv) is then None else Some (Inr (concat (map (item_numbers maxv) is))))"
proof (induction "is" arbitrary: room)
  case (Cons i "is")
  have part: "sequence_part room maxv (item_text i) =
    (if room < length (item_numbers maxv i) then Some (Inl bad_alloc)
     else if overflows maxv i then None else Some (Inr (item_numbers maxv i)))"
    using Cons.prems by (simp add: sequence_part_text assms)
  then show ?case using Cons.IH [of "room - length (item_numbers maxv i)"] Cons.prems
    by (cases "room < length (item_numbers maxv i)"; cases "overflows maxv i")
      (simp_all add: less_diff_conv2 not_less add.commute del: item_numbers.simps overflows.simps)
qed simp

lemma item_text_props: "CHR '','' \<notin> set (item_text i)" "item_text i \<noteq> []"
  using num_text_chars num_text_nonempty by (cases i; fastforce)+

lemma Split_set_text: "is \<noteq> [] \<Longrightarrow> Split (set_text is) (CHR '','') = map item_text is"
proof (induction "is" rule: set_text.induct)
  case (2 i)
  then show ?case using item_text_props getlines_acc_last [of _ "item_text i" "[]"] by (simp add: Split_def getlines_def)
next
  case (3 i j "is")
  then show ?case
    using item_text_props(1) [of i] getlines_acc_delim [of "CHR '',''" "item_text i" "[]"]
    by (simp add: Split_def getlines_def)
qed simp

lemma distinct_sorted_remdups_adj: "sorted xs \<Longrightarrow> distinct (remdups_adj xs)" for xs :: "int list"
proof (induction xs rule: remdups_adj.induct)
  case (3 x y xs)
  then have "x \<noteq> y \<Longrightarrow> \<forall>z \<in> set (y # xs). x < z" by auto
  then show ?case using 3 by (auto simp del: remdups_adj.simps(3) simp: remdups_adj.simps(3) [of x y xs])
qed auto

lemma sort_unique: "remdups_adj (sort xs) = sorted_list_of_set (set xs)" for xs :: "int list"
proof (rule sorted_distinct_set_unique)
  show "distinct (remdups_adj (sort xs))" by (simp add: distinct_sorted_remdups_adj)
qed (simp_all add: sorted_remdups_adj)

text \<open>
  C30. A sequence set of numbers and ranges is read as the sorted numbers it means, each once, with \<open>*\<close> for
  the given maximum and the ends of a range in either order, when all its numbers fit into the memory and no
  range reaches the largest 64-bit number. When the numbers up to and with the first range that reaches it do
  not fit, the call throws; when they fit, its behaviour is undefined (\<open>None\<close>: the counter overflows).
\<close>

theorem sequence_set_denotes:
  assumes "is \<noteq> []" "\<forall>i \<in> set is. item_in_range i" "0 \<le> maxv" "maxv \<le> INT64_MAX"
  shows "ParseSequenceSet room (set_text is) maxv =
    (if room < length (concat (map (item_numbers maxv) (read_items maxv is))) then Some (Inl bad_alloc)
     else if list_ex (overflows maxv) is then None
     else Some (Inr (sorted_list_of_set (\<Union>i \<in> set is. set (item_numbers maxv i)))))"
  using sequence_parts_text [OF assms(3,4,2)] by (simp add: ParseSequenceSet_def Split_set_text [OF assms(1)] sort_unique)

text \<open>
  The range \<open>1:*\<close> of the UID commands, whose maximum is the largest 64-bit number, in a vector of at most
  \<^verbatim>\<open>max_size()\<close> elements; and the range of that number alone.
\<close>

theorem sequence_set_denotes_witness:
  "ParseSequenceSet 100 ''5,3:*'' 4 = Some (Inr [3, 4, 5]) \<and>
   ParseSequenceSet (2 ^ 60 - 1) ''1:*'' INT64_MAX = Some (Inl bad_alloc) \<and>
   ParseSequenceSet (2 ^ 60 - 1) ''*:*'' INT64_MAX = None"
proof -
  have t: "set_text [One (Num 5), Range (Num 3) Star] = ''5,3:*''" "set_text [Range (Num 1) Star] = ''1:*''"
    "set_text [Range Star Star] = ''*:*''" by code_simp+
  have s: "sorted_list_of_set (set [5] \<union> set [3..4]) = [3, 4, 5 :: int]" by code_simp
  have "ParseSequenceSet 100 ''5,3:*'' 4 = Some (Inr [3, 4, 5])"
    using sequence_set_denotes [of "[One (Num 5), Range (Num 3) Star]" 4 100] s unfolding t by (simp add: INT64_MAX_def)
  moreover have "ParseSequenceSet (2 ^ 60 - 1) ''1:*'' INT64_MAX = Some (Inl bad_alloc)"
    using sequence_set_denotes [of "[Range (Num 1) Star]" INT64_MAX "2 ^ 60 - 1"] unfolding t by (simp add: INT64_MAX_def)
  moreover have "ParseSequenceSet (2 ^ 60 - 1) ''*:*'' INT64_MAX = None"
    using sequence_set_denotes [of "[Range Star Star]" INT64_MAX "2 ^ 60 - 1"] unfolding t by (simp add: INT64_MAX_def)
  ultimately show ?thesis by blast
qed

section \<open>The day of the week\<close>

text \<open>The civil calendar, one day at a time.\<close>

definition leap_year :: "int \<Rightarrow> bool" where
  "leap_year y \<longleftrightarrow> y mod 4 = 0 \<and> (y mod 100 \<noteq> 0 \<or> y mod 400 = 0)"

definition month_length :: "int \<Rightarrow> int \<Rightarrow> int" where
  "month_length y m =
     (if m = 2 then (if leap_year y then 29 else 28) else if m \<in> {4, 6, 9, 11} then 30 else 31)"

fun next_date :: "int \<times> int \<times> int \<Rightarrow> int \<times> int \<times> int" where
  "next_date (y, m, d) =
     (if d < month_length y m then (y, m, d + 1) else if m < 12 then (y, m + 1, 1) else (y + 1, 1, 1))"

fun valid_date :: "int \<times> int \<times> int \<Rightarrow> bool" where
  "valid_date (y, m, d) \<longleftrightarrow> 1900 \<le> y \<and> 1 \<le> m \<and> m \<le> 12 \<and> 1 \<le> d \<and> d \<le> month_length y m"

fun weekday :: "int \<times> int \<times> int \<Rightarrow> int" where
  "weekday (y, m, d) = day_of_week y m d"

lemma next_date_valid: "valid_date t \<Longrightarrow> valid_date (next_date t)"
proof (cases t)
  case (fields y m d)
  assume "valid_date t"
  moreover have "1 \<le> month_length y' m'" for y' m' by (simp add: month_length_def)
  ultimately show ?thesis using fields by auto
qed

text \<open>The shift that a year contributes, and the formula with it.\<close>

definition year_shift :: "int \<Rightarrow> int" where
  "year_shift y = y + y div 4 - y div 100 + y div 400"

lemma day_of_week_form:
  "day_of_week y m d =
     (d + (13 * ((if m < 3 then m + 12 else m) + 1)) div 5 + year_shift (if m < 3 then y - 1 else y) + 6) mod 7"
  unfolding day_of_week_def Let_def year_shift_def mod_add_left_eq by (rule arg_cong [where f = "\<lambda>v. v mod 7"]) simp

lemma mod_7_shift: "7 dvd b - (a + 1) \<Longrightarrow> b mod 7 = (a mod 7 + 1) mod 7" for a b :: int
  by (simp add: mod_simps mod_eq_dvd_iff)

lemma div_pred: "0 < k \<Longrightarrow> y div k = (y - 1) div k + (if y mod k = 0 then 1 else 0)" for y k :: int
proof -
  assume k: "0 < k"
  have y: "y = k * (y div k) + y mod k" by simp
  show ?thesis
  proof (cases "y mod k = 0")
    case True
    then have "y - 1 = k * (y div k - 1) + (k - 1)" using y by (simp add: algebra_simps)
    then have "(y - 1) div k = y div k - 1" using k by (simp add: int_div_pos_eq [where r = "k - 1"])
    then show ?thesis using True by simp
  next
    case False
    then have "0 \<le> y mod k - 1" "y mod k - 1 < k"
      using pos_mod_sign [OF k, of y] pos_mod_bound [OF k, of y] by linarith+
    moreover have "y - 1 = k * (y div k) + (y mod k - 1)" using y by simp
    ultimately have "(y - 1) div k = y div k" by (metis int_div_pos_eq)
    then show ?thesis using False by simp
  qed
qed

lemma year_shift_step: "year_shift y = year_shift (y - 1) + 1 + (if leap_year y then 1 else 0)"
proof -
  define A B C where "A \<longleftrightarrow> y mod 4 = 0" and "B \<longleftrightarrow> y mod 100 = 0" and "C \<longleftrightarrow> y mod 400 = 0"
  have imp: "C \<Longrightarrow> B" "B \<Longrightarrow> A" using dvd_trans [of 100 400 y] dvd_trans [of 4 100 y]
    unfolding A_def B_def C_def by (simp_all add: mod_eq_0_iff_dvd)
  have q4: "y div 4 = (y - 1) div 4 + (if A then 1 else 0)" using div_pred [of 4 y] by (simp add: A_def)
  have q100: "y div 100 = (y - 1) div 100 + (if B then 1 else 0)" using div_pred [of 100 y] by (simp add: B_def)
  have q400: "y div 400 = (y - 1) div 400 + (if C then 1 else 0)" using div_pred [of 400 y] by (simp add: C_def)
  have leap: "leap_year y \<longleftrightarrow> A \<and> (\<not> B \<or> C)" by (simp add: leap_year_def A_def B_def C_def)
  show ?thesis unfolding year_shift_def q4 q100 q400 leap using imp by (cases A; cases B; cases C; simp)
qed

lemma day_of_week_next_day: "day_of_week y m (d + 1) = (day_of_week y m d + 1) mod 7"
  unfolding day_of_week_form by (rule mod_7_shift) simp

lemma february_end:
  "day_of_week y 3 1 = (day_of_week y 2 (if leap_year y then 29 else 28) + 1) mod 7"
  unfolding day_of_week_form by (rule mod_7_shift) (simp add: year_shift_step [of y])

lemma month_end:
  assumes "1 \<le> m" "m < 12"
  shows "day_of_week y (m + 1) 1 = (day_of_week y m (month_length y m) + 1) mod 7"
proof (cases "m = 2")
  case True
  then show ?thesis using february_end [of y] by (simp add: month_length_def)
next
  case False
  then have "m = 1 \<or> m = 3 \<or> m = 4 \<or> m = 5 \<or> m = 6 \<or> m = 7 \<or> m = 8 \<or> m = 9 \<or> m = 10 \<or> m = 11"
    using assms by presburger
  then show ?thesis
    unfolding day_of_week_form by (elim disjE) (rule mod_7_shift, simp add: month_length_def)+
qed

lemma year_end: "day_of_week (y + 1) 1 1 = (day_of_week y 12 31 + 1) mod 7"
  unfolding day_of_week_form by (rule mod_7_shift) simp

lemma day_of_week_mod: "day_of_week y m d mod 7 = day_of_week y m d"
  unfolding day_of_week_form by simp

lemma weekday_next: "valid_date t \<Longrightarrow> weekday (next_date t) = (weekday t + 1) mod 7"
proof (cases t)
  case (fields y m d)
  assume v: "valid_date t"
  show ?thesis
  proof (cases "d < month_length y m")
    case True
    then show ?thesis using fields day_of_week_next_day by simp
  next
    case False
    then have d: "d = month_length y m" using v fields by simp
    show ?thesis
    proof (cases "m < 12")
      case True
      then show ?thesis using False fields v d month_end [of m y] by simp
    next
      case no: False
      then have "m = 12" using v fields by simp
      then show ?thesis using False fields d year_end [of y] by (simp add: month_length_def)
    qed
  qed
qed

lemma days_after: "valid_date t \<Longrightarrow> weekday ((next_date ^^ n) t) = (weekday t + int n) mod 7"
proof (induction n)
  case 0
  show ?case by (cases t) (simp add: day_of_week_mod)
next
  case (Suc n)
  have "valid_date ((next_date ^^ n) t)" using Suc.prems by (induction n) (simp_all add: next_date_valid)
  then show ?case using Suc weekday_next by (simp add: mod_simps algebra_simps)
qed

text \<open>
  The day of the week that \<^verbatim>\<open>DateToEmlDate\<close> computes is that of the civil calendar: counting on
  from 1 January 1900, a Monday, the n-th day is the n-th day of the week behind it.
\<close>

lemma day_of_week_calendar:
  "weekday ((next_date ^^ n) (1900, 1, 1)) = (1 + int n) mod 7"
proof -
  have "valid_date (1900, 1, 1)" by (simp add: month_length_def)
  moreover have "weekday (1900, 1, 1) = 1" by (simp add: day_of_week_def)
  ultimately show ?thesis using days_after [of "(1900, 1, 1)" n] by simp
qed

section \<open>Sorting by date\<close>

lemma sort_messages_permutes:
  "SortMessagesByTimeDescending messages result \<longleftrightarrow>
     mset result = mset messages \<and> sorted_wrt (\<lambda>a b. m_internal_date b \<le> m_internal_date a) result"
proof -
  have "count_list result m = count_list messages m" if "m \<notin> set messages \<union> set result" for m
    using that by (simp add: count_list_0_iff)
  then have "(\<forall>m \<in> set messages \<union> set result. count_list result m = count_list messages m) \<longleftrightarrow> mset result = mset messages"
    by (metis multiset_eqI count_mset)
  then show ?thesis by (simp add: SortMessagesByTimeDescending_def not_less)
qed

text \<open>The order of \<^verbatim>\<open>ORDER BY internal_date DESC\<close> is one that the function may leave.\<close>

lemma sort_messages_newest_first: "SortMessagesByTimeDescending messages (newest_first messages)"
proof -
  have "sorted (map m_internal_date (rev (newest_first messages)))" by (simp add: newest_first_def)
  then have "sorted_wrt (\<lambda>a b. m_internal_date a \<le> m_internal_date b) (rev (newest_first messages))"
    by (simp only: sorted_map)
  then show ?thesis by (simp add: sort_messages_permutes sorted_wrt_rev newest_first_def)
qed

text \<open>The dates are in the same order whatever the function leaves; messages with equal dates may change places.\<close>

lemma sort_messages_dates:
  assumes "SortMessagesByTimeDescending messages a" "SortMessagesByTimeDescending messages b"
  shows "map m_internal_date a = map m_internal_date b"
proof -
  have sorted: "sorted (rev (map m_internal_date s))" if "SortMessagesByTimeDescending messages s" for s
    using that by (simp add: sort_messages_permutes rev_map sorted_map sorted_wrt_rev)
  have "mset (rev (map m_internal_date a)) = mset (rev (map m_internal_date b))"
    using assms by (simp add: sort_messages_permutes)
  then have "rev (map m_internal_date a) = rev (map m_internal_date b)"
    using sorted [OF assms(1)] sorted [OF assms(2)] by (metis properties_for_sort)
  then show ?thesis by (simp only: rev_is_rev_conv)
qed

end
