(* ===== verification/Connection.thy ===== *)
theory Connection
  imports Prelude
begin

text \<open>
  The two implementations of \<^verbatim>\<open>proto/IConnection.hpp\<close>: \<^verbatim>\<open>SocketConnection.cpp\<close> (SMTP server and
  mail client) and \<^verbatim>\<open>ImapConnection.hpp\<close> (the handshake of the IMAP server).

  The operating system is what a connection starts with: \<open>cn_arriving\<close> holds the bytes that
  successive reads deliver, \<open>cn_accepting\<close> the sizes that successive writes take. A time limit
  cuts \<open>cn_arriving\<close> where it expires. Behind the last arrival the peer has closed its end, or it
  stays silent (\<open>cn_silent\<close>); a read without a time limit then never returns, which is the
  result \<open>None\<close> of the operation.
\<close>

record connection =
  cn_open :: bool
  cn_arriving :: "string list"
  cn_silent :: bool
  cn_accepting :: "nat list"
  cn_sent :: string
  cn_buffer :: string

text \<open>The virtual functions of \<^verbatim>\<open>IConnection\<close> that the secure channel calls.\<close>

record 'c iconnection =
  op_Send :: "string \<Rightarrow> 'c \<Rightarrow> bool \<times> 'c"
  op_Receive :: "'c \<Rightarrow> (string option \<times> 'c) option"
  op_SendRaw :: "string \<Rightarrow> 'c \<Rightarrow> bool \<times> 'c"
  op_ReceiveRaw :: "nat \<Rightarrow> 'c \<Rightarrow> (string option \<times> 'c) option"

section \<open>Loops over reads and writes\<close>

text \<open>The read loop of \<^verbatim>\<open>ReceiveRaw\<close>: what was read, at most \<open>n\<close> bytes, and what is still to arrive.\<close>

fun read_loop :: "nat \<Rightarrow> string list \<Rightarrow> string \<times> string list" where
  "read_loop n [] = ([], [])"
| "read_loop n (c # cs) =
     (if n = 0 then ([], c # cs)
      else if length c \<le> n then (case read_loop (n - length c) cs of (d, rest) \<Rightarrow> (c @ d, rest))
      else (take n c, drop n c # cs))"

text \<open>The write loop of \<^verbatim>\<open>SendRaw\<close>: what was written, what was not, and the writes left.\<close>

fun write_loop :: "string \<Rightarrow> nat list \<Rightarrow> string \<times> string \<times> nat list" where
  "write_loop data [] = ([], data, [])"
| "write_loop data (k # ks) =
     (if data = [] then ([], [], k # ks)
      else case write_loop (drop k data) ks of (w, unsent, rest) \<Rightarrow> (take k data @ w, unsent, rest))"

text \<open>\<^verbatim>\<open>boost::asio::read_until\<close> with the delimiter CRLF.\<close>

fun fill_buffer :: "string \<Rightarrow> string list \<Rightarrow> string \<times> string list" where
  "fill_buffer buffer [] = (buffer, [])"
| "fill_buffer buffer (c # cs) =
     (if contains_sub buffer CRLF then (buffer, c # cs) else fill_buffer (buffer @ c) cs)"

text \<open>\<^verbatim>\<open>std::getline\<close> on the buffer: the line, without a carriage return at its end, and the rest.\<close>

definition take_line :: "string \<Rightarrow> string \<times> string" where
  "take_line buffer =
     (let l = takeWhile (\<lambda>c. c \<noteq> LF) buffer in (pop_back_if CR l, drop (length l + 1) buffer))"

section \<open>SocketConnection\<close>

definition MAX_LINE_SIZE :: nat where
  "MAX_LINE_SIZE = 8192"

definition Socket_Close :: "connection \<Rightarrow> connection" where
  "Socket_Close c = c\<lparr>cn_open := False\<rparr>"

definition Socket_SendRaw :: "string \<Rightarrow> connection \<Rightarrow> bool \<times> connection" where
  "Socket_SendRaw data c =
     (if \<not> cn_open c then (False, c)
      else case write_loop data (cn_accepting c) of (w, unsent, rest) \<Rightarrow>
        let c' = c\<lparr>cn_sent := cn_sent c @ w, cn_accepting := rest\<rparr>
        in if unsent \<noteq> [] then (False, Socket_Close c') else (True, c'))"

definition Socket_Send :: "string \<Rightarrow> connection \<Rightarrow> bool \<times> connection" where
  "Socket_Send data c = (if \<not> cn_open c then (False, c) else if data = [] then (False, c) else Socket_SendRaw data c)"

definition Socket_ReceiveRaw :: "nat \<Rightarrow> connection \<Rightarrow> (string option \<times> connection) option" where
  "Socket_ReceiveRaw n c =
     (if \<not> cn_open c then Some (None, c)
      else case read_loop n (cn_arriving c) of (d, rest) \<Rightarrow>
        let c' = c\<lparr>cn_arriving := rest\<rparr>
        in if length d < n then Some (None, Socket_Close c') else Some (Some d, c'))"

text \<open>\<^verbatim>\<open>Receive\<close> waits with its time limit only while the buffer is empty.\<close>

definition Socket_Receive :: "connection \<Rightarrow> (string option \<times> connection) option" where
  "Socket_Receive c =
     (if \<not> cn_open c then Some (None, c)
      else if cn_buffer c = [] \<and> concat (cn_arriving c) = [] then Some (None, Socket_Close c)
      else case fill_buffer (cn_buffer c) (cn_arriving c) of (buffer, rest) \<Rightarrow>
        let c' = c\<lparr>cn_buffer := buffer, cn_arriving := rest\<rparr>
        in if \<not> contains_sub buffer CRLF then (if cn_silent c then None else Some (None, Socket_Close c'))
           else if length buffer > MAX_LINE_SIZE then Some (None, Socket_Close c')
           else (case take_line buffer of (l, left) \<Rightarrow> Some (Some l, c'\<lparr>cn_buffer := left\<rparr>)))"

definition SocketConnection :: "connection iconnection" where
  "SocketConnection = \<lparr>op_Send = Socket_Send, op_Receive = Socket_Receive,
     op_SendRaw = Socket_SendRaw, op_ReceiveRaw = Socket_ReceiveRaw\<rparr>"

section \<open>ImapConnection\<close>

definition Imap_SendRaw :: "string \<Rightarrow> connection \<Rightarrow> bool \<times> connection" where
  "Imap_SendRaw data c =
     (if \<not> cn_open c then (False, c)
      else case write_loop data (cn_accepting c) of (w, unsent, rest) \<Rightarrow>
        (unsent = [], c\<lparr>cn_sent := cn_sent c @ w, cn_accepting := rest\<rparr>))"

definition Imap_Send :: "string \<Rightarrow> connection \<Rightarrow> bool \<times> connection" where
  "Imap_Send data c = Imap_SendRaw data c"

definition Imap_ReceiveRaw :: "nat \<Rightarrow> connection \<Rightarrow> (string option \<times> connection) option" where
  "Imap_ReceiveRaw n c =
     (if \<not> cn_open c then Some (None, c)
      else case read_loop n (cn_arriving c) of (d, rest) \<Rightarrow>
        let c' = c\<lparr>cn_arriving := rest\<rparr>
        in if length d < n then (if cn_silent c then None else Some (None, c')) else Some (Some d, c'))"

definition Imap_Receive :: "connection \<Rightarrow> (string option \<times> connection) option" where
  "Imap_Receive c =
     (if \<not> cn_open c then Some (None, c)
      else case fill_buffer (cn_buffer c) (cn_arriving c) of (buffer, rest) \<Rightarrow>
        let c' = c\<lparr>cn_buffer := buffer, cn_arriving := rest\<rparr>
        in if \<not> contains_sub buffer CRLF then (if cn_silent c then None else Some (None, c'))
           else (case take_line buffer of (l, left) \<Rightarrow> Some (Some l, c'\<lparr>cn_buffer := left\<rparr>)))"

definition ImapConnection :: "connection iconnection" where
  "ImapConnection = \<lparr>op_Send = Imap_Send, op_Receive = Imap_Receive,
     op_SendRaw = Imap_SendRaw, op_ReceiveRaw = Imap_ReceiveRaw\<rparr>"

section \<open>The loops move bytes in order\<close>

lemma read_loop_spec:
  "read_loop n cs = (d, rest) \<Longrightarrow> d = take n (concat cs) \<and> concat rest = drop n (concat cs)"
proof (induction n cs arbitrary: d rest rule: read_loop.induct)
  case (2 n c cs)
  then show ?case by (auto split: if_splits prod.splits)
qed simp

lemma write_loop_spec: "write_loop data ks = (w, unsent, rest) \<Longrightarrow> data = w @ unsent"
proof (induction data ks arbitrary: w unsent rest rule: write_loop.induct)
  case (2 data k ks)
  then show ?case by (auto split: if_splits prod.splits) (metis append_assoc append_take_drop_id)
qed simp

section \<open>The contract of a connection\<close>

text \<open>
  What the secure channel relies on: a successful raw write appends its bytes to what was sent and
  a raw read delivers the next bytes in order, however the network cuts them. Neither disturbs
  the other direction.
\<close>

locale byte_connection =
  fixes io :: "'c iconnection" and usable :: "'c \<Rightarrow> bool" and incoming :: "'c \<Rightarrow> string" and sent :: "'c \<Rightarrow> string"
  assumes send_raw: "op_SendRaw io data c = (True, c') \<Longrightarrow>
      usable c' \<and> incoming c' = incoming c \<and> sent c' = sent c @ data"
    and receive_raw: "usable c \<Longrightarrow> n \<le> length (incoming c) \<Longrightarrow>
      \<exists>c'. op_ReceiveRaw io n c = Some (Some (take n (incoming c)), c') \<and> usable c' \<and>
        incoming c' = drop n (incoming c) \<and> sent c' = sent c"
    and received_raw: "op_ReceiveRaw io n c = Some (Some d, c') \<Longrightarrow>
      usable c \<and> usable c' \<and> n \<le> length (incoming c) \<and> d = take n (incoming c) \<and>
        incoming c' = drop n (incoming c) \<and> sent c' = sent c"
    and consumed: "op_ReceiveRaw io n c = Some (r, c') \<Longrightarrow> \<exists>k. incoming c' = drop k (incoming c)"
begin

lemma receive_raw_append:
  assumes "usable c" "incoming c = d @ ys"
  obtains c' where "op_ReceiveRaw io (length d) c = Some (Some d, c')" "usable c'" "incoming c' = ys" "sent c' = sent c"
  using receive_raw [of c "length d"] assms by auto

end

abbreviation cn_incoming :: "connection \<Rightarrow> string" where
  "cn_incoming c \<equiv> concat (cn_arriving c)"

lemma read_enough:
  assumes "read_loop n (cn_arriving c) = (d, rest)" "n \<le> length (cn_incoming c)"
  shows "length d = n" "d = take n (cn_incoming c)" "concat rest = drop n (cn_incoming c)"
  using read_loop_spec [OF assms(1)] assms(2) by auto

lemma read_short:
  assumes "read_loop n (cn_arriving c) = (d, rest)" "\<not> length d < n"
  shows "n \<le> length (cn_incoming c)"
  using read_loop_spec [OF assms(1)] assms(2) by auto

lemma read_consumes:
  assumes "cs = cn_arriving c \<or> cs = snd (read_loop n (cn_arriving c))"
  shows "\<exists>k. concat cs = drop k (cn_incoming c)"
  using assms read_loop_spec [of n "cn_arriving c"] by (metis drop0 prod.collapse)

interpretation socket: byte_connection SocketConnection cn_open cn_incoming cn_sent
proof
  fix data c c' assume "op_SendRaw SocketConnection data c = (True, c')"
  then show "cn_open c' \<and> cn_incoming c' = cn_incoming c \<and> cn_sent c' = cn_sent c @ data"
    by (auto simp: SocketConnection_def Socket_SendRaw_def Let_def split: if_splits prod.splits dest!: write_loop_spec)
next
  fix c n assume "cn_open c" "n \<le> length (cn_incoming c)"
  then show "\<exists>c'. op_ReceiveRaw SocketConnection n c = Some (Some (take n (cn_incoming c)), c') \<and> cn_open c' \<and>
      cn_incoming c' = drop n (cn_incoming c) \<and> cn_sent c' = cn_sent c"
    using read_enough [of n c]
    by (auto simp: SocketConnection_def Socket_ReceiveRaw_def Let_def split: prod.splits)
next
  fix n c d c' assume "op_ReceiveRaw SocketConnection n c = Some (Some d, c')"
  then show "cn_open c \<and> cn_open c' \<and> n \<le> length (cn_incoming c) \<and> d = take n (cn_incoming c) \<and>
      cn_incoming c' = drop n (cn_incoming c) \<and> cn_sent c' = cn_sent c"
    by (cases "read_loop n (cn_arriving c)")
      (auto simp: SocketConnection_def Socket_ReceiveRaw_def Let_def split: if_splits dest: read_short dest!: read_loop_spec)
next
  fix n c r c' assume "op_ReceiveRaw SocketConnection n c = Some (r, c')"
  then have "cn_arriving c' = cn_arriving c \<or> cn_arriving c' = snd (read_loop n (cn_arriving c))"
    by (auto simp: SocketConnection_def Socket_ReceiveRaw_def Socket_Close_def Let_def split: if_splits prod.splits)
  then show "\<exists>k. cn_incoming c' = drop k (cn_incoming c)" by (rule read_consumes)
qed

interpretation imap_connection: byte_connection ImapConnection cn_open cn_incoming cn_sent
proof
  fix data c c' assume "op_SendRaw ImapConnection data c = (True, c')"
  then show "cn_open c' \<and> cn_incoming c' = cn_incoming c \<and> cn_sent c' = cn_sent c @ data"
    by (auto simp: ImapConnection_def Imap_SendRaw_def Let_def split: if_splits prod.splits dest!: write_loop_spec)
next
  fix c n assume "cn_open c" "n \<le> length (cn_incoming c)"
  then show "\<exists>c'. op_ReceiveRaw ImapConnection n c = Some (Some (take n (cn_incoming c)), c') \<and> cn_open c' \<and>
      cn_incoming c' = drop n (cn_incoming c) \<and> cn_sent c' = cn_sent c"
    using read_enough [of n c]
    by (auto simp: ImapConnection_def Imap_ReceiveRaw_def Let_def split: prod.splits)
next
  fix n c d c' assume "op_ReceiveRaw ImapConnection n c = Some (Some d, c')"
  then show "cn_open c \<and> cn_open c' \<and> n \<le> length (cn_incoming c) \<and> d = take n (cn_incoming c) \<and>
      cn_incoming c' = drop n (cn_incoming c) \<and> cn_sent c' = cn_sent c"
    by (cases "read_loop n (cn_arriving c)")
      (auto simp: ImapConnection_def Imap_ReceiveRaw_def Let_def split: if_splits dest: read_short dest!: read_loop_spec)
next
  fix n c r c' assume "op_ReceiveRaw ImapConnection n c = Some (r, c')"
  then have "cn_arriving c' = cn_arriving c \<or> cn_arriving c' = snd (read_loop n (cn_arriving c))"
    by (auto simp: ImapConnection_def Imap_ReceiveRaw_def Let_def split: if_splits prod.splits)
  then show "\<exists>k. cn_incoming c' = drop k (cn_incoming c)" by (rule read_consumes)
qed

end
