(* ===== verification/Secure_Channel.thy ===== *)
theory Secure_Channel
  imports Connection
begin

text \<open>
  The encrypted channel of the servers and the mail client: \<^verbatim>\<open>proto/SecureChannel.cpp\<close>,
  \<^verbatim>\<open>ServerSecureChannel.cpp\<close> and \<^verbatim>\<open>ClientSecureChannel.cpp\<close>, over any implementation of
  \<^verbatim>\<open>IConnection\<close>. libsodium is the parameter \<open>so\<close>; the random nonce of a message and the key pair
  of a handshake are arguments. Clearing key material from memory has no effect that the program
  can observe.
\<close>

section \<open>Data\<close>

record sodium =
  aead_encrypt :: "string \<Rightarrow> string \<Rightarrow> string \<Rightarrow> string \<Rightarrow> string option"
  aead_decrypt :: "string \<Rightarrow> string \<Rightarrow> string \<Rightarrow> string \<Rightarrow> string option"
  kx_client :: "string \<Rightarrow> string \<Rightarrow> string \<Rightarrow> (string \<times> string) option"
  kx_server :: "string \<Rightarrow> string \<Rightarrow> string \<Rightarrow> (string \<times> string) option"

text \<open>
  \<open>aead_encrypt so key nonce ad message\<close> and its inverse fail with \<open>None\<close>; \<open>kx_client\<close> and
  \<open>kx_server\<close> take the own public key, the own secret key and the other side's public key and
  give the keys for receiving and for sending.
\<close>

record 'c secure_channel =
  ch_conn :: 'c
  ch_secure :: bool
  ch_txKey :: string
  ch_rxKey :: string
  ch_txSeq :: "64 word"
  ch_rxSeq :: "64 word"

definition NPUBBYTES :: nat where "NPUBBYTES = 12"
definition ABYTES :: nat where "ABYTES = 16"
definition PUBLICKEYBYTES :: nat where "PUBLICKEYBYTES = 32"
definition CHANNEL_MAX :: nat where "CHANNEL_MAX = 10 * 1024 * 1024"

text \<open>The bytes of a sequence number in memory (little endian) and of a length on the wire.\<close>

definition seq_bytes :: "64 word \<Rightarrow> string" where
  "seq_bytes w = map (\<lambda>i. char_of (unat w div 256 ^ i)) [0..<8]"

definition htonl_bytes :: "u32 \<Rightarrow> string" where
  "htonl_bytes w = map (\<lambda>i. char_of (unat w div 256 ^ (3 - i))) [0..<4]"

definition ntohl_bytes :: "string \<Rightarrow> u32" where
  "ntohl_bytes bs = word_of_nat (foldl (\<lambda>a c. a * 256 + code_of c) 0 bs)"

section \<open>Sending and receiving\<close>

definition SecureChannel :: "'c \<Rightarrow> 'c secure_channel" where
  "SecureChannel conn = \<lparr>ch_conn = conn, ch_secure = False, ch_txKey = replicate 32 NUL, ch_rxKey = replicate 32 NUL,
     ch_txSeq = 0, ch_rxSeq = 0\<rparr>"

definition Encrypt :: "sodium \<Rightarrow> string \<Rightarrow> 'c secure_channel \<Rightarrow> string \<Rightarrow> string" where
  "Encrypt so nonce ch raw_data =
     (case aead_encrypt so (ch_txKey ch) nonce (seq_bytes (ch_txSeq ch)) raw_data of
        None \<Rightarrow> []
      | Some encrypted_text \<Rightarrow> nonce @ encrypted_text)"

definition Decrypt :: "sodium \<Rightarrow> string \<Rightarrow> 'c secure_channel \<Rightarrow> string option \<times> 'c secure_channel" where
  "Decrypt so raw_data ch =
     (if length raw_data < NPUBBYTES + ABYTES then (None, ch)
      else case aead_decrypt so (ch_rxKey ch) (take NPUBBYTES raw_data) (seq_bytes (ch_rxSeq ch)) (drop NPUBBYTES raw_data) of
          None \<Rightarrow> (None, ch)
        | Some decrypted_text \<Rightarrow> (Some decrypted_text, ch\<lparr>ch_rxSeq := ch_rxSeq ch + 1\<rparr>))"

definition enableSecure :: "'c secure_channel \<Rightarrow> 'c secure_channel" where
  "enableSecure ch = ch\<lparr>ch_secure := True\<rparr>"

definition Channel_Send :: "sodium \<Rightarrow> 'c iconnection \<Rightarrow> string \<Rightarrow> string \<Rightarrow> 'c secure_channel \<Rightarrow> bool \<times> 'c secure_channel" where
  "Channel_Send so io nonce data ch =
     (if length data > CHANNEL_MAX then (False, ch)
      else if \<not> ch_secure ch then (case op_Send io data (ch_conn ch) of (ok, c) \<Rightarrow> (ok, ch\<lparr>ch_conn := c\<rparr>))
      else let encrypted_text = Encrypt so nonce ch data in
        if encrypted_text = [] then (False, ch)
        else case op_SendRaw io (htonl_bytes (word_of_nat (length encrypted_text))) (ch_conn ch) of (ok, c) \<Rightarrow>
          if \<not> ok then (False, ch\<lparr>ch_conn := c\<rparr>)
          else case op_SendRaw io encrypted_text c of (ok, c) \<Rightarrow>
            if \<not> ok then (False, ch\<lparr>ch_conn := c\<rparr>)
            else (True, ch\<lparr>ch_conn := c, ch_txSeq := ch_txSeq ch + 1\<rparr>))"

definition strip_eol :: "string \<Rightarrow> string" where
  "strip_eol data = pop_back_if CR (pop_back_if LF data)"

text \<open>The message, or \<open>None\<close> inside for the result false; \<open>None\<close> outside when a read never returns.\<close>

definition Channel_Receive ::
    "sodium \<Rightarrow> 'c iconnection \<Rightarrow> 'c secure_channel \<Rightarrow> (string option \<times> 'c secure_channel) option" where
  "Channel_Receive so io ch =
     (if \<not> ch_secure ch then map_option (\<lambda>(r, c). (r, ch\<lparr>ch_conn := c\<rparr>)) (op_Receive io (ch_conn ch))
      else case op_ReceiveRaw io 4 (ch_conn ch) of
          None \<Rightarrow> None
        | Some (None, c) \<Rightarrow> Some (None, ch\<lparr>ch_conn := c\<rparr>)
        | Some (Some net_len, c) \<Rightarrow>
            let text_len = unat (ntohl_bytes net_len) in
            if text_len = 0 \<or> text_len > CHANNEL_MAX then Some (None, ch\<lparr>ch_conn := c\<rparr>)
            else (case op_ReceiveRaw io text_len c of
                None \<Rightarrow> None
              | Some (None, c) \<Rightarrow> Some (None, ch\<lparr>ch_conn := c\<rparr>)
              | Some (Some encrypted_text, c) \<Rightarrow>
                  (case Decrypt so encrypted_text (ch\<lparr>ch_conn := c\<rparr>) of
                     (None, ch') \<Rightarrow> Some (None, ch')
                   | (Some data, ch') \<Rightarrow> Some (Some (strip_eol data), ch'))))"

section \<open>The handshake\<close>

definition Server_DeriveKeys :: "sodium \<Rightarrow> string \<Rightarrow> string \<times> string \<Rightarrow> 'c secure_channel \<Rightarrow> 'c secure_channel option" where
  "Server_DeriveKeys so otherKey keypair ch =
     map_option (\<lambda>(rx, tx). ch\<lparr>ch_rxKey := rx, ch_txKey := tx\<rparr>) (kx_server so (fst keypair) (snd keypair) otherKey)"

definition Client_DeriveKeys :: "sodium \<Rightarrow> string \<Rightarrow> string \<times> string \<Rightarrow> 'c secure_channel \<Rightarrow> 'c secure_channel option" where
  "Client_DeriveKeys so otherKey keypair ch =
     map_option (\<lambda>(rx, tx). ch\<lparr>ch_rxKey := rx, ch_txKey := tx\<rparr>) (kx_client so (fst keypair) (snd keypair) otherKey)"

definition Server_StartTLS ::
    "sodium \<Rightarrow> 'c iconnection \<Rightarrow> string \<times> string \<Rightarrow> 'c secure_channel \<Rightarrow> (bool \<times> 'c secure_channel) option" where
  "Server_StartTLS so io keypair ch =
     (if ch_secure ch then Some (False, ch)
      else case op_ReceiveRaw io PUBLICKEYBYTES (ch_conn ch) of
          None \<Rightarrow> None
        | Some (None, c) \<Rightarrow> Some (False, ch\<lparr>ch_conn := c\<rparr>)
        | Some (Some clientPublicKey, c) \<Rightarrow>
            (case Server_DeriveKeys so clientPublicKey keypair (ch\<lparr>ch_conn := c\<rparr>) of
               None \<Rightarrow> Some (False, ch\<lparr>ch_conn := c\<rparr>)
             | Some ch' \<Rightarrow>
                 (case op_SendRaw io (fst keypair) (ch_conn ch') of (ok, c) \<Rightarrow>
                    Some (if ok then (True, enableSecure (ch'\<lparr>ch_conn := c\<rparr>)) else (False, ch'\<lparr>ch_conn := c\<rparr>)))))"

definition Client_StartTLS ::
    "sodium \<Rightarrow> 'c iconnection \<Rightarrow> string \<times> string \<Rightarrow> 'c secure_channel \<Rightarrow> (bool \<times> 'c secure_channel) option" where
  "Client_StartTLS so io keypair ch =
     (if ch_secure ch then Some (False, ch)
      else case op_SendRaw io (fst keypair) (ch_conn ch) of (ok, c) \<Rightarrow>
        if \<not> ok then Some (False, ch\<lparr>ch_conn := c\<rparr>)
        else (case op_ReceiveRaw io PUBLICKEYBYTES c of
            None \<Rightarrow> None
          | Some (None, c) \<Rightarrow> Some (False, ch\<lparr>ch_conn := c\<rparr>)
          | Some (Some serverPublicKey, c) \<Rightarrow>
              (case Client_DeriveKeys so serverPublicKey keypair (ch\<lparr>ch_conn := c\<rparr>) of
                 None \<Rightarrow> Some (False, ch\<lparr>ch_conn := c\<rparr>)
               | Some ch' \<Rightarrow> Some (True, enableSecure ch'))))"

section \<open>What libsodium documents\<close>

text \<open>
  Encryption does not fail, adds the 16 bytes of the tag and is undone by decryption with the same
  key, nonce and additional data; the two sides of a key exchange derive the same two keys.
\<close>

definition aead_laws :: "sodium \<Rightarrow> bool" where
  "aead_laws so \<longleftrightarrow> (\<forall>key nonce ad m. length nonce = NPUBBYTES \<longrightarrow>
     (\<exists>c. aead_encrypt so key nonce ad m = Some c \<and> length c = length m + ABYTES \<and>
        aead_decrypt so key nonce ad c = Some m))"

definition kx_agree :: "sodium \<Rightarrow> string \<times> string \<Rightarrow> string \<times> string \<Rightarrow> bool" where
  "kx_agree so client server \<longleftrightarrow>
     kx_server so (fst server) (snd server) (fst client) =
       map_option prod.swap (kx_client so (fst client) (snd client) (fst server))"

section \<open>Bytes of numbers\<close>

lemma code_of_char_of [simp]: "code_of (char_of n) = n mod 256" for n :: nat
  by (simp add: code_of_def)

lemma digits_eq:
  "\<forall>i < k. m div 256 ^ i mod 256 = n div 256 ^ i mod 256 \<Longrightarrow> m mod 256 ^ k = n mod 256 ^ k" for m n :: nat
proof (induction k)
  case (Suc k)
  then have "m mod 256 ^ k = n mod 256 ^ k" "m div 256 ^ k mod 256 = n div 256 ^ k mod 256" by auto
  moreover have "x mod 256 ^ Suc k = 256 ^ k * (x div 256 ^ k mod 256) + x mod 256 ^ k" for x :: nat
    using mod_mult2_eq [of x "256 ^ k" 256] by (simp add: mult.commute)
  ultimately show ?case by metis
qed simp

lemma seq_bytes_inj: "seq_bytes v = seq_bytes w \<longleftrightarrow> v = w"
proof
  assume "seq_bytes v = seq_bytes w"
  then have "map (\<lambda>i. code_of (char_of (unat v div 256 ^ i))) [0..<8] = map (\<lambda>i. code_of (char_of (unat w div 256 ^ i))) [0..<8]"
    unfolding seq_bytes_def by (metis (no_types, lifting) list.map_comp comp_apply map_eq_conv)
  then have "\<forall>i < 8. unat v div 256 ^ i mod 256 = unat w div 256 ^ i mod 256"
    unfolding map_eq_conv by simp
  from digits_eq [OF this] show "v = w"
    using unsigned_less [of v, where 'a = nat] unsigned_less [of w, where 'a = nat] by (simp add: word_eq_iff_unsigned [where 'a = nat])
qed simp

lemma htonl_bytes_length [simp]: "length (htonl_bytes w) = 4"
  by (simp add: htonl_bytes_def)

lemma base256: "((n div 16777216 * 256 + n div 65536 mod 256) * 256 + n div 256 mod 256) * 256 + n mod 256 = n" for n :: nat
proof -
  have "n = n div 256 * 256 + n mod 256" "n div 256 = n div 65536 * 256 + n div 256 mod 256"
    "n div 65536 = n div 16777216 * 256 + n div 65536 mod 256"
    using div_mult2_eq [of n 256 256] div_mult2_eq [of n 65536 256] by simp_all
  then show ?thesis by presburger
qed

lemma ntohl_htonl [simp]: "ntohl_bytes (htonl_bytes w) = w"
proof -
  have "unat w div 16777216 < 256"
    using unsigned_less [of w, where 'a = nat] by (intro less_mult_imp_div_less) simp
  then have "foldl (\<lambda>a c. a * 256 + code_of c) 0 (htonl_bytes w) = unat w"
    using base256 [of "unat w"] unfolding htonl_bytes_def by (simp add: upt_rec numeral_3_eq_3)
  then show ?thesis by (simp add: ntohl_bytes_def)
qed

end
