(* ===== verification/Mua_Laws.thy ===== *)
theory Mua_Laws
  imports Mua_Text Smtp_Dialogue Imap_Messages Imap_Utils_Laws Secure_Channel
begin

text \<open>
  The mail client against the two servers: what \<^verbatim>\<open>QuoteImap\<close> writes and the IMAP parser reads, the
  credentials of AUTH PLAIN, the dot-stuffed lines of DATA, and the literal of a FETCH reply that
  \<^verbatim>\<open>ExtractRfc822Payload\<close> cuts out.
\<close>

section \<open>Quoted arguments\<close>

lemma quoted_body_escape [simp]: "quoted_body (escape_imap s @ DQUOTE # rest) = (s, rest)"
  by (induction s) auto

lemma ParseElement_quoted: "ParseElement (QuoteImap s @ rest) = (s, rest)"
  by (simp add: ParseElement_def ParseQuoted_def QuoteImap_def)

lemma SkipWhitespace_quoted: "SkipWhitespace (QuoteImap s @ rest) = QuoteImap s @ rest"
  by (simp add: SkipWhitespace_def QuoteImap_def)

lemma QuoteImap_nonempty [simp]: "QuoteImap s \<noteq> []" "0 < length (QuoteImap s)"
  by (simp_all add: QuoteImap_def)

lemma join_quoted_shape:
  "args \<noteq> [] \<Longrightarrow> \<exists>rest. join_words (map QuoteImap args) = QuoteImap (hd args) @ rest"
  by (cases args rule: join_words.cases) auto

lemma ParseArgs_quoted: "args \<noteq> [] \<Longrightarrow> ParseArgs (join_words (map QuoteImap args)) = Some args"
proof (induction args rule: join_words.induct)
  case (2 w)
  note e = ParseElement_quoted [of w "[]", simplified] and sk = SkipWhitespace_quoted [of w "[]", simplified]
  show ?case using ParseArgs.simps [of "QuoteImap w"] e sk
    by (simp add: Let_def SkipWhitespace_def [of "[]"])
next
  case (3 w v ws)
  define t where "t = join_words (map QuoteImap (v # ws))"
  obtain r where r: "t = QuoteImap v @ r" using join_quoted_shape [of "v # ws"] by (auto simp: t_def)
  have sk: "SkipWhitespace (SP # t) = t" and ne: "t \<noteq> []"
    using SkipWhitespace_quoted [of v r] r by (simp_all add: SkipWhitespace_def)
  have IH: "ParseArgs t = Some (v # ws)" using 3 by (simp add: t_def)
  have "ParseArgs (QuoteImap w @ SP # t) = Some (w # v # ws)"
    using ParseArgs.simps [of "QuoteImap w @ SP # t"] IH ne
    by (simp add: Let_def SkipWhitespace_quoted ParseElement_quoted sk)
  then show ?case by (simp add: t_def)
qed simp

lemma find_char_notin: "c \<notin> set s \<Longrightarrow> find_char (s @ c # rest) c = Some (length s)"
  unfolding find_char_def by (induction s) auto

text \<open>
  C26. Every command line the mail client writes with quoted arguments is read back by the IMAP
  server as that command with exactly those arguments, whatever characters they hold: quotes,
  backslashes, blanks, parentheses, or none at all.
\<close>

theorem client_command_parsed:
  assumes "SP \<notin> set tag" "SP \<notin> set name" "ToUpper name \<noteq> ''UID''" "args \<noteq> []"
  shows "ImapParse (tag @ '' '' @ name @ '' '' @ join_words (map QuoteImap args)) =
     Some \<lparr>ic_tag = tag, ic_type = StringToCommandType name, ic_args = args\<rparr>"
proof -
  let ?a = "join_words (map QuoteImap args)"
  have "find_char (tag @ SP # name @ SP # ?a) SP = Some (length tag)"
    using find_char_notin [OF assms(1)] by simp
  moreover have "find_char (name @ SP # ?a) SP = Some (length name)"
    using find_char_notin [OF assms(2)] by simp
  ultimately show ?thesis
    using assms(3) ParseArgs_quoted [OF assms(4)]
    unfolding ImapParse_def by (simp add: Let_def substr_def ParseArguments_def)
qed

theorem client_command_parsed_witness:
  "ImapParse (''A1'' @ '' '' @ ''LOGIN'' @ '' '' @ join_words (map QuoteImap [''bob'', [DQUOTE, BSLASH, SP, CHR '')'']])) =
     Some \<lparr>ic_tag = ''A1'', ic_type = StringToCommandType ''LOGIN'', ic_args = [''bob'', [DQUOTE, BSLASH, SP, CHR '')'']]\<rparr>"
  by (rule client_command_parsed) (simp_all add: ToUpper_def to_upper_char_def code_of_def)

section \<open>Credentials\<close>




section \<open>The lines of a message\<close>




section \<open>The literal of a FETCH reply\<close>

text \<open>Lines with either line end.\<close>

definition line_end :: "string \<Rightarrow> bool" where
  "line_end e \<longleftrightarrow> e = CRLF \<or> e = [LF]"

lemma frame_lines_ended:
  "\<forall>(l, e) \<in> set ps. CR \<notin> set l \<and> LF \<notin> set l \<and> line_end e \<Longrightarrow>
   frame_lines (concat (map (\<lambda>(l, e). l @ e) ps) @ rest) = map fst ps @ frame_lines rest"
proof (induction ps)
  case (Cons p ps)
  obtain l e where p: "p = (l, e)" by (cases p)
  let ?rest = "concat (map (\<lambda>(l, e). l @ e) ps) @ rest"
  have l: "CR \<notin> set l" "LF \<notin> set l" and e: "e = CRLF \<or> e = [LF]"
    using Cons.prems p by (auto simp: line_end_def)
  have IH: "map (pop_back_if CR) (getlines LF ?rest) = map fst ps @ frame_lines rest" using Cons by (simp add: frame_lines_def)
  have "getlines LF ((l @ [CR]) @ LF # ?rest) = (l @ [CR]) # getlines LF ?rest"
    and "getlines LF (l @ LF # ?rest) = l # getlines LF ?rest"
    unfolding getlines_def using l by (subst getlines_acc_delim; simp)+
  moreover have "\<not> (l \<noteq> [] \<and> last l = CR)" using l(1) last_in_set by metis
  ultimately show ?case using e p IH by (auto simp: frame_lines_def pop_back_if_def)
qed simp

lemma frame_lines_last:
  assumes "CR \<notin> set l" "LF \<notin> set l" "l \<noteq> []"
  shows "frame_lines l = [l]"
proof -
  have "\<not> last l = CR" using assms(1,3) last_in_set by metis
  then show ?thesis using getlines_acc_last [of LF l "[]"] assms by (simp add: frame_lines_def getlines_def pop_back_if_def)
qed

lemma strip_eol_crlf [simp]: "strip_eol (s @ CRLF) = s"
  by (simp add: strip_eol_def pop_back_if_def butlast_append)

lemma find_last_snoc: "P c \<Longrightarrow> find_last_idx P (s @ [c]) = Some (length s)"
  by (simp add: find_last_idx_def)

lemma find_last_snoc_not: "\<not> P c \<Longrightarrow> find_last_idx P (s @ [c]) = find_last_idx P s"
  by (cases "find_idx P (rev s)") (auto simp: find_last_idx_def)

lemma find_last_append_not: "\<forall>c \<in> set t. \<not> P c \<Longrightarrow> find_last_idx P (s @ t) = find_last_idx P s"
proof (induction t rule: rev_induct)
  case (snoc c t)
  then show ?case using find_last_snoc_not [of P c "s @ t"] by simp
qed simp

lemma literal_size_line:
  assumes "int n \<le> 18446744073709551615"
  shows "literal_size (prefix @ [CHR 0x7B] @ nat_to_string n @ [CHR 0x7D]) = Some n"
proof -
  let ?d = "nat_to_string n"
  let ?line = "(prefix @ [CHR 0x7B]) @ ?d @ [CHR 0x7D]"
  have d: "?d \<noteq> []" "list_all is_digit_char ?d" "digits_value ?d = int n" using nat_to_string_digits [of n] by auto
  have nb: "\<forall>c \<in> set (?d @ [CHR 0x7D]). c \<noteq> CHR 0x7B"
    using nat_to_string_no_break [of _ n] by auto
  have close: "find_last_idx (\<lambda>c. c = CHR 0x7D) ?line = Some (length prefix + 1 + length ?d)"
    using find_last_snoc [of "\<lambda>c. c = CHR 0x7D" "CHR 0x7D" "(prefix @ [CHR 0x7B]) @ ?d"] by simp
  have opn: "find_last_idx (\<lambda>c. c = CHR 0x7B) ?line = Some (length prefix)"
    using find_last_append_not [of "?d @ [CHR 0x7D]" "\<lambda>c. c = CHR 0x7B" "prefix @ [CHR 0x7B]"] nb
      find_last_snoc [of "\<lambda>c. c = CHR 0x7B" "CHR 0x7B" prefix] by simp
  have "substr ?line (length prefix + 1) (length ?d) = ?d" by (simp add: substr_def)
  then show ?thesis
    using close opn d assms by (simp add: literal_size_def Let_def)
qed

lemma fetch_rfc822:
  "fetch_each env d args (\<lambda>_. ''('') [''RFC822''] [(n, msg)] =
     Inr (Imap_Fetch n (''(RFC822'' @ literal (GetBodyContent (ie_read_file env) msg) @ '')''))"
  by (simp add: fetch_item_def pop_back_if_def)

text \<open>That reply, and its lines in the frame the client receives, which lacks the last line end.\<close>

definition rfc822_reply :: "string \<Rightarrow> nat \<Rightarrow> string \<Rightarrow> string" where
  "rfc822_reply tag n content =
     Imap_Fetch n (''(RFC822'' @ literal content @ '')'') @ Imap_Ok tag ''Fetch completed''"

lemma rfc822_reply_lines:
  assumes "\<forall>l \<in> set ls. CR \<notin> set l \<and> LF \<notin> set l" "CR \<notin> set tag" "LF \<notin> set tag" "line_end e"
  shows "frame_lines (strip_eol (rfc822_reply tag n (concat (map (\<lambda>l. l @ e) ls)))) =
    ((''* '' @ nat_to_string n @ '' FETCH (RFC822 '') @ [CHR 0x7B] @
       nat_to_string (length (concat (map (\<lambda>l. l @ e) ls))) @ [CHR 0x7D]) # ls @ ['')'', tag @ '' OK Fetch completed'']"
    (is "frame_lines (strip_eol ?reply) = ?first # _")
proof -
  let ?all = "(?first, CRLF) # map (\<lambda>l. (l, e)) ls @ [('')'', CRLF)]"
  have "?reply = (concat (map (\<lambda>(l, e). l @ e) ?all) @ tag @ '' OK Fetch completed'') @ CRLF"
    by (simp add: rfc822_reply_def Imap_Fetch_def Imap_Ok_def literal_def comp_def)
  then have "strip_eol ?reply = concat (map (\<lambda>(l, e). l @ e) ?all) @ tag @ '' OK Fetch completed''"
    by (simp only: strip_eol_crlf)
  moreover have "\<forall>(l, e) \<in> set ?all. CR \<notin> set l \<and> LF \<notin> set l \<and> line_end e"
    using assms nat_to_string_no_break by (auto simp: line_end_def)
  moreover have "frame_lines (tag @ '' OK Fetch completed'') = [tag @ '' OK Fetch completed'']"
    using assms(2,3) by (intro frame_lines_last) auto
  ultimately show ?thesis using frame_lines_ended [of ?all "tag @ '' OK Fetch completed''"] by (simp add: comp_def)
qed

text \<open>What the reply loop takes for the end of the reply.\<close>

definition tagged_line :: "string \<Rightarrow> string \<Rightarrow> bool" where
  "tagged_line tag l \<longleftrightarrow> StartsWith l (tag @ '' OK'') \<or> StartsWith l (tag @ '' NO'') \<or> StartsWith l (tag @ '' BAD'')"

lemma scan_reply_untagged:
  "\<forall>l \<in> set ls. \<not> tagged_line tag l \<Longrightarrow>
   scan_reply tag (ls @ [tag @ '' OK Fetch completed'']) = (Some True, ls)"
  by (induction ls) (simp_all add: tagged_line_def, simp add: StartsWith_def)

lemma payload_lines_all:
  assumes "length (p @ concat (map (\<lambda>l. l @ [LF]) ls)) < n"
  shows "payload_lines n p (ls @ ms) = payload_lines n (p @ concat (map (\<lambda>l. l @ [LF]) ls)) ms"
  using assms by (induction ls arbitrary: p) (auto simp: Let_def)

lemma payload_lines_exact:
  assumes "length (p @ concat (map (\<lambda>l. l @ [LF]) ls)) = n" "ls \<noteq> []"
  shows "payload_lines n p (ls @ ms) = p @ concat (map (\<lambda>l. l @ [LF]) ls)"
  using assms
proof (induction ls arbitrary: p)
  case (Cons l ls)
  show ?case
  proof (cases "ls = []")
    case True
    then show ?thesis using Cons.prems by (simp add: Let_def)
  next
    case False
    then have "concat (map (\<lambda>l. l @ [LF]) ls) \<noteq> []" by (cases ls) auto
    then have "\<not> n \<le> length (p @ l @ [LF])" using Cons.prems by auto
    then show ?thesis using Cons.IH [of "p @ l @ [LF]"] Cons.prems False by (simp add: Let_def)
  qed
qed simp

lemma client_payload_cut:
  assumes "ls \<noteq> []" "line_end e" "literal_size f = Some (length (concat (map (\<lambda>l. l @ e) ls)))"
  shows "ExtractRfc822Payload (f # ls @ ['')'']) =
    concat (map (\<lambda>l. l @ [LF]) ls) @ (if e = [LF] then [] else take (length ls) ('')'' @ [LF]))"
proof -
  let ?content = "concat (map (\<lambda>l. l @ e) ls)" and ?lf = "concat (map (\<lambda>l. l @ [LF]) ls)"
  have len: "length ?content = length ?lf + (if e = [LF] then 0 else length ls)"
    using assms(2) by (induction ls) (auto simp: line_end_def)
  have pos: "?content \<noteq> []" using assms(1,2) by (cases ls) (auto simp: line_end_def)
  have "payload_lines (length ?content) [] (ls @ ['')'']) = ?lf @ (if e = [LF] then [] else '')'' @ [LF])"
  proof (cases "e = [LF]")
    case True
    then show ?thesis using payload_lines_exact [of "[]" ls "length ?content" "['')'']"] len assms(1) by simp
  next
    case False
    then show ?thesis
      using payload_lines_all [of "[]" ls "length ?content" "['')'']"] len assms(1) by (simp add: Let_def)
  qed
  then show ?thesis using assms(3) len pos by (simp add: ExtractRfc822Payload_def)
qed

text \<open>
  A message whose lines end in LF, as the SMTP server stores them, is cut out of the reply exactly
  as it is in its file. A message whose lines end in CRLF is not: the client counts the octets of
  the literal on lines whose ends it has shortened, so it gets other line ends and, behind the
  message, the closing parenthesis of the reply.
\<close>

lemma fetched_by_client:
  assumes "ls \<noteq> []" "e = [LF] \<or> e = CRLF" "fst (nextTag c) = tag"
    and "\<forall>l \<in> set ls. CR \<notin> set l \<and> LF \<notin> set l \<and> \<not> tagged_line tag l"
    and "int (length (concat (map (\<lambda>l. l @ e) ls))) \<le> 18446744073709551615"
  shows "\<exists>untagged. scan_reply tag (frame_lines (strip_eol (rfc822_reply tag n (concat (map (\<lambda>l. l @ e) ls))))) = (Some True, untagged) \<and>
    ExtractRfc822Payload untagged =
      concat (map (\<lambda>l. l @ [LF]) ls) @ (if e = [LF] then [] else take (length ls) ('')'' @ [LF]))"
proof (intro exI conjI)
  let ?content = "concat (map (\<lambda>l. l @ e) ls)"
  let ?first = "(''* '' @ nat_to_string n @ '' FETCH (RFC822 '') @ [CHR 0x7B] @ nat_to_string (length ?content) @ [CHR 0x7D]"
  have e: "line_end e" using assms(2) by (auto simp: line_end_def)
  obtain t where tag: "tag = CHR ''A'' # t" "CR \<notin> set tag" "LF \<notin> set tag"
    using assms(3) nat_to_string_no_break [of _ "unat (c + 1)"] by (auto simp: nextTag_def)
  have "scan_reply tag ((?first # ls @ ['')'']) @ [tag @ '' OK Fetch completed'']) = (Some True, ?first # ls @ ['')''])"
    using assms(4) tag(1) by (intro scan_reply_untagged) (auto simp: tagged_line_def StartsWith_def)
  then show "scan_reply tag (frame_lines (strip_eol (rfc822_reply tag n ?content))) = (Some True, ?first # ls @ ['')''])"
    using rfc822_reply_lines [OF _ tag(2,3) e, of ls n] assms(4) by simp
  have "literal_size ?first = Some (length ?content)" using assms(5) by (rule literal_size_line)
  then show "ExtractRfc822Payload (?first # ls @ ['')'']) =
      concat (map (\<lambda>l. l @ [LF]) ls) @ (if e = [LF] then [] else take (length ls) ('')'' @ [LF]))"
    by (rule client_payload_cut [OF assms(1) e])
qed

lemma crlf_message_example:
  "\<exists>untagged. scan_reply ''A1'' (frame_lines (strip_eol (rfc822_reply ''A1'' 1 (''Hi'' @ CRLF @ ''Bye'' @ CRLF)))) = (Some True, untagged) \<and>
    ExtractRfc822Payload untagged = ''Hi'' @ [LF] @ ''Bye'' @ [LF] @ '')'' @ [LF]"
proof -
  have "fst (nextTag 0) = ''A1''" by code_simp
  then show ?thesis
    using fetched_by_client [of "[''Hi'', ''Bye'']" CRLF 0 "''A1''" 1] by (simp add: tagged_line_def StartsWith_def)
qed

text \<open>
  The condition on the lines is needed: a line of the message that starts like the client's
  tagged reply ends the reply loop, and the rest of the message is missing without an error.
\<close>

lemma tagged_line_cuts_message:
  "case scan_reply ''A1'' (frame_lines (strip_eol (rfc822_reply ''A1'' 1 (''Hi'' @ [LF] @ ''A1 OK'' @ [LF] @ ''Bye'' @ [LF])))) of
     (r, untagged) \<Rightarrow> r = Some True \<and> ExtractRfc822Payload untagged = ''Hi'' @ [LF]"
  by code_simp

end
