(* ===== verification/Mua_Worker.thy ===== *)
theory Mua_Worker
  imports Mua_Text Mime_Builder Secure_Channel Base64_Stream "HOL-Library.Monad_Syntax"
begin

text \<open>
  \<^verbatim>\<open>mua/core/MailWorker.cpp\<close>: the thread of the mail client that runs the commands of the front end
  over its SMTP and IMAP connections.

  \<^item> The network is the list \<open>mw_events\<close>: what each later \<^verbatim>\<open>Connect\<close> gives (a connection with the bytes
    that will arrive on it, or a failure) and when the application asks the worker to stop.
  \<^item> Random nonces, key pairs, files and the inputs of the MIME builder are the parameter
    \<open>client_env\<close>, indexed by the counter \<open>mw_random\<close> where they differ from call to call.
  \<^item> An operation returns \<open>None\<close> when it never returns: a read without an end, or a reconnection that
    never succeeds and is never stopped.
  \<^item> \<open>mw_results\<close> are the calls of \<^verbatim>\<open>m_onResult\<close>, \<open>mw_log\<close> the texts given to a connection with whether it
    was encrypted, \<open>mw_files\<close> the files written. \<open>mw_crash\<close> is an exception that leaves the thread.
  \<^item> \<^verbatim>\<open>m_imapConnection\<close> and \<^verbatim>\<open>m_imapSecureConnection\<close> are one link, plain or secured: the second refers
    to the first and is reset with it. \<^verbatim>\<open>m_smtpConnection\<close> is never set.
\<close>

section \<open>Data\<close>

datatype link = Plain connection | Secured "connection secure_channel"

datatype net_event = Connects "connection option" | Stop_Request

record mail_summary =
  su_mailId :: int
  su_isSeen :: bool
  su_isFlagged :: bool
  su_subject :: string
  su_date :: string

record attachment_info =
  ai_fileName :: string
  ai_mimeType :: string
  ai_sizeBytes :: nat

record mail_details =
  md_mailId :: int
  md_isSeen :: bool
  md_isFlagged :: bool
  md_sender :: string
  md_to :: "string list"
  md_cc :: "string list"
  md_bcc :: "string list"
  md_replyTo :: "string list"
  md_subject :: string
  md_date :: string
  md_messageId :: string
  md_inReplyTo :: string
  md_references :: string
  md_plainBody :: string
  md_htmlBody :: string
  md_body :: string
  md_attachments :: "attachment_info list"

datatype mail_result =
    ConnectResult bool string
  | DisconnectResult bool string
  | SendMailResult bool string
  | FetchMailsResult bool string "mail_summary list"
  | FetchMailResult bool string mail_details
  | FetchFoldersResult bool string "string list"
  | DownloadAttachmentResult bool string string string nat
  | ReconnectStateResult bool u32 string
  | MailActionResult bool string

record connect_command =
  cc_SMTPhost :: string
  cc_SMTPport :: "16 word"
  cc_IMAPhost :: string
  cc_IMAPport :: "16 word"
  cc_username :: string
  cc_password :: string

datatype mail_command =
    ConnectCommand connect_command
  | DisconnectCommand
  | SendMailCommand send_mail_command
  | FetchMailsCommand string u32 u32
  | FetchMailCommand int
  | DeleteMailCommand int
  | MarkMailReadCommand int
  | MoveMailCommand int string
  | DownloadAttachmentCommand int nat string
  | FetchFoldersCommand
  | CreateFolderCommand string
  | DeleteFolderCommand string
  | AddLabelCommand int string
  | RemoveLabelCommand int string
  | MarkMailStarredCommand int bool
  | MarkMailImportantCommand int bool

record mail_worker =
  mw_events :: "net_event list"
  mw_stop :: bool
  mw_random :: nat
  mw_connector :: bool
  mw_imap :: "link option"
  mw_tagCounter :: u32
  mw_currentFolder :: string
  mw_smtpHost :: string
  mw_smtpPort :: "16 word"
  mw_smtpUsername :: string
  mw_smtpPassword :: string
  mw_imapHost :: string
  mw_imapPort :: "16 word"
  mw_imapUsername :: string
  mw_imapPassword :: string
  mw_results :: "mail_result list"
  mw_log :: "(bool \<times> string) list"
  mw_files :: "(string \<times> byte list) list"
  mw_crash :: "cpp_error option"

record client_env =
  ce_sodium :: sodium
  ce_nonce :: "nat \<Rightarrow> string"
  ce_keys :: "nat \<Rightarrow> string \<times> string"
  ce_mime :: "nat \<Rightarrow> mime_env"
  ce_file :: "string \<Rightarrow> byte list option"
  ce_is_directory :: "string \<Rightarrow> bool"
  ce_create_directories :: "string \<Rightarrow> bool"
  ce_open :: "string \<Rightarrow> bool"
  ce_write :: "string \<Rightarrow> bool"

definition emit :: "mail_result \<Rightarrow> mail_worker \<Rightarrow> mail_worker" where
  "emit r s = s\<lparr>mw_results := mw_results s @ [r]\<rparr>"

definition draw :: "mail_worker \<Rightarrow> mail_worker" where
  "draw s = s\<lparr>mw_random := mw_random s + 1\<rparr>"

definition reportReconnectState :: "bool \<Rightarrow> u32 \<Rightarrow> string \<Rightarrow> mail_worker \<Rightarrow> mail_worker" where
  "reportReconnectState reconnecting attempt message s = emit (ReconnectStateResult reconnecting attempt message) s"

definition next_tag :: "mail_worker \<Rightarrow> string \<times> mail_worker" where
  "next_tag s = (fst (nextTag (mw_tagCounter s)), s\<lparr>mw_tagCounter := snd (nextTag (mw_tagCounter s))\<rparr>)"

text \<open>A stop request that has come sets \<^verbatim>\<open>m_stopRequested\<close> for good.\<close>

fun stop_requests :: "net_event list \<Rightarrow> bool \<times> net_event list" where
  "stop_requests (Stop_Request # es) = (True, snd (stop_requests es))"
| "stop_requests es = (False, es)"

definition see_stop :: "mail_worker \<Rightarrow> mail_worker" where
  "see_stop s = (case stop_requests (mw_events s) of (stop, es) \<Rightarrow> s\<lparr>mw_stop := mw_stop s \<or> stop, mw_events := es\<rparr>)"

definition take_connect :: "mail_worker \<Rightarrow> connection option \<times> mail_worker" where
  "take_connect s =
     (let s' = see_stop s in
      case mw_events s' of Connects c # es \<Rightarrow> (c, s'\<lparr>mw_events := es\<rparr>) | _ \<Rightarrow> (None, s'))"

section \<open>Links\<close>

fun is_secured :: "link \<Rightarrow> bool" where
  "is_secured (Plain c) = False"
| "is_secured (Secured ch) = ch_secure ch"

fun link_send :: "client_env \<Rightarrow> string \<Rightarrow> string \<Rightarrow> link \<Rightarrow> bool \<times> link" where
  "link_send env nonce data (Plain c) = map_prod id Plain (Socket_Send data c)"
| "link_send env nonce data (Secured ch) = map_prod id Secured (Channel_Send (ce_sodium env) SocketConnection nonce data ch)"

fun link_receive :: "client_env \<Rightarrow> link \<Rightarrow> (string option \<times> link) option" where
  "link_receive env (Plain c) = map_option (map_prod id Plain) (Socket_Receive c)"
| "link_receive env (Secured ch) = map_option (map_prod id Secured) (Channel_Receive (ce_sodium env) SocketConnection ch)"

definition send_on :: "client_env \<Rightarrow> string \<Rightarrow> link \<Rightarrow> mail_worker \<Rightarrow> bool \<times> link \<times> mail_worker" where
  "send_on env data l s =
     (case link_send env (ce_nonce env (mw_random s)) data l of (ok, l') \<Rightarrow>
        (ok, l', (draw s)\<lparr>mw_log := mw_log s @ [(is_secured l, data)]\<rparr>))"

text \<open>A new \<^verbatim>\<open>ClientSecureChannel\<close> on a connection and its handshake.\<close>

definition upgrade :: "client_env \<Rightarrow> connection \<Rightarrow> mail_worker \<Rightarrow> (link option \<times> mail_worker) option" where
  "upgrade env c s =
     map_option (\<lambda>(ok, ch). (if ok then Some (Secured ch) else None, draw s))
       (Client_StartTLS (ce_sodium env) SocketConnection (ce_keys env (mw_random s)) (SecureChannel c))"

section \<open>SMTP\<close>

partial_function (option) read_continuation ::
    "client_env \<Rightarrow> string \<Rightarrow> string list \<Rightarrow> link \<Rightarrow> ((bool \<times> string list) \<times> link) option" where
  "read_continuation env finalPrefix lines l =
     (case link_receive env l of
        None \<Rightarrow> None
      | Some (None, l') \<Rightarrow> Some ((False, lines), l')
      | Some (Some chunk, l') \<Rightarrow>
          if list_ex (\<lambda>x. StartsWith x finalPrefix) (logical_lines chunk) then Some ((True, lines @ logical_lines chunk), l')
          else read_continuation env finalPrefix (lines @ logical_lines chunk) l')"

definition ReadSmtpResponse :: "client_env \<Rightarrow> link \<Rightarrow> ((bool \<times> string list) \<times> link) option" where
  "ReadSmtpResponse env l =
     (case link_receive env l of
        None \<Rightarrow> None
      | Some (None, l') \<Rightarrow> Some ((False, []), l')
      | Some (Some chunk, l') \<Rightarrow>
          (case logical_lines chunk of
             [] \<Rightarrow> Some ((False, []), l')
           | first # rest \<Rightarrow>
               (case TryParseSmtpCode first of
                  None \<Rightarrow> Some ((True, first # rest), l')
                | Some code \<Rightarrow>
                    if length first < 4 \<or> first ! 3 \<noteq> CHR ''-'' then Some ((True, first # rest), l')
                    else let finalPrefix = int_to_string code @ '' '' in
                      if list_ex (\<lambda>x. StartsWith x finalPrefix) (first # rest) then Some ((True, first # rest), l')
                      else read_continuation env finalPrefix (first # rest) l')))"

text \<open>
  \<^verbatim>\<open>sendPlainSmtp\<close>, \<^verbatim>\<open>sendSecureSmtp\<close>, \<^verbatim>\<open>sendPlain\<close> and \<^verbatim>\<open>sendLine\<close>: a line, and whether the reply has one of the
  codes. When the line could not be sent, the lines of the reply before it stay.
\<close>

definition smtp_exchange ::
    "client_env \<Rightarrow> string \<Rightarrow> int list \<Rightarrow> string list \<Rightarrow> link \<Rightarrow> mail_worker \<Rightarrow> (bool \<times> string list \<times> link \<times> mail_worker) option" where
  "smtp_exchange env line okCodes response l s =
     (case send_on env (line @ CRLF) l s of
        (False, l', s') \<Rightarrow> Some (False, response, l', s')
      | (True, l', s') \<Rightarrow>
          map_option (\<lambda>((got, lines), l''). (got \<and> GetSmtpCode lines \<in> set okCodes, lines, l'', s')) (ReadSmtpResponse env l'))"

text \<open>Greeting, EHLO, STARTTLS, handshake, EHLO and AUTH PLAIN; \<open>Inl\<close> the error text.\<close>

record session_errors =
  se_greeting :: string
  se_ehlo :: string
  se_starttls :: string
  se_handshake :: string
  se_ehlo2 :: string
  se_auth :: string

definition smtp_open ::
    "client_env \<Rightarrow> connection \<Rightarrow> string \<Rightarrow> string \<Rightarrow> session_errors \<Rightarrow> (string list \<Rightarrow> string) \<Rightarrow> mail_worker \<Rightarrow>
     ((string + (string list \<times> link)) \<times> mail_worker) option" where
  "smtp_open env c username password errs payload_error s =
     do {
       ((got, resp0), l0) \<leftarrow> ReadSmtpResponse env (Plain c);
       if \<not> (got \<and> GetSmtpCode resp0 = 220) then Some (Inl (se_greeting errs), s)
       else do {
         (ok1, resp1, l1, s1) \<leftarrow> smtp_exchange env (''EHLO '' @ username) [250] resp0 l0 s;
         if \<not> ok1 then Some (Inl (se_ehlo errs @ JoinSmtpLines resp1), s1)
         else do {
           (ok2, resp2, l2, s2) \<leftarrow> smtp_exchange env ''STARTTLS'' [220] resp1 l1 s1;
           if \<not> ok2 then Some (Inl (se_starttls errs @ JoinSmtpLines resp2), s2)
           else do {
             (l3, s3) \<leftarrow> (case l2 of Plain c' \<Rightarrow> upgrade env c' s2 | Secured ch \<Rightarrow> Some (None, s2));
             case l3 of
               None \<Rightarrow> Some (Inl (se_handshake errs), s3)
             | Some l3 \<Rightarrow> do {
                 (ok4, resp4, l4, s4) \<leftarrow> smtp_exchange env (''EHLO '' @ username) [250] resp2 l3 s3;
                 if \<not> ok4 then Some (Inl (se_ehlo2 errs @ JoinSmtpLines resp4), s4)
                 else (case BuildSmtpPlainAuthPayload username password of
                    None \<Rightarrow> Some (Inl (payload_error resp4), s4)
                  | Some authPayload \<Rightarrow> do {
                      (ok5, resp5, l5, s5) \<leftarrow> smtp_exchange env (''AUTH PLAIN '' @ authPayload) [235] resp4 l4 s4;
                      if \<not> ok5 then Some (Inl (se_auth errs @ JoinSmtpLines resp5), s5)
                      else Some (Inr (resp5, l5), s5)
                    })
               }
           }
         }
       }
     }"

definition auth_errors :: session_errors where
  "auth_errors = \<lparr>se_greeting = ''SMTP greeting failed'', se_ehlo = ''SMTP EHLO failed: '', se_starttls = ''SMTP STARTTLS failed: '',
     se_handshake = ''SMTP TLS handshake failed'', se_ehlo2 = ''SMTP EHLO after STARTTLS failed: '', se_auth = ''SMTP AUTH failed: ''\<rparr>"

definition authenticateSmtp :: "client_env \<Rightarrow> connection \<Rightarrow> string \<Rightarrow> string \<Rightarrow> mail_worker \<Rightarrow> (string option \<times> mail_worker) option" where
  "authenticateSmtp env c username password s =
     map_option (\<lambda>(r, s'). (case r of Inl e \<Rightarrow> Some e | Inr _ \<Rightarrow> None, s'))
       (smtp_open env c username password auth_errors (\<lambda>_. ''SMTP AUTH payload build failed'') s)"

section \<open>IMAP login and reconnection\<close>

text \<open>The reply loop of \<^verbatim>\<open>loginImap\<close>: \<open>None\<close> inside when a receive failed, else whether the reply was OK.\<close>

partial_function (option) login_reply :: "client_env \<Rightarrow> string \<Rightarrow> link \<Rightarrow> (bool option \<times> link) option" where
  "login_reply env tag l =
     (case link_receive env l of
        None \<Rightarrow> None
      | Some (None, l') \<Rightarrow> Some (None, l')
      | Some (Some line, l') \<Rightarrow>
          if StartsWith line (tag @ '' OK'') then Some (Some True, l')
          else if StartsWith line (tag @ '' NO'') \<or> StartsWith line (tag @ '' BAD'') then Some (Some False, l')
          else login_reply env tag l')"

definition loginImap :: "client_env \<Rightarrow> string \<Rightarrow> string \<Rightarrow> mail_worker \<Rightarrow> (string option \<times> mail_worker) option" where
  "loginImap env username password s =
     (case take_connect s of
        (None, s1) \<Rightarrow> Some (Some ''Failed to connect to IMAP server'', s1)
      | (Some c, s1) \<Rightarrow> do {
          (banner, l1) \<leftarrow> link_receive env (Plain c);
          if banner = None then Some (Some ''IMAP banner not received'', s1\<lparr>mw_imap := None\<rparr>)
          else case next_tag s1 of (tlsTag, s2) \<Rightarrow>
            case send_on env (tlsTag @ '' STARTTLS'' @ CRLF) l1 s2 of (ok, l2, s3) \<Rightarrow>
              if \<not> ok then Some (Some ''IMAP STARTTLS send failed'', s3\<lparr>mw_imap := None\<rparr>)
              else do {
                (reply, l3) \<leftarrow> link_receive env l2;
                if reply = None \<or> \<not> contains_sub (the reply) (tlsTag @ '' OK'')
                then Some (Some (''IMAP STARTTLS rejected: '' @ (case reply of None \<Rightarrow> [] | Some r \<Rightarrow> r)), s3\<lparr>mw_imap := None\<rparr>)
                else do {
                  (l4, s4) \<leftarrow> (case l3 of Plain c' \<Rightarrow> upgrade env c' s3 | Secured ch \<Rightarrow> Some (None, s3));
                  case l4 of
                    None \<Rightarrow> Some (Some ''IMAP TLS handshake failed'', s4\<lparr>mw_imap := None\<rparr>)
                  | Some l4 \<Rightarrow>
                      (case next_tag s4 of (tag, s5) \<Rightarrow>
                        case send_on env (login_line tag username password @ CRLF) l4 s5 of (ok, l5, s6) \<Rightarrow>
                          if \<not> ok then Some (Some ''IMAP login send failed'', s6\<lparr>mw_imap := None\<rparr>)
                          else do {
                            (r, l6) \<leftarrow> login_reply env tag l5;
                            Some (case r of
                                None \<Rightarrow> (Some ''IMAP login receive failed'', s6\<lparr>mw_imap := None\<rparr>)
                              | Some False \<Rightarrow> (Some ''IMAP login failed (server returned NO/BAD)'', s6\<lparr>mw_imap := None\<rparr>)
                              | Some True \<Rightarrow> (None, s6\<lparr>mw_imap := Some l6\<rparr>))
                          })
                }
              }
        })"

text \<open>One round of the loop of \<^verbatim>\<open>reconnectSession\<close>: the error text, or \<open>None\<close> for success.\<close>

definition reconnect_round :: "client_env \<Rightarrow> mail_worker \<Rightarrow> (string option \<times> mail_worker) option" where
  "reconnect_round env s =
     (case take_connect (s\<lparr>mw_imap := None\<rparr>) of
        (None, s1) \<Rightarrow> Some (Some ''Failed to reconnect to SMTP'', s1)
      | (Some c, s1) \<Rightarrow> do {
          (err, s2) \<leftarrow> authenticateSmtp env c (mw_smtpUsername s1) (mw_smtpPassword s1) s1;
          if err \<noteq> None then Some (err, s2) else loginImap env (mw_imapUsername s2) (mw_imapPassword s2) s2
        })"

partial_function (option) reconnect_loop :: "client_env \<Rightarrow> u32 \<Rightarrow> mail_worker \<Rightarrow> (string option \<times> mail_worker) option" where
  "reconnect_loop env attempt s =
     (let s0 = see_stop s in
      if mw_stop s0
      then Some (Some ''Reconnect canceled'', reportReconnectState False 0 ''Reconnect canceled'' s0)
      else case reconnect_round env (reportReconnectState True (attempt + 1) ''Reconnecting...'' s0) of
          None \<Rightarrow> None
        | Some (None, s1) \<Rightarrow>
            Some (None, reportReconnectState False (attempt + 1) ''Reconnected'' (s1\<lparr>mw_tagCounter := 0, mw_currentFolder := []\<rparr>))
        | Some (Some error, s1) \<Rightarrow>
            reconnect_loop env (attempt + 1)
              (reportReconnectState True (attempt + 1) (if error = [] then ''Reconnect failed'' else error) s1))"

definition reconnectSession :: "client_env \<Rightarrow> mail_worker \<Rightarrow> (string option \<times> mail_worker) option" where
  "reconnectSession env s =
     (if mw_smtpHost s = [] \<or> mw_smtpPort s = 0 \<or> mw_smtpUsername s = [] \<or> mw_imapHost s = [] \<or> mw_imapPort s = 0
      then Some (Some ''Reconnection settings are not initialized'', s)
      else reconnect_loop env 0 (s\<lparr>mw_connector := True\<rparr>))"

section \<open>IMAP commands\<close>

text \<open>The reply loop of \<^verbatim>\<open>imapExchange\<close>: \<open>None\<close> inside when a receive failed, with the untagged lines so far.\<close>

partial_function (option) exchange_reply ::
    "client_env \<Rightarrow> string \<Rightarrow> string list \<Rightarrow> link \<Rightarrow> ((bool option \<times> string list) \<times> link) option" where
  "exchange_reply env tag untagged l =
     (case link_receive env l of
        None \<Rightarrow> None
      | Some (None, l') \<Rightarrow> Some ((None, untagged), l')
      | Some (Some frame, l') \<Rightarrow>
          (case scan_reply tag (frame_lines frame) of
             (Some ok, ls) \<Rightarrow> Some ((Some ok, untagged @ ls), l')
           | (None, ls) \<Rightarrow> exchange_reply env tag (untagged @ ls) l'))"

text \<open>One attempt on a link: \<open>Inr\<close> the result, \<open>Inl\<close> the lines read before the transport failed.\<close>

definition exchange_on ::
    "client_env \<Rightarrow> string \<Rightarrow> link \<Rightarrow> mail_worker \<Rightarrow> ((string list + bool \<times> string list) \<times> mail_worker) option" where
  "exchange_on env cmd l s =
     (case next_tag s of (tag, s1) \<Rightarrow>
        case send_on env (tag @ '' '' @ cmd @ CRLF) l s1 of (ok, l', s2) \<Rightarrow>
          if \<not> ok then Some (Inl [], s2\<lparr>mw_imap := Some l'\<rparr>)
          else map_option (\<lambda>((r, untagged), l'').
              (case r of None \<Rightarrow> Inl untagged | Some ok \<Rightarrow> Inr (ok, untagged), s2\<lparr>mw_imap := Some l''\<rparr>))
            (exchange_reply env tag [] l'))"

text \<open>The body of the attempt loop; without a connection it reconnects first.\<close>

definition exchange_attempt ::
    "client_env \<Rightarrow> string \<Rightarrow> mail_worker \<Rightarrow> ((string list + bool \<times> string list) option \<times> mail_worker) option" where
  "exchange_attempt env cmd s =
     (case mw_imap s of
        Some l \<Rightarrow> map_option (map_prod Some id) (exchange_on env cmd l s)
      | None \<Rightarrow> do {
          (err, s1) \<leftarrow> reconnectSession env s;
          case (err, mw_imap s1) of
            (None, Some l) \<Rightarrow> map_option (map_prod Some id) (exchange_on env cmd l s1)
          | _ \<Rightarrow> Some (None, s1)
        })"

definition imapExchange :: "client_env \<Rightarrow> string \<Rightarrow> mail_worker \<Rightarrow> ((bool \<times> string list) \<times> mail_worker) option" where
  "imapExchange env cmd s =
     do {
       (r, s1) \<leftarrow> exchange_attempt env cmd s;
       case r of
         None \<Rightarrow> Some ((False, []), s1)
       | Some (Inr res) \<Rightarrow> Some (res, s1)
       | Some (Inl untagged) \<Rightarrow> do {
           (err, s2) \<leftarrow> reconnectSession env s1;
           if err \<noteq> None then Some ((False, untagged), s2)
           else do {
             (r', s3) \<leftarrow> exchange_attempt env cmd s2;
             Some (case r' of None \<Rightarrow> (False, []) | Some (Inr res) \<Rightarrow> res | Some (Inl untagged') \<Rightarrow> (False, untagged'), s3)
           }
         }
     }"

definition ensureImapConnected :: "client_env \<Rightarrow> mail_worker \<Rightarrow> (string option \<times> mail_worker) option" where
  "ensureImapConnected env s = (if mw_imap s \<noteq> None then Some (None, s) else reconnectSession env s)"

definition ensureMailboxSelected :: "client_env \<Rightarrow> string \<Rightarrow> mail_worker \<Rightarrow> (string option \<times> mail_worker) option" where
  "ensureMailboxSelected env folderName s =
     (if mw_currentFolder s = folderName then Some (None, s)
      else do {
        ((ok, _), s1) \<leftarrow> imapExchange env (''SELECT '' @ QuoteImap folderName) s;
        Some (if \<not> ok then (Some (''SELECT '' @ folderName @ '' failed''), s1)
              else (None, s1\<lparr>mw_currentFolder := folderName\<rparr>))
      })"

definition ensureInboxSelected :: "client_env \<Rightarrow> mail_worker \<Rightarrow> (string option \<times> mail_worker) option" where
  "ensureInboxSelected env s = ensureMailboxSelected env ''INBOX'' s"

definition fetchFlagsBySeq :: "client_env \<Rightarrow> int \<Rightarrow> mail_worker \<Rightarrow> (string list \<times> mail_worker) option" where
  "fetchFlagsBySeq env mailId s =
     map_option (\<lambda>((ok, lines), s1). (if ok then lines else [], s1))
       (imapExchange env (''FETCH '' @ int_to_string mailId @ '' (FLAGS)'') s)"

fun try_fetch :: "client_env \<Rightarrow> int \<Rightarrow> string list \<Rightarrow> mail_worker \<Rightarrow> (string option \<times> mail_worker) option" where
  "try_fetch env mailId [] s = Some (None, s)"
| "try_fetch env mailId (item # items) s =
     do {
       ((ok, lines), s1) \<leftarrow> imapExchange env (''FETCH '' @ int_to_string mailId @ '' ('' @ item @ '')'') s;
       if ok \<and> ExtractRfc822Payload lines \<noteq> [] then Some (Some (ExtractRfc822Payload lines), s1)
       else try_fetch env mailId items s1
     }"

definition fetchMessagePayloadBySeq :: "client_env \<Rightarrow> int \<Rightarrow> mail_worker \<Rightarrow> (string option \<times> mail_worker) option" where
  "fetchMessagePayloadBySeq env mailId s = try_fetch env mailId [''RFC822'', ''BODY[]'', ''BODY.PEEK[]''] s"

section \<open>Handlers\<close>

definition handleConnect :: "client_env \<Rightarrow> connect_command \<Rightarrow> mail_worker \<Rightarrow> mail_worker option" where
  "handleConnect env cmd s =
     do {
       (err, s1) \<leftarrow> reconnectSession env (s\<lparr>mw_connector := True, mw_smtpHost := cc_SMTPhost cmd, mw_smtpPort := cc_SMTPport cmd,
         mw_smtpUsername := cc_username cmd, mw_smtpPassword := cc_password cmd, mw_imapHost := cc_IMAPhost cmd,
         mw_imapPort := cc_IMAPport cmd, mw_imapUsername := cc_username cmd, mw_imapPassword := cc_password cmd\<rparr>);
       Some (case err of
           Some e \<Rightarrow> emit (ConnectResult False e) s1
         | None \<Rightarrow> emit (ConnectResult True []) (s1\<lparr>mw_tagCounter := 0, mw_currentFolder := []\<rparr>))
     }"

definition handleDisconnect :: "client_env \<Rightarrow> mail_worker \<Rightarrow> mail_worker option" where
  "handleDisconnect env s =
     do {
       s1 \<leftarrow> (if mw_imap s \<noteq> None then map_option (\<lambda>(_, s1). s1\<lparr>mw_imap := None\<rparr>) (imapExchange env ''LOGOUT'' s) else Some s);
       Some (emit (DisconnectResult True []) (reportReconnectState False 0 []
         (s1\<lparr>mw_connector := False, mw_currentFolder := [], mw_tagCounter := 0, mw_smtpUsername := [], mw_smtpPassword := [],
            mw_smtpHost := [], mw_smtpPort := 0, mw_imapUsername := [], mw_imapPassword := [], mw_imapHost := [], mw_imapPort := 0\<rparr>)))
     }"

text \<open>
  Every other IMAP handler starts with \<^verbatim>\<open>ensureImapConnected\<close>; \<open>fail\<close> makes the result for its error.
\<close>

definition connected_or ::
    "client_env \<Rightarrow> (string \<Rightarrow> mail_result) \<Rightarrow> mail_worker \<Rightarrow> (mail_worker \<Rightarrow> mail_worker option) \<Rightarrow> mail_worker option" where
  "connected_or env fail s body =
     do {
       (err, s1) \<leftarrow> ensureImapConnected env s;
       case err of
         Some e \<Rightarrow> Some (emit (fail (if e = [] then ''Not connected'' else e)) s1)
       | None \<Rightarrow> body s1
     }"

definition inbox_or ::
    "client_env \<Rightarrow> (string \<Rightarrow> mail_result) \<Rightarrow> mail_worker \<Rightarrow> (mail_worker \<Rightarrow> mail_worker option) \<Rightarrow> mail_worker option" where
  "inbox_or env fail s body =
     do {
       (err, s1) \<leftarrow> ensureInboxSelected env s;
       case err of Some e \<Rightarrow> Some (emit (fail e) s1) | None \<Rightarrow> body s1
     }"

text \<open>The last command of a handler: its success is the result of the handler.\<close>

definition finish_action :: "client_env \<Rightarrow> string \<Rightarrow> string \<Rightarrow> mail_worker \<Rightarrow> mail_worker option" where
  "finish_action env cmd error s =
     do {
       ((ok, _), s1) \<leftarrow> imapExchange env cmd s;
       Some (emit (MailActionResult ok (if ok then [] else error)) s1)
     }"

text \<open>A command that has to succeed before the handler goes on.\<close>

definition require_action ::
    "client_env \<Rightarrow> string \<Rightarrow> string \<Rightarrow> mail_worker \<Rightarrow> (mail_worker \<Rightarrow> mail_worker option) \<Rightarrow> mail_worker option" where
  "require_action env cmd error s body =
     do {
       ((ok, _), s1) \<leftarrow> imapExchange env cmd s;
       if \<not> ok then Some (emit (MailActionResult False error) s1) else body s1
     }"

definition store_cmd :: "int \<Rightarrow> string \<Rightarrow> string" where
  "store_cmd mailId change = ''STORE '' @ int_to_string mailId @ '' '' @ change"

definition plus_flags :: "string \<Rightarrow> string" where
  "plus_flags flag = ''+FLAGS ('' @ flag @ '')''"

definition minus_flags :: "string \<Rightarrow> string" where
  "minus_flags flag = ''-FLAGS ('' @ flag @ '')''"

definition handleDeleteMail :: "client_env \<Rightarrow> int \<Rightarrow> mail_worker \<Rightarrow> mail_worker option" where
  "handleDeleteMail env mailId s =
     connected_or env (MailActionResult False) s (\<lambda>s1.
     inbox_or env (MailActionResult False) s1 (\<lambda>s2.
     require_action env (store_cmd mailId (plus_flags flag_Deleted)) ''STORE failed'' s2 (\<lambda>s3.
     finish_action env ''EXPUNGE'' ''EXPUNGE failed'' s3)))"

definition handleMarkMailRead :: "client_env \<Rightarrow> int \<Rightarrow> mail_worker \<Rightarrow> mail_worker option" where
  "handleMarkMailRead env mailId s =
     connected_or env (MailActionResult False) s (\<lambda>s1.
     inbox_or env (MailActionResult False) s1 (\<lambda>s2.
     finish_action env (store_cmd mailId (plus_flags flag_Seen)) ''STORE failed'' s2))"

definition copy_and_delete :: "client_env \<Rightarrow> int \<Rightarrow> string \<Rightarrow> mail_worker \<Rightarrow> mail_worker option" where
  "copy_and_delete env mailId targetFolder s =
     require_action env (''COPY '' @ int_to_string mailId @ '' '' @ QuoteImap targetFolder) ''COPY failed'' s (\<lambda>s1.
     require_action env (store_cmd mailId (plus_flags flag_Deleted)) ''STORE failed'' s1 (\<lambda>s2.
     finish_action env ''EXPUNGE'' ''EXPUNGE failed'' s2))"

definition handleMoveMail :: "client_env \<Rightarrow> int \<Rightarrow> string \<Rightarrow> mail_worker \<Rightarrow> mail_worker option" where
  "handleMoveMail env mailId targetFolder s =
     connected_or env (MailActionResult False) s (\<lambda>s1.
     inbox_or env (MailActionResult False) s1 (\<lambda>s2.
     if targetFolder = [] then Some (emit (MailActionResult False ''Target folder is empty'') s2)
     else copy_and_delete env mailId targetFolder s2))"

definition handleMarkMailStarred :: "client_env \<Rightarrow> int \<Rightarrow> bool \<Rightarrow> mail_worker \<Rightarrow> mail_worker option" where
  "handleMarkMailStarred env mailId starred s =
     connected_or env (MailActionResult False) s (\<lambda>s1.
     inbox_or env (MailActionResult False) s1 (\<lambda>s2.
     let targetFolder = (if starred then ''Starred'' else ''INBOX'') in
     if \<not> starred \<and> \<not> IsStarredFolder (mw_currentFolder s2) then Some (emit (MailActionResult True []) s2)
     else do {
       s3 \<leftarrow> (if starred then map_option snd (imapExchange env (''CREATE '' @ QuoteImap targetFolder) s2) else Some s2);
       copy_and_delete env mailId targetFolder s3
     }))"

definition handleMarkMailImportant :: "client_env \<Rightarrow> int \<Rightarrow> bool \<Rightarrow> mail_worker \<Rightarrow> mail_worker option" where
  "handleMarkMailImportant env mailId important s =
     connected_or env (MailActionResult False) s (\<lambda>s1.
     inbox_or env (MailActionResult False) s1 (\<lambda>s2.
     finish_action env (store_cmd mailId (if important then plus_flags flag_Flagged else minus_flags flag_Flagged))
       ''STORE failed'' s2))"

definition handleAddLabel :: "client_env \<Rightarrow> int \<Rightarrow> string \<Rightarrow> mail_worker \<Rightarrow> mail_worker option" where
  "handleAddLabel env mailId label s =
     connected_or env (MailActionResult False) s (\<lambda>s1.
     inbox_or env (MailActionResult False) s1 (\<lambda>s2.
     finish_action env (store_cmd mailId (plus_flags (NormalizeFlag label))) ''STORE failed'' s2))"

definition handleRemoveLabel :: "client_env \<Rightarrow> int \<Rightarrow> string \<Rightarrow> mail_worker \<Rightarrow> mail_worker option" where
  "handleRemoveLabel env mailId label s =
     connected_or env (MailActionResult False) s (\<lambda>s1.
     inbox_or env (MailActionResult False) s1 (\<lambda>s2.
     finish_action env (store_cmd mailId (minus_flags (NormalizeFlag label))) ''STORE failed'' s2))"

definition handleCreateFolder :: "client_env \<Rightarrow> string \<Rightarrow> mail_worker \<Rightarrow> mail_worker option" where
  "handleCreateFolder env folderName s =
     connected_or env (MailActionResult False) s (finish_action env (''CREATE '' @ QuoteImap folderName) ''CREATE failed'')"

definition handleDeleteFolder :: "client_env \<Rightarrow> string \<Rightarrow> mail_worker \<Rightarrow> mail_worker option" where
  "handleDeleteFolder env folderName s =
     connected_or env (MailActionResult False) s (\<lambda>s1. do {
       ((ok, _), s2) \<leftarrow> imapExchange env (''DELETE '' @ QuoteImap folderName) s1;
       let s3 = (if ok \<and> mw_currentFolder s2 = folderName then s2\<lparr>mw_currentFolder := []\<rparr> else s2);
       Some (emit (MailActionResult ok (if ok then [] else ''DELETE failed'')) s3)
     })"

end
