(* ===== verification/Mua_Handlers.thy ===== *)
theory Mua_Handlers
  imports Mua_Worker
begin

text \<open>
  The handlers of \<^verbatim>\<open>mua/core/MailWorker.cpp\<close> that carry messages (\<^verbatim>\<open>handleSendMail\<close>, the fetches, the
  download of an attachment), \<^verbatim>\<open>MailWorker::run\<close>, and \<^verbatim>\<open>mua/core/CommandQueue.cpp\<close> between the front
  end and the worker.
\<close>

section \<open>Sending a message\<close>

definition send_errors :: session_errors where
  "send_errors = \<lparr>se_greeting = ''SMTP greeting failed'', se_ehlo = ''EHLO failed: '', se_starttls = ''STARTTLS failed: '',
     se_handshake = ''TLS handshake failed'', se_ehlo2 = ''EHLO after STARTTLS failed: '', se_auth = ''AUTH failed: ''\<rparr>"

text \<open>The connection of \<^verbatim>\<open>handleSendMail\<close>: one more attempt after a reconnection.\<close>

definition smtp_connect :: "client_env \<Rightarrow> mail_worker \<Rightarrow> (connection option \<times> mail_worker) option" where
  "smtp_connect env s =
     (case take_connect s of
        (Some c, s1) \<Rightarrow> Some (Some c, s1)
      | (None, s1) \<Rightarrow> do {
          (err, s2) \<leftarrow> reconnectSession env s1;
          Some (if err \<noteq> None then (None, s2) else take_connect s2)
        })"

fun send_recipients :: "client_env \<Rightarrow> string list \<Rightarrow> string list \<Rightarrow> link \<Rightarrow> mail_worker \<Rightarrow> (bool \<times> link \<times> mail_worker) option" where
  "send_recipients env [] response l s = Some (True, l, s)"
| "send_recipients env (rcpt # rcpts) response l s =
     do {
       (ok, resp, l1, s1) \<leftarrow> smtp_exchange env (''RCPT TO:<'' @ rcpt @ ''>'') [250, 251] response l s;
       if \<not> ok then Some (False, l1, s1) else send_recipients env rcpts resp l1 s1
     }"

fun send_data_lines :: "client_env \<Rightarrow> string list \<Rightarrow> link \<Rightarrow> mail_worker \<Rightarrow> bool \<times> link \<times> mail_worker" where
  "send_data_lines env [] l s = (True, l, s)"
| "send_data_lines env (line # lines) l s =
     (case send_on env (line @ CRLF) l s of
        (False, l1, s1) \<Rightarrow> (False, l1, s1)
      | (True, l1, s1) \<Rightarrow> send_data_lines env lines l1 s1)"

text \<open>
  The attachments of the message: \<open>Inl\<close> an exception of \<^verbatim>\<open>EncodeFile\<close>, which nothing catches, or the path
  of a file whose encoding is empty.
\<close>

fun collect_attachments :: "client_env \<Rightarrow> string list \<Rightarrow> (cpp_error + string) + attachment list" where
  "collect_attachments env [] = Inr []"
| "collect_attachments env (path # paths) =
     (if path = [] then collect_attachments env paths
      else case EncodeFile (ce_file env path) of
        Inl e \<Rightarrow> Inl (Inl e)
      | Inr encoded \<Rightarrow>
          if encoded = [] then Inl (Inr path)
          else let fileName = path_filename path in
            map_sum id (\<lambda>as. make_attachment (if fileName = [] then path else fileName) [] encoded # as)
              (collect_attachments env paths))"

definition mail_email :: "send_mail_command \<Rightarrow> attachment list \<Rightarrow> email" where
  "mail_email cmd atts =
     new_email\<lparr>sender := sm_sender cmd, to_addrs := (if sm_to cmd \<noteq> [] then sm_to cmd else sm_recipients cmd),
       cc_addrs := sm_cc cmd, bcc_addrs := sm_bcc cmd, subject := sm_subject cmd, plain_text := sm_body cmd,
       html_text := sm_htmlBody cmd, attachments := atts\<rparr>"

text \<open>What \<^verbatim>\<open>handleSendMail\<close> does behind the 354 reply: \<open>Inl\<close> an exception, else the result.\<close>

definition send_message :: "client_env \<Rightarrow> send_mail_command \<Rightarrow> link \<Rightarrow> mail_worker \<Rightarrow> ((cpp_error + mail_result) \<times> mail_worker) option" where
  "send_message env cmd l s =
     (case collect_attachments env (sm_attachments cmd) of
        Inl (Inl e) \<Rightarrow> Some (Inl e, s)
      | Inl (Inr path) \<Rightarrow> Some (Inr (SendMailResult False (''Attachment encode failed: '' @ path)), s)
      | Inr atts \<Rightarrow> do {
          built \<leftarrow> BuildEmail (ce_mime env (mw_random s)) (mail_email cmd atts);
          case built of
            Inl e \<Rightarrow> Some (Inl e, draw s)
          | Inr None \<Rightarrow> Some (Inr (SendMailResult False ''Failed to build MIME message''), draw s)
          | Inr (Some mimePayload) \<Rightarrow>
              (case send_data_lines env (data_lines mimePayload) l (draw s) of
                 (False, _, s1) \<Rightarrow> Some (Inr (SendMailResult False ''Failed to send MIME payload''), s1)
               | (True, l1, s1) \<Rightarrow>
                   (case send_on env (''.'' @ CRLF) l1 s1 of
                      (False, _, s2) \<Rightarrow> Some (Inr (SendMailResult False ''Failed to terminate DATA''), s2)
                    | (True, l2, s2) \<Rightarrow> do {
                        ((got, resp), l3) \<leftarrow> ReadSmtpResponse env l2;
                        if \<not> got then Some (Inr (SendMailResult False ''Message body transfer failed''), s2)
                        else if GetSmtpCode resp \<noteq> 250
                        then Some (Inr (SendMailResult False (''Message rejected: '' @ JoinSmtpLines resp)), s2)
                        else Some (Inr (SendMailResult True []), snd (snd (send_on env (''QUIT'' @ CRLF) l3 s2)))
                      }))
        })"

text \<open>From the reply to AUTH on.\<close>

definition send_envelope ::
    "client_env \<Rightarrow> send_mail_command \<Rightarrow> string list \<Rightarrow> link \<Rightarrow> mail_worker \<Rightarrow> ((cpp_error + mail_result) \<times> mail_worker) option" where
  "send_envelope env cmd resp l s =
     do {
       (ok1, resp1, l1, s1) \<leftarrow> smtp_exchange env (''MAIL FROM:<'' @ sm_sender cmd @ ''>'') [250] resp l s;
       if \<not> ok1 then Some (Inr (SendMailResult False ''MAIL FROM failed''), s1)
       else if CollectRecipients cmd = [] then Some (Inr (SendMailResult False ''No recipients provided''), s1)
       else do {
         (ok2, l2, s2) \<leftarrow> send_recipients env (CollectRecipients cmd) resp1 l1 s1;
         if \<not> ok2 then Some (Inr (SendMailResult False ''RCPT TO failed''), s2)
         else do {
           (ok3, resp3, l3, s3) \<leftarrow> smtp_exchange env ''DATA'' [354] [] l2 s2;
           if \<not> ok3 then Some (Inr (SendMailResult False ''DATA failed''), s3) else send_message env cmd l3 s3
         }
       }
     }"

definition handleSendMail :: "client_env \<Rightarrow> send_mail_command \<Rightarrow> mail_worker \<Rightarrow> mail_worker option" where
  "handleSendMail env cmd s =
     (if mw_smtpHost s = [] \<or> \<not> mw_connector s \<or> mw_smtpUsername s = []
      then Some (emit (SendMailResult False ''Not connected - call connect first'') s)
      else do {
        (conn, s1) \<leftarrow> smtp_connect env s;
        case conn of
          None \<Rightarrow> Some (emit (SendMailResult False ''Failed to reconnect to SMTP'') s1)
        | Some c \<Rightarrow> do {
            (opened, s2) \<leftarrow> smtp_open env c (mw_smtpUsername s1) (mw_smtpPassword s1) send_errors
              (\<lambda>resp. ''AUTH failed: '' @ JoinSmtpLines resp) s1;
            case opened of
              Inl e \<Rightarrow> Some (emit (SendMailResult False e) s2)
            | Inr (resp, l) \<Rightarrow> do {
                (sent, s3) \<leftarrow> send_envelope env cmd resp l s2;
                Some (case sent of Inl e \<Rightarrow> s3\<lparr>mw_crash := Some e\<rparr> | Inr r \<Rightarrow> emit r s3)
              }
          }
      })"

section \<open>Fetching\<close>

text \<open>
  The text between the last two quotes of a line. For a single quote at the start, \<^verbatim>\<open>pos - 1\<close> wraps: the
  search finds that quote again and the text is the rest of the line.
\<close>

definition quoted_folder :: "string \<Rightarrow> string option" where
  "quoted_folder line =
     (case find_last_idx (\<lambda>c. c = DQUOTE) line of
        None \<Rightarrow> None
      | Some pos \<Rightarrow>
          if pos = 0 then Some (drop 1 line)
          else map_option (\<lambda>start. substr line (start + 1) (pos - start - 1)) (find_last_idx (\<lambda>c. c = DQUOTE) (take pos line)))"

definition handleFetchFolders :: "client_env \<Rightarrow> mail_worker \<Rightarrow> mail_worker option" where
  "handleFetchFolders env s =
     connected_or env (\<lambda>e. FetchFoldersResult False e []) s (\<lambda>s1. do {
       ((ok, lines), s2) \<leftarrow> imapExchange env (''LIST '' @ [DQUOTE, DQUOTE, SP, DQUOTE] @ ''*'' @ [DQUOTE]) s1;
       Some (emit (if ok then FetchFoldersResult True [] (List.map_filter quoted_folder lines)
                   else FetchFoldersResult False ''LIST failed'' []) s2)
     })"

definition is_fetch_line :: "string \<Rightarrow> bool" where
  "is_fetch_line line \<longleftrightarrow> StartsWith line ''* '' \<and> contains_sub line '' FETCH ''"

fun fetch_blocks :: "string list \<Rightarrow> string list list" where
  "fetch_blocks [] = []"
| "fetch_blocks (l # ls) =
     (if is_fetch_line l then (l # takeWhile (\<lambda>x. \<not> is_fetch_line x) ls) # fetch_blocks ls else fetch_blocks ls)"

text \<open>The search for a quote behind the one before it; \<^verbatim>\<open>npos + 1\<close> is 0.\<close>

definition next_quote :: "string \<Rightarrow> nat option \<Rightarrow> nat option" where
  "next_quote env_text p = find_char_from env_text DQUOTE (case p of None \<Rightarrow> 0 | Some i \<Rightarrow> i + 1)"

definition between :: "string \<Rightarrow> nat option \<Rightarrow> nat option \<Rightarrow> string" where
  "between env_text p q = (case (p, q) of (Some i, Some j) \<Rightarrow> substr env_text (i + 1) (j - i - 1) | _ \<Rightarrow> [])"

definition envelope_fields :: "string \<Rightarrow> string \<times> string" where
  "envelope_fields block =
     (case find_sub ''ENVELOPE ('' block of
        None \<Rightarrow> ([], [])
      | Some envPos \<Rightarrow>
          (let env_text = drop (envPos + 10) block;
               d1 = find_char env_text DQUOTE;
               d2 = next_quote env_text d1;
               s1 = next_quote env_text d2;
               s2 = next_quote env_text s1
           in (between env_text d1 d2, between env_text s1 s2)))"

definition mail_of_block :: "string list \<Rightarrow> mail_summary option" where
  "mail_of_block block =
     (case find_sub '' FETCH '' (hd block) of
        None \<Rightarrow> None
      | Some fetchPos \<Rightarrow>
          (case stoll (if fetchPos < 2 then drop 2 (hd block) else substr (hd block) 2 (fetchPos - 2)) of
             Inl _ \<Rightarrow> None
           | Inr seqId \<Rightarrow>
               (case (ExtractFlags block, envelope_fields (concat (map (\<lambda>l. l @ CRLF) block))) of
                  ((seen, flagged), (date_text, subject_text)) \<Rightarrow>
                    Some \<lparr>su_mailId = seqId, su_isSeen = seen, su_isFlagged = flagged, su_subject = subject_text, su_date = date_text\<rparr>)))"

definition fetch_range :: "u32 \<Rightarrow> u32 \<Rightarrow> string" where
  "fetch_range offset limit = nat_to_string (unat (offset + 1)) @ '':'' @ nat_to_string (unat (offset + max 1 limit))"

definition handleFetchMails :: "client_env \<Rightarrow> string \<Rightarrow> u32 \<Rightarrow> u32 \<Rightarrow> mail_worker \<Rightarrow> mail_worker option" where
  "handleFetchMails env folderName offset limit s =
     connected_or env (\<lambda>e. FetchMailsResult False e []) s (\<lambda>s1. do {
       (err, s2) \<leftarrow> ensureMailboxSelected env folderName s1;
       case err of
         Some e \<Rightarrow> Some (emit (FetchMailsResult False e []) s2)
       | None \<Rightarrow> do {
           ((ok, lines), s3) \<leftarrow> imapExchange env (''FETCH '' @ fetch_range offset limit @ '' (FLAGS INTERNALDATE RFC822.SIZE ENVELOPE)'') s2;
           Some (emit (if ok then FetchMailsResult True [] (List.map_filter mail_of_block (fetch_blocks lines))
                       else FetchMailsResult False ''FETCH failed'' []) s3)
         }
     })"

definition new_mail_details :: mail_details where
  "new_mail_details =
     \<lparr>md_mailId = 0, md_isSeen = False, md_isFlagged = False, md_sender = [], md_to = [], md_cc = [], md_bcc = [], md_replyTo = [],
      md_subject = [], md_date = [], md_messageId = [], md_inReplyTo = [], md_references = [], md_plainBody = [], md_htmlBody = [],
      md_body = [], md_attachments = []\<rparr>"

definition mail_details_of :: "int \<Rightarrow> string list \<Rightarrow> string \<Rightarrow> mail_details" where
  "mail_details_of mailId lines rawEmail =
     (let flags = ExtractFlags lines;
          mail = new_mail_details\<lparr>md_mailId := mailId, md_isSeen := fst flags, md_isFlagged := snd flags\<rparr>;
          headers = fst (SplitHeadersAndBody rawEmail)
      in case ParseEmail rawEmail new_email of
           (True, parsed) \<Rightarrow>
             mail\<lparr>md_sender := sender parsed, md_to := to_addrs parsed, md_cc := cc_addrs parsed, md_subject := subject parsed,
               md_date := date parsed, md_messageId := message_id parsed, md_inReplyTo := in_reply_to parsed,
               md_references := references parsed, md_plainBody := plain_text parsed, md_htmlBody := html_text parsed,
               md_body := (if plain_text parsed \<noteq> [] then plain_text parsed else html_text parsed),
               md_attachments := map (\<lambda>a. \<lparr>ai_fileName = file_name a, ai_mimeType = mime_type a, ai_sizeBytes = file_size a\<rparr>) (attachments parsed),
               md_bcc := SplitAddressList (GetHeaderValue headers ''Bcc:''),
               md_replyTo := SplitAddressList (GetHeaderValue headers ''Reply-To:'')\<rparr>
         | (False, _) \<Rightarrow> mail\<lparr>md_body := rawEmail\<rparr>)"

definition handleFetchMail :: "client_env \<Rightarrow> int \<Rightarrow> mail_worker \<Rightarrow> mail_worker option" where
  "handleFetchMail env mailId s =
     connected_or env (\<lambda>e. FetchMailResult False e new_mail_details) s (\<lambda>s1. do {
       (lines, s2) \<leftarrow> fetchFlagsBySeq env mailId s1;
       (raw, s3) \<leftarrow> fetchMessagePayloadBySeq env mailId s2;
       Some (emit (case raw of
           None \<Rightarrow> FetchMailResult False ''FETCH failed or returned empty payload'' new_mail_details
         | Some rawEmail \<Rightarrow>
             if rawEmail = [] then FetchMailResult False ''Empty payload'' new_mail_details
             else FetchMailResult True [] (mail_details_of mailId lines rawEmail)) s3)
     })"

section \<open>Downloading an attachment\<close>

text \<open>
  \<^verbatim>\<open>std::filesystem::path\<close> on POSIX: \<open>path_join\<close> is \<^verbatim>\<open>operator/\<close> for a relative right-hand side,
  \<open>parent_path\<close> drops the last component and the slashes before it, except that of the root.
\<close>

definition path_join :: "string \<Rightarrow> string \<Rightarrow> string" where
  "path_join p q = (if p = [] \<or> last p = CHR ''/'' then p @ q else p @ ''/'' @ q)"

definition parent_path :: "string \<Rightarrow> string" where
  "parent_path p =
     (case find_last_idx (\<lambda>c. c = CHR ''/'') p of
        None \<Rightarrow> []
      | Some i \<Rightarrow>
          (let dir = rev (dropWhile (\<lambda>c. c = CHR ''/'') (rev (take i p)))
           in if dir = [] then ''/'' else dir))"

definition output_path :: "client_env \<Rightarrow> string \<Rightarrow> string \<Rightarrow> string" where
  "output_path env requested safeName =
     (if requested = [] then path_join (path_join ''.tmp'' ''attachments'') safeName
      else if ce_is_directory env requested \<or> last requested = CHR ''/'' \<or> last requested = BSLASH
              \<or> path_filename requested = []
      then path_join requested safeName
      else requested)"

text \<open>The end of \<^verbatim>\<open>handleDownloadAttachment\<close>: the file is truncated when it is opened and then written.\<close>

definition save_attachment :: "client_env \<Rightarrow> string \<Rightarrow> string \<Rightarrow> byte list \<Rightarrow> mail_worker \<Rightarrow> mail_worker" where
  "save_attachment env path name bytes s =
     (let refuse = (\<lambda>e. emit (DownloadAttachmentResult False e [] [] 0)) in
      if parent_path path \<noteq> [] \<and> \<not> ce_create_directories env (parent_path path)
      then refuse ''Failed to create output directory'' s
      else if \<not> ce_open env path then refuse ''Failed to open output file'' s
      else let s1 = s\<lparr>mw_files := mw_files s @ [(path, [])]\<rparr> in
        if bytes \<noteq> [] \<and> \<not> ce_write env path then refuse ''Failed to write output file'' s1
        else emit (DownloadAttachmentResult True [] path name (length bytes))
               (if bytes \<noteq> [] then s1\<lparr>mw_files := mw_files s1 @ [(path, bytes)]\<rparr> else s1))"

definition download_message :: "client_env \<Rightarrow> nat \<Rightarrow> string \<Rightarrow> string \<Rightarrow> mail_worker \<Rightarrow> mail_worker" where
  "download_message env attachmentIndex outputPath rawEmail s =
     (let refuse = (\<lambda>e. emit (DownloadAttachmentResult False e [] [] 0) s) in
      if rawEmail = [] then refuse ''Empty RFC822 payload''
      else case ParseEmail rawEmail new_email of
        (False, _) \<Rightarrow> refuse ''Failed to parse MIME message''
      | (True, parsed) \<Rightarrow>
          if attachments parsed = [] then refuse ''No attachments in this message''
          else if length (attachments parsed) < attachmentIndex then refuse ''Attachment index out of range''
          else let a = attachments parsed ! (attachmentIndex - 1) in
            (case TryDecodeAttachmentBytes a of
               None \<Rightarrow> refuse ''Attachment payload is empty''
             | Some bytes \<Rightarrow>
                 save_attachment env (output_path env outputPath (SanitizeAttachmentFileName (file_name a))) (file_name a) bytes s))"

definition handleDownloadAttachment :: "client_env \<Rightarrow> int \<Rightarrow> nat \<Rightarrow> string \<Rightarrow> mail_worker \<Rightarrow> mail_worker option" where
  "handleDownloadAttachment env mailId attachmentIndex outputPath s =
     (let refuse = (\<lambda>e. DownloadAttachmentResult False e [] [] 0) in
      connected_or env refuse s (\<lambda>s1.
      if attachmentIndex = 0 then Some (emit (refuse ''Attachment index is 1-based and must be > 0'') s1)
      else inbox_or env refuse s1 (\<lambda>s2. do {
        (raw, s3) \<leftarrow> fetchMessagePayloadBySeq env mailId s2;
        Some (case raw of
            None \<Rightarrow> emit (refuse ''FETCH failed'') s3
          | Some rawEmail \<Rightarrow> download_message env attachmentIndex outputPath rawEmail s3)
      })))"

section \<open>The command loop\<close>

fun handle :: "client_env \<Rightarrow> mail_command \<Rightarrow> mail_worker \<Rightarrow> mail_worker option" where
  "handle env (ConnectCommand c) s = handleConnect env c s"
| "handle env DisconnectCommand s = handleDisconnect env s"
| "handle env (SendMailCommand c) s = handleSendMail env c s"
| "handle env (FetchMailsCommand folderName offset limit) s = handleFetchMails env folderName offset limit s"
| "handle env (FetchMailCommand mailId) s = handleFetchMail env mailId s"
| "handle env (DeleteMailCommand mailId) s = handleDeleteMail env mailId s"
| "handle env (MarkMailReadCommand mailId) s = handleMarkMailRead env mailId s"
| "handle env (MoveMailCommand mailId targetFolder) s = handleMoveMail env mailId targetFolder s"
| "handle env (DownloadAttachmentCommand mailId attachmentIndex outputPath) s =
     handleDownloadAttachment env mailId attachmentIndex outputPath s"
| "handle env FetchFoldersCommand s = handleFetchFolders env s"
| "handle env (CreateFolderCommand folderName) s = handleCreateFolder env folderName s"
| "handle env (DeleteFolderCommand folderName) s = handleDeleteFolder env folderName s"
| "handle env (AddLabelCommand mailId label) s = handleAddLabel env mailId label s"
| "handle env (RemoveLabelCommand mailId label) s = handleRemoveLabel env mailId label s"
| "handle env (MarkMailStarredCommand mailId starred) s = handleMarkMailStarred env mailId starred s"
| "handle env (MarkMailImportantCommand mailId important) s = handleMarkMailImportant env mailId important s"

text \<open>
  \<^verbatim>\<open>CommandQueue\<close>. \<open>queue_pop\<close> is \<open>None\<close> while the caller waits on the condition variable, \<open>Some (None, q)\<close> for
  the \<^verbatim>\<open>nullopt\<close> of a stopped and empty queue.
\<close>

record 'a command_queue =
  cq_queue :: "'a list"
  cq_stopped :: bool

definition queue_push :: "'a \<Rightarrow> 'a command_queue \<Rightarrow> 'a command_queue" where
  "queue_push command q = q\<lparr>cq_queue := cq_queue q @ [command]\<rparr>"

definition queue_pop :: "'a command_queue \<Rightarrow> ('a option \<times> 'a command_queue) option" where
  "queue_pop q =
     (if cq_queue q = [] \<and> \<not> cq_stopped q then None
      else if cq_stopped q \<and> cq_queue q = [] then Some (None, q)
      else Some (Some (hd (cq_queue q)), q\<lparr>cq_queue := tl (cq_queue q)\<rparr>))"

definition queue_stop :: "'a command_queue \<Rightarrow> 'a command_queue" where
  "queue_stop q = q\<lparr>cq_stopped := True\<rparr>"

text \<open>
  The front end and the worker: the front end pushes commands and stops the client (\<^verbatim>\<open>MailWorker::stop\<close>)
  between the commands of \<^verbatim>\<open>MailWorker::run\<close>; a stop while a command runs is an event of the network list.
  \<open>cl_taken\<close> are the commands taken off the queue so far.
\<close>

record client =
  cl_queue :: "mail_command command_queue"
  cl_worker :: mail_worker
  cl_taken :: "mail_command list"
  cl_running :: bool

inductive client_step :: "client_env \<Rightarrow> client \<Rightarrow> client \<Rightarrow> bool" for env where
  push: "client_step env c (c\<lparr>cl_queue := queue_push cmd (cl_queue c)\<rparr>)"
| stop: "client_step env c (c\<lparr>cl_queue := queue_stop (cl_queue c), cl_worker := (cl_worker c)\<lparr>mw_stop := True\<rparr>\<rparr>)"
| run: "cl_running c \<Longrightarrow> queue_pop (cl_queue c) = Some (Some cmd, q') \<Longrightarrow> handle env cmd (cl_worker c) = Some w \<Longrightarrow>
    client_step env c (c\<lparr>cl_queue := q', cl_worker := w, cl_taken := cl_taken c @ [cmd], cl_running := (mw_crash w = None)\<rparr>)"
| finish: "cl_running c \<Longrightarrow> queue_pop (cl_queue c) = Some (None, q') \<Longrightarrow> client_step env c (c\<lparr>cl_running := False\<rparr>)"

text \<open>A client before its first command; the counters and settings are those of a new \<^verbatim>\<open>MailWorker\<close>.\<close>

definition new_worker :: "net_event list \<Rightarrow> mail_worker" where
  "new_worker events =
     \<lparr>mw_events = events, mw_stop = False, mw_random = 0, mw_connector = False, mw_imap = None, mw_tagCounter = 0,
      mw_currentFolder = [], mw_smtpHost = [], mw_smtpPort = 0, mw_smtpUsername = [], mw_smtpPassword = [], mw_imapHost = [],
      mw_imapPort = 0, mw_imapUsername = [], mw_imapPassword = [], mw_results = [], mw_log = [], mw_files = [], mw_crash = None\<rparr>"

definition new_client :: "net_event list \<Rightarrow> client" where
  "new_client events =
     \<lparr>cl_queue = \<lparr>cq_queue = [], cq_stopped = False\<rparr>, cl_worker = new_worker events, cl_taken = [], cl_running = True\<rparr>"

end
