(* ===== verification/Secure_Channel_Laws.thy ===== *)
theory Secure_Channel_Laws
  imports Secure_Channel
begin

text \<open>
  The encrypted channel delivers what was sent, in order and once: the handshake gives both ends
  matching keys, every message comes out of \<^verbatim>\<open>Receive\<close> as it went into \<^verbatim>\<open>Send\<close>, and nothing that an
  attacker does to the bytes on the way makes the receiver accept anything else. The lemmas are
  proved over the contract of a connection and hold for both implementations.
\<close>

section \<open>Sequences of calls\<close>

fun send_all :: "sodium \<Rightarrow> 'c iconnection \<Rightarrow> (string \<times> string) list \<Rightarrow> 'c secure_channel \<Rightarrow> bool \<times> 'c secure_channel" where
  "send_all so io [] ch = (True, ch)"
| "send_all so io ((nonce, m) # xs) ch =
     (case Channel_Send so io nonce m ch of (ok, ch') \<Rightarrow> if ok then send_all so io xs ch' else (False, ch'))"

fun receive_each :: "sodium \<Rightarrow> 'c iconnection \<Rightarrow> nat \<Rightarrow> 'c secure_channel \<Rightarrow> (string option list \<times> 'c secure_channel) option" where
  "receive_each so io 0 ch = Some ([], ch)"
| "receive_each so io (Suc n) ch =
     (case Channel_Receive so io ch of
        None \<Rightarrow> None
      | Some (r, ch') \<Rightarrow> map_option (\<lambda>(rs, ch''). (r # rs, ch'')) (receive_each so io n ch'))"

text \<open>The encrypted text of the message with a sequence number, and its bytes on the wire.\<close>

definition frame :: "sodium \<Rightarrow> string \<Rightarrow> 64 word \<Rightarrow> string \<times> string \<Rightarrow> string" where
  "frame so key seq x = fst x @ the (aead_encrypt so key (fst x) (seq_bytes seq) (snd x))"

definition wire :: "string \<Rightarrow> string" where
  "wire f = htonl_bytes (word_of_nat (length f)) @ f"

fun wire_all :: "sodium \<Rightarrow> string \<Rightarrow> 64 word \<Rightarrow> (string \<times> string) list \<Rightarrow> string" where
  "wire_all so key seq [] = []"
| "wire_all so key seq (x # xs) = wire (frame so key seq x) @ wire_all so key (seq + 1) xs"

definition nonces_ok :: "(string \<times> string) list \<Rightarrow> bool" where
  "nonces_ok xs \<longleftrightarrow> list_all (\<lambda>x. length (fst x) = NPUBBYTES) xs"

lemma nonces_ok_simps [simp]:
  "nonces_ok []" "nonces_ok (x # xs) \<longleftrightarrow> length (fst x) = NPUBBYTES \<and> nonces_ok xs"
  by (simp_all add: nonces_ok_def)

lemma aead_lawsE:
  assumes "aead_laws so" "length nonce = NPUBBYTES"
  obtains c where "aead_encrypt so key nonce ad m = Some c" "length c = length m + ABYTES" "aead_decrypt so key nonce ad c = Some m"
  using assms unfolding aead_laws_def by blast

lemma frame_length:
  assumes "aead_laws so" "length (fst x) = NPUBBYTES"
  shows "length (frame so key seq x) = length (snd x) + 28"
  by (rule aead_lawsE [OF assms, of key "seq_bytes seq" "snd x"]) (use assms(2) in \<open>simp add: frame_def NPUBBYTES_def ABYTES_def\<close>)

lemma Encrypt_frame:
  assumes "aead_laws so" "length nonce = NPUBBYTES"
  shows "Encrypt so nonce ch m = frame so (ch_txKey ch) (ch_txSeq ch) (nonce, m)"
  by (rule aead_lawsE [OF assms, of "ch_txKey ch" "seq_bytes (ch_txSeq ch)" m]) (simp add: frame_def Encrypt_def)

lemma Decrypt_frame:
  assumes "aead_laws so" "length (fst x) = NPUBBYTES"
  shows "Decrypt so (frame so (ch_rxKey ch) (ch_rxSeq ch) x) ch = (Some (snd x), ch\<lparr>ch_rxSeq := ch_rxSeq ch + 1\<rparr>)"
  by (rule aead_lawsE [OF assms, of "ch_rxKey ch" "seq_bytes (ch_rxSeq ch)" "snd x"])
    (use assms(2) in \<open>simp add: Decrypt_def frame_def\<close>)

lemma Decrypt_cases:
  assumes "Decrypt so f ch = (r, ch')"
  obtains "r = None" "ch' = ch"
  | m where "r = Some m" "ch' = ch\<lparr>ch_rxSeq := ch_rxSeq ch + 1\<rparr>"
    "aead_decrypt so (ch_rxKey ch) (take NPUBBYTES f) (seq_bytes (ch_rxSeq ch)) (drop NPUBBYTES f) = Some m"
proof (cases r)
  case None
  then show ?thesis using assms that(1) by (auto simp: Decrypt_def split: if_splits option.splits)
next
  case (Some m)
  then show ?thesis using assms by (intro that(2) [of m]) (auto simp: Decrypt_def split: if_splits option.splits)
qed

lemma unat_length: "length f \<le> CHANNEL_MAX + 28 \<Longrightarrow> unat (word_of_nat (length f) :: u32) = length f"
  by (simp add: CHANNEL_MAX_def unsigned_of_nat take_bit_nat_eq_self)

section \<open>One end\<close>

context byte_connection
begin

lemma sent_message:
  assumes "Channel_Send so io nonce m ch = (True, ch')" "ch_secure ch" "aead_laws so" "length nonce = NPUBBYTES"
  shows "\<exists>c. ch' = ch\<lparr>ch_conn := c, ch_txSeq := ch_txSeq ch + 1\<rparr> \<and> incoming c = incoming (ch_conn ch) \<and>
    sent c = sent (ch_conn ch) @ wire (frame so (ch_txKey ch) (ch_txSeq ch) (nonce, m))"
proof -
  obtain c1 c2 where "op_SendRaw io (htonl_bytes (word_of_nat (length (Encrypt so nonce ch m)))) (ch_conn ch) = (True, c1)"
    "op_SendRaw io (Encrypt so nonce ch m) c1 = (True, c2)" "ch' = ch\<lparr>ch_conn := c2, ch_txSeq := ch_txSeq ch + 1\<rparr>"
    using assms(1,2) by (auto simp: Channel_Send_def Let_def split: if_splits prod.splits)
  then show ?thesis
    by (intro exI [of _ c2]) (auto simp: wire_def Encrypt_frame [OF assms(3,4), where ch = ch] dest!: send_raw)
qed

lemma sent_all:
  assumes "send_all so io xs ch = (True, ch')" "ch_secure ch" "aead_laws so" "nonces_ok xs"
  shows "sent (ch_conn ch') = sent (ch_conn ch) @ wire_all so (ch_txKey ch) (ch_txSeq ch) xs"
  using assms
proof (induction xs arbitrary: ch)
  case (Cons x xs)
  obtain nonce m where x: "x = (nonce, m)" by (cases x)
  with Cons.prems obtain ch1 where s: "Channel_Send so io nonce m ch = (True, ch1)" "send_all so io xs ch1 = (True, ch')"
    by (auto split: if_splits prod.splits)
  from sent_message [OF s(1)] Cons.prems x obtain c where "ch1 = ch\<lparr>ch_conn := c, ch_txSeq := ch_txSeq ch + 1\<rparr>"
    "sent c = sent (ch_conn ch) @ wire (frame so (ch_txKey ch) (ch_txSeq ch) (nonce, m))" by auto
  with Cons s x show ?case by simp
qed simp

lemma received_frame:
  assumes "ch_secure ch" "usable (ch_conn ch)" "incoming (ch_conn ch) = wire f @ ys" "f \<noteq> []" "length f \<le> CHANNEL_MAX"
  obtains c where "usable c" "incoming c = ys"
    "Channel_Receive so io ch = Some (case Decrypt so f (ch\<lparr>ch_conn := c\<rparr>) of (r, ch') \<Rightarrow> (map_option strip_eol r, ch'))"
proof -
  let ?len = "htonl_bytes (word_of_nat (length f))"
  obtain c1 where 1: "op_ReceiveRaw io 4 (ch_conn ch) = Some (Some ?len, c1)" "usable c1" "incoming c1 = f @ ys"
    using receive_raw_append [OF assms(2), of ?len "f @ ys"] assms(3) by (auto simp: wire_def)
  obtain c2 where 2: "op_ReceiveRaw io (length f) c1 = Some (Some f, c2)" "usable c2" "incoming c2 = ys"
    using receive_raw_append [OF 1(2,3)] by auto
  have "unat (word_of_nat (length f) :: u32) = length f" using assms(5) by (intro unat_length) simp
  then have "Channel_Receive so io ch = Some (case Decrypt so f (ch\<lparr>ch_conn := c2\<rparr>) of (r, ch') \<Rightarrow> (map_option strip_eol r, ch'))"
    using assms 1 2 by (auto simp: Channel_Receive_def Let_def split: prod.splits option.splits)
  with 2 that show ?thesis by blast
qed

lemma received_next:
  assumes "aead_laws so" "length (fst x) = NPUBBYTES" "length (snd x) + 28 \<le> CHANNEL_MAX" "ch_secure ch" "usable (ch_conn ch)"
    and "incoming (ch_conn ch) = wire (frame so (ch_rxKey ch) (ch_rxSeq ch) x) @ ys"
  obtains c where "usable c" "incoming c = ys"
    "Channel_Receive so io ch = Some (Some (strip_eol (snd x)), ch\<lparr>ch_conn := c, ch_rxSeq := ch_rxSeq ch + 1\<rparr>)"
proof -
  let ?f = "frame so (ch_rxKey ch) (ch_rxSeq ch) x"
  have "length ?f = length (snd x) + 28" by (rule frame_length [OF assms(1,2)])
  then have "?f \<noteq> []" "length ?f \<le> CHANNEL_MAX" using assms(3) by auto
  then obtain c where c: "usable c" "incoming c = ys"
    "Channel_Receive so io ch = Some (case Decrypt so ?f (ch\<lparr>ch_conn := c\<rparr>) of (r, ch') \<Rightarrow> (map_option strip_eol r, ch'))"
    using received_frame [OF assms(4-6)] by metis
  then show ?thesis using that Decrypt_frame [of so x "ch\<lparr>ch_conn := c\<rparr>"] assms(1,2) by simp
qed

lemma received_all:
  assumes "aead_laws so" "nonces_ok xs" "\<forall>x \<in> set xs. length (snd x) + 28 \<le> CHANNEL_MAX"
    and "ch_secure ch" "usable (ch_conn ch)" "incoming (ch_conn ch) = wire_all so (ch_rxKey ch) (ch_rxSeq ch) xs @ ys"
  shows "\<exists>ch'. receive_each so io (length xs) ch = Some (map (\<lambda>x. Some (strip_eol (snd x))) xs, ch')"
  using assms
proof (induction xs arbitrary: ch)
  case (Cons x xs)
  obtain c where c: "usable c" "incoming c = wire_all so (ch_rxKey ch) (ch_rxSeq ch + 1) xs @ ys"
    "Channel_Receive so io ch = Some (Some (strip_eol (snd x)), ch\<lparr>ch_conn := c, ch_rxSeq := ch_rxSeq ch + 1\<rparr>)"
    using Cons.prems by (auto intro: received_next [OF assms(1), of x ch])
  obtain ch' where "receive_each so io (length xs) (ch\<lparr>ch_conn := c, ch_rxSeq := ch_rxSeq ch + 1\<rparr>) =
      Some (map (\<lambda>x. Some (strip_eol (snd x))) xs, ch')"
    using Cons.IH [of "ch\<lparr>ch_conn := c, ch_rxSeq := ch_rxSeq ch + 1\<rparr>"] Cons.prems c by auto
  with c(3) show ?case by simp
qed simp

lemma client_started:
  assumes "Client_StartTLS so io keys ch = Some (True, ch')"
  shows "\<exists>rx tx. kx_client so (fst keys) (snd keys) (take PUBLICKEYBYTES (incoming (ch_conn ch))) = Some (rx, tx) \<and>
    ch_secure ch' \<and> ch_rxKey ch' = rx \<and> ch_txKey ch' = tx \<and> ch_txSeq ch' = ch_txSeq ch \<and> ch_rxSeq ch' = ch_rxSeq ch \<and>
    usable (ch_conn ch') \<and> sent (ch_conn ch') = sent (ch_conn ch) @ fst keys"
proof -
  obtain c1 other c2 rx tx where "op_SendRaw io (fst keys) (ch_conn ch) = (True, c1)"
    "op_ReceiveRaw io PUBLICKEYBYTES c1 = Some (Some other, c2)" "kx_client so (fst keys) (snd keys) other = Some (rx, tx)"
    "ch' = enableSecure (ch\<lparr>ch_conn := c2, ch_rxKey := rx, ch_txKey := tx\<rparr>)"
    using assms by (auto simp: Client_StartTLS_def Client_DeriveKeys_def split: if_splits prod.splits option.splits)
  then show ?thesis by (auto simp: enableSecure_def dest!: send_raw received_raw)
qed

lemma server_started:
  assumes "Server_StartTLS so io keys ch = Some (True, ch')"
  shows "\<exists>rx tx. kx_server so (fst keys) (snd keys) (take PUBLICKEYBYTES (incoming (ch_conn ch))) = Some (rx, tx) \<and>
    ch_secure ch' \<and> ch_rxKey ch' = rx \<and> ch_txKey ch' = tx \<and> ch_txSeq ch' = ch_txSeq ch \<and> ch_rxSeq ch' = ch_rxSeq ch \<and>
    usable (ch_conn ch') \<and> incoming (ch_conn ch') = drop PUBLICKEYBYTES (incoming (ch_conn ch)) \<and>
    sent (ch_conn ch') = sent (ch_conn ch) @ fst keys"
proof -
  obtain c1 other c2 rx tx where "op_ReceiveRaw io PUBLICKEYBYTES (ch_conn ch) = Some (Some other, c1)"
    "kx_server so (fst keys) (snd keys) other = Some (rx, tx)" "op_SendRaw io (fst keys) c1 = (True, c2)"
    "ch' = enableSecure (ch\<lparr>ch_rxKey := rx, ch_txKey := tx, ch_conn := c2\<rparr>)"
    using assms by (auto simp: Server_StartTLS_def Server_DeriveKeys_def split: if_splits prod.splits option.splits)
  then show ?thesis by (auto simp: enableSecure_def dest!: send_raw received_raw)
qed

text \<open>One call of \<^verbatim>\<open>Receive\<close> on arbitrary bytes: it accepts only a piece of them that verifies.\<close>

lemma receive_step:
  assumes "Channel_Receive so io ch = Some (r, ch')" "ch_secure ch"
  shows "ch_secure ch' \<and> ch_rxKey ch' = ch_rxKey ch \<and> (\<exists>k. incoming (ch_conn ch') = drop k (incoming (ch_conn ch))) \<and>
    (r = None \<and> ch_rxSeq ch' = ch_rxSeq ch \<or>
     (\<exists>a f b m. incoming (ch_conn ch) = a @ f @ b \<and> r = Some (strip_eol m) \<and> ch_rxSeq ch' = ch_rxSeq ch + 1 \<and>
        aead_decrypt so (ch_rxKey ch) (take NPUBBYTES f) (seq_bytes (ch_rxSeq ch)) (drop NPUBBYTES f) = Some m))"
proof (cases "\<exists>c1 net_len c2 f. op_ReceiveRaw io 4 (ch_conn ch) = Some (Some net_len, c1) \<and>
    unat (ntohl_bytes net_len) \<noteq> 0 \<and> unat (ntohl_bytes net_len) \<le> CHANNEL_MAX \<and>
    op_ReceiveRaw io (unat (ntohl_bytes net_len)) c1 = Some (Some f, c2)")
  case True
  then obtain c1 net_len c2 f where raw: "op_ReceiveRaw io 4 (ch_conn ch) = Some (Some net_len, c1)"
    "unat (ntohl_bytes net_len) \<noteq> 0" "unat (ntohl_bytes net_len) \<le> CHANNEL_MAX"
    "op_ReceiveRaw io (unat (ntohl_bytes net_len)) c1 = Some (Some f, c2)" by blast
  obtain r0 where d: "Decrypt so f (ch\<lparr>ch_conn := c2\<rparr>) = (r0, ch')" "r = map_option strip_eol r0"
    using assms raw by (auto simp: Channel_Receive_def Let_def split: if_splits prod.splits option.splits)
  have bytes: "incoming c1 = drop 4 (incoming (ch_conn ch))" "f = take (unat (ntohl_bytes net_len)) (incoming c1)"
    "incoming c2 = drop (unat (ntohl_bytes net_len)) (incoming c1)"
    using received_raw [OF raw(1)] received_raw [OF raw(4)] by auto
  have "incoming c1 = f @ incoming c2" unfolding bytes(2,3) by (rule append_take_drop_id [symmetric])
  then have "incoming (ch_conn ch) = take 4 (incoming (ch_conn ch)) @ f @ incoming c2"
    using bytes(1) append_take_drop_id [of 4 "incoming (ch_conn ch)"] by simp
  moreover have "\<exists>k. incoming c2 = drop k (incoming (ch_conn ch))" using bytes(1,3) by (metis drop_drop)
  ultimately show ?thesis using d assms(2) by (cases rule: Decrypt_cases [OF d(1)]) auto
next
  case False
  then have "r = None \<and> ch' = ch\<lparr>ch_conn := ch_conn ch'\<rparr> \<and> (\<exists>k. incoming (ch_conn ch') = drop k (incoming (ch_conn ch)))"
    using assms by (auto simp: Channel_Receive_def Let_def not_le split: if_splits prod.splits option.splits dest!: consumed)
  then show ?thesis using assms(2) by (metis secure_channel.select_convs(2,4,6) secure_channel.surjective secure_channel.update_convs(1))
qed

end

section \<open>Two ends\<close>

locale secure_pair = sender: byte_connection io1 usable1 incoming1 sent1 + receiver: byte_connection io2 usable2 incoming2 sent2
  for io1 :: "'c iconnection" and usable1 incoming1 sent1 and io2 :: "'d iconnection" and usable2 incoming2 sent2
begin

lemma delivery:
  assumes laws: "aead_laws so" "kx_agree so ck sk" "length (fst ck) = PUBLICKEYBYTES" "length (fst sk) = PUBLICKEYBYTES"
    and msgs: "nonces_ok xs" "\<forall>x \<in> set xs. length (snd x) + 28 \<le> CHANNEL_MAX"
    and client: "Client_StartTLS so io1 ck (SecureChannel c) = Some (True, cl)" "send_all so io1 xs cl = (True, cl')"
    and server: "Server_StartTLS so io2 sk (SecureChannel s) = Some (True, sv)"
    and wires: "incoming2 s = drop (length (sent1 c)) (sent1 (ch_conn cl')) @ ys"
      "incoming1 c = drop (length (sent2 s)) (sent2 (ch_conn sv)) @ zs"
  shows "\<exists>sv'. receive_each so io2 (length xs) sv = Some (map (\<lambda>x. Some (strip_eol (snd x))) xs, sv')"
proof -
  note cl = sender.client_started [OF client(1)] and sv = receiver.server_started [OF server]
  have sc: "ch_conn (SecureChannel c) = c" "ch_txSeq (SecureChannel c) = 0" "ch_conn (SecureChannel s) = s" "ch_rxSeq (SecureChannel s) = 0"
    by (simp_all add: SecureChannel_def)
  have "take PUBLICKEYBYTES (incoming1 c) = fst sk" using sv wires(2) laws(4) by (auto simp: sc)
  moreover have s: "sent1 (ch_conn cl') = sent1 c @ fst ck @ wire_all so (ch_txKey cl) 0 xs"
    using cl sender.sent_all [OF client(2) _ laws(1) msgs(1)] by (auto simp: sc)
  moreover from s have "take PUBLICKEYBYTES (incoming2 s) = fst ck" using wires(1) laws(3) by simp
  ultimately have "ch_rxKey sv = ch_txKey cl" using cl sv laws(2) by (auto simp: sc kx_agree_def)
  moreover have "incoming2 (ch_conn sv) = wire_all so (ch_txKey cl) 0 xs @ ys"
    using sv s wires(1) laws(3) by (auto simp: sc)
  ultimately show ?thesis using sv by (intro receiver.received_all [OF laws(1) msgs, of sv ys]) (auto simp: sc)
qed

end

interpretation smtp_channel: secure_pair SocketConnection cn_open cn_incoming cn_sent SocketConnection cn_open cn_incoming cn_sent ..

interpretation imap_channel: secure_pair SocketConnection cn_open cn_incoming cn_sent ImapConnection cn_open cn_incoming cn_sent ..

section \<open>Attackers\<close>

text \<open>
  The bytes hold no forgery: a piece of them verifies under a sequence number only if it is the
  frame that the sender made with that number. This is what the tag of an authenticated
  encryption with the sequence number as additional data is for.
\<close>

definition unforged :: "sodium \<Rightarrow> string \<Rightarrow> (string \<times> string) list \<Rightarrow> string \<Rightarrow> bool" where
  "unforged so key xs bytes \<longleftrightarrow> (\<forall>a f b j m. bytes = a @ f @ b \<longrightarrow>
     aead_decrypt so key (take NPUBBYTES f) (seq_bytes j) (drop NPUBBYTES f) = Some m \<longrightarrow>
     (\<exists>i < length xs. j = word_of_nat i \<and> f = frame so key j (xs ! i)))"

definition accepted_messages :: "string option list \<Rightarrow> string list" where
  "accepted_messages rs = List.map_filter id rs"

lemma accepted_simps [simp]:
  "accepted_messages [] = []" "accepted_messages (None # rs) = accepted_messages rs"
  "accepted_messages (Some m # rs) = m # accepted_messages rs"
  by (simp_all add: accepted_messages_def map_filter_simps)

lemma unforged_drop:
  assumes "unforged so key xs bytes"
  shows "unforged so key xs (drop k bytes)"
  unfolding unforged_def
proof (intro allI impI)
  fix a f b j m assume "drop k bytes = a @ f @ b"
    and d: "aead_decrypt so key (take NPUBBYTES f) (seq_bytes j) (drop NPUBBYTES f) = Some m"
  then have "bytes = (take k bytes @ a) @ f @ b" using append_take_drop_id [of k bytes] by simp
  with assms d show "\<exists>i < length xs. j = word_of_nat i \<and> f = frame so key j (xs ! i)" unfolding unforged_def by blast
qed

lemma frame_decrypts:
  assumes "aead_laws so" "length (fst x) = NPUBBYTES"
  shows "aead_decrypt so key (take NPUBBYTES (frame so key seq x)) (seq_bytes seq) (drop NPUBBYTES (frame so key seq x)) = Some (snd x)"
  by (rule aead_lawsE [OF assms, of key "seq_bytes seq" "snd x"]) (use assms(2) in \<open>simp add: frame_def\<close>)

context byte_connection
begin

lemma attacked:
  assumes "aead_laws so" "nonces_ok xs" "length xs < 2 ^ 64"
    and "ch_secure ch" "ch_rxSeq ch = word_of_nat k" "k \<le> length xs" "unforged so (ch_rxKey ch) xs (incoming (ch_conn ch))"
    and "receive_each so io n ch = Some (rs, ch')"
  shows "\<exists>l. accepted_messages rs = map (\<lambda>x. strip_eol (snd x)) (take l (drop k xs))"
  using assms(4-)
proof (induction n arbitrary: ch k rs)
  case 0
  then show ?case by (auto intro: exI [of _ 0])
next
  case (Suc n)
  then obtain r ch1 rs' where c: "Channel_Receive so io ch = Some (r, ch1)" "receive_each so io n ch1 = Some (rs', ch')" "rs = r # rs'"
    by (auto split: option.splits)
  note step = receive_step [OF c(1) Suc.prems(1)]
  then obtain d where "ch_secure ch1" "ch_rxKey ch1 = ch_rxKey ch" "incoming (ch_conn ch1) = drop d (incoming (ch_conn ch))" by blast
  then have u: "unforged so (ch_rxKey ch1) xs (incoming (ch_conn ch1))" "ch_secure ch1" using unforged_drop [OF Suc.prems(4)] by simp_all
  from step consider "r = None" "ch_rxSeq ch1 = ch_rxSeq ch"
    | a f b m where "incoming (ch_conn ch) = a @ f @ b" "r = Some (strip_eol m)" "ch_rxSeq ch1 = ch_rxSeq ch + 1"
      "aead_decrypt so (ch_rxKey ch) (take NPUBBYTES f) (seq_bytes (ch_rxSeq ch)) (drop NPUBBYTES f) = Some m" by blast
  then show ?case
  proof cases
    case 1
    then show ?thesis using Suc.IH [OF u(2) _ Suc.prems(3) u(1) c(2)] Suc.prems(2) c(3) by simp
  next
    case 2
    then obtain i where i: "i < length xs" "ch_rxSeq ch = word_of_nat i" "f = frame so (ch_rxKey ch) (ch_rxSeq ch) (xs ! i)"
      using Suc.prems(4) unfolding unforged_def by blast
    have "unat (word_of_nat j :: 64 word) = j" if "j \<le> length xs" for j
      using that assms(3) by (simp add: unsigned_of_nat take_bit_nat_eq_self)
    from this [of i] this [of k] have "i = k" using i(1,2) Suc.prems(2,3) by simp
    have "length (fst (xs ! i)) = NPUBBYTES" using assms(2) i(1) by (auto simp: nonces_ok_def list_all_length)
    then have "m = snd (xs ! k)" using 2(4) frame_decrypts [OF assms(1)] i(3) \<open>i = k\<close> by auto
    moreover obtain l where "accepted_messages rs' = map (\<lambda>x. strip_eol (snd x)) (take l (drop (Suc k) xs))"
      using Suc.IH [OF u(2), of "Suc k"] 2(3) Suc.prems(2) i(1) \<open>i = k\<close> u(1) c(2) by (auto simp: add.commute)
    moreover have "drop k xs = xs ! k # drop (Suc k) xs" using i(1) \<open>i = k\<close> by (simp add: Cons_nth_drop_Suc)
    ultimately show ?thesis using c(3) 2(2) by (intro exI [of _ "Suc l"]) simp
  qed
qed

lemma oversized:
  assumes "aead_laws so" "length nonce = NPUBBYTES" "length m \<le> CHANNEL_MAX" "CHANNEL_MAX < length m + 28"
    and "ch_secure ch" "usable (ch_conn ch)" "incoming (ch_conn ch) = wire (frame so key seq (nonce, m)) @ ys"
  shows "\<exists>ch'. Channel_Receive so io ch = Some (None, ch') \<and> incoming (ch_conn ch') = frame so key seq (nonce, m) @ ys"
proof -
  let ?f = "frame so key seq (nonce, m)"
  have len: "length ?f = length m + 28" using frame_length [OF assms(1), of "(nonce, m)"] assms(2) by simp
  obtain c1 where "op_ReceiveRaw io 4 (ch_conn ch) = Some (Some (htonl_bytes (word_of_nat (length ?f))), c1)" "incoming c1 = ?f @ ys"
    using receive_raw_append [OF assms(6), of "htonl_bytes (word_of_nat (length ?f))" "?f @ ys"] assms(7) by (auto simp: wire_def)
  moreover have "unat (word_of_nat (length ?f) :: u32) = length ?f" using assms(3) len by (intro unat_length) simp
  ultimately show ?thesis using assms(4,5) len by (auto simp: Channel_Receive_def)
qed

end

section \<open>Properties\<close>

text \<open>
  C38. After STARTTLS the SMTP server receives exactly the messages that the client sends, in
  order, each without the line end at its close, however the network cuts the bytes. It takes
  that each message leaves 28 bytes below the size limit for nonce and tag.
\<close>

theorem secure_channel_delivers:
  assumes "aead_laws so" "kx_agree so ck sk" "length (fst ck) = PUBLICKEYBYTES" "length (fst sk) = PUBLICKEYBYTES"
    and "nonces_ok xs" "\<forall>x \<in> set xs. length (snd x) + 28 \<le> CHANNEL_MAX"
    and "Client_StartTLS so SocketConnection ck (SecureChannel c) = Some (True, cl)"
    and "send_all so SocketConnection xs cl = (True, cl')"
    and "Server_StartTLS so SocketConnection sk (SecureChannel s) = Some (True, sv)"
    and "cn_incoming s = drop (length (cn_sent c)) (cn_sent (ch_conn cl')) @ ys"
    and "cn_incoming c = drop (length (cn_sent s)) (cn_sent (ch_conn sv)) @ zs"
  shows "\<exists>sv'. receive_each so SocketConnection (length xs) sv = Some (map (\<lambda>x. Some (strip_eol (snd x))) xs, sv')"
  by (rule smtp_channel.delivery [OF assms])

text \<open>
  C39. Whatever bytes reach the receiver of a secure channel, replayed, reordered, cut or made up,
  the messages it accepts are the first ones that were sent, in their order: none is missing in
  between, none comes twice. This holds also for a caller that goes on after a failed
  \<^verbatim>\<open>Receive\<close>, and it assumes that the attacker cannot forge a frame.
\<close>

theorem secure_channel_accepts_prefix:
  assumes "aead_laws so" "nonces_ok xs" "length xs < 2 ^ 64"
    and "ch_secure ch" "ch_rxSeq ch = 0" "unforged so (ch_rxKey ch) xs (cn_incoming (ch_conn ch))"
    and "receive_each so SocketConnection n ch = Some (rs, ch')"
  shows "\<exists>l. accepted_messages rs = map (\<lambda>x. strip_eol (snd x)) (take l xs)"
  using socket.attacked [OF assms(1-4), where k = 0] assms(5-7) by simp

text \<open>
  C40. \<^verbatim>\<open>Send\<close> tests the size of the message and \<^verbatim>\<open>Receive\<close> that of the encrypted text against the
  same limit. A message in the last 28 bytes below the limit is sent with success and always
  refused; its bytes stay in the stream, where the next \<^verbatim>\<open>Receive\<close> takes them for a length.
\<close>

theorem oversized_message_refused:
  assumes "aead_laws so" "length nonce = NPUBBYTES" "CHANNEL_MAX < length m + 28"
    and "ch_secure a" "Channel_Send so SocketConnection nonce m a = (True, a')"
    and "ch_secure b" "cn_open (ch_conn b)"
    and "cn_incoming (ch_conn b) = drop (length (cn_sent (ch_conn a))) (cn_sent (ch_conn a'))"
  shows "\<exists>b'. Channel_Receive so SocketConnection b = Some (None, b') \<and>
    cn_incoming (ch_conn b') = Encrypt so nonce a m"
proof -
  have "cn_incoming (ch_conn b) = wire (frame so (ch_txKey a) (ch_txSeq a) (nonce, m)) @ []"
    using socket.sent_message [OF assms(5,4,1,2)] assms(8) by auto
  moreover have "length m \<le> CHANNEL_MAX" using assms(5) by (auto simp: Channel_Send_def split: if_splits)
  ultimately show ?thesis
    using socket.oversized [OF assms(1,2) _ assms(3,6,7)] Encrypt_frame [OF assms(1,2), of a m] by fastforce
qed

section \<open>Examples\<close>

text \<open>A cipher that only authenticates, enough to run the channel.\<close>

definition toy_tag :: "string \<Rightarrow> nat \<Rightarrow> string" where
  "toy_tag ad n = take 8 (ad @ replicate 8 NUL) @ char_of (n + 1) # replicate 7 NUL"

definition toy_sodium :: sodium where
  "toy_sodium = \<lparr>aead_encrypt = (\<lambda>key nonce ad m. Some (m @ toy_tag ad (length m))),
     aead_decrypt = (\<lambda>key nonce ad c. let n = length c - 16 in
       if 16 \<le> length c \<and> drop n c = toy_tag ad n then Some (take n c) else None),
     kx_client = (\<lambda>pk sk other. Some (pk @ other, other @ pk)),
     kx_server = (\<lambda>pk sk other. Some (pk @ other, other @ pk))\<rparr>"

lemma toy_tag_length [simp]: "length (toy_tag ad n) = 16"
  by (simp add: toy_tag_def)

lemma toy_laws: "aead_laws toy_sodium"
  by (simp add: aead_laws_def toy_sodium_def ABYTES_def)

definition key_pair :: "char \<Rightarrow> string \<times> string" where
  "key_pair c = (replicate 32 c, [c])"

lemma toy_agree: "kx_agree toy_sodium (key_pair a) (key_pair b)"
  by (simp add: kx_agree_def toy_sodium_def key_pair_def)

lemma write_nothing [simp]: "write_loop [] ks = ([], [], ks)"
  by (cases ks) simp_all

lemma write_whole: "data \<noteq> [] \<Longrightarrow> length data \<le> k \<Longrightarrow> write_loop data (k # ks) = (data, [], ks)"
  by simp

lemma socket_send:
  assumes "aead_laws so" "length nonce = NPUBBYTES" "ch_secure ch" "length m \<le> CHANNEL_MAX"
    and "cn_open (ch_conn ch)" "cn_accepting (ch_conn ch) = 4 # k # ks" "length m + 28 \<le> k"
  shows "Channel_Send so SocketConnection nonce m ch =
    (True, ch\<lparr>ch_conn := (ch_conn ch)\<lparr>cn_sent := cn_sent (ch_conn ch) @ wire (frame so (ch_txKey ch) (ch_txSeq ch) (nonce, m)),
       cn_accepting := ks\<rparr>, ch_txSeq := ch_txSeq ch + 1\<rparr>)"
proof -
  let ?f = "frame so (ch_txKey ch) (ch_txSeq ch) (nonce, m)" and ?len = "\<lambda>f. htonl_bytes (word_of_nat (length f))"
  have len: "length ?f = length m + 28" using frame_length [OF assms(1), of "(nonce, m)"] assms(2) by simp
  moreover have "?len ?f \<noteq> []" using htonl_bytes_length [of "word_of_nat (length ?f)"] by (metis list.size(3) zero_neq_numeral)
  ultimately have "write_loop (?len ?f) (4 # k # ks) = (?len ?f, [], k # ks)" "write_loop ?f (k # ks) = (?f, [], ks)" "?f \<noteq> []"
    using assms(7) by (auto intro: write_whole)
  then show ?thesis
    using assms unfolding Channel_Send_def Encrypt_frame [OF assms(1,2), of ch]
    by (simp add: SocketConnection_def Socket_SendRaw_def wire_def Let_def)
qed

definition test_messages :: "(string \<times> string) list" where
  "test_messages = [(replicate 12 CHR ''n'', ''NOOP'' @ CRLF), (replicate 12 CHR ''m'', ''QUIT'' @ CRLF)]"

definition test_connection :: "string list \<Rightarrow> connection" where
  "test_connection arriving = \<lparr>cn_open = True, cn_arriving = arriving, cn_silent = False, cn_accepting = [32, 4, 90, 4, 90],
     cn_sent = ''EHLO a'' @ CRLF, cn_buffer = []\<rparr>"

definition test_key :: string where
  "test_key = replicate 32 CHR ''s'' @ replicate 32 CHR ''c''"

definition test_sent :: string where
  "test_sent = replicate 32 CHR ''c'' @ wire_all toy_sodium test_key 0 test_messages"

lemma test_client_starts:
  "\<exists>cl. Client_StartTLS toy_sodium SocketConnection (key_pair CHR ''c'') (SecureChannel (test_connection [replicate 32 CHR ''s''])) =
      Some (True, cl) \<and> ch_secure cl \<and> ch_txKey cl = test_key \<and> ch_txSeq cl = 0 \<and> cn_open (ch_conn cl) \<and>
    cn_accepting (ch_conn cl) = [4, 90, 4, 90] \<and> cn_sent (ch_conn cl) = ''EHLO a'' @ CRLF @ replicate 32 CHR ''c''"
  by (simp add: Client_StartTLS_def SecureChannel_def key_pair_def SocketConnection_def Socket_SendRaw_def Socket_ReceiveRaw_def
      test_connection_def write_whole PUBLICKEYBYTES_def Client_DeriveKeys_def toy_sodium_def enableSecure_def test_key_def)

lemma test_client_sends:
  assumes "ch_secure cl" "cn_open (ch_conn cl)" "cn_accepting (ch_conn cl) = [4, 90, 4, 90]"
  shows "\<exists>cl'. send_all toy_sodium SocketConnection test_messages cl = (True, cl') \<and>
    cn_sent (ch_conn cl') = cn_sent (ch_conn cl) @ wire_all toy_sodium (ch_txKey cl) (ch_txSeq cl) test_messages"
  using assms by (simp add: test_messages_def socket_send [OF toy_laws] NPUBBYTES_def CHANNEL_MAX_def)

lemma test_server_starts:
  "\<exists>sv. Server_StartTLS toy_sodium SocketConnection (key_pair CHR ''s'') (SecureChannel (test_connection [take 40 test_sent, drop 40 test_sent])) =
      Some (True, sv) \<and> cn_sent (ch_conn sv) = ''EHLO a'' @ CRLF @ replicate 32 CHR ''s''"
proof -
  have "32 \<le> length (take 40 test_sent)" by (simp add: test_sent_def)
  then show ?thesis
    by (auto simp: Server_StartTLS_def SecureChannel_def key_pair_def SocketConnection_def Socket_SendRaw_def Socket_ReceiveRaw_def
      test_connection_def write_whole PUBLICKEYBYTES_def Server_DeriveKeys_def toy_sodium_def enableSecure_def)
qed

theorem secure_channel_delivers_witness:
  "\<exists>sv sv'. Server_StartTLS toy_sodium SocketConnection (key_pair CHR ''s'')
      (SecureChannel (test_connection [take 40 test_sent, drop 40 test_sent])) = Some (True, sv) \<and>
    receive_each toy_sodium SocketConnection 2 sv = Some ([Some ''NOOP'', Some ''QUIT''], sv')"
proof -
  obtain cl where cl: "Client_StartTLS toy_sodium SocketConnection (key_pair CHR ''c'')
      (SecureChannel (test_connection [replicate 32 CHR ''s''])) = Some (True, cl)" "ch_secure cl" "ch_txKey cl = test_key" "ch_txSeq cl = 0"
      "cn_open (ch_conn cl)" "cn_accepting (ch_conn cl) = [4, 90, 4, 90]" "cn_sent (ch_conn cl) = ''EHLO a'' @ CRLF @ replicate 32 CHR ''c''"
    using test_client_starts by blast
  obtain cl' where cl': "send_all toy_sodium SocketConnection test_messages cl = (True, cl')"
      "cn_sent (ch_conn cl') = cn_sent (ch_conn cl) @ wire_all toy_sodium (ch_txKey cl) (ch_txSeq cl) test_messages"
    using test_client_sends [OF cl(2,5,6)] by blast
  obtain sv where sv: "Server_StartTLS toy_sodium SocketConnection (key_pair CHR ''s'')
      (SecureChannel (test_connection [take 40 test_sent, drop 40 test_sent])) = Some (True, sv)"
      "cn_sent (ch_conn sv) = ''EHLO a'' @ CRLF @ replicate 32 CHR ''s''"
    using test_server_starts by blast
  have m: "map (\<lambda>x. Some (strip_eol (snd x))) test_messages = [Some ''NOOP'', Some ''QUIT'']" "length test_messages = 2" by code_simp+
  have "\<exists>sv'. receive_each toy_sodium SocketConnection (length test_messages) sv =
      Some (map (\<lambda>x. Some (strip_eol (snd x))) test_messages, sv')"
  proof (rule secure_channel_delivers [OF toy_laws toy_agree _ _ _ _ cl(1) cl'(1) sv(1), where ys = "[]" and zs = "[]"])
    show "nonces_ok test_messages" "\<forall>x \<in> set test_messages. length (snd x) + 28 \<le> CHANNEL_MAX"
      by (simp_all add: test_messages_def NPUBBYTES_def CHANNEL_MAX_def)
  qed (use cl cl' sv in \<open>simp_all add: key_pair_def PUBLICKEYBYTES_def test_connection_def test_sent_def\<close>)
  with sv(1) m show ?thesis by auto
qed

text \<open>A frame with bytes of an attacker behind it: the frame is the only piece that verifies.\<close>

definition genuine :: string where
  "genuine = replicate 12 CHR ''n'' @ ''Hi'' @ replicate 8 NUL @ CHR 0x03 # replicate 7 NUL"

definition attack_bytes :: string where
  "attack_bytes = replicate 3 NUL @ CHR 0x1E # genuine @ replicate 4 NUL"

definition looks_valid :: "string \<Rightarrow> bool" where
  "looks_valid f \<longleftrightarrow> drop (length f - 8) f = char_of (length f - 27) # replicate 7 NUL"

lemma attack_pieces:
  "list_all (\<lambda>i. list_all (\<lambda>l. looks_valid (take l (drop i attack_bytes)) \<longrightarrow> take l (drop i attack_bytes) = genuine) [28..<39]) [0..<11]"
  by code_simp

lemma seq_bytes_length [simp]: "length (seq_bytes j) = 8"
  by (simp add: seq_bytes_def)

lemma seq_bytes_zero: "seq_bytes 0 = replicate 8 NUL"
proof -
  have "char_of (0 :: nat) = NUL" by code_simp
  then show ?thesis by (simp add: seq_bytes_def map_replicate_const)
qed

lemma genuine_frame: "frame toy_sodium key 0 (replicate 12 CHR ''n'', ''Hi'') = genuine"
proof -
  have "char_of (Suc (Suc (Suc 0))) = CHR 0x03" by code_simp
  with seq_bytes_zero show ?thesis by (simp add: frame_def toy_sodium_def toy_tag_def genuine_def)
qed

lemma attack_unforged: "unforged toy_sodium key [(replicate 12 CHR ''n'', ''Hi'')] attack_bytes"
  unfolding unforged_def
proof (intro allI impI)
  fix a f b j m assume f: "attack_bytes = a @ f @ b"
    and d: "aead_decrypt toy_sodium key (take NPUBBYTES f) (seq_bytes j) (drop NPUBBYTES f) = Some m"
  have len: "28 \<le> length f" and tag: "drop (length f - 16) f = toy_tag (seq_bytes j) (length f - 28)"
    using d by (auto simp: toy_sodium_def NPUBBYTES_def Let_def split: if_splits)
  have "length f - 28 + 1 = length f - 27" using len by simp
  then have "drop 8 (drop (length f - 16) f) = char_of (length f - 27) # replicate 7 NUL"
    unfolding tag toy_tag_def by simp
  then have "looks_valid f" using len by (simp add: looks_valid_def)
  moreover have "f = take (length f) (drop (length a) attack_bytes)" unfolding f by simp
  moreover have "length a \<in> set [0..<11]" "length f \<in> set [28..<39]"
    using arg_cong [OF f, of length] len unfolding set_upt atLeastLessThan_iff by (simp_all add: attack_bytes_def genuine_def)
  ultimately have "f = genuine" using attack_pieces unfolding list_all_iff by metis
  moreover have "seq_bytes j = seq_bytes 0"
    using arg_cong [OF tag, of "take 8"] \<open>f = genuine\<close> by (simp add: toy_tag_def genuine_def seq_bytes_zero)
  ultimately show "\<exists>i < length [(replicate 12 CHR ''n'', ''Hi'')]. j = word_of_nat i \<and>
      f = frame toy_sodium key j ([(replicate 12 CHR ''n'', ''Hi'')] ! i)"
    using genuine_frame by (simp add: seq_bytes_inj)
qed

definition attacked_channel :: "connection secure_channel" where
  "attacked_channel = (SecureChannel (test_connection [attack_bytes]))\<lparr>ch_secure := True\<rparr>"

lemma attacked_receives:
  "\<exists>ch'. receive_each toy_sodium SocketConnection 2 attacked_channel = Some ([Some ''Hi'', None], ch')"
proof -
  have "char_of (0 :: nat) = NUL" "char_of (30 :: nat) = CHR 0x1E" by code_simp+
  then have "wire genuine = replicate 3 NUL @ CHR 0x1E # genuine"
    by (simp add: wire_def htonl_bytes_def genuine_def upt_rec numeral_3_eq_3)
  then have "cn_incoming (ch_conn attacked_channel) = wire genuine @ replicate 4 NUL"
    by (simp add: attacked_channel_def SecureChannel_def test_connection_def attack_bytes_def)
  then obtain c where c: "cn_open c" "cn_incoming c = replicate 4 NUL"
    "Channel_Receive toy_sodium SocketConnection attacked_channel = Some (case Decrypt toy_sodium genuine (attacked_channel\<lparr>ch_conn := c\<rparr>)
       of (r, ch') \<Rightarrow> (map_option strip_eol r, ch'))"
    by (rule socket.received_frame [rotated 2])
      (simp_all add: attacked_channel_def SecureChannel_def test_connection_def genuine_def CHANNEL_MAX_def)
  let ?ch = "attacked_channel\<lparr>ch_conn := c, ch_rxSeq := 1\<rparr>"
  have "Decrypt toy_sodium genuine (attacked_channel\<lparr>ch_conn := c\<rparr>) = (Some ''Hi'', ?ch)"
    using Decrypt_frame [OF toy_laws, of "(replicate 12 CHR ''n'', ''Hi'')" "attacked_channel\<lparr>ch_conn := c\<rparr>"] genuine_frame
    by (simp add: attacked_channel_def SecureChannel_def NPUBBYTES_def)
  moreover have "strip_eol ''Hi'' = ''Hi''" by (simp add: strip_eol_def pop_back_if_def)
  ultimately have r: "Channel_Receive toy_sodium SocketConnection attacked_channel = Some (Some ''Hi'', ?ch)" using c(3) by simp
  obtain c' where "op_ReceiveRaw SocketConnection 4 c = Some (Some (replicate 4 NUL), c')"
    using socket.receive_raw_append [OF c(1), of "replicate 4 NUL" "[]"] c(2) by auto
  moreover have "ntohl_bytes (replicate 4 NUL) = 0" by code_simp
  ultimately have "\<exists>ch'. Channel_Receive toy_sodium SocketConnection ?ch = Some (None, ch')"
    by (simp add: Channel_Receive_def attacked_channel_def)
  with r show ?thesis by (auto simp: numeral_2_eq_2)
qed

theorem secure_channel_accepts_prefix_witness:
  "\<exists>l. accepted_messages [Some ''Hi'', None] = map (\<lambda>x. strip_eol (snd x)) (take l [(replicate 12 CHR ''n'', ''Hi'')])"
proof -
  obtain ch' where "receive_each toy_sodium SocketConnection 2 attacked_channel = Some ([Some ''Hi'', None], ch')"
    using attacked_receives by blast
  from secure_channel_accepts_prefix [OF toy_laws _ _ _ _ _ this] attack_unforged show ?thesis
    by (simp add: attacked_channel_def SecureChannel_def test_connection_def NPUBBYTES_def)
qed

definition large_sender :: "connection secure_channel" where
  "large_sender = (SecureChannel ((test_connection [])\<lparr>cn_accepting := [4, CHANNEL_MAX + 28]\<rparr>))\<lparr>ch_secure := True\<rparr>"

theorem oversized_message_refused_witness:
  "\<exists>a' b'. Channel_Send toy_sodium SocketConnection (replicate 12 CHR ''n'') (replicate CHANNEL_MAX CHR ''x'') large_sender = (True, a') \<and>
    Channel_Receive toy_sodium SocketConnection
      ((SecureChannel (test_connection [drop 8 (cn_sent (ch_conn a'))]))\<lparr>ch_secure := True\<rparr>) = Some (None, b')"
proof -
  have n: "length (replicate 12 CHR ''n'') = NPUBBYTES" by (simp add: NPUBBYTES_def)
  have "ch_secure large_sender" "cn_open (ch_conn large_sender)" "cn_accepting (ch_conn large_sender) = [4, CHANNEL_MAX + 28]"
    "length (cn_sent (ch_conn large_sender)) = 8"
    by (simp_all add: large_sender_def SecureChannel_def test_connection_def)
  moreover from this obtain a' where "Channel_Send toy_sodium SocketConnection (replicate 12 CHR ''n'') (replicate CHANNEL_MAX CHR ''x'') large_sender = (True, a')"
    using socket_send [OF toy_laws n, of large_sender "replicate CHANNEL_MAX CHR ''x''"] by simp
  moreover note oversized_message_refused [OF toy_laws n _ _ this(1),
      of "(SecureChannel (test_connection [drop 8 (cn_sent (ch_conn a'))]))\<lparr>ch_secure := True\<rparr>"]
  ultimately show ?thesis by (auto simp: SecureChannel_def test_connection_def)
qed

end
