(* ===== verification/Mail_Transfer.thy ===== *)
theory Mail_Transfer
  imports Mua_Laws Mua_Handlers Imap_Session Secure_Channel_Laws
begin

text \<open>
  One message from its file to the mail client: the FETCH command the client writes, its way
  through the parser, the message selection and the dispatcher of an IMAP session, the encrypted
  frame of the reply, and the reply loop of \<^verbatim>\<open>imapExchange\<close>.
\<close>

section \<open>The command\<close>

text \<open>The line of \<^verbatim>\<open>fetchMessagePayloadBySeq\<close> for its first item, as the server reads it.\<close>

definition fetch_line :: "string \<Rightarrow> nat \<Rightarrow> string" where
  "fetch_line tag n = tag @ '' FETCH '' @ int_to_string (int n) @ '' (RFC822)''"

definition fetch_command :: "string \<Rightarrow> nat \<Rightarrow> imap_command" where
  "fetch_command tag n = \<lparr>ic_tag = tag, ic_type = Fetch, ic_args = [nat_to_string n, ''(RFC822)'']\<rparr>"

lemma int_to_string_int [simp]: "int_to_string (int n) = nat_to_string n"
  by (simp add: int_to_string_def)

lemma digits_no_atom_end: "c \<in> set (nat_to_string n) \<Longrightarrow> \<not> atom_end c"
  by (drule nat_to_string_chars) (auto simp: is_digit_char_def atom_end_def code_of_def)

lemma ParseElement_number:
  assumes "atom_end c"
  shows "ParseElement (nat_to_string n @ c # rest) = (nat_to_string n, c # rest)"
proof -
  obtain d ds where d: "nat_to_string n = d # ds" using nat_to_string_digits [of n] by (cases "nat_to_string n") auto
  then have "\<not> atom_end d" using digits_no_atom_end [of d n] by simp
  then show ?thesis
    using digits_no_atom_end [of _ n] assms d
    by (auto simp: ParseElement_def ParseAtom_def atom_end_def takeWhile_append dropWhile_append)
qed

lemma ParseArgs_fetch: "ParseArgs (nat_to_string n @ '' (RFC822)'') = Some [nat_to_string n, ''(RFC822)'']"
proof -
  have list: "ParseArgs ''(RFC822)'' = Some [''(RFC822)'']" by (subst ParseArgs.simps) code_simp
  obtain d ds where d: "nat_to_string n = d # ds" using nat_to_string_digits [of n] by (cases "nat_to_string n") auto
  then have "d \<noteq> SP" using digits_no_atom_end [of d n] by (auto simp: atom_end_def)
  then have skip: "SkipWhitespace (nat_to_string n @ rest) = nat_to_string n @ rest" for rest
    by (simp add: SkipWhitespace_def d)
  have sp: "SkipWhitespace '' (RFC822)'' = ''(RFC822)''" by code_simp
  have "ParseElement (nat_to_string n @ '' (RFC822)'') = (nat_to_string n, '' (RFC822)'')"
    using ParseElement_number [of SP n "''(RFC822)''"] by (simp add: atom_end_def)
  moreover have "nat_to_string n \<noteq> []" using d by simp
  ultimately show ?thesis by (subst ParseArgs.simps) (simp add: Let_def skip sp list)
qed

lemma fetch_line_parsed:
  assumes "SP \<notin> set tag"
  shows "ImapParse (fetch_line tag n) = Some (fetch_command tag n)"
proof -
  let ?a = "nat_to_string n @ '' (RFC822)''"
  have "find_char (tag @ SP # ''FETCH'' @ SP # ?a) SP = Some (length tag)" using find_char_notin [OF assms] by simp
  moreover have "find_char (''FETCH'' @ SP # ?a) SP = Some 5" using find_char_notin [of SP "''FETCH''" ?a] by simp
  moreover have "StringToCommandType ''FETCH'' = Fetch" "ToUpper ''FETCH'' = ''FETCH''" by code_simp+
  ultimately show ?thesis
    unfolding ImapParse_def by (simp add: fetch_line_def fetch_command_def Let_def substr_def ParseArguments_def ParseArgs_fetch)
qed

section \<open>The message it selects\<close>

lemma ParseSequenceSet_number:
  assumes "0 < room" "int n \<le> INT64_MAX" "0 \<le> maxv" "maxv \<le> INT64_MAX"
  shows "ParseSequenceSet room (nat_to_string n) maxv = Some (Inr [int n])"
  using sequence_parts_text [OF assms(3,4), of "[One (Num n)]" room] Split_set_text [of "[One (Num n)]"] assms(1,2)
  by (simp add: ParseSequenceSet_def)

lemma fetch_names_rfc822: "fetch_names ''(RFC822)'' = [''RFC822'']"
  by code_simp

lemma fetch_selected:
  assumes "id_state t = Selected" "mb_id (id_mailbox t) = Some fid" "0 < ie_room ie"
    and "find_by_folder (ie_engine ie) (id_db t) fid = before @ row # after"
    and "length (before @ row # after) \<le> 50" "n = length before + 1"
  shows "Imap_Dispatch ie (fetch_command tag n) t =
    answer (Imap_Fetch n (''(RFC822'' @ literal (GetBodyContent (ie_read_file ie) row) @ '')'') @ Imap_Ok tag ''Fetch completed'') t"
proof -
  let ?msgs = "before @ row # after"
  have "to_int32 (int n) = int n" using assms(5,6) by (simp add: to_int32_def)
  then have "nth_message ?msgs (to_int32 (int n)) = Some row" using assms(6) by (simp add: nth_message_def nth_append)
  then have "fetch_pairs ?msgs [int n] = [(n, row)]"
    using assms(5,6) by (simp add: fetch_pairs_def selected_messages_def map_filter_simps size_t_of_def)
  moreover have "ParseSequenceSet (ie_room ie) (nat_to_string n) (int (length ?msgs)) = Some (Inr [int n])"
    using assms(3,5,6) by (intro ParseSequenceSet_number) (auto simp: INT64_MAX_def)
  ultimately show ?thesis
    using assms(1,2,4) fetch_rfc822 [of ie "id_db t" "[nat_to_string n, ''(RFC822)'']" n row]
    by (simp add: Imap_Dispatch_def Imap_HandleFetch_def fetch_command_def fetch_names_rfc822 answer_def Let_def)
qed

text \<open>A message stored at the next UID of a folder is the last of its messages.\<close>

lemma insort_below: "f y \<le> f x \<Longrightarrow> insort_key f y (ys @ [x]) = insort_key f y ys @ [x]"
  by (induction ys) auto

lemma sort_key_last: "\<forall>y \<in> set xs. f y \<le> f x \<Longrightarrow> sort_key f (xs @ [x]) = sort_key f xs @ [x]"
  unfolding sort_key_def by (induction xs) (auto simp: insort_below)

lemma new_row_last:
  assumes "db_messages d' = db_messages d @ [row]" "m_folder_id row = fid"
    and "\<forall>m \<in> set (db_messages d). m_folder_id m = fid \<longrightarrow> m_uid m \<le> m_uid row"
    and "length (folder_rows (\<lambda>m. True) d fid) < 50"
  shows "find_by_folder healthy d' fid = folder_rows (\<lambda>m. True) d fid @ [row]"
  using assms sort_key_last [of "filter (\<lambda>m. m_folder_id m = fid) (db_messages d)" m_uid row]
  by (simp add: find_by_folder_def MessageDAL_findByFolder_def read_many_healthy limit_offset_def folder_rows_def)

section \<open>The session\<close>

text \<open>A session that has the folder selected answers the line with the file of the message.\<close>

lemma fetch_answered:
  assumes "SP \<notin> set tag" "id_state (is_disp t) = Selected" "mb_id (id_mailbox (is_disp t)) = Some fid" "0 < ie_room ie"
    and "find_by_folder (ie_engine ie) (id_db (is_disp t)) fid = before @ row # after"
    and "length (before @ row # after) \<le> 50" "n = length before + 1"
  shows "HandleCommand (fetch_line tag n) t = Some (t\<lparr>is_task := Some (fetch_command tag n)\<rparr>)"
    and "task_done ie (fetch_command tag n) (t\<lparr>is_task := Some (fetch_command tag n)\<rparr>) =
      Some (ReadCommand (WriteResponse (rfc822_reply tag n (GetBodyContent (ie_read_file ie) row)) (t\<lparr>is_task := None\<rparr>)))"
proof -
  have cmd: "ic_type (fetch_command tag n) = Fetch" by (simp add: fetch_command_def)
  then show "HandleCommand (fetch_line tag n) t = Some (t\<lparr>is_task := Some (fetch_command tag n)\<rparr>)"
    using assms(2) by (simp add: HandleCommand_def fetch_line_parsed [OF assms(1)])
  show "task_done ie (fetch_command tag n) (t\<lparr>is_task := Some (fetch_command tag n)\<rparr>) =
      Some (ReadCommand (WriteResponse (rfc822_reply tag n (GetBodyContent (ie_read_file ie) row)) (t\<lparr>is_task := None\<rparr>)))"
    using fetch_selected [OF assms(2-7), of tag] cmd
    by (simp add: task_done_def answer_def finish_command_def rfc822_reply_def)
qed

section \<open>The client\<close>

text \<open>
  The encrypted link of the client takes the command, and what arrives on it next is the reply in
  the frame with the receiver's key and number, in whatever pieces.
\<close>

definition reply_arrives :: "client_env \<Rightarrow> string \<Rightarrow> string \<Rightarrow> mail_worker \<Rightarrow> bool" where
  "reply_arrives ce line reply mw \<longleftrightarrow>
     (\<exists>ch ch' nonce ys. mw_imap mw = Some (Secured ch) \<and> ch_secure ch \<and>
        length (ce_nonce ce (mw_random mw)) = NPUBBYTES \<and> length nonce = NPUBBYTES \<and> length reply + 28 \<le> CHANNEL_MAX \<and>
        Channel_Send (ce_sodium ce) SocketConnection (ce_nonce ce (mw_random mw)) (line @ CRLF) ch = (True, ch') \<and>
        cn_incoming (ch_conn ch) = wire (frame (ce_sodium ce) (ch_rxKey ch) (ch_rxSeq ch) (nonce, reply)) @ ys)"

lemma reply_received:
  assumes "aead_laws (ce_sodium ce)" "reply_arrives ce line reply mw"
  obtains l l' l'' where "mw_imap mw = Some l"
    "link_send ce (ce_nonce ce (mw_random mw)) (line @ CRLF) l = (True, l')"
    "link_receive ce l' = Some (Some (strip_eol reply), l'')"
proof -
  let ?so = "ce_sodium ce"
  obtain ch ch' nonce ys where ch: "mw_imap mw = Some (Secured ch)" "ch_secure ch"
      "length (ce_nonce ce (mw_random mw)) = NPUBBYTES" "length nonce = NPUBBYTES" "length reply + 28 \<le> CHANNEL_MAX"
      "Channel_Send ?so SocketConnection (ce_nonce ce (mw_random mw)) (line @ CRLF) ch = (True, ch')"
      "cn_incoming (ch_conn ch) = wire (frame ?so (ch_rxKey ch) (ch_rxSeq ch) (nonce, reply)) @ ys"
    using assms(2) unfolding reply_arrives_def by blast
  obtain c where c: "ch' = ch\<lparr>ch_conn := c, ch_txSeq := ch_txSeq ch + 1\<rparr>" "cn_incoming c = cn_incoming (ch_conn ch)"
    using socket.sent_message [OF ch(6,2) assms(1) ch(3)] by blast
  have opn: "cn_open (ch_conn ch')"
    using ch(6) ch(2) by (auto simp: Channel_Send_def Let_def SocketConnection_def Socket_SendRaw_def split: if_splits prod.splits)
  have "\<exists>ch''. receive_each ?so SocketConnection (length [(nonce, reply)]) ch' = Some ([Some (strip_eol reply)], ch'')"
    using socket.received_all [OF assms(1), of "[(nonce, reply)]" ch' ys] ch c opn by simp
  then obtain ch'' where "Channel_Receive ?so SocketConnection ch' = Some (Some (strip_eol reply), ch'')"
    by (auto split: option.splits)
  then show ?thesis
    using that [of "Secured ch" "Secured ch'" "Secured ch''"] ch by simp
qed

lemma fetch_exchange:
  assumes "aead_laws (ce_sodium ce)" "reply_arrives ce (fetch_line (fst (next_tag mw)) n) reply mw"
    and "scan_reply (fst (next_tag mw)) (frame_lines (strip_eol reply)) = (Some True, untagged)"
    and "ExtractRfc822Payload untagged \<noteq> []"
  shows "\<exists>mw'. fetchMessagePayloadBySeq ce (int n) mw = Some (Some (ExtractRfc822Payload untagged), mw')"
proof -
  obtain l l' l'' where l: "mw_imap mw = Some l"
      "link_send ce (ce_nonce ce (mw_random mw)) (fetch_line (fst (next_tag mw)) n @ CRLF) l = (True, l')"
      "link_receive ce l' = Some (Some (strip_eol reply), l'')"
    using reply_received [OF assms(1,2)] by blast
  have r: "exchange_reply ce (fst (next_tag mw)) [] l' = Some ((Some True, untagged), l'')"
    by (subst exchange_reply.simps) (simp add: l assms(3))
  have "mw_random (snd (next_tag mw)) = mw_random mw" by (simp add: next_tag_def)
  then have "\<exists>s'. exchange_on ce (''FETCH '' @ int_to_string (int n) @ '' (RFC822)'') l mw = Some (Inr (True, untagged), s')"
    using l(2) r by (cases "next_tag mw") (simp add: exchange_on_def send_on_def fetch_line_def)
  then have "\<exists>s'. imapExchange ce (''FETCH '' @ int_to_string (int n) @ '' (RFC822)'') mw = Some ((True, untagged), s')"
    using l(1) by (auto simp: imapExchange_def exchange_attempt_def)
  then show ?thesis using assms(4) by (auto simp: fetchMessagePayloadBySeq_def)
qed

section \<open>Both together\<close>

text \<open>
  The client fetches the message with number \<open>n\<close>: the session accepts its command and queues one
  reply with the text as its literal, and once that has arrived the client has the text.
\<close>

definition fetch_gives :: "imap_env \<Rightarrow> imap_session \<Rightarrow> client_env \<Rightarrow> mail_worker \<Rightarrow> nat \<Rightarrow> string \<Rightarrow> bool" where
  "fetch_gives ie t ce mw n payload \<longleftrightarrow>
     (let line = fetch_line (fst (next_tag mw)) n; reply = rfc822_reply (fst (next_tag mw)) n payload in
      \<exists>cmd t'. HandleCommand line t = Some (t\<lparr>is_task := Some cmd\<rparr>) \<and>
        task_done ie cmd (t\<lparr>is_task := Some cmd\<rparr>) = Some t' \<and> is_queue t' = is_queue t @ [reply] \<and>
        (reply_arrives ce line reply mw \<longrightarrow>
          (\<exists>mw'. fetchMessagePayloadBySeq ce (int n) mw = Some (Some payload, mw'))))"

lemma client_tag: "SP \<notin> set (fst (next_tag mw))"
  using nat_to_string_chars [of SP "unat (mw_tagCounter mw + 1)"]
  by (auto simp: next_tag_def nextTag_def is_digit_char_def code_of_def)

lemma message_fetched:
  assumes "id_state (is_disp t) = Selected" "mb_id (id_mailbox (is_disp t)) = Some fid" "0 < ie_room ie"
    and "find_by_folder (ie_engine ie) (id_db (is_disp t)) fid = before @ row # after" "length (before @ row # after) \<le> 50"
    and "GetBodyContent (ie_read_file ie) row = concat (map (\<lambda>l. l @ [LF]) ls)" "ls \<noteq> []"
    and "\<forall>l \<in> set ls. CR \<notin> set l \<and> LF \<notin> set l \<and> \<not> tagged_line (fst (next_tag mw)) l"
    and "int (length (concat (map (\<lambda>l. l @ [LF]) ls))) \<le> 18446744073709551615" "aead_laws (ce_sodium ce)"
  shows "fetch_gives ie t ce mw (length before + 1) (concat (map (\<lambda>l. l @ [LF]) ls))"
proof -
  let ?tag = "fst (next_tag mw)" and ?n = "length before + 1" and ?content = "concat (map (\<lambda>l. l @ [LF]) ls)"
  let ?reply = "rfc822_reply ?tag ?n ?content"
  note server = fetch_answered [OF client_tag assms(1-5) refl, of mw]
  have tag: "fst (nextTag (mw_tagCounter mw)) = ?tag" by (simp add: next_tag_def)
  obtain untagged where u: "scan_reply ?tag (frame_lines (strip_eol ?reply)) = (Some True, untagged)"
      "ExtractRfc822Payload untagged = ?content"
    using fetched_by_client [OF assms(7) _ tag assms(8,9), of ?n] by auto
  have "?content \<noteq> []" using assms(7) by (cases ls) auto
  then have client: "\<exists>mw'. fetchMessagePayloadBySeq ce (int ?n) mw = Some (Some ?content, mw')"
    if "reply_arrives ce (fetch_line ?tag ?n) ?reply mw"
    using fetch_exchange [OF assms(10) that u(1)] u(2) by simp
  let ?cmd = "fetch_command ?tag ?n"
  let ?t = "ReadCommand (WriteResponse ?reply (t\<lparr>is_task := None\<rparr>))"
  have "task_done ie ?cmd (t\<lparr>is_task := Some ?cmd\<rparr>) = Some ?t" using server(2) assms(6) by simp
  moreover have "is_queue ?t = is_queue t @ [?reply]" by (simp add: ReadCommand_def WriteResponse_def)
  ultimately show ?thesis unfolding fetch_gives_def Let_def using server(1) client by blast
qed

section \<open>An example\<close>

text \<open>A client whose link takes one command and on which one reply arrives, in two pieces.\<close>

definition example_client :: "string \<Rightarrow> mail_worker" where
  "example_client reply =
     (let bytes = wire (frame toy_sodium test_key 0 (replicate 12 CHR ''s'', reply)) in
      \<lparr>mw_events = [], mw_stop = False, mw_random = 0, mw_connector = True,
       mw_imap = Some (Secured \<lparr>ch_conn = \<lparr>cn_open = True, cn_arriving = [take 7 bytes, drop 7 bytes], cn_silent = False,
           cn_accepting = [4, 90], cn_sent = [], cn_buffer = []\<rparr>,
         ch_secure = True, ch_txKey = test_key, ch_rxKey = test_key, ch_txSeq = 0, ch_rxSeq = 0\<rparr>),
       mw_tagCounter = 0, mw_currentFolder = ''INBOX'', mw_smtpHost = [], mw_smtpPort = 0, mw_smtpUsername = [],
       mw_smtpPassword = [], mw_imapHost = [], mw_imapPort = 0, mw_imapUsername = [], mw_imapPassword = [],
       mw_results = [], mw_log = [], mw_files = [], mw_crash = None\<rparr>)"

definition example_env :: client_env where
  "example_env = \<lparr>ce_sodium = toy_sodium, ce_nonce = (\<lambda>_. replicate 12 CHR ''c''), ce_keys = (\<lambda>_. key_pair CHR ''c''),
     ce_mime = (\<lambda>_. \<lparr>me_date = [], me_millis = 0, me_id_digits = [], me_mixed_digits = [], me_alternative_digits = [],
       me_chunk = 45, me_domain = []\<rparr>), ce_file = (\<lambda>_. None), ce_is_directory = (\<lambda>_. False), ce_create_directories = (\<lambda>_. False),
     ce_open = (\<lambda>_. False), ce_write = (\<lambda>_. False)\<rparr>"

lemma example_tag: "fst (next_tag (example_client reply)) = ''A1''"
proof -
  have "fst (nextTag 0) = ''A1''" by code_simp
  then show ?thesis by (simp add: next_tag_def example_client_def Let_def)
qed

lemma example_arrives:
  assumes "length line \<le> 60" "length reply + 28 \<le> CHANNEL_MAX"
  shows "reply_arrives example_env line reply (example_client reply)"
proof -
  let ?ch = "case the (mw_imap (example_client reply)) of Secured ch \<Rightarrow> ch"
  have "\<exists>ch'. Channel_Send toy_sodium SocketConnection (replicate 12 CHR ''c'') (line @ CRLF) ?ch = (True, ch')"
    using assms(1) by (subst socket_send [OF toy_laws]) (simp_all add: example_client_def Let_def NPUBBYTES_def CHANNEL_MAX_def, linarith)
  then obtain ch' where "Channel_Send toy_sodium SocketConnection (replicate 12 CHR ''c'') (line @ CRLF) ?ch = (True, ch')" by blast
  then show ?thesis
    unfolding reply_arrives_def using assms(2)
    by (intro exI [of _ ?ch] exI [of _ ch'] exI [of _ "replicate 12 CHR ''s''"] exI [of _ "[]"])
      (simp add: example_client_def example_env_def Let_def NPUBBYTES_def)
qed

end
