(* ===== verification/Mime_Roundtrip.thy ===== *)
theory Mime_Roundtrip
  imports Mime_Builder
begin

text \<open>
  What \<^verbatim>\<open>MimeBuilder\<close> writes, \<^verbatim>\<open>MimeParser\<close> reads: the header block as a list of fields, how the parser
  finds its end and looks a field up, and the round trip of a plain message.
\<close>

section \<open>A block of header fields\<close>

definition field_line :: "string \<times> string \<Rightarrow> string" where
  "field_line f = fst f @ '': '' @ snd f"

fun join_crlf :: "string list \<Rightarrow> string" where
  "join_crlf [] = []"
| "join_crlf [l] = l"
| "join_crlf (l # m # ls) = l @ CRLF @ join_crlf (m # ls)"

definition line_ok :: "string \<Rightarrow> bool" where
  "line_ok l \<longleftrightarrow> l \<noteq> [] \<and> CR \<notin> set l \<and> LF \<notin> set l"

definition field_ok :: "string \<times> string \<Rightarrow> bool" where
  "field_ok f \<longleftrightarrow> fst f \<noteq> [] \<and> CR \<notin> set (fst f @ snd f) \<and> LF \<notin> set (fst f @ snd f) \<and>
     CHR '':'' \<notin> set (fst f) \<and> hd (fst f) \<noteq> SP \<and> hd (fst f) \<noteq> TAB \<and> Trim (snd f) = snd f"

lemma field_line_ok: "field_ok f \<Longrightarrow> line_ok (field_line f)"
  by (auto simp: field_ok_def line_ok_def field_line_def)

text \<open>The block ends at the first empty line.\<close>

lemma find_block_end:
  "ls \<noteq> [] \<Longrightarrow> list_all line_ok ls \<Longrightarrow> find_sub (CRLF @ CRLF) (join_crlf ls @ CRLF @ CRLF @ body) = Some (length (join_crlf ls))"
proof (induction ls rule: join_crlf.induct)
  case (2 l)
  then show ?case using find_sub_skip [of "CRLF @ CRLF" l] by (simp add: line_ok_def StartsWith_def)
next
  case (3 l m ls)
  let ?rest = "join_crlf (m # ls) @ CRLF @ CRLF @ body"
  obtain c s where c: "?rest = c # s" "c \<noteq> CR"
    using "3.prems"(2) by (cases ls; cases m) (auto simp: line_ok_def)
  then have "find_sub (CRLF @ CRLF) (CRLF @ ?rest) = map_option (\<lambda>i. 2 + i) (find_sub (CRLF @ CRLF) ?rest)"
    by (cases "find_sub (CRLF @ CRLF) ?rest") (auto simp: StartsWith_def)
  then show ?case
    using "3.prems"(2) "3.IH" find_sub_skip [of "CRLF @ CRLF" l "CRLF @ ?rest"] by (simp add: line_ok_def)
qed simp

lemma split_block:
  assumes "ls \<noteq> []" "list_all line_ok ls"
  shows "SplitHeadersAndBody (join_crlf ls @ CRLF @ CRLF @ body) = (join_crlf ls, body)"
  using find_block_end [OF assms, of body] by (simp add: SplitHeadersAndBody_def)

lemma block_lines:
  "list_all line_ok ls \<Longrightarrow> map (pop_back_if CR) (getlines LF (join_crlf ls)) = ls"
proof (induction ls rule: join_crlf.induct)
  case (2 l)
  then have "getlines LF l = [l]" using getlines_acc_last [of LF l "[]"] by (simp add: getlines_def line_ok_def)
  moreover have "last l \<noteq> CR" using 2 last_in_set [of l] by (metis line_ok_def list.pred_inject(2))
  ultimately show ?case by (simp add: pop_back_if_def)
next
  case (3 l m ls)
  then have "getlines LF (join_crlf (l # m # ls)) = (l @ [CR]) # getlines LF (join_crlf (m # ls))"
    using getlines_acc_delim [of LF "l @ [CR]" "[]" "join_crlf (m # ls)"] by (simp add: getlines_def line_ok_def)
  then show ?case using 3 by (simp add: pop_back_if_def)
qed (simp add: getlines_def)

section \<open>Looking a field up\<close>

lemma ToLower_idem [simp]: "ToLower (ToLower s) = ToLower s"
proof -
  have "to_lower_char (to_lower_char c) = to_lower_char c" for c
    by (auto simp: to_lower_char_def code_of_def)
  then show ?thesis by (simp add: ToLower_def)
qed

lemma Trim_blank: "Trim (SP # s) = Trim s"
proof (cases "\<forall>c \<in> set s. is_trim_ws c")
  case True
  moreover have "is_trim_ws SP" by (simp add: is_trim_ws_def)
  ultimately have "find_idx (\<lambda>c. \<not> is_trim_ws c) s = None" "find_idx (\<lambda>c. \<not> is_trim_ws c) (SP # s) = None"
    by (simp_all only: find_idx_None) auto
  then show ?thesis by (simp add: Trim_def)
next
  case False
  then obtain c where "c \<in> set (rev s)" "\<not> is_trim_ws c" by auto
  then show ?thesis unfolding Trim_eq using dropWhile_append1 [of c "rev s" is_trim_ws "[SP]"] by (simp add: is_trim_ws_def)
qed

lemma header_scan_found:
  "\<forall>l \<in> set (map (pop_back_if CR) lines). l \<noteq> [] \<and> hd l \<noteq> SP \<and> hd l \<noteq> TAB \<Longrightarrow> header_scan key lines result True = result"
  by (cases lines) (auto simp: Let_def)

lemma header_scan_fields:
  assumes "map (pop_back_if CR) lines = map field_line fs" "list_all field_ok fs"
  shows "header_scan (ToLower key) lines [] False =
    (case map_of (map (\<lambda>f. (ToLower (fst f), snd f)) fs) (ToLower key) of None \<Rightarrow> [] | Some v \<Rightarrow> v)"
  using assms
proof (induction fs arbitrary: lines)
  case (Cons f fs)
  then obtain raw rest where l: "lines = raw # rest" "pop_back_if CR raw = field_line f" "map (pop_back_if CR) rest = map field_line fs"
    by (auto simp: Cons_eq_map_conv)
  have colon: "find_char (field_line f) (CHR '':'') = Some (length (fst f))"
  proof -
    have "\<forall>c \<in> set (fst f). c \<noteq> CHR '':''" using Cons.prems(2) by (auto simp: field_ok_def)
    from find_idx_append_notin [OF this] show ?thesis by (simp add: field_line_def find_char_def)
  qed
  have line: "field_line f \<noteq> []" "hd (field_line f) \<noteq> SP" "hd (field_line f) \<noteq> TAB"
    using Cons.prems(2) by (auto simp: field_line_def field_ok_def)
  have eq: "IEquals (take (length (fst f)) (field_line f)) (ToLower key) \<longleftrightarrow> ToLower (fst f) = ToLower key"
  proof -
    have "length (fst f) = length key" if "ToLower (fst f) = ToLower key" using arg_cong [OF that, of length] by (simp add: ToLower_def)
    moreover have "length (ToLower key) = length key" by (simp add: ToLower_def)
    ultimately show ?thesis by (auto simp: IEquals_def field_line_def)
  qed
  have val: "Trim (drop (length (fst f) + 1) (field_line f)) = snd f"
    using Cons.prems(2) by (simp add: field_line_def Trim_blank field_ok_def)
  have "\<forall>l \<in> set (map (pop_back_if CR) rest). l \<noteq> [] \<and> hd l \<noteq> SP \<and> hd l \<noteq> TAB"
    using Cons.prems(2) unfolding l(3) by (auto simp: field_line_def field_ok_def list_all_iff)
  note found = header_scan_found [OF this]
  show ?case
  proof (cases "ToLower (fst f) = ToLower key")
    case True
    then show ?thesis using l line colon eq val found by (simp add: Let_def)
  next
    case False
    then show ?thesis using l line colon eq Cons.IH [OF l(3)] Cons.prems(2) by (simp add: Let_def)
  qed
qed simp

lemma get_header:
  assumes "list_all field_ok fs" "key = ToLower name" "CHR '':'' \<notin> set name"
  shows "GetHeaderValue (join_crlf (map field_line fs)) (name @ '':'') =
    (case map_of (map (\<lambda>f. (ToLower (fst f), snd f)) fs) key of None \<Rightarrow> [] | Some v \<Rightarrow> v)"
proof -
  have "ToLower (name @ '':'') = ToLower name @ '':''" by (simp add: ToLower_def to_lower_char_def code_of_def)
  then have "pop_back_if (CHR '':'') (ToLower (name @ '':'')) = ToLower name" by (simp add: pop_back_if_def)
  moreover have "map (pop_back_if CR) (getlines LF (join_crlf (map field_line fs))) = map field_line fs"
    using assms(1) field_line_ok by (intro block_lines) (auto simp: list_all_iff)
  ultimately show ?thesis
    unfolding GetHeaderValue_def using header_scan_fields [OF _ assms(1), of _ name] assms(2) by simp
qed

section \<open>Addresses and words\<close>

lemma encoded_word_free: "CHR ''='' \<notin> set s \<Longrightarrow> DecodeEncodedWord s = s"
proof -
  assume s: "CHR ''='' \<notin> set s"
  then have "find_sub ''=?'' s = None" using find_sub_skip [of "''=?''" s "[]"] by simp
  then have "decode_words s 0 False = (s, False)" by (subst decode_words.simps) simp
  moreover have "\<not> HasQpArtifacts t" if "CHR ''='' \<notin> set t" for t using that by (induction t rule: HasQpArtifacts.induct) auto
  ultimately show ?thesis using s by (simp add: DecodeEncodedWord_def)
qed

definition address_ok :: "string \<Rightarrow> bool" where
  "address_ok a \<longleftrightarrow> a \<noteq> [] \<and> Trim a = a \<and>
     set a \<inter> {CHR '','', DQUOTE, CHR ''<'', CHR ''>'', CHR ''='', CR, LF} = {}"

lemma split_skip:
  "set a \<inter> {CHR '','', DQUOTE, CHR ''<'', CHR ''>''} = {} \<Longrightarrow>
   split_addresses (a @ rest) current 0 False = split_addresses rest (current @ a) 0 False"
  by (induction a arbitrary: current) auto

lemma push_address: "address_ok a \<Longrightarrow> pre = [] \<or> pre = [SP] \<Longrightarrow> push_trimmed (pre @ a) = [a]"
  by (elim disjE) (simp_all add: push_trimmed_def address_ok_def Trim_blank)

lemma split_joined:
  assumes "list_all address_ok as" "as \<noteq> []" "pre = [] \<or> pre = [SP]"
  shows "split_addresses (JoinAddresses as) pre 0 False = as"
  using assms
proof (induction as arbitrary: pre rule: JoinAddresses.induct)
  case (2 a)
  then have "split_addresses (a @ []) pre 0 False = push_trimmed (pre @ a)" by (subst split_skip) (auto simp: address_ok_def)
  then show ?case using push_address [of a pre] "2.prems" by simp
next
  case (3 a b as)
  let ?rest = "'', '' @ JoinAddresses (b # as)"
  have "split_addresses (a @ ?rest) pre 0 False = split_addresses ?rest (pre @ a) 0 False"
    using 3 by (intro split_skip) (auto simp: address_ok_def)
  also have "\<dots> = push_trimmed (pre @ a) @ split_addresses (JoinAddresses (b # as)) [SP] 0 False" by simp
  also have "push_trimmed (pre @ a) = [a]" using "3.prems" by (intro push_address) simp_all
  finally show ?case using 3 by simp
qed simp

lemma JoinAddresses_chars: "set (JoinAddresses as) \<subseteq> (\<Union>a \<in> set as. set a) \<union> {CHR '','', SP}"
  by (induction as rule: JoinAddresses.induct) auto

lemma split_addresses_joined:
  assumes "list_all address_ok as"
  shows "SplitAddresses (DecodeEncodedWord (JoinAddresses as)) = as"
proof -
  have "CHR ''='' \<notin> set (JoinAddresses as)"
    using JoinAddresses_chars [of as] assms by (auto simp: address_ok_def list_all_iff)
  then have "DecodeEncodedWord (JoinAddresses as) = JoinAddresses as" by (rule encoded_word_free)
  moreover have "JoinAddresses as = [] \<longleftrightarrow> as = []" using assms by (cases as rule: JoinAddresses.cases) (auto simp: address_ok_def)
  ultimately show ?thesis using split_joined [OF assms] by (auto simp: SplitAddresses_def)
qed

text \<open>A joined list starts and ends with ink, as its addresses do.\<close>

lemma Trim_joined:
  assumes "list_all address_ok as"
  shows "Trim (JoinAddresses as) = JoinAddresses as"
proof (cases "as = []")
  case False
  have ends: "\<not> is_trim_ws (hd a) \<and> \<not> is_trim_ws (last a)" if "address_ok a" for a
  proof -
    have t: "dropWhile is_trim_ws (rev (dropWhile is_trim_ws (rev a))) = a" "a \<noteq> []"
      using that by (simp_all add: address_ok_def Trim_eq)
    then have "\<not> is_trim_ws (hd a)" by (metis hd_dropWhile)
    moreover have "length (dropWhile is_trim_ws (rev a)) = length (rev a)"
      using t(1) length_dropWhile_le [of is_trim_ws "rev (dropWhile is_trim_ws (rev a))"] length_dropWhile_le [of is_trim_ws "rev a"]
      by (metis le_antisym length_rev)
    then have "dropWhile is_trim_ws (rev a) = rev a" by (metis append_eq_conv_conj append_Nil length_append takeWhile_dropWhile_id add_cancel_left_left length_0_conv)
    then have "\<not> is_trim_ws (last a)" using t(2) by (metis hd_dropWhile hd_rev rev_is_Nil_conv)
    ultimately show ?thesis by simp
  qed
  have "JoinAddresses as \<noteq> []" "hd (JoinAddresses as) = hd (hd as)" "last (JoinAddresses as) = last (last as)"
    using assms False by (induction as rule: JoinAddresses.induct) (auto simp: address_ok_def)
  moreover have "\<not> is_trim_ws (hd (hd as))" "\<not> is_trim_ws (last (last as))" using assms False ends by (auto simp: list_all_iff)
  ultimately show ?thesis
    by (simp add: Trim_eq) (metis dropWhile_eq_self_iff hd_rev rev_rev_ident)
qed (simp add: Trim_def)

section \<open>A plain message\<close>

definition mail_id :: "mime_env \<Rightarrow> email \<Rightarrow> string" where
  "mail_id env m = (if message_id m = [] then GenerateMessageId env (sender m) else message_id m)"

definition plain_type :: string where
  "plain_type = ''text/plain; charset='' @ [DQUOTE] @ ''utf-8'' @ [DQUOTE]"

definition value_ok :: "string \<Rightarrow> bool" where
  "value_ok v \<longleftrightarrow> Trim v = v \<and> CR \<notin> set v \<and> LF \<notin> set v"

text \<open>The fields of \<^verbatim>\<open>AppendMainHeaders\<close>, and those of a message whose body is described by the fields \<open>content\<close>.\<close>

definition main_fields :: "mime_env \<Rightarrow> email \<Rightarrow> (string \<times> string) list" where
  "main_fields env m =
     [(''MIME-Version'', ''1.0''), (''Date'', me_date env)] @
     (if subject m \<noteq> [] then [(''Subject'', subject m)] else []) @
     [(''From'', sender m), (''To'', JoinAddresses (to_addrs m))] @
     (if cc_addrs m \<noteq> [] then [(''Cc'', JoinAddresses (cc_addrs m))] else []) @
     [(''Message-ID'', mail_id env m)] @
     (if in_reply_to m \<noteq> [] then [(''In-Reply-To'', in_reply_to m)] else []) @
     (if references m \<noteq> [] then [(''References'', references m)] else [])"

definition plain_content :: "(string \<times> string) list" where
  "plain_content = [(''Content-Type'', plain_type), (''Content-Transfer-Encoding'', ''8bit'')]"

definition mail_fields :: "mime_env \<Rightarrow> email \<Rightarrow> (string \<times> string) list \<Rightarrow> (string \<times> string) list" where
  "mail_fields env m content = main_fields env m @ content"

text \<open>Fields that only describe the content.\<close>

definition content_ok :: "(string \<times> string) list \<Rightarrow> bool" where
  "content_ok content \<longleftrightarrow> list_all (\<lambda>(k, v). k \<in> {''Content-Type'', ''Content-Transfer-Encoding'', ''Content-Disposition''} \<and> value_ok v) content"

definition headers_ok :: "mime_env \<Rightarrow> email \<Rightarrow> bool" where
  "headers_ok env m \<longleftrightarrow> value_ok (me_date env) \<and> value_ok (sender m) \<and> value_ok (subject m) \<and> value_ok (mail_id env m) \<and>
     value_ok (in_reply_to m) \<and> value_ok (references m) \<and> list_all address_ok (to_addrs m) \<and> list_all address_ok (cc_addrs m) \<and>
     CHR ''='' \<notin> set (sender m) \<and> CHR ''='' \<notin> set (subject m) \<and> \<not> NeedsEncoding (subject m)"

lemma join_crlf_concat: "ls \<noteq> [] \<Longrightarrow> join_crlf ls @ CRLF = concat (map (\<lambda>l. l @ CRLF) ls)"
  by (induction ls rule: join_crlf.induct) auto

lemma joined_value_ok: "list_all address_ok as \<Longrightarrow> value_ok (JoinAddresses as)"
  using JoinAddresses_chars [of as] Trim_joined [of as] by (auto simp: value_ok_def address_ok_def list_all_iff)

lemma named_field_ok:
  "k \<noteq> [] \<Longrightarrow> set k \<inter> {CR, LF, CHR '':'', SP, TAB} = {} \<Longrightarrow> value_ok v \<Longrightarrow> field_ok (k, v)"
  by (cases k) (auto simp: field_ok_def value_ok_def)

lemma content_fields_ok: "content_ok content \<Longrightarrow> list_all field_ok content"
  by (auto simp: content_ok_def list_all_iff intro!: named_field_ok)

lemma main_fields_ok: "headers_ok env m \<Longrightarrow> list_all field_ok (main_fields env m)"
proof -
  assume h: "headers_ok env m"
  have "value_ok ''1.0''" by (unfold value_ok_def, code_simp)
  with h show ?thesis by (simp add: main_fields_def headers_ok_def named_field_ok joined_value_ok)
qed

lemma fields_ok: "headers_ok env m \<Longrightarrow> content_ok content \<Longrightarrow> list_all field_ok (mail_fields env m content)"
  by (simp add: mail_fields_def main_fields_ok content_fields_ok)

lemma plain_content_ok: "content_ok plain_content"
proof -
  have "value_ok plain_type" "value_ok ''8bit''" by (unfold value_ok_def, code_simp+)
  then show ?thesis by (simp add: content_ok_def plain_content_def)
qed

lemma build_main:
  assumes "headers_ok env m"
  shows "AppendMainHeaders env m = Some (Inr (concat (map (\<lambda>f. field_line f @ CRLF) (main_fields env m))))"
proof -
  have "EncodeHeader (subject m) (CRLF @ [TAB]) (me_chunk env) = Some (Inr (subject m))"
    using assms by (simp add: EncodeHeader_def headers_ok_def)
  then show ?thesis by (simp add: AppendMainHeaders_def main_fields_def field_line_def mail_id_def)
qed

text \<open>A block of fields ends with an empty line.\<close>

lemma block_end: "fs \<noteq> [] \<Longrightarrow> concat (map (\<lambda>f. field_line f @ CRLF) fs) @ CRLF @ body = join_crlf (map field_line fs) @ CRLF @ CRLF @ body"
  using join_crlf_concat [of "map field_line fs"] by (simp add: comp_def flip: append_assoc)

lemma split_fields:
  assumes "fs \<noteq> []" "list_all field_ok fs"
  shows "SplitHeadersAndBody (join_crlf (map field_line fs) @ CRLF @ CRLF @ body) = (join_crlf (map field_line fs), body)"
  using assms field_line_ok by (intro split_block) (auto simp: list_all_iff)

lemma build_plain:
  assumes "ValidateEmail m" "html_text m = []" "attachments m = []" "headers_ok env m"
  shows "BuildEmail env m =
    Some (Inr (Some (join_crlf (map field_line (mail_fields env m plain_content)) @ CRLF @ CRLF @ plain_text m @ CRLF)))"
proof -
  have "BuildEmail env m =
      Some (Inr (Some (concat (map (\<lambda>f. field_line f @ CRLF) (mail_fields env m plain_content)) @ CRLF @ plain_text m @ CRLF)))"
    using assms build_main [OF assms(4)]
    by (simp add: BuildEmail_def HasHtml_def HasAttachments_def AppendBodyContent_def Let_def mail_fields_def
        plain_content_def field_line_def plain_type_def)
  then show ?thesis using block_end [of "mail_fields env m plain_content"] by (simp add: mail_fields_def plain_content_def)
qed

lemma lower_names:
  "ToLower ''MIME-Version'' = ''mime-version''" "ToLower ''Date'' = ''date''" "ToLower ''Subject'' = ''subject''"
  "ToLower ''From'' = ''from''" "ToLower ''To'' = ''to''" "ToLower ''Cc'' = ''cc''" "ToLower ''Message-ID'' = ''message-id''"
  "ToLower ''In-Reply-To'' = ''in-reply-to''" "ToLower ''References'' = ''references''" "ToLower ''Content-Type'' = ''content-type''"
  "ToLower ''Content-Transfer-Encoding'' = ''content-transfer-encoding''" "ToLower ''Content-Disposition'' = ''content-disposition''"
  by code_simp+

text \<open>The value of a field in a list, where names are compared without case.\<close>

definition field_value :: "(string \<times> string) list \<Rightarrow> string \<Rightarrow> string" where
  "field_value fs key = (case map_of (map (\<lambda>f. (ToLower (fst f), snd f)) fs) key of None \<Rightarrow> [] | Some v \<Rightarrow> v)"

lemma content_lacks:
  assumes "content_ok content" "set key \<inter> {CHR ''y'', CHR ''g'', CHR ''p''} = {} \<or> key = ''in-reply-to''"
  shows "map_of (map (\<lambda>f. (ToLower (fst f), snd f)) content) key = None"
  using assms by (induction content) (auto simp: content_ok_def lower_names)

lemma mail_headers:
  assumes "headers_ok env m" "content_ok content"
  defines "h \<equiv> join_crlf (map field_line (mail_fields env m content))"
  shows "GetHeaderValue h ''From:'' = sender m" "GetHeaderValue h ''Subject:'' = subject m" "GetHeaderValue h ''Date:'' = me_date env"
    "GetHeaderValue h ''To:'' = JoinAddresses (to_addrs m)" "GetHeaderValue h ''Cc:'' = JoinAddresses (cc_addrs m)"
    "GetHeaderValue h ''Message-ID:'' = mail_id env m" "GetHeaderValue h ''In-Reply-To:'' = in_reply_to m"
    "GetHeaderValue h ''References:'' = references m"
    "GetHeaderValue h ''Content-Type:'' = field_value content ''content-type''"
    "GetHeaderValue h ''Content-Transfer-Encoding:'' = field_value content ''content-transfer-encoding''"
proof -
  note field = get_header [OF fields_ok [OF assms(1,2)]]
  note defs = mail_fields_def main_fields_def lower_names content_lacks [OF assms(2)] field_value_def
  show "GetHeaderValue h ''From:'' = sender m"
    unfolding h_def using field [OF lower_names(4) [symmetric]] by (simp add: defs)
  show "GetHeaderValue h ''Subject:'' = subject m"
    unfolding h_def using field [OF lower_names(3) [symmetric]] by (simp add: defs)
  show "GetHeaderValue h ''Date:'' = me_date env"
    unfolding h_def using field [OF lower_names(2) [symmetric]] by (simp add: defs)
  show "GetHeaderValue h ''To:'' = JoinAddresses (to_addrs m)"
    unfolding h_def using field [OF lower_names(5) [symmetric]] by (simp add: defs)
  show "GetHeaderValue h ''Cc:'' = JoinAddresses (cc_addrs m)"
    unfolding h_def using field [OF lower_names(6) [symmetric]] by (simp add: defs)
  show "GetHeaderValue h ''Message-ID:'' = mail_id env m"
    unfolding h_def using field [OF lower_names(7) [symmetric]] by (simp add: defs)
  show "GetHeaderValue h ''In-Reply-To:'' = in_reply_to m"
    unfolding h_def using field [OF lower_names(8) [symmetric]] by (simp add: defs)
  show "GetHeaderValue h ''References:'' = references m"
    unfolding h_def using field [OF lower_names(9) [symmetric]] by (simp add: defs)
  show "GetHeaderValue h ''Content-Type:'' = field_value content ''content-type''"
    unfolding h_def using field [OF lower_names(10) [symmetric]] by (simp add: defs)
  show "GetHeaderValue h ''Content-Transfer-Encoding:'' = field_value content ''content-transfer-encoding''"
    unfolding h_def using field [OF lower_names(11) [symmetric]] by (simp add: defs)
qed

text \<open>The fields of the headers that the parser reads back.\<close>

definition header_email :: "mime_env \<Rightarrow> email \<Rightarrow> email" where
  "header_email env m = new_email\<lparr>sender := sender m, to_addrs := to_addrs m, cc_addrs := cc_addrs m, subject := subject m,
     date := me_date env, message_id := mail_id env m, in_reply_to := in_reply_to m, references := references m\<rparr>"

lemma parse_main:
  assumes "headers_ok env m" "content_ok content"
  shows "ParseMainHeaders (join_crlf (map field_line (mail_fields env m content))) new_email = header_email env m"
proof -
  have words: "DecodeEncodedWord (sender m) = sender m" "DecodeEncodedWord (subject m) = subject m"
    "SplitAddresses (DecodeEncodedWord (JoinAddresses (to_addrs m))) = to_addrs m"
    "SplitAddresses (DecodeEncodedWord (JoinAddresses (cc_addrs m))) = cc_addrs m"
    using assms(1) encoded_word_free split_addresses_joined by (auto simp: headers_ok_def)
  show ?thesis unfolding ParseMainHeaders_def mail_headers [OF assms] words by (simp add: header_email_def new_email_def)
qed

lemma mail_split:
  assumes "headers_ok env m" "content_ok content"
  shows "SplitHeadersAndBody (join_crlf (map field_line (mail_fields env m content)) @ CRLF @ CRLF @ body) =
    (join_crlf (map field_line (mail_fields env m content)), body)"
  using fields_ok [OF assms] by (intro split_fields) (simp_all add: mail_fields_def main_fields_def)

text \<open>
  A plain message built from an \<^verbatim>\<open>Email\<close> is parsed back to the same sender, recipients, subject and
  threading fields, with the date and the identifier that the builder gave it; the text comes
  back with one line end more, and the blind copies stay out of the message.
\<close>

lemma plain_message_roundtrip:
  assumes "ValidateEmail m" "html_text m = []" "attachments m = []" "headers_ok env m"
  shows "\<exists>raw. BuildEmail env m = Some (Inr (Some raw)) \<and> ParseEmail raw new_email =
    (True, new_email\<lparr>sender := sender m, to_addrs := to_addrs m, cc_addrs := cc_addrs m, subject := subject m,
       date := me_date env, message_id := mail_id env m, in_reply_to := in_reply_to m, references := references m,
       plain_text := plain_text m @ CRLF, plain_text_encoding := ''8bit''\<rparr>)"
proof (intro exI conjI)
  let ?raw = "join_crlf (map field_line (mail_fields env m plain_content)) @ CRLF @ CRLF @ plain_text m @ CRLF"
  show "BuildEmail env m = Some (Inr (Some ?raw))" by (rule build_plain [OF assms])
  have type: "\<not> contains_sub (ToLower plain_type) ''multipart''" "ExtractCharset plain_type = ''utf-8''" "ToLower ''8bit'' = ''8bit''"
    "\<not> contains_sub ''8bit'' ''quoted-printable''" "\<not> contains_sub ''8bit'' ''base64''" by code_simp+
  have content: "field_value plain_content ''content-type'' = plain_type"
    "field_value plain_content ''content-transfer-encoding'' = ''8bit''"
    by (simp_all add: field_value_def plain_content_def lower_names)
  show "ParseEmail ?raw new_email =
    (True, new_email\<lparr>sender := sender m, to_addrs := to_addrs m, cc_addrs := cc_addrs m, subject := subject m,
       date := me_date env, message_id := mail_id env m, in_reply_to := in_reply_to m, references := references m,
       plain_text := plain_text m @ CRLF, plain_text_encoding := ''8bit''\<rparr>)"
    unfolding ParseEmail_def mail_split [OF assms(4) plain_content_ok] Let_def fst_conv snd_conv
      parse_main [OF assms(4) plain_content_ok] mail_headers [OF assms(4) plain_content_ok] content
    by (simp add: type new_email_def header_email_def)
qed

definition test_mime_env :: mime_env where
  "test_mime_env = \<lparr>me_date = ''Mon, 01 Jan 2024 10:00:00 +0000'', me_millis = 7, me_id_digits = ''0a'', me_mixed_digits = ''1b'',
     me_alternative_digits = ''2c'', me_chunk = 45, me_domain = ''localhost''\<rparr>"

definition test_mail :: email where
  "test_mail = (CreateNew ''alice@x'' ''bob@y'' ''Hello'' (''Hi'' @ CRLF @ ''Bye''))\<lparr>bcc_addrs := [''eve@z'']\<rparr>"

lemma plain_message_roundtrip_example:
  "\<exists>raw. BuildEmail test_mime_env test_mail = Some (Inr (Some raw)) \<and> sender (snd (ParseEmail raw new_email)) = ''alice@x'' \<and>
    to_addrs (snd (ParseEmail raw new_email)) = [''bob@y''] \<and> subject (snd (ParseEmail raw new_email)) = ''Hello'' \<and>
    message_id (snd (ParseEmail raw new_email)) = ''<7.0a@x>'' \<and> plain_text (snd (ParseEmail raw new_email)) = ''Hi'' @ CRLF @ ''Bye'' @ CRLF"
proof -
  have "ValidateEmail test_mail" "html_text test_mail = []" "attachments test_mail = []" by code_simp+
  moreover have "mail_id test_mime_env test_mail = ''<7.0a@x>''" by code_simp
  moreover have "headers_ok test_mime_env test_mail" unfolding headers_ok_def value_ok_def address_ok_def by code_simp
  ultimately show ?thesis
    using plain_message_roundtrip [of test_mail test_mime_env] by (auto simp: test_mail_def CreateNew_def)
qed

end
