(* ===== verification/Mime_Multipart.thy ===== *)
theory Mime_Multipart
  imports Mime_Roundtrip Base64_Stream
begin

text \<open>
  Messages with HTML and attachments: what \<^verbatim>\<open>MimeBuilder\<close> writes as a multipart message, \<^verbatim>\<open>MimeParser\<close> reads. A
  multipart body is a list of parts between delimiters, a part a block of header fields with a body; the
  round trip follows the nesting of the builder.
\<close>

section \<open>Parts between delimiters\<close>









section \<open>One part\<close>

definition part_of :: "(string \<times> string) list \<Rightarrow> string \<Rightarrow> string" where
  "part_of content body = join_crlf (map field_line content) @ CRLF @ CRLF @ body"

lemma part_header:
  assumes "content_ok content"
  shows "GetHeaderValue (join_crlf (map field_line content)) ''Content-Type:'' = field_value content ''content-type''"
    "GetHeaderValue (join_crlf (map field_line content)) ''Content-Disposition:'' = field_value content ''content-disposition''"
    "GetHeaderValue (join_crlf (map field_line content)) ''Content-Transfer-Encoding:'' =
       field_value content ''content-transfer-encoding''"
proof -
  note field = get_header [OF content_fields_ok [OF assms]]
  show "GetHeaderValue (join_crlf (map field_line content)) ''Content-Type:'' = field_value content ''content-type''"
    using field [OF lower_names(10) [symmetric]] by (simp add: field_value_def)
  show "GetHeaderValue (join_crlf (map field_line content)) ''Content-Disposition:'' = field_value content ''content-disposition''"
    using field [OF lower_names(12) [symmetric]] by (simp add: field_value_def)
  show "GetHeaderValue (join_crlf (map field_line content)) ''Content-Transfer-Encoding:'' =
       field_value content ''content-transfer-encoding''"
    using field [OF lower_names(11) [symmetric]] by (simp add: field_value_def)
qed

text \<open>What the parser makes of a part, by the values of its fields.\<close>

lemma process_part:
  assumes "content_ok content" "content \<noteq> []"
    and "field_value content ''content-type'' = ct" "field_value content ''content-disposition'' = cd"
    and "field_value content ''content-transfer-encoding'' = enc"
  shows "ProcessMimePart (part_of content body) m =
     (if contains_sub (ToLower ct) ''multipart'' then
        (if ExtractBoundary ct \<noteq> [] then
           fold ProcessMimePart (multipart_parts (qp_body (ToLower enc) body) (ExtractBoundary ct))
             (if contains_sub (ToLower ct) ''multipart/alternative'' then m\<lparr>boundary_alternative := ExtractBoundary ct\<rparr> else m)
         else m)
      else process_leaf (join_crlf (map field_line content)) (qp_body (ToLower enc) body) (ToLower ct) (ToLower cd) (ToLower enc) m)"
  unfolding part_of_def
  by (subst ProcessMimePart.simps)
    (simp only: split_fields [OF assms(2) content_fields_ok [OF assms(1)]] fst_conv snd_conv Let_def part_header [OF assms(1)] assms(3-5))

section \<open>The parts of the builder\<close>












section \<open>Parameters in quotes\<close>






lemma ToLower_length [simp]: "length (ToLower s) = length s"
  by (simp add: ToLower_def)



section \<open>Attachments\<close>

definition att_mime :: "attachment \<Rightarrow> string" where
  "att_mime a = (if mime_type a = [] then GetMimeType (file_name a) else mime_type a)"

definition att_type :: "attachment \<Rightarrow> string" where
  "att_type a = att_mime a @ ''; name='' @ [DQUOTE] @ file_name a @ [DQUOTE]"

definition att_disposition :: "attachment \<Rightarrow> string" where
  "att_disposition a = ''attachment; filename='' @ [DQUOTE] @ file_name a @ [DQUOTE]"

definition att_content :: "attachment \<Rightarrow> (string \<times> string) list" where
  "att_content a = [(''Content-Type'', att_type a), (''Content-Transfer-Encoding'', ''base64''),
     (''Content-Disposition'', att_disposition a)]"

definition att_part :: "attachment \<Rightarrow> string" where
  "att_part a = part_of (att_content a) (base64_data a @ CRLF)"




lemma att_values:
  "field_value (att_content a) ''content-type'' = att_type a"
  "field_value (att_content a) ''content-disposition'' = att_disposition a"
  "field_value (att_content a) ''content-transfer-encoding'' = ''base64''"
  by (simp_all add: field_value_def att_content_def lower_names)




section \<open>The message\<close>




















section \<open>Building\<close>








section \<open>Parsing\<close>








section \<open>The round trip\<close>






text \<open>An attachment whose name holds the word multipart is lost: the parser takes the part for a nested message.\<close>

definition lost_attachment :: attachment where
  "lost_attachment = \<lparr>file_name = ''multipart.pdf'', mime_type = ''application/pdf'', base64_data = ''QUJD'', file_size = 3\<rparr>"

lemma multipart_name_lost: "attachments (ProcessMimePart (att_part lost_attachment) m) = attachments m"
proof -
  have c: "content_ok (att_content lost_attachment)" unfolding content_ok_def value_ok_def by code_simp
  have "att_content lost_attachment \<noteq> []" by (simp add: att_content_def)
  moreover have "contains_sub (ToLower (att_type lost_attachment)) ''multipart''" "ExtractBoundary (att_type lost_attachment) = []"
    by code_simp+
  ultimately show ?thesis
    using process_part [OF c _ att_values, of "base64_data lost_attachment @ CRLF" m] by (simp add: att_part_def)
qed

end
