(* ===== verification/Mua_Worker_Laws.thy ===== *)
theory Mua_Worker_Laws
  imports Mua_Handlers
begin

text \<open>
  What every run of the mail client keeps: the session with the IMAP server is encrypted, nothing
  but EHLO and STARTTLS is sent in clear, and a command gives exactly one result. The operations
  are related by \<open>inner\<close> (between two points of a handler) and \<open>outer\<close> (a whole handler), which
  compose, so each operation is one short lemma.
\<close>

section \<open>The relations\<close>

definition secured :: "mail_worker \<Rightarrow> bool" where
  "secured s \<longleftrightarrow> (case mw_imap s of None \<Rightarrow> True | Some l \<Rightarrow> is_secured l)"

definition plain_ok :: "string \<Rightarrow> string \<Rightarrow> bool" where
  "plain_ok username data \<longleftrightarrow>
     data = ''EHLO '' @ username @ CRLF \<or> data = ''STARTTLS'' @ CRLF \<or>
     (\<exists>n. data = ''A'' @ nat_to_string n @ '' STARTTLS'' @ CRLF)"

definition log_ok :: "string \<Rightarrow> (bool \<times> string) list \<Rightarrow> bool" where
  "log_ok username log \<longleftrightarrow> (\<forall>(sec, data) \<in> set log. sec \<or> plain_ok username data)"

datatype result_kind = Connected_kind | Disconnected_kind | Sent_kind | Mails_kind | Mail_kind | Folders_kind | Download_kind | Reconnect_kind | Action_kind

fun kind_of :: "mail_result \<Rightarrow> result_kind" where
  "kind_of (ConnectResult _ _) = Connected_kind"
| "kind_of (DisconnectResult _ _) = Disconnected_kind"
| "kind_of (SendMailResult _ _) = Sent_kind"
| "kind_of (FetchMailsResult _ _ _) = Mails_kind"
| "kind_of (FetchMailResult _ _ _) = Mail_kind"
| "kind_of (FetchFoldersResult _ _ _) = Folders_kind"
| "kind_of (DownloadAttachmentResult _ _ _ _ _) = Download_kind"
| "kind_of (ReconnectStateResult _ _ _) = Reconnect_kind"
| "kind_of (MailActionResult _ _) = Action_kind"

fun answer_kind :: "mail_command \<Rightarrow> result_kind" where
  "answer_kind (ConnectCommand _) = Connected_kind"
| "answer_kind DisconnectCommand = Disconnected_kind"
| "answer_kind (SendMailCommand _) = Sent_kind"
| "answer_kind (FetchMailsCommand _ _ _) = Mails_kind"
| "answer_kind (FetchMailCommand _) = Mail_kind"
| "answer_kind (DownloadAttachmentCommand _ _ _) = Download_kind"
| "answer_kind FetchFoldersCommand = Folders_kind"
| "answer_kind _ = Action_kind"

abbreviation is_reconnect :: "mail_result \<Rightarrow> bool" where
  "is_reconnect r \<equiv> kind_of r = Reconnect_kind"

text \<open>\<open>inner s0 s\<close>: the state inside a handler that started in \<open>s0\<close>.\<close>

definition inner :: "mail_worker \<Rightarrow> mail_worker \<Rightarrow> bool" where
  "inner s0 s \<longleftrightarrow> secured s \<and>
     (\<exists>log. mw_log s = mw_log s0 @ log \<and> log_ok (mw_smtpUsername s0) log) \<and>
     (\<exists>rs. mw_results s = mw_results s0 @ rs \<and> list_all is_reconnect rs) \<and>
     mw_smtpUsername s = mw_smtpUsername s0 \<and> mw_crash s = mw_crash s0"

text \<open>\<open>outer K u s0 s\<close>: the state after it, \<open>u\<close> the user whose name may have been sent, \<open>K\<close> the kind of the result.\<close>

definition outer :: "result_kind \<Rightarrow> string \<Rightarrow> mail_worker \<Rightarrow> mail_worker \<Rightarrow> bool" where
  "outer K u s0 s \<longleftrightarrow> secured s \<and>
     (\<exists>log. mw_log s = mw_log s0 @ log \<and> log_ok u log) \<and>
     (mw_crash s = None \<longrightarrow> (\<exists>rs r. mw_results s = mw_results s0 @ rs @ [r] \<and> list_all is_reconnect rs \<and> kind_of r = K)) \<and>
     mw_smtpUsername s \<in> {u, []} \<and> (mw_crash s = mw_crash s0 \<or> K = Sent_kind)"

lemma log_ok_simps [simp]:
  "log_ok u []" "log_ok u (x # log) \<longleftrightarrow> (fst x \<or> plain_ok u (snd x)) \<and> log_ok u log"
  "log_ok u (log @ log') \<longleftrightarrow> log_ok u log \<and> log_ok u log'"
  by (auto simp: log_ok_def)

lemma plain_ok_greetings [simp]:
  "plain_ok u ((''EHLO '' @ u) @ CRLF)" "plain_ok u (''STARTTLS'' @ CRLF)"
  "plain_ok u ((''A'' @ nat_to_string n) @ '' STARTTLS'' @ CRLF)"
  by (auto simp: plain_ok_def)

lemma inner_refl [simp]: "inner s s \<longleftrightarrow> secured s"
  by (simp add: inner_def)

lemma innerD: "inner s0 s \<Longrightarrow> mw_smtpUsername s = mw_smtpUsername s0"
  by (simp add: inner_def)

text \<open>A change that touches none of the fields the relation reads.\<close>

lemma inner_update [simp]:
  "inner s0 (s\<lparr>mw_random := n\<rparr>) = inner s0 s" "inner s0 (s\<lparr>mw_tagCounter := i\<rparr>) = inner s0 s"
  "inner s0 (s\<lparr>mw_currentFolder := f\<rparr>) = inner s0 s" "inner s0 (s\<lparr>mw_stop := b\<rparr>) = inner s0 s"
  "inner s0 (s\<lparr>mw_events := es\<rparr>) = inner s0 s" "inner s0 (s\<lparr>mw_connector := b\<rparr>) = inner s0 s"
  "inner s0 (s\<lparr>mw_files := fs\<rparr>) = inner s0 s" "inner s0 (draw s) = inner s0 s"
  by (simp_all add: inner_def secured_def draw_def)

lemma inner_imap:
  "inner s0 s \<Longrightarrow> inner s0 (s\<lparr>mw_imap := None\<rparr>)" "inner s0 s \<Longrightarrow> is_secured l \<Longrightarrow> inner s0 (s\<lparr>mw_imap := Some l\<rparr>)"
  by (simp_all add: inner_def secured_def)

lemma inner_report: "inner s0 s \<Longrightarrow> inner s0 (reportReconnectState b n msg s)"
  by (auto simp: inner_def reportReconnectState_def emit_def secured_def)

lemma outer_emit: "inner s0 s \<Longrightarrow> kind_of r = K \<Longrightarrow> outer K (mw_smtpUsername s0) s0 (emit r s)"
  by (auto simp: inner_def outer_def emit_def secured_def)

text \<open>Partial correctness of operations that may not return.\<close>

definition holds :: "('a \<Rightarrow> bool) \<Rightarrow> 'a option \<Rightarrow> bool" where
  "holds P r \<longleftrightarrow> (\<forall>x. r = Some x \<longrightarrow> P x)"

lemma holds_simps [simp]: "holds P None" "holds P (Some x) \<longleftrightarrow> P x"
  by (simp_all add: holds_def)

lemma holds_bind: "holds P m \<Longrightarrow> (\<And>x. P x \<Longrightarrow> holds Q (f x)) \<Longrightarrow> holds Q (m \<bind> f)"
  by (auto simp: holds_def bind_eq_Some_conv)

lemma holds_map: "holds P m \<Longrightarrow> (\<And>x. P x \<Longrightarrow> Q (f x)) \<Longrightarrow> holds Q (map_option f m)"
  by (auto simp: holds_def)

lemma holds_weaken: "holds P m \<Longrightarrow> (\<And>x. P x \<Longrightarrow> Q x) \<Longrightarrow> holds Q m"
  by (auto simp: holds_def)

lemma holdsD: "holds P m \<Longrightarrow> m = Some x \<Longrightarrow> P x"
  by (simp add: holds_def)

section \<open>Links\<close>

lemma Channel_Send_secure: "ch_secure (snd (Channel_Send so io nonce data ch)) = ch_secure ch"
  by (simp add: Channel_Send_def Let_def split: prod.split)

lemma Channel_Receive_secure: "holds (\<lambda>r. ch_secure (snd r) = ch_secure ch) (Channel_Receive so io ch)"
  by (auto simp: Channel_Receive_def Decrypt_def Let_def holds_def split: prod.split option.split if_splits)

lemma Client_StartTLS_secure: "holds (\<lambda>(ok, ch'). ok \<longrightarrow> ch_secure ch') (Client_StartTLS so io keypair ch)"
  by (auto simp: Client_StartTLS_def enableSecure_def holds_def split: prod.splits option.splits if_splits)

lemma link_send_kind [simp]: "is_secured (snd (link_send env nonce data l)) = is_secured l"
  by (cases l) (simp_all add: Channel_Send_secure)

lemma link_receive_kind: "holds (\<lambda>r. is_secured (snd r) = is_secured l) (link_receive env l)"
proof (cases l)
  case (Secured ch)
  then show ?thesis
    by (auto intro: holds_map [OF Channel_Receive_secure])
qed (auto simp: holds_def)

lemma read_continuation_kind: "holds (\<lambda>r. is_secured (snd r) = is_secured l) (read_continuation env p ls l)"
proof -
  have "is_secured (snd r) = is_secured l" if "read_continuation env p ls l = Some r" for r
    by (rule read_continuation.raw_induct [OF _ that, where P = "\<lambda>env p ls l r. is_secured (snd r) = is_secured l"])
      (force split: option.splits prod.splits if_splits bool.splits dest!: holdsD [OF link_receive_kind])
  then show ?thesis by (simp add: holds_def)
qed

lemma login_reply_kind: "holds (\<lambda>r. is_secured (snd r) = is_secured l) (login_reply env tag l)"
proof -
  have "is_secured (snd r) = is_secured l" if "login_reply env tag l = Some r" for r
    by (rule login_reply.raw_induct [OF _ that, where P = "\<lambda>env tag l r. is_secured (snd r) = is_secured l"])
      (force split: option.splits prod.splits if_splits bool.splits dest!: holdsD [OF link_receive_kind])
  then show ?thesis by (simp add: holds_def)
qed

lemma exchange_reply_kind: "holds (\<lambda>r. is_secured (snd r) = is_secured l) (exchange_reply env tag ls l)"
proof -
  have "is_secured (snd r) = is_secured l" if "exchange_reply env tag ls l = Some r" for r
    by (rule exchange_reply.raw_induct [OF _ that, where P = "\<lambda>env tag ls l r. is_secured (snd r) = is_secured l"])
      (force split: option.splits prod.splits if_splits bool.splits dest!: holdsD [OF link_receive_kind])
  then show ?thesis by (simp add: holds_def)
qed

lemma ReadSmtpResponse_kind: "holds (\<lambda>r. is_secured (snd r) = is_secured l) (ReadSmtpResponse env l)"
  using link_receive_kind [of l] read_continuation_kind
  by (auto simp: ReadSmtpResponse_def Let_def holds_def split: option.splits list.splits)

lemma upgrade_inner:
  "inner s0 s \<Longrightarrow> holds (\<lambda>(l, s'). inner s0 s' \<and> (\<forall>l'. l = Some l' \<longrightarrow> is_secured l')) (upgrade env c s)"
  unfolding upgrade_def
  by (rule holds_map [OF Client_StartTLS_secure]) (auto split: if_splits)

lemma upgrade_link_inner:
  "inner s0 s \<Longrightarrow>
   holds (\<lambda>(l', s'). inner s0 s' \<and> (\<forall>l''. l' = Some l'' \<longrightarrow> is_secured l''))
     (case l of Plain c \<Rightarrow> upgrade env c s | Secured ch \<Rightarrow> Some (None, s))"
  by (auto split: link.split intro: upgrade_inner)

lemma send_on_inner:
  assumes "send_on env data l s = (ok, l', s')" and "inner s0 s" and "is_secured l \<or> plain_ok (mw_smtpUsername s0) data"
  shows "inner s0 s' \<and> is_secured l' = is_secured l"
proof -
  have "inner s0 s'"
    using assms by (auto simp: send_on_def draw_def inner_def secured_def split: prod.splits)
  moreover have "l' = snd (link_send env (ce_nonce env (mw_random s)) data l)"
    using assms(1) by (auto simp: send_on_def split: prod.splits)
  ultimately show ?thesis by simp
qed

lemma next_tag_inner: "next_tag s = (tag, s') \<Longrightarrow> inner s0 s \<Longrightarrow> inner s0 s' \<and> (\<exists>n. tag = ''A'' @ nat_to_string n)"
  by (auto simp: next_tag_def nextTag_def)

lemma see_stop_inner [simp]: "inner s0 (see_stop s) = inner s0 s"
  by (simp add: see_stop_def split: prod.splits)

lemma take_connect_inner: "take_connect s = (c, s') \<Longrightarrow> inner s0 s \<Longrightarrow> inner s0 s'"
  by (auto simp: take_connect_def Let_def split: list.splits net_event.splits)

lemma holds_send_on:
  assumes "inner s0 s" and "is_secured l \<or> plain_ok (mw_smtpUsername s0) data"
    and "\<And>ok l' s'. inner s0 s' \<Longrightarrow> is_secured l' = is_secured l \<Longrightarrow> holds Q (f ok l' s')"
  shows "holds Q (case send_on env data l s of (ok, l', s') \<Rightarrow> f ok l' s')"
  using send_on_inner [OF _ assms(1, 2)] assms(3) by (cases "send_on env data l s") auto

lemma holds_next_tag:
  assumes "inner s0 s" and "\<And>n s'. inner s0 s' \<Longrightarrow> holds Q (f (''A'' @ nat_to_string n) s')"
  shows "holds Q (case next_tag s of (tag, s') \<Rightarrow> f tag s')"
  using next_tag_inner [OF _ assms(1)] assms(2) by (cases "next_tag s") auto

lemma holds_take_connect:
  assumes "inner s0 s" and "\<And>c s'. inner s0 s' \<Longrightarrow> holds Q (f c s')"
  shows "holds Q (case take_connect s of (c, s') \<Rightarrow> f c s')"
  using take_connect_inner [OF _ assms(1)] assms(2) by (cases "take_connect s") auto

section \<open>SMTP and login\<close>

lemma smtp_exchange_inner:
  assumes "inner s0 s" and "is_secured l \<or> plain_ok (mw_smtpUsername s0) (line @ CRLF)"
  shows "holds (\<lambda>(ok, resp, l', s'). inner s0 s' \<and> is_secured l' = is_secured l) (smtp_exchange env line codes response l s)"
proof (cases "send_on env (line @ CRLF) l s")
  case (fields ok l1 s1)
  then have "inner s0 s1 \<and> is_secured l1 = is_secured l" using assms by (rule send_on_inner)
  then show ?thesis
    unfolding smtp_exchange_def fields
    by (auto split: bool.splits intro!: holds_map [OF ReadSmtpResponse_kind])
qed

lemma smtp_open_inner:
  assumes "inner s0 s" and "username = mw_smtpUsername s0"
  shows "holds (\<lambda>(r, s'). inner s0 s' \<and> (\<forall>resp l. r = Inr (resp, l) \<longrightarrow> is_secured l))
    (smtp_open env c username password errs payload_error s)"
  unfolding smtp_open_def
  using assms
  by (auto intro!: holds_bind [OF ReadSmtpResponse_kind] holds_bind [OF smtp_exchange_inner [of s0]]
      holds_bind [OF upgrade_link_inner [of s0]] simp del: append.simps append_assoc split: option.split)

lemma authenticateSmtp_inner:
  "inner s0 s \<Longrightarrow> username = mw_smtpUsername s0 \<Longrightarrow>
   holds (\<lambda>(err, s'). inner s0 s') (authenticateSmtp env c username password s)"
  unfolding authenticateSmtp_def by (rule holds_map [OF smtp_open_inner [of s0]]) auto

lemma loginImap_inner:
  assumes "inner s0 s"
  shows "holds (\<lambda>(err, s'). inner s0 s') (loginImap env username password s)"
  unfolding loginImap_def
  using assms
  apply (intro holds_take_connect [of s0], assumption)
  apply (split option.split, intro conjI impI allI, simp)
  apply (rule holds_bind [OF link_receive_kind], clarsimp simp del: append.simps append_assoc simp: inner_imap)
  apply (rule holds_next_tag [of s0], assumption)
  apply (rule holds_send_on [of s0], assumption, simp del: append.simps append_assoc)
  apply (clarsimp simp del: append.simps append_assoc simp: inner_imap)
  apply (rule holds_bind [OF link_receive_kind], clarsimp simp del: append.simps append_assoc simp: inner_imap)
  apply (rule holds_bind [OF upgrade_link_inner [of s0]], assumption)
  apply (clarsimp simp: inner_imap split: option.split)
  apply (rule holds_next_tag [of s0], assumption)
  apply (rule holds_send_on [of s0], assumption, simp)
  apply (clarsimp simp: inner_imap)
  apply (rule holds_bind [OF login_reply_kind], clarsimp simp: inner_imap split: option.split bool.split)
  done

lemma reconnect_round_inner:
  assumes "inner s0 s"
  shows "holds (\<lambda>(err, s'). inner s0 s') (reconnect_round env s)"
  unfolding reconnect_round_def
  using assms
  by (auto split: option.split intro!: holds_take_connect [of s0] holds_bind [OF authenticateSmtp_inner [of s0]]
      inner_imap loginImap_inner simp: innerD)

lemma reconnect_loop_inner:
  assumes "inner s0 s"
  shows "holds (\<lambda>(err, s'). inner s0 s') (reconnect_loop env n s)"
proof -
  have "inner s0 s \<longrightarrow> inner s0 (snd r)" if "reconnect_loop env n s = Some r" for r
  proof (rule reconnect_loop.raw_induct [OF _ that, where P = "\<lambda>env n s r. inner s0 s \<longrightarrow> inner s0 (snd r)"], intro impI)
    fix f env n s r
    assume IH: "\<And>env n s r. f env n s = Some r \<Longrightarrow> inner s0 s \<longrightarrow> inner s0 (snd r)" and s: "inner s0 s"
      and body: "(let s0 = see_stop s in
        if mw_stop s0 then Some (Some ''Reconnect canceled'', reportReconnectState False 0 ''Reconnect canceled'' s0)
        else case reconnect_round env (reportReconnectState True (n + 1) ''Reconnecting...'' s0) of
          None \<Rightarrow> None
        | Some (None, s1) \<Rightarrow>
            Some (None, reportReconnectState False (n + 1) ''Reconnected'' (s1\<lparr>mw_tagCounter := 0, mw_currentFolder := []\<rparr>))
        | Some (Some error, s1) \<Rightarrow>
            f env (n + 1) (reportReconnectState True (n + 1) (if error = [] then ''Reconnect failed'' else error) s1)) = Some r"
    have "holds (\<lambda>(err, s'). inner s0 s')
        (reconnect_round env (reportReconnectState True (n + 1) ''Reconnecting...'' (see_stop s)))"
      using s by (intro reconnect_round_inner inner_report) simp
    then show "inner s0 (snd r)"
      using body s by (auto simp: Let_def inner_report split: if_splits option.splits dest!: IH)
  qed
  with assms show ?thesis by (auto simp: holds_def)
qed

lemma reconnectSession_inner: "inner s0 s \<Longrightarrow> holds (\<lambda>(err, s'). inner s0 s') (reconnectSession env s)"
  by (simp add: reconnectSession_def reconnect_loop_inner)

section \<open>IMAP commands\<close>

lemma exchange_on_inner:
  assumes "inner s0 s" and "is_secured l"
  shows "holds (\<lambda>(r, s'). inner s0 s') (exchange_on env cmd l s)"
  unfolding exchange_on_def
  using assms
  by (auto intro!: holds_next_tag [of s0] holds_send_on [of s0] inner_imap holds_map [OF exchange_reply_kind])

lemma exchange_attempt_inner:
  assumes "inner s0 s"
  shows "holds (\<lambda>(r, s'). inner s0 s') (exchange_attempt env cmd s)"
proof -
  have "mw_imap s' = Some l \<Longrightarrow> inner s0 s' \<Longrightarrow> is_secured l" for s' l
    by (simp add: inner_def secured_def)
  then show ?thesis
    unfolding exchange_attempt_def
    using assms
    by (auto split: option.split intro!: holds_bind [OF reconnectSession_inner [of s0]] holds_map [OF exchange_on_inner [of s0]])
qed

lemma imapExchange_inner:
  assumes "inner s0 s"
  shows "holds (\<lambda>(r, s'). inner s0 s') (imapExchange env cmd s)"
  unfolding imapExchange_def
  using assms
  by (auto split: option.split sum.split intro!: holds_bind [OF exchange_attempt_inner [of s0]] holds_bind [OF reconnectSession_inner [of s0]])

lemma ensure_inner:
  assumes "inner s0 s"
  shows "holds (\<lambda>(err, s'). inner s0 s') (ensureImapConnected env s)"
    and "holds (\<lambda>(err, s'). inner s0 s') (ensureMailboxSelected env folder s)"
    and "holds (\<lambda>(err, s'). inner s0 s') (ensureInboxSelected env s)"
  unfolding ensureImapConnected_def ensureMailboxSelected_def ensureInboxSelected_def
  using assms by (auto intro!: reconnectSession_inner holds_bind [OF imapExchange_inner [of s0]])

lemma fetch_inner:
  assumes "inner s0 s"
  shows "holds (\<lambda>(r, s'). inner s0 s') (fetchFlagsBySeq env mailId s)"
    and "holds (\<lambda>(r, s'). inner s0 s') (try_fetch env mailId items s)"
    and "holds (\<lambda>(r, s'). inner s0 s') (fetchMessagePayloadBySeq env mailId s)"
proof -
  show "holds (\<lambda>(r, s'). inner s0 s') (fetchFlagsBySeq env mailId s)"
    unfolding fetchFlagsBySeq_def using assms by (auto intro!: holds_map [OF imapExchange_inner [of s0]])
  show *: "holds (\<lambda>(r, s'). inner s0 s') (try_fetch env mailId items s)" for items
    using assms
    by (induction items arbitrary: s) (auto intro!: holds_bind [OF imapExchange_inner [of s0]])
  show "holds (\<lambda>(r, s'). inner s0 s') (fetchMessagePayloadBySeq env mailId s)"
    unfolding fetchMessagePayloadBySeq_def by (rule *)
qed


section \<open>Handlers\<close>

abbreviation handled :: "result_kind \<Rightarrow> mail_worker \<Rightarrow> mail_worker option \<Rightarrow> bool" where
  "handled K s0 \<equiv> holds (outer K (mw_smtpUsername s0) s0)"

lemma connected_or_handled:
  assumes "inner s0 s" and "\<And>e. kind_of (fail e) = K" and "\<And>s'. inner s0 s' \<Longrightarrow> handled K s0 (body s')"
  shows "handled K s0 (connected_or env fail s body)"
  unfolding connected_or_def
  using assms by (auto intro!: holds_bind [OF ensure_inner(1) [of s0]] outer_emit split: option.split)

lemma inbox_or_handled:
  assumes "inner s0 s" and "\<And>e. kind_of (fail e) = K" and "\<And>s'. inner s0 s' \<Longrightarrow> handled K s0 (body s')"
  shows "handled K s0 (inbox_or env fail s body)"
  unfolding inbox_or_def
  using assms by (auto intro!: holds_bind [OF ensure_inner(3) [of s0]] outer_emit split: option.split)

lemma finish_action_handled: "inner s0 s \<Longrightarrow> handled Action_kind s0 (finish_action env cmd error s)"
  unfolding finish_action_def
  by (auto intro!: holds_bind [OF imapExchange_inner [of s0]] outer_emit)

lemma require_action_handled:
  assumes "inner s0 s" and "\<And>s'. inner s0 s' \<Longrightarrow> handled Action_kind s0 (body s')"
  shows "handled Action_kind s0 (require_action env cmd error s body)"
  unfolding require_action_def
  using assms by (auto intro!: holds_bind [OF imapExchange_inner [of s0]] outer_emit)

lemma copy_and_delete_handled:
  "inner s0 s \<Longrightarrow> handled Action_kind s0 (copy_and_delete env mailId targetFolder s)"
  unfolding copy_and_delete_def by (intro require_action_handled finish_action_handled)

lemmas handled_intros =
  connected_or_handled inbox_or_handled finish_action_handled require_action_handled copy_and_delete_handled outer_emit

lemma imapExchange_state: "inner s0 s \<Longrightarrow> holds (inner s0) (map_option snd (imapExchange env cmd s))"
  by (rule holds_map [OF imapExchange_inner [of s0]]) auto

lemma action_handlers_handled:
  assumes "secured s"
  shows "handled Action_kind s (handleDeleteMail env mailId s)" "handled Action_kind s (handleMarkMailRead env mailId s)"
    "handled Action_kind s (handleMoveMail env mailId targetFolder s)" "handled Action_kind s (handleMarkMailImportant env mailId flag s)"
    "handled Action_kind s (handleAddLabel env mailId label s)" "handled Action_kind s (handleRemoveLabel env mailId label s)"
    "handled Action_kind s (handleCreateFolder env folderName s)" "handled Action_kind s (handleDeleteFolder env folderName s)"
    "handled Action_kind s (handleMarkMailStarred env mailId starred s)"
  unfolding handleDeleteMail_def handleMarkMailRead_def handleMoveMail_def handleMarkMailImportant_def
    handleAddLabel_def handleRemoveLabel_def handleCreateFolder_def handleDeleteFolder_def handleMarkMailStarred_def Let_def
  using assms
  by (auto intro!: handled_intros holds_bind [OF imapExchange_inner [of s]] holds_bind [OF imapExchange_state [of s]])

lemma fetch_handlers_handled:
  assumes "secured s"
  shows "handled Folders_kind s (handleFetchFolders env s)"
    "handled Mails_kind s (handleFetchMails env folderName offset limit s)"
    "handled Mail_kind s (handleFetchMail env mailId s)"
  unfolding handleFetchFolders_def handleFetchMails_def handleFetchMail_def
  using assms
  by (auto intro!: handled_intros holds_bind [OF imapExchange_inner [of s]] holds_bind [OF ensure_inner(2) [of s]]
      holds_bind [OF fetch_inner(1) [of s]] holds_bind [OF fetch_inner(3) [of s]] split: option.split)

lemma save_attachment_outer:
  "inner s0 s \<Longrightarrow> outer Download_kind (mw_smtpUsername s0) s0 (save_attachment env path name bytes s)"
  unfolding save_attachment_def Let_def by (auto intro!: outer_emit)

lemma download_message_outer:
  "inner s0 s \<Longrightarrow> outer Download_kind (mw_smtpUsername s0) s0 (download_message env j path raw s)"
  unfolding download_message_def Let_def
  by (auto intro!: outer_emit save_attachment_outer split: option.split prod.split bool.split)

lemma handleDownloadAttachment_handled:
  "secured s \<Longrightarrow> handled Download_kind s (handleDownloadAttachment env mailId i out s)"
  unfolding handleDownloadAttachment_def Let_def
  by (auto intro!: handled_intros holds_bind [OF fetch_inner(3) [of s]] download_message_outer split: option.split)

section \<open>Sending\<close>

lemma smtp_connect_inner: "inner s0 s \<Longrightarrow> holds (\<lambda>(c, s'). inner s0 s') (smtp_connect env s)"
  unfolding smtp_connect_def
  by (auto simp: take_connect_inner [OF prod.collapse [symmetric]] case_prod_beta split: option.split
      intro!: holds_bind [OF reconnectSession_inner [of s0]])

lemma send_recipients_inner:
  "inner s0 s \<Longrightarrow> is_secured l \<Longrightarrow> holds (\<lambda>(ok, l', s'). inner s0 s' \<and> is_secured l') (send_recipients env rcpts resp l s)"
  by (induction rcpts arbitrary: resp l s) (auto intro!: holds_bind [OF smtp_exchange_inner [of s0]])

lemma send_data_lines_inner:
  "inner s0 s \<Longrightarrow> is_secured l \<Longrightarrow> send_data_lines env ls l s = (ok, l', s') \<Longrightarrow> inner s0 s' \<and> is_secured l'"
proof (induction ls arbitrary: l s)
  case (Cons line ls)
  obtain ok1 l1 s1 where send: "send_on env (line @ CRLF) l s = (ok1, l1, s1)" by (cases "send_on env (line @ CRLF) l s") auto
  then have "inner s0 s1 \<and> is_secured l1" using send_on_inner [OF send, of s0] Cons.prems(1, 2) by simp
  then show ?case using Cons.IH [of s1 l1] Cons.prems(3) by (cases ok1) (auto simp: send)
qed simp

lemma send_message_inner:
  assumes "inner s0 s" and "is_secured l"
  shows "holds (\<lambda>(r, s'). inner s0 s' \<and> (\<forall>x. r = Inr x \<longrightarrow> kind_of x = Sent_kind)) (send_message env cmd l s)"
proof (cases "collect_attachments env (sm_attachments cmd)")
  case (Inr atts)
  have sent: "inner s0 s1 \<and> is_secured l1" if "send_data_lines env ls l (draw s) = (ok, l1, s1)" for ls ok l1 s1
    using that assms by (intro send_data_lines_inner [of s0 "draw s" l env ls ok]) auto
  have dot: "inner s0 s2 \<and> is_secured l2" if "send_on env data l1 s1 = (ok, l2, s2)" "inner s0 s1 \<and> is_secured l1" for data l1 s1 ok l2 s2
    using send_on_inner [OF that(1), of s0] that(2) by auto
  have quit: "inner s0 (snd (snd (send_on env data l' s')))" if "inner s0 s'" "is_secured l'" for data l' s'
    using send_on_inner [of env data l' s' _ _ _ s0] that by (cases "send_on env data l' s'") auto
  show ?thesis
    unfolding send_message_def Inr sum.case
    apply (rule holds_bind [where P = "\<lambda>_. True"], simp add: holds_def)
    using assms
    by (auto simp: quit split: sum.split option.split bool.split prod.split intro!: holds_bind [OF ReadSmtpResponse_kind]
        dest!: sent dest: dot)
qed (use assms in \<open>auto simp: send_message_def split: sum.split\<close>)

lemma send_envelope_inner:
  assumes "inner s0 s" and "is_secured l"
  shows "holds (\<lambda>(r, s'). inner s0 s' \<and> (\<forall>x. r = Inr x \<longrightarrow> kind_of x = Sent_kind)) (send_envelope env cmd resp l s)"
  unfolding send_envelope_def
  using assms
  by (auto intro!: holds_bind [OF smtp_exchange_inner [of s0]] holds_bind [OF send_recipients_inner [of s0]] send_message_inner)

lemma outer_crash: "inner s0 s \<Longrightarrow> outer Sent_kind (mw_smtpUsername s0) s0 (s\<lparr>mw_crash := Some e\<rparr>)"
  by (auto simp: inner_def outer_def secured_def)

lemma handleSendMail_handled: "secured s \<Longrightarrow> handled Sent_kind s (handleSendMail env cmd s)"
  unfolding handleSendMail_def
  by (auto intro!: holds_bind [OF smtp_connect_inner [of s]] holds_bind [OF smtp_open_inner [of s]]
      holds_bind [OF send_envelope_inner [of s]] outer_emit outer_crash simp: innerD split: option.split sum.split)

section \<open>Connecting\<close>

lemma outer_rebase:
  "outer K u s1 s \<Longrightarrow> mw_log s1 = mw_log s0 \<Longrightarrow> mw_results s1 = mw_results s0 \<Longrightarrow> mw_crash s1 = mw_crash s0 \<Longrightarrow>
   outer K u s0 s"
  by (simp add: outer_def)

lemma handleConnect_outer:
  assumes "secured s"
  shows "holds (outer Connected_kind (cc_username cmd) s) (handleConnect env cmd s)"
proof -
  define s1 where "s1 = s\<lparr>mw_connector := True, mw_smtpHost := cc_SMTPhost cmd, mw_smtpPort := cc_SMTPport cmd,
    mw_smtpUsername := cc_username cmd, mw_smtpPassword := cc_password cmd, mw_imapHost := cc_IMAPhost cmd,
    mw_imapPort := cc_IMAPport cmd, mw_imapUsername := cc_username cmd, mw_imapPassword := cc_password cmd\<rparr>"
  have "inner s1 s1" using assms by (simp add: s1_def secured_def)
  then have "holds (outer Connected_kind (mw_smtpUsername s1) s1) (handleConnect env cmd s)"
    unfolding handleConnect_def s1_def [symmetric]
    by (auto intro!: holds_bind [OF reconnectSession_inner [of s1]] outer_emit split: option.split)
  moreover have "mw_smtpUsername s1 = cc_username cmd" "mw_log s1 = mw_log s" "mw_results s1 = mw_results s"
    "mw_crash s1 = mw_crash s"
    by (simp_all add: s1_def)
  ultimately show ?thesis
    by (auto elim!: holds_weaken intro: outer_rebase)
qed

lemma disconnect_outer:
  "inner s0 s \<Longrightarrow> outer Disconnected_kind (mw_smtpUsername s0) s0
     (emit (DisconnectResult True []) (reportReconnectState False 0 [] (s\<lparr>mw_connector := False, mw_currentFolder := [],
        mw_tagCounter := 0, mw_smtpUsername := [], mw_smtpPassword := [], mw_smtpHost := [], mw_smtpPort := 0,
        mw_imapUsername := [], mw_imapPassword := [], mw_imapHost := [], mw_imapPort := 0\<rparr>)))"
  by (auto simp: inner_def outer_def emit_def reportReconnectState_def secured_def)

lemma handleDisconnect_handled:
  assumes "secured s"
  shows "handled Disconnected_kind s (handleDisconnect env s)"
proof -
  have "holds (inner s) (if mw_imap s \<noteq> None then map_option (\<lambda>(_, s1). s1\<lparr>mw_imap := None\<rparr>) (imapExchange env ''LOGOUT'' s) else Some s)"
    using assms by (auto intro!: holds_map [OF imapExchange_inner [of s]] inner_imap)
  then show ?thesis
    unfolding handleDisconnect_def by (rule holds_bind) (simp add: disconnect_outer)
qed

section \<open>Every command\<close>

fun command_user :: "string \<Rightarrow> mail_command \<Rightarrow> string" where
  "command_user u (ConnectCommand c) = cc_username c"
| "command_user u _ = u"

lemma handle_outer:
  "secured s \<Longrightarrow> holds (outer (answer_kind cmd) (command_user (mw_smtpUsername s) cmd) s) (handle env cmd s)"
  by (cases cmd)
    (simp_all add: handleConnect_outer handleDisconnect_handled handleSendMail_handled action_handlers_handled
       fetch_handlers_handled handleDownloadAttachment_handled)


section \<open>Reachable clients\<close>

definition connect_users :: "mail_command list \<Rightarrow> string set" where
  "connect_users cmds = {cc_username c |c. ConnectCommand c \<in> set cmds}"

definition clear_ok :: "mail_command list \<Rightarrow> mail_worker \<Rightarrow> bool" where
  "clear_ok cmds s \<longleftrightarrow> secured s \<and> mw_smtpUsername s \<in> insert [] (connect_users cmds) \<and>
     (\<forall>(sec, data) \<in> set (mw_log s). sec \<or> (\<exists>u \<in> insert [] (connect_users cmds). plain_ok u data))"

definition all_answered :: "mail_command list \<Rightarrow> mail_worker \<Rightarrow> bool" where
  "all_answered cmds s \<longleftrightarrow>
     list_all2 (\<lambda>cmd r. kind_of r = answer_kind cmd) cmds (filter (\<lambda>r. \<not> is_reconnect r) (mw_results s))"

lemma answer_not_reconnect [simp]: "answer_kind cmd \<noteq> Reconnect_kind"
  by (cases cmd) simp_all

lemma command_user_in: "u \<in> insert [] (connect_users cmds) \<Longrightarrow> command_user u cmd \<in> insert [] (connect_users (cmds @ [cmd]))"
  by (cases cmd) (auto simp: connect_users_def)

lemma clear_ok_step:
  assumes "clear_ok cmds s" and "handle env cmd s = Some s'"
  shows "clear_ok (cmds @ [cmd]) s'"
proof -
  let ?u = "command_user (mw_smtpUsername s) cmd"
  have s: "secured s" using assms(1) by (simp add: clear_ok_def)
  let ?U = "insert [] (connect_users cmds)" and ?U' = "insert [] (connect_users (cmds @ [cmd]))"
  have "outer (answer_kind cmd) ?u s s'" by (rule holdsD [OF handle_outer [OF s] assms(2)])
  then obtain log where log: "mw_log s' = mw_log s @ log" "log_ok ?u log"
    and out: "secured s'" "mw_smtpUsername s' \<in> {?u, []}" by (auto simp: outer_def)
  have u: "?u \<in> ?U'" using assms(1) command_user_in unfolding clear_ok_def by blast
  have "?U \<subseteq> ?U'" by (auto simp: connect_users_def)
  then have "\<forall>(sec, data) \<in> set (mw_log s). sec \<or> (\<exists>u \<in> ?U'. plain_ok u data)"
    using assms(1) unfolding clear_ok_def by blast
  moreover have "\<forall>(sec, data) \<in> set log. sec \<or> (\<exists>u \<in> ?U'. plain_ok u data)"
    using log(2) u unfolding log_ok_def by blast
  moreover have "mw_smtpUsername s' \<in> ?U'" using out(2) u by (elim insertE emptyE) simp_all
  ultimately show ?thesis
    using out(1) by (simp only: clear_ok_def log(1) set_append ball_Un simp_thms)
qed

lemma all_answered_step:
  assumes "all_answered cmds s" and "secured s" and "handle env cmd s = Some s'" and "mw_crash s' = None"
  shows "all_answered (cmds @ [cmd]) s'"
proof -
  obtain rs r where "mw_results s' = mw_results s @ rs @ [r]" "list_all is_reconnect rs" "kind_of r = answer_kind cmd"
    using holdsD [OF handle_outer [OF assms(2)] assms(3)] assms(4) by (auto simp: outer_def)
  moreover from this have "filter (\<lambda>r. \<not> is_reconnect r) rs = []" by (auto simp: list_all_iff filter_empty_conv)
  ultimately show ?thesis using assms(1) by (simp add: all_answered_def list_all2_appendI)
qed

lemma clear_ok_stop [simp]: "clear_ok cmds (s\<lparr>mw_stop := b\<rparr>) = clear_ok cmds s"
  by (simp add: clear_ok_def secured_def)

lemma reachable_clear_ok:
  "(client_step env)\<^sup>*\<^sup>* (new_client events) c \<Longrightarrow> clear_ok (cl_taken c) (cl_worker c)"
proof (induction rule: rtranclp_induct)
  case base
  show ?case by (simp add: new_client_def new_worker_def clear_ok_def secured_def)
next
  case (step c c')
  from step(2, 3) show ?case by (cases rule: client_step.cases) (auto intro: clear_ok_step)
qed

lemma reachable_all_answered:
  "(client_step env)\<^sup>*\<^sup>* (new_client events) c \<Longrightarrow>
   (cl_running c \<longrightarrow> mw_crash (cl_worker c) = None) \<and> (mw_crash (cl_worker c) = None \<longrightarrow> all_answered (cl_taken c) (cl_worker c))"
proof (induction rule: rtranclp_induct)
  case base
  show ?case by (simp add: new_client_def new_worker_def all_answered_def)
next
  case (step c c')
  have "secured (cl_worker c)" using reachable_clear_ok [OF step(1)] by (simp add: clear_ok_def)
  with step(2, 3) show ?case
    by (cases rule: client_step.cases) (auto simp: all_answered_def [of _ "_\<lparr>mw_stop := _\<rparr>"] all_answered_def [symmetric] intro: all_answered_step)
qed

end
