(* ===== verification/Mua_Client_Laws.thy ===== *)
theory Mua_Client_Laws
  imports Mua_Worker_Laws Secure_Channel_Laws
begin

text \<open>
  The properties of the whole mail client: what it sends in clear, that results answer commands one
  to one, and that a client which was asked to stop comes to an end.
\<close>

section \<open>Operations that return\<close>

definition returns :: "('a \<Rightarrow> bool) \<Rightarrow> 'a option \<Rightarrow> bool" where
  "returns P m \<longleftrightarrow> (\<exists>x. m = Some x \<and> P x)"

lemma returns_simps [simp]: "returns P (Some x) \<longleftrightarrow> P x" "\<not> returns P None"
  by (simp_all add: returns_def)

lemma returns_bind: "returns P m \<Longrightarrow> (\<And>x. P x \<Longrightarrow> returns Q (f x)) \<Longrightarrow> returns Q (m \<bind> f)"
  by (auto simp: returns_def)

lemma returns_map: "returns P m \<Longrightarrow> (\<And>x. P x \<Longrightarrow> Q (f x)) \<Longrightarrow> returns Q (map_option f m)"
  by (auto simp: returns_def)

text \<open>A worker that was asked to stop, with an encrypted session or none.\<close>

definition ready :: "mail_worker \<Rightarrow> bool" where
  "ready s \<longleftrightarrow> mw_stop s \<and> secured s"

lemma ready_update [simp]:
  "ready (s\<lparr>mw_random := n\<rparr>) = ready s" "ready (s\<lparr>mw_tagCounter := i\<rparr>) = ready s"
  "ready (s\<lparr>mw_currentFolder := f\<rparr>) = ready s" "ready (s\<lparr>mw_connector := b\<rparr>) = ready s"
  "ready (s\<lparr>mw_log := lg\<rparr>) = ready s" "ready (draw s) = ready s" "ready (emit r s) = ready s"
  "ready (reportReconnectState b k msg s) = ready s" "ready s \<Longrightarrow> ready (see_stop s)"
  "ready s \<Longrightarrow> ready (s\<lparr>mw_imap := None\<rparr>)" "ready s \<Longrightarrow> is_secured l \<Longrightarrow> ready (s\<lparr>mw_imap := Some l\<rparr>)"
  by (auto simp: ready_def secured_def draw_def emit_def reportReconnectState_def see_stop_def split: prod.splits)

text \<open>
  An encrypted link reads frames with a time limit, so a read returns, and a frame takes bytes off
  those that are still to arrive.
\<close>

fun pending :: "link \<Rightarrow> nat" where
  "pending (Plain c) = 0"
| "pending (Secured ch) = length (cn_incoming (ch_conn ch))"

lemma ReceiveRaw_returns [simp]: "op_ReceiveRaw SocketConnection n c \<noteq> None"
  by (auto simp: SocketConnection_def Socket_ReceiveRaw_def Let_def split: prod.splits)

lemma Channel_Receive_returns:
  assumes "ch_secure ch"
  shows "Channel_Receive so SocketConnection ch \<noteq> None"
  using assms by (simp add: Channel_Receive_def Let_def split: option.split prod.split)

lemma Channel_Receive_consumes:
  assumes "ch_secure ch" and "Channel_Receive so SocketConnection ch = Some (Some msg, ch')"
  shows "length (cn_incoming (ch_conn ch')) < length (cn_incoming (ch_conn ch))"
  using assms
  by (auto simp: Channel_Receive_def Let_def Decrypt_def split: option.splits prod.splits if_splits dest!: socket.received_raw)

lemma link_receive_returns:
  assumes "is_secured l"
  shows "returns (\<lambda>(r, l'). is_secured l' \<and> (r \<noteq> None \<longrightarrow> pending l' < pending l)) (link_receive env l)"
proof (cases l)
  case (Secured ch)
  then have ch: "ch_secure ch" using assms by simp
  then obtain r ch' where r: "Channel_Receive (ce_sodium env) SocketConnection ch = Some (r, ch')"
    using Channel_Receive_returns by fastforce
  then have "ch_secure ch'" using holdsD [OF Channel_Receive_secure r] ch by simp
  with r ch show ?thesis by (auto simp: Secured Channel_Receive_consumes)
qed (use assms in simp)

lemma exchange_reply_returns:
  "is_secured l \<Longrightarrow> returns (\<lambda>(r, l'). is_secured l') (exchange_reply env tag ls l)"
proof (induction "pending l" arbitrary: l ls rule: less_induct)
  case less
  obtain r l' where r: "link_receive env l = Some (r, l')" "is_secured l'" "r \<noteq> None \<longrightarrow> pending l' < pending l"
    using link_receive_returns [OF less.prems, of env] by (auto simp: returns_def)
  show ?case
    unfolding exchange_reply.simps [of env tag ls l]
    using r less.hyps [of l'] by (auto split: option.split prod.split)
qed

section \<open>A client that was asked to stop\<close>

lemma reconnectSession_returns:
  assumes "ready s"
  shows "returns (\<lambda>(err, s'). ready s') (reconnectSession env s)"
proof -
  have "ready (see_stop (s\<lparr>mw_connector := True\<rparr>))" using assms by simp
  then have "reconnect_loop env 0 (s\<lparr>mw_connector := True\<rparr>) =
      Some (Some ''Reconnect canceled'', reportReconnectState False 0 ''Reconnect canceled'' (see_stop (s\<lparr>mw_connector := True\<rparr>)))"
    by (simp add: reconnect_loop.simps [of env 0] Let_def ready_def)
  then show ?thesis using assms by (simp add: reconnectSession_def)
qed

lemma send_on_ready: "ready s \<Longrightarrow> is_secured l \<Longrightarrow> send_on env data l s = (ok, l', s') \<Longrightarrow> ready s' \<and> is_secured l'"
  by (auto simp: send_on_def split: prod.splits) (metis link_send_kind snd_conv)

lemma exchange_on_returns:
  assumes "ready s" and "is_secured l"
  shows "returns (\<lambda>(r, s'). ready s') (exchange_on env cmd l s)"
proof -
  obtain tag s1 where tag: "next_tag s = (tag, s1)" by (cases "next_tag s")
  then have "ready s1" using assms(1) by (auto simp: next_tag_def)
  obtain ok l' s2 where send: "send_on env (tag @ '' '' @ cmd @ CRLF) l s1 = (ok, l', s2)"
    by (cases "send_on env (tag @ '' '' @ cmd @ CRLF) l s1") auto
  then have "ready s2" "is_secured l'" using send_on_ready \<open>ready s1\<close> assms(2) by blast+
  then show ?thesis
    unfolding exchange_on_def tag prod.case send
    by (auto intro!: returns_map [OF exchange_reply_returns] split: option.split)
qed

lemma exchange_attempt_returns:
  assumes "ready s"
  shows "returns (\<lambda>(r, s'). ready s') (exchange_attempt env cmd s)"
proof -
  have "ready s' \<Longrightarrow> mw_imap s' = Some l \<Longrightarrow> is_secured l" for s' l by (simp add: ready_def secured_def)
  then show ?thesis
    unfolding exchange_attempt_def
    using assms
    by (auto split: option.split intro!: returns_map [OF exchange_on_returns] returns_bind [OF reconnectSession_returns])
qed

lemma imapExchange_returns: "ready s \<Longrightarrow> returns (\<lambda>(r, s'). ready s') (imapExchange env cmd s)"
  unfolding imapExchange_def
  by (auto split: option.split sum.split intro!: returns_bind [OF exchange_attempt_returns] returns_bind [OF reconnectSession_returns])

lemma ensure_returns:
  assumes "ready s"
  shows "returns (\<lambda>(err, s'). ready s') (ensureImapConnected env s)"
    and "returns (\<lambda>(err, s'). ready s') (ensureMailboxSelected env folder s)"
    and "returns (\<lambda>(err, s'). ready s') (ensureInboxSelected env s)"
  unfolding ensureImapConnected_def ensureMailboxSelected_def ensureInboxSelected_def
  using assms by (auto intro!: reconnectSession_returns returns_bind [OF imapExchange_returns])

lemma fetch_returns:
  assumes "ready s"
  shows "returns (\<lambda>(r, s'). ready s') (fetchFlagsBySeq env mailId s)"
    and "returns (\<lambda>(r, s'). ready s') (fetchMessagePayloadBySeq env mailId s)"
proof -
  show "returns (\<lambda>(r, s'). ready s') (fetchFlagsBySeq env mailId s)"
    unfolding fetchFlagsBySeq_def using assms by (auto intro!: returns_map [OF imapExchange_returns])
  have "returns (\<lambda>(r, s'). ready s') (try_fetch env mailId items s)" for items
    using assms by (induction items arbitrary: s) (auto intro!: returns_bind [OF imapExchange_returns])
  then show "returns (\<lambda>(r, s'). ready s') (fetchMessagePayloadBySeq env mailId s)"
    unfolding fetchMessagePayloadBySeq_def .
qed

lemma connected_or_returns:
  "ready s \<Longrightarrow> (\<And>s'. ready s' \<Longrightarrow> returns ready (body s')) \<Longrightarrow> returns ready (connected_or env fail s body)"
  unfolding connected_or_def by (auto intro!: returns_bind [OF ensure_returns(1)] split: option.split)

lemma inbox_or_returns:
  "ready s \<Longrightarrow> (\<And>s'. ready s' \<Longrightarrow> returns ready (body s')) \<Longrightarrow> returns ready (inbox_or env fail s body)"
  unfolding inbox_or_def by (auto intro!: returns_bind [OF ensure_returns(3)] split: option.split)

lemma finish_action_returns: "ready s \<Longrightarrow> returns ready (finish_action env cmd error s)"
  unfolding finish_action_def by (auto intro!: returns_bind [OF imapExchange_returns])

lemma require_action_returns:
  "ready s \<Longrightarrow> (\<And>s'. ready s' \<Longrightarrow> returns ready (body s')) \<Longrightarrow> returns ready (require_action env cmd error s body)"
  unfolding require_action_def by (auto intro!: returns_bind [OF imapExchange_returns])

lemma copy_and_delete_returns: "ready s \<Longrightarrow> returns ready (copy_and_delete env mailId targetFolder s)"
  unfolding copy_and_delete_def by (intro require_action_returns finish_action_returns)

lemmas returns_intros =
  connected_or_returns inbox_or_returns finish_action_returns require_action_returns copy_and_delete_returns


lemma imapExchange_state_returns: "ready s \<Longrightarrow> returns ready (map_option snd (imapExchange env cmd s))"
  by (rule returns_map [OF imapExchange_returns]) auto

lemma connect_returns:
  assumes "ready s"
  shows "returns ready (handleConnect env cmd s)" and "returns ready (handleDisconnect env s)"
proof -
  let ?s = "s\<lparr>mw_connector := True, mw_smtpHost := cc_SMTPhost cmd, mw_smtpPort := cc_SMTPport cmd,
    mw_smtpUsername := cc_username cmd, mw_smtpPassword := cc_password cmd, mw_imapHost := cc_IMAPhost cmd,
    mw_imapPort := cc_IMAPport cmd, mw_imapUsername := cc_username cmd, mw_imapPassword := cc_password cmd\<rparr>"
  have "ready ?s" using assms by (simp add: ready_def secured_def)
  then show "returns ready (handleConnect env cmd s)"
    unfolding handleConnect_def
    by (auto intro!: returns_bind [OF reconnectSession_returns] split: option.split)
  have "returns ready (if mw_imap s \<noteq> None then map_option (\<lambda>(_, s1). s1\<lparr>mw_imap := None\<rparr>) (imapExchange env ''LOGOUT'' s) else Some s)"
    using assms by (auto intro!: returns_map [OF imapExchange_returns])
  then show "returns ready (handleDisconnect env s)"
    unfolding handleDisconnect_def by (rule returns_bind) (simp add: ready_def secured_def emit_def reportReconnectState_def)
qed

lemma save_attachment_ready: "ready s \<Longrightarrow> ready (save_attachment env path name bytes s)"
  by (auto simp: save_attachment_def Let_def ready_def secured_def emit_def)

lemma download_message_ready: "ready s \<Longrightarrow> ready (download_message env j path raw s)"
  by (auto simp: download_message_def Let_def save_attachment_ready split: option.split prod.split bool.split)

lemma fetch_handlers_return:
  assumes "ready s"
  shows "returns ready (handleFetchFolders env s)" "returns ready (handleFetchMails env folderName offset limit s)"
    "returns ready (handleFetchMail env mailId s)" "returns ready (handleDownloadAttachment env mailId i out s)"
  unfolding handleFetchFolders_def handleFetchMails_def handleFetchMail_def handleDownloadAttachment_def Let_def
  using assms
  by (auto intro!: returns_intros returns_bind [OF imapExchange_returns] returns_bind [OF ensure_returns(2)]
      returns_bind [OF fetch_returns(1)] returns_bind [OF fetch_returns(2)] download_message_ready split: option.split)

lemma action_handlers_return:
  assumes "ready s"
  shows "returns ready (handleDeleteMail env mailId s)" "returns ready (handleMarkMailRead env mailId s)"
    "returns ready (handleMoveMail env mailId targetFolder s)" "returns ready (handleMarkMailImportant env mailId flag s)"
    "returns ready (handleAddLabel env mailId label s)" "returns ready (handleRemoveLabel env mailId label s)"
    "returns ready (handleCreateFolder env folderName s)" "returns ready (handleDeleteFolder env folderName s)"
    "returns ready (handleMarkMailStarred env mailId starred s)"
  unfolding handleDeleteMail_def handleMarkMailRead_def handleMoveMail_def handleMarkMailImportant_def
    handleAddLabel_def handleRemoveLabel_def handleCreateFolder_def handleDeleteFolder_def handleMarkMailStarred_def Let_def
  using assms
  by (auto intro!: returns_intros returns_bind [OF imapExchange_returns] returns_bind [OF imapExchange_state_returns])

lemma handle_returns:
  assumes "ready s" and "answer_kind cmd \<noteq> Sent_kind"
  shows "returns ready (handle env cmd s)"
  using assms by (cases cmd) (simp_all add: connect_returns fetch_handlers_return action_handlers_return)

lemma handle_no_crash:
  assumes "secured s" and "handle env cmd s = Some s'" and "answer_kind cmd \<noteq> Sent_kind"
  shows "mw_crash s' = mw_crash s"
  using holdsD [OF handle_outer [OF assms(1)] assms(2)] assms(3) by (simp add: outer_def)

text \<open>The steps of the worker thread alone.\<close>

definition worker_step :: "client_env \<Rightarrow> client \<Rightarrow> client \<Rightarrow> bool" where
  "worker_step env c c' \<longleftrightarrow> cl_running c \<and>
     ((\<exists>cmd q' w. queue_pop (cl_queue c) = Some (Some cmd, q') \<and> handle env cmd (cl_worker c) = Some w \<and>
         c' = c\<lparr>cl_queue := q', cl_worker := w, cl_taken := cl_taken c @ [cmd], cl_running := (mw_crash w = None)\<rparr>) \<or>
      (\<exists>q'. queue_pop (cl_queue c) = Some (None, q') \<and> c' = c\<lparr>cl_running := False\<rparr>))"

lemma worker_step_client: "worker_step env c c' \<Longrightarrow> client_step env c c'"
  unfolding worker_step_def by (auto intro: client_step.run client_step.finish)

text \<open>What holds of a stopped client while its worker empties the queue.\<close>

definition draining :: "client \<Rightarrow> bool" where
  "draining c \<longleftrightarrow> cq_stopped (cl_queue c) \<and> ready (cl_worker c) \<and> mw_crash (cl_worker c) = None \<and>
     list_all (\<lambda>cmd. answer_kind cmd \<noteq> Sent_kind) (cq_queue (cl_queue c))"

lemma draining_moves:
  assumes "draining c" "cl_running c"
  shows "\<exists>c'. worker_step env c c'"
proof (cases "cq_queue (cl_queue c)")
  case Nil
  then have "queue_pop (cl_queue c) = Some (None, cl_queue c)" using assms by (simp add: queue_pop_def draining_def)
  then show ?thesis using assms(2) by (auto simp: worker_step_def)
next
  case (Cons cmd cmds)
  then have "queue_pop (cl_queue c) = Some (Some cmd, (cl_queue c)\<lparr>cq_queue := cmds\<rparr>)" by (simp add: queue_pop_def)
  moreover obtain w where "handle env cmd (cl_worker c) = Some w"
    using handle_returns [of "cl_worker c" cmd env] assms(1) Cons by (auto simp: returns_def draining_def)
  ultimately show ?thesis using assms(2) unfolding worker_step_def by blast
qed

lemma draining_step:
  assumes "draining c" "worker_step env c c'"
  shows "draining c' \<and> (if cl_running c'
      then length (cq_queue (cl_queue c)) = Suc (length (cq_queue (cl_queue c'))) \<and>
        cl_taken c' @ cq_queue (cl_queue c') = cl_taken c @ cq_queue (cl_queue c)
      else cq_queue (cl_queue c) = [] \<and> cl_taken c' = cl_taken c)"
proof (cases "cq_queue (cl_queue c)")
  case Nil
  then show ?thesis using assms by (auto simp: worker_step_def draining_def queue_pop_def)
next
  case (Cons cmd cmds)
  then obtain w where c': "handle env cmd (cl_worker c) = Some w"
      "c' = c\<lparr>cl_queue := (cl_queue c)\<lparr>cq_queue := cmds\<rparr>, cl_worker := w, cl_taken := cl_taken c @ [cmd], cl_running := (mw_crash w = None)\<rparr>"
    using assms(2) by (auto simp: worker_step_def queue_pop_def)
  have c: "ready (cl_worker c)" "answer_kind cmd \<noteq> Sent_kind" using assms(1) Cons by (simp_all add: draining_def)
  then have "ready w" using handle_returns [OF c, of env] c'(1) by (simp add: returns_def)
  moreover have "mw_crash w = None"
    using handle_no_crash [OF _ c'(1) c(2)] c(1) assms(1) by (simp add: ready_def draining_def)
  ultimately show ?thesis using assms(1) Cons c'(2) by (simp add: draining_def)
qed

lemma drained:
  assumes "draining c" "cl_running c" "(worker_step env ^^ n) c c'"
  shows "draining c' \<and> (if cl_running c'
      then n + length (cq_queue (cl_queue c')) = length (cq_queue (cl_queue c)) \<and>
        cl_taken c' @ cq_queue (cl_queue c') = cl_taken c @ cq_queue (cl_queue c)
      else n = Suc (length (cq_queue (cl_queue c))) \<and> cl_taken c' = cl_taken c @ cq_queue (cl_queue c))"
  using assms(3)
proof (induction n arbitrary: c')
  case 0
  then show ?case using assms by simp
next
  case (Suc n)
  from Suc.prems obtain c1 where 1: "(worker_step env ^^ n) c c1" "worker_step env c1 c'" by auto
  have "cl_running c1" using 1(2) by (simp add: worker_step_def)
  with Suc.IH [OF 1(1)] draining_step [OF _ 1(2)] show ?case by (auto split: if_splits)
qed

section \<open>A server that does not end its reply\<close>

text \<open>
  The reply loop looks at the frames only, not at the stop request: it reads on through any number of frames
  without a tagged line, and returns only when no further frame comes.
\<close>

lemma exchange_reads_on:
  assumes "aead_laws (ce_sodium env)" "nonces_ok xs" "\<forall>x \<in> set xs. length (snd x) + 28 \<le> CHANNEL_MAX"
    and "ch_secure ch" "cn_open (ch_conn ch)" "cn_incoming (ch_conn ch) = wire_all (ce_sodium env) (ch_rxKey ch) (ch_rxSeq ch) xs"
    and "\<forall>x \<in> set xs. fst (scan_reply tag (frame_lines (strip_eol (snd x)))) = None"
  shows "\<exists>l'. exchange_reply env tag ls (Secured ch) =
    Some ((None, ls @ concat (map (\<lambda>x. snd (scan_reply tag (frame_lines (strip_eol (snd x))))) xs)), l')"
  using assms(2-)
proof (induction xs arbitrary: ch ls)
  case Nil
  obtain r ch' where r: "Channel_Receive (ce_sodium env) SocketConnection ch = Some (r, ch')"
    using Channel_Receive_returns [of ch "ce_sodium env"] Nil.prems by fastforce
  then have "r = None" using Channel_Receive_consumes [of ch "ce_sodium env" _ ch'] Nil.prems by (cases r) auto
  with r show ?case by (simp add: exchange_reply.simps [of env tag ls])
next
  case (Cons x xs)
  obtain c where c: "cn_open c" "cn_incoming c = wire_all (ce_sodium env) (ch_rxKey ch) (ch_rxSeq ch + 1) xs"
    "Channel_Receive (ce_sodium env) SocketConnection ch =
       Some (Some (strip_eol (snd x)), ch\<lparr>ch_conn := c, ch_rxSeq := ch_rxSeq ch + 1\<rparr>)"
    using Cons.prems by (auto intro: socket.received_next [OF assms(1), of x ch])
  let ?ch = "ch\<lparr>ch_conn := c, ch_rxSeq := ch_rxSeq ch + 1\<rparr>"
  obtain us where us: "scan_reply tag (frame_lines (strip_eol (snd x))) = (None, us)"
    using Cons.prems(6) by (cases "scan_reply tag (frame_lines (strip_eol (snd x)))") auto
  obtain l' where "exchange_reply env tag (ls @ us) (Secured ?ch) =
      Some ((None, (ls @ us) @ concat (map (\<lambda>x. snd (scan_reply tag (frame_lines (strip_eol (snd x))))) xs)), l')"
    using Cons.IH [of ?ch "ls @ us"] Cons.prems c by auto
  with c(3) us show ?case by (simp add: exchange_reply.simps [of env tag ls])
qed

section \<open>The client as a whole\<close>

text \<open>
  A small run: a server that greets and then closes, and a user who gives up.
\<close>

definition demo_env :: client_env where
  "demo_env = \<lparr>ce_sodium = \<lparr>aead_encrypt = \<lambda>k n a m. None, aead_decrypt = \<lambda>k n a m. None, kx_client = \<lambda>p s q. None, kx_server = \<lambda>p s q. None\<rparr>,
     ce_nonce = \<lambda>n. [], ce_keys = \<lambda>n. ([], []),
     ce_mime = \<lambda>n. \<lparr>me_date = [], me_millis = 0, me_id_digits = [], me_mixed_digits = [], me_alternative_digits = [], me_chunk = 45, me_domain = []\<rparr>,
     ce_file = \<lambda>p. None, ce_is_directory = \<lambda>p. False, ce_create_directories = \<lambda>p. False, ce_open = \<lambda>p. False, ce_write = \<lambda>p. False\<rparr>"

definition demo_connection :: connection where
  "demo_connection = \<lparr>cn_open = True, cn_arriving = [''220 hi'' @ CRLF], cn_silent = False, cn_accepting = [100], cn_sent = [], cn_buffer = []\<rparr>"

definition demo_connect :: connect_command where
  "demo_connect = \<lparr>cc_SMTPhost = ''h'', cc_SMTPport = 25, cc_IMAPhost = ''h'', cc_IMAPport = 143, cc_username = ''ann'', cc_password = ''pw''\<rparr>"

lemma demo_network:
  "Socket_Receive demo_connection = Some (Some ''220 hi'', demo_connection\<lparr>cn_arriving := []\<rparr>)"
  "Socket_Send (''EHLO ann'' @ CRLF) (demo_connection\<lparr>cn_arriving := []\<rparr>) =
     (True, demo_connection\<lparr>cn_arriving := [], cn_accepting := [], cn_sent := ''EHLO ann'' @ CRLF\<rparr>)"
  "Socket_Receive (demo_connection\<lparr>cn_arriving := [], cn_accepting := [], cn_sent := ''EHLO ann'' @ CRLF\<rparr>) =
     Some (None, demo_connection\<lparr>cn_open := False, cn_arriving := [], cn_accepting := [], cn_sent := ''EHLO ann'' @ CRLF\<rparr>)"
  by (simp_all add: demo_connection_def Socket_Receive_def Socket_Send_def Socket_SendRaw_def Socket_Close_def
      MAX_LINE_SIZE_def take_line_def pop_back_if_def contains_sub_def StartsWith_def Let_def)

lemma demo_lines: "logical_lines ''220 hi'' = [''220 hi'']" "GetSmtpCode [''220 hi''] = 220" "TryParseSmtpCode ''220 hi'' = Some 220"
  by code_simp+

lemma demo_smtp:
  "smtp_open demo_env demo_connection ''ann'' ''pw'' auth_errors f s =
   Some (Inl ''SMTP EHLO failed: '', (draw s)\<lparr>mw_log := mw_log s @ [(False, ''EHLO ann'' @ CRLF)]\<rparr>)"
  by (simp add: smtp_open_def ReadSmtpResponse_def demo_network [unfolded append.simps] demo_lines smtp_exchange_def send_on_def auth_errors_def)

definition demo_events :: "net_event list" where
  "demo_events = [Connects (Some demo_connection), Stop_Request]"

definition demo_settings :: "mail_worker \<Rightarrow> mail_worker" where
  "demo_settings s = s\<lparr>mw_connector := True, mw_smtpHost := ''h'', mw_smtpPort := 25, mw_smtpUsername := ''ann'',
     mw_smtpPassword := ''pw'', mw_imapHost := ''h'', mw_imapPort := 143, mw_imapUsername := ''ann'', mw_imapPassword := ''pw''\<rparr>"

text \<open>The worker after the connect command.\<close>

definition demo_worker :: mail_worker where
  "demo_worker = (demo_settings (new_worker []))\<lparr>mw_stop := True, mw_random := 1, mw_log := [(False, ''EHLO ann'' @ CRLF)],
     mw_results := [ReconnectStateResult True 1 ''Reconnecting...'', ReconnectStateResult True 1 ''SMTP EHLO failed: '',
       ReconnectStateResult False 0 ''Reconnect canceled'', ConnectResult False ''Reconnect canceled'']\<rparr>"

lemma demo_handle: "handle demo_env (ConnectCommand demo_connect) (new_worker demo_events) = Some demo_worker"
  by (simp add: handleConnect_def demo_connect_def reconnectSession_def reconnect_loop.simps [of demo_env 0]
      reconnect_loop.simps [of demo_env 1] see_stop_def Let_def reconnect_round_def take_connect_def
      new_worker_def demo_events_def authenticateSmtp_def demo_smtp reportReconnectState_def emit_def draw_def
      demo_worker_def demo_settings_def)


definition demo_client :: client where
  "demo_client = \<lparr>cl_queue = \<lparr>cq_queue = [], cq_stopped = False\<rparr>, cl_worker = demo_worker, cl_taken = [ConnectCommand demo_connect],
     cl_running = True\<rparr>"

lemma demo_run: "(client_step demo_env)\<^sup>*\<^sup>* (new_client demo_events) demo_client"
proof -
  let ?c = "(new_client demo_events)\<lparr>cl_queue := queue_push (ConnectCommand demo_connect) (cl_queue (new_client demo_events))\<rparr>"
  have "queue_pop (cl_queue ?c) = Some (Some (ConnectCommand demo_connect), \<lparr>cq_queue = [], cq_stopped = False\<rparr>)"
    by (simp add: new_client_def queue_push_def queue_pop_def)
  moreover have "handle demo_env (ConnectCommand demo_connect) (cl_worker ?c) = Some demo_worker"
    using demo_handle by (simp add: new_client_def)
  moreover have "cl_running ?c" by (simp add: new_client_def)
  ultimately have "client_step demo_env ?c demo_client"
    using client_step.run [of ?c _ _ demo_env demo_worker]
    by (simp add: demo_client_def new_client_def demo_worker_def demo_settings_def new_worker_def)
  moreover have "client_step demo_env (new_client demo_events) ?c" by (rule client_step.push)
  ultimately show ?thesis by (meson converse_rtranclp_into_rtranclp rtranclp.rtrancl_refl)
qed

text \<open>
  C5. In every run of the mail client, whatever the servers send, a text that leaves it unencrypted is
  EHLO with the name of a user that a connect command gave (or the empty name), or STARTTLS, with an
  IMAP tag or without. Passwords, messages and every IMAP command go out only on a channel whose
  encryption is on.
\<close>

theorem clear_text_only_greets:
  assumes "(client_step env)\<^sup>*\<^sup>* (new_client events) c"
    and "(False, data) \<in> set (mw_log (cl_worker c))"
  shows "\<exists>u \<in> insert [] (connect_users (cl_taken c)). plain_ok u data"
proof -
  have "\<forall>(sec, data) \<in> set (mw_log (cl_worker c)). sec \<or> (\<exists>u \<in> insert [] (connect_users (cl_taken c)). plain_ok u data)"
    using reachable_clear_ok [OF assms(1)] by (simp add: clear_ok_def)
  from bspec [OF this assms(2)] show ?thesis by simp
qed

theorem clear_text_only_greets_witness:
  "\<exists>u \<in> insert [] (connect_users [ConnectCommand demo_connect]). plain_ok u (''EHLO ann'' @ CRLF)"
proof -
  have "(False, ''EHLO ann'' @ CRLF) \<in> set (mw_log (cl_worker demo_client))"
    by (simp add: demo_client_def demo_worker_def)
  from clear_text_only_greets [OF demo_run this] show ?thesis by (simp add: demo_client_def)
qed

text \<open>
  C6. In every run that no exception has ended, the results that are not reconnection reports answer
  the commands taken so far one to one and in order, each with the result type of its command.
\<close>

theorem results_answer_commands:
  assumes "(client_step env)\<^sup>*\<^sup>* (new_client events) c" and "mw_crash (cl_worker c) = None"
  shows "list_all2 (\<lambda>cmd r. kind_of r = answer_kind cmd) (cl_taken c)
    (filter (\<lambda>r. kind_of r \<noteq> Reconnect_kind) (mw_results (cl_worker c)))"
  using reachable_all_answered [OF assms(1)] assms(2) by (simp add: all_answered_def)

theorem results_answer_commands_witness:
  "list_all2 (\<lambda>cmd r. kind_of r = answer_kind cmd) [ConnectCommand demo_connect] [ConnectResult False ''Reconnect canceled'']"
proof -
  have "mw_crash (cl_worker demo_client) = None"
    by (simp add: demo_client_def demo_worker_def demo_settings_def new_worker_def)
  from results_answer_commands [OF demo_run this] show ?thesis by (simp add: demo_client_def demo_worker_def)
qed

text \<open>
  C22. A client that was asked to stop comes to an end on every network that delivers finitely many bytes: the
  worker thread, if it goes on at all, takes every queued command that is not a send, in order, and each
  returns; after one step per command and one more it has left its loop. A server whose reply never ends is
  outside this: the reply loop of \<^verbatim>\<open>imapExchange\<close> reads on for as long as frames come, stop request or not
  (\<open>exchange_reads_on\<close>).
\<close>

theorem stopped_client_ends:
  assumes "(client_step env)\<^sup>*\<^sup>* (new_client events) c" and "cl_running c"
    and "cq_stopped (cl_queue c)" and "mw_stop (cl_worker c)"
    and "list_all (\<lambda>cmd. answer_kind cmd \<noteq> Sent_kind) (cq_queue (cl_queue c))"
    and "(worker_step env ^^ n) c c'"
  shows "n \<le> Suc (length (cq_queue (cl_queue c))) \<and>
    ((\<exists>c''. worker_step env c' c'') \<or> \<not> cl_running c' \<and> cl_taken c' = cl_taken c @ cq_queue (cl_queue c))"
proof -
  have "draining c"
    unfolding draining_def using reachable_clear_ok [OF assms(1)] reachable_all_answered [OF assms(1)] assms(2-5)
    by (simp add: ready_def clear_ok_def)
  from drained [OF this assms(2,6)] draining_moves [of c' env] show ?thesis by (auto split: if_splits)
qed

definition demo_stopped :: client where
  "demo_stopped = demo_client\<lparr>cl_queue := queue_stop (queue_push FetchFoldersCommand (cl_queue demo_client)),
     cl_worker := (cl_worker demo_client)\<lparr>mw_stop := True\<rparr>\<rparr>"

lemma demo_stop_run: "(client_step demo_env)\<^sup>*\<^sup>* (new_client demo_events) demo_stopped"
proof -
  let ?c = "demo_client\<lparr>cl_queue := queue_push FetchFoldersCommand (cl_queue demo_client)\<rparr>"
  have "client_step demo_env demo_client ?c" by (rule client_step.push)
  moreover have "client_step demo_env ?c demo_stopped"
    using client_step.stop [of demo_env ?c] by (simp add: demo_stopped_def)
  ultimately show ?thesis using demo_run by (meson rtranclp.rtrancl_into_rtrancl)
qed

lemma demo_stopped_steps: "\<exists>n c'. (worker_step demo_env ^^ n) demo_stopped c' \<and> \<not> (\<exists>c''. worker_step demo_env c' c'')"
proof -
  have drain: "draining demo_stopped" "cl_running demo_stopped"
    using reachable_clear_ok [OF demo_stop_run] reachable_all_answered [OF demo_stop_run]
    by (simp_all add: draining_def ready_def clear_ok_def demo_stopped_def demo_client_def queue_stop_def queue_push_def)
  show ?thesis
  proof (rule ccontr)
    assume no: "\<not> ?thesis"
    have "\<exists>c'. (worker_step demo_env ^^ n) demo_stopped c'" for n
    proof (induction n)
      case (Suc n)
      then show ?case using no by (auto simp: relcompp_apply) blast
    qed simp
    then obtain c' where "(worker_step demo_env ^^ 3) demo_stopped c'" by blast
    from drained [OF drain this] show False
      by (auto simp: demo_stopped_def demo_client_def queue_stop_def queue_push_def split: if_splits)
  qed
qed

theorem stopped_client_ends_witness:
  "\<exists>n c'. (worker_step demo_env ^^ n) demo_stopped c' \<and> n \<le> 2 \<and> \<not> cl_running c' \<and>
     cl_taken c' = [ConnectCommand demo_connect, FetchFoldersCommand]"
proof -
  have "cl_running demo_stopped" "cq_stopped (cl_queue demo_stopped)" "mw_stop (cl_worker demo_stopped)"
    "list_all (\<lambda>cmd. answer_kind cmd \<noteq> Sent_kind) (cq_queue (cl_queue demo_stopped))"
    by (simp_all add: demo_stopped_def demo_client_def queue_stop_def queue_push_def)
  note ends = stopped_client_ends [OF demo_stop_run this]
  obtain n c' where "(worker_step demo_env ^^ n) demo_stopped c'" "\<not> (\<exists>c''. worker_step demo_env c' c'')"
    using demo_stopped_steps by blast
  with ends [OF this(1)] show ?thesis
    by (intro exI [of _ n] exI [of _ c']) (auto simp: demo_stopped_def demo_client_def queue_stop_def queue_push_def)
qed

end
