(* ===== verification/Config_Json.thy ===== *)
theory Config_Json
  imports Imap_Utils "HOL-Library.AList" "HOL-Library.Monad_Syntax"
begin

text \<open>
  \<^verbatim>\<open>config/src/JsonParser.cpp\<close> and \<^verbatim>\<open>config/src/Config.cpp\<close>: the configuration file, a JSON object whose
  nested objects are flattened to dotted keys, and the settings taken from it.

  \<^item> The parser state \<^verbatim>\<open>m_pos\<close> is the text from that position on: the parser never looks back.
  \<^item> \<^verbatim>\<open>FlatMap\<close> is an association list with one entry per key.
  \<^item> \<open>None\<close> is a parse that never returns; the laws show that there is none.
\<close>

section \<open>JsonParser\<close>

type_synonym flat_map = "(string \<times> string) list"

definition is_json_ws :: "char \<Rightarrow> bool" where
  "is_json_ws c \<longleftrightarrow> c = SP \<or> c = TAB \<or> c = CR \<or> c = LF"

definition Json_SkipWhitespace :: "string \<Rightarrow> string" where
  "Json_SkipWhitespace r = dropWhile is_json_ws r"

definition unescape :: "char \<Rightarrow> char" where
  "unescape c = (if c = CHR ''n'' then LF else if c = CHR ''r'' then CR else if c = CHR ''t'' then TAB else c)"

fun string_loop :: "string \<Rightarrow> string \<times> string" where
  "string_loop [] = ([], [])"
| "string_loop (c # cs) =
     (if c = DQUOTE then ([], cs)
      else if c = BSLASH
      then (case cs of
              [] \<Rightarrow> ([c], [])
            | d # ds \<Rightarrow> (case string_loop ds of (s, rest) \<Rightarrow> (unescape d # s, rest)))
      else (case string_loop cs of (s, rest) \<Rightarrow> (c # s, rest)))"

definition ParseString :: "string \<Rightarrow> string \<times> string" where
  "ParseString r = string_loop (tl r)"

definition is_number_char :: "char \<Rightarrow> bool" where
  "is_number_char c \<longleftrightarrow> is_digit_char c \<or> c = CHR ''.'' \<or> c = CHR ''e'' \<or> c = CHR ''E'' \<or> c = CHR ''+'' \<or> c = CHR ''-''"

definition Json_ParseNumber :: "string \<Rightarrow> string \<times> string" where
  "Json_ParseNumber r =
     (let sign = (if r \<noteq> [] \<and> hd r = CHR ''-'' then [hd r] else []);
          r1 = drop (length sign) r
      in (sign @ takeWhile is_number_char r1, dropWhile is_number_char r1))"

definition not_delimiter :: "char \<Rightarrow> bool" where
  "not_delimiter c \<longleftrightarrow> c \<noteq> CHR '','' \<and> c \<noteq> CHR 0x7D \<and> c \<noteq> CHR '']''"

definition Json_ParseLiteral :: "string \<Rightarrow> string \<times> string" where
  "Json_ParseLiteral r =
     (case find (StartsWith r) [''true'', ''false'', ''null''] of
        Some lit \<Rightarrow> (lit, drop (length lit) r)
      | None \<Rightarrow> (takeWhile not_delimiter r, dropWhile not_delimiter r))"

definition drop_char :: "char \<Rightarrow> string \<Rightarrow> string" where
  "drop_char c r = (if r \<noteq> [] \<and> hd r = c then tl r else r)"

definition full_key :: "string \<Rightarrow> string \<Rightarrow> string" where
  "full_key prefix key = (if prefix = [] then key else prefix @ ''.'' @ key)"

text \<open>\<^verbatim>\<open>ParseValue\<close>, with \<^verbatim>\<open>ParseObject\<close> for a nested object as the argument \<open>object\<close>.\<close>

definition Json_ParseValue ::
    "(string \<Rightarrow> string \<Rightarrow> flat_map \<Rightarrow> (string \<times> flat_map) option) \<Rightarrow> string \<Rightarrow> string \<Rightarrow> flat_map \<Rightarrow> (string \<times> flat_map) option" where
  "Json_ParseValue object key r out =
     (let r1 = Json_SkipWhitespace r in
      if r1 = [] then Some (r1, out)
      else if hd r1 = CHR 0x7B then object key (tl r1) out
      else case (if hd r1 = DQUOTE then ParseString r1
                 else if hd r1 = CHR ''-'' \<or> is_digit_char (hd r1) then Json_ParseNumber r1
                 else Json_ParseLiteral r1) of
             (v, rest) \<Rightarrow> Some (rest, AList.update key v out))"

lemma Json_ParseValue_mono [partial_function_mono]:
  assumes "\<And>p r out. mono_option (\<lambda>f. F f p r out)"
  shows "mono_option (\<lambda>f. Json_ParseValue (F f) key r out)"
  unfolding Json_ParseValue_def Let_def using assms by (intro partial_function_mono)

text \<open>The loop of \<^verbatim>\<open>ParseObject\<close> and the brace behind it; \<open>ParseObject\<close> skips blanks first.\<close>

partial_function (option) object_loop :: "string \<Rightarrow> string \<Rightarrow> flat_map \<Rightarrow> (string \<times> flat_map) option" where
  "object_loop prefix r out =
     (let r1 = Json_SkipWhitespace r in
      if r = [] \<or> hd r = CHR 0x7D \<or> r1 = [] \<or> hd r1 \<noteq> DQUOTE
      then Some (drop_char (CHR 0x7D) (if r = [] \<or> hd r = CHR 0x7D then r else r1), out)
      else case ParseString r1 of (key, r2) \<Rightarrow> do {
        (r3, out1) \<leftarrow> Json_ParseValue (\<lambda>p r. object_loop p (Json_SkipWhitespace r)) (full_key prefix key)
                        (drop_char (CHR '':'') (Json_SkipWhitespace r2)) out;
        object_loop prefix (drop_char (CHR '','') (Json_SkipWhitespace r3)) out1
      })"

definition Json_ParseObject :: "string \<Rightarrow> string \<Rightarrow> flat_map \<Rightarrow> (string \<times> flat_map) option" where
  "Json_ParseObject prefix r out = object_loop prefix (Json_SkipWhitespace r) out"

definition Json_Parse :: "string \<Rightarrow> flat_map option" where
  "Json_Parse json =
     (let r = Json_SkipWhitespace json in
      if r \<noteq> [] \<and> hd r = CHR 0x7B then map_option snd (Json_ParseObject [] (tl r) []) else Some [])"

text \<open>\<^verbatim>\<open>ParseFile\<close>; the argument is the content of the file, \<open>None\<close> when it cannot be opened.\<close>

definition Json_ParseFile :: "string option \<Rightarrow> flat_map option" where
  "Json_ParseFile content = (case content of None \<Rightarrow> Some [] | Some json \<Rightarrow> Json_Parse json)"

section \<open>Config\<close>

text \<open>\<^verbatim>\<open>AppConfig.h\<close>: one record per section, with the defaults of its members.\<close>

record ServerConfig =
  sv_port :: "16 word"
  sv_domain :: string
  sv_worker_threads :: int
  sv_db_path :: string
  sv_migration_path :: string

record ImapConfig =
  im_port :: "16 word"
  im_db_path :: string
  im_migration_path :: string
  im_timeout_mins :: int
  im_worker_threads :: int
  im_handshake_timeout_secs :: int

record LoggingConfig =
  lg_log_level :: string
  lg_file_path :: string
  lg_old_file_path :: string
  lg_max_file_size_mb :: int
  lg_batch_size :: int
  lg_flush_interval_secs :: int

record ProtoConfig =
  pr_max_line_size :: int
  pr_socket_timeout_secs :: int
  pr_max_message_size_mb :: int

record DatabaseConfig =
  db_default_page_limit :: int

record MimeConfig =
  mi_header_chunk_size :: int
  mi_default_domain :: string

record Base64Config =
  b6_max_file_size_mb :: int
  b6_chunk_size_bytes :: int
  b6_line_length :: int

record AppConfig =
  ac_server :: ServerConfig
  ac_imap :: ImapConfig
  ac_logging :: LoggingConfig
  ac_proto :: ProtoConfig
  ac_database :: DatabaseConfig
  ac_mime :: MimeConfig
  ac_base64 :: Base64Config

definition default_config :: AppConfig where
  "default_config =
     \<lparr>ac_server = \<lparr>sv_port = 25000, sv_domain = ''localhost'', sv_worker_threads = 4, sv_db_path = ''mail.db'', sv_migration_path = ''../../database/scheme/001_init_scheme.sql''\<rparr>,
      ac_imap = \<lparr>im_port = 2553, im_db_path = ''prod.db'', im_migration_path = ''../../database/scheme/001_init_scheme.sql'', im_timeout_mins = 30, im_worker_threads = 4, im_handshake_timeout_secs = 10\<rparr>,
      ac_logging = \<lparr>lg_log_level = ''PROD'', lg_file_path = ''log.txt'', lg_old_file_path = ''old_log.txt'', lg_max_file_size_mb = 10, lg_batch_size = 50, lg_flush_interval_secs = 2\<rparr>,
      ac_proto = \<lparr>pr_max_line_size = 8192, pr_socket_timeout_secs = 30, pr_max_message_size_mb = 10\<rparr>,
      ac_database = \<lparr>db_default_page_limit = 50\<rparr>,
      ac_mime = \<lparr>mi_header_chunk_size = 45, mi_default_domain = ''localhost''\<rparr>,
      ac_base64 = \<lparr>b6_max_file_size_mb = 15, b6_chunk_size_bytes = 3072, b6_line_length = 76\<rparr>\<rparr>"

text \<open>\<^verbatim>\<open>it == map.end() || it->second.empty()\<close>: no value.\<close>

definition setting :: "flat_map \<Rightarrow> string \<Rightarrow> string option" where
  "setting m key = (case map_of m key of None \<Rightarrow> None | Some v \<Rightarrow> if v = [] then None else Some v)"

definition ToInt :: "flat_map \<Rightarrow> string \<Rightarrow> int \<Rightarrow> int" where
  "ToInt m key default_val =
     (case setting m key of
        None \<Rightarrow> default_val
      | Some v \<Rightarrow> (case stoi v of Inl _ \<Rightarrow> default_val | Inr i \<Rightarrow> i))"

definition ToString :: "flat_map \<Rightarrow> string \<Rightarrow> string \<Rightarrow> string" where
  "ToString m key default_val = (case setting m key of None \<Rightarrow> default_val | Some v \<Rightarrow> v)"

definition ToUint16 :: "flat_map \<Rightarrow> string \<Rightarrow> 16 word \<Rightarrow> 16 word" where
  "ToUint16 m key default_val =
     (case setting m key of
        None \<Rightarrow> default_val
      | Some v \<Rightarrow>
          (case stoi v of
             Inl _ \<Rightarrow> default_val
           | Inr i \<Rightarrow> if i < 0 \<or> 65535 < i then default_val else word_of_int i))"

definition load_server :: "flat_map \<Rightarrow> ServerConfig \<Rightarrow> ServerConfig" where
  "load_server m c =
     \<lparr>sv_port = ToUint16 m ''server.port'' (sv_port c),
      sv_domain = ToString m ''server.domain'' (sv_domain c),
      sv_worker_threads = ToInt m ''server.worker_threads'' (sv_worker_threads c),
      sv_db_path = ToString m ''server.db_path'' (sv_db_path c),
      sv_migration_path = ToString m ''server.migration_path'' (sv_migration_path c)\<rparr>"

definition load_imap :: "flat_map \<Rightarrow> ImapConfig \<Rightarrow> ImapConfig" where
  "load_imap m c =
     \<lparr>im_port = ToUint16 m ''imap.port'' (im_port c),
      im_db_path = ToString m ''imap.db_path'' (im_db_path c),
      im_migration_path = ToString m ''imap.migration_path'' (im_migration_path c),
      im_timeout_mins = ToInt m ''imap.timeout_mins'' (im_timeout_mins c),
      im_worker_threads = ToInt m ''imap.worker_threads'' (im_worker_threads c),
      im_handshake_timeout_secs = ToInt m ''imap.handshake_timeout_secs'' (im_handshake_timeout_secs c)\<rparr>"

definition load_logging :: "flat_map \<Rightarrow> LoggingConfig \<Rightarrow> LoggingConfig" where
  "load_logging m c =
     \<lparr>lg_log_level = ToString m ''logging.log_level'' (lg_log_level c),
      lg_file_path = ToString m ''logging.file_path'' (lg_file_path c),
      lg_old_file_path = ToString m ''logging.old_file_path'' (lg_old_file_path c),
      lg_max_file_size_mb = ToInt m ''logging.max_file_size_mb'' (lg_max_file_size_mb c),
      lg_batch_size = ToInt m ''logging.batch_size'' (lg_batch_size c),
      lg_flush_interval_secs = ToInt m ''logging.flush_interval_secs'' (lg_flush_interval_secs c)\<rparr>"

definition load_proto :: "flat_map \<Rightarrow> ProtoConfig \<Rightarrow> ProtoConfig" where
  "load_proto m c =
     \<lparr>pr_max_line_size = ToInt m ''proto.max_line_size'' (pr_max_line_size c),
      pr_socket_timeout_secs = ToInt m ''proto.socket_timeout_secs'' (pr_socket_timeout_secs c),
      pr_max_message_size_mb = ToInt m ''proto.max_message_size_mb'' (pr_max_message_size_mb c)\<rparr>"

definition load_database :: "flat_map \<Rightarrow> DatabaseConfig \<Rightarrow> DatabaseConfig" where
  "load_database m c =
     \<lparr>db_default_page_limit = ToInt m ''database.default_page_limit'' (db_default_page_limit c)\<rparr>"

definition load_mime :: "flat_map \<Rightarrow> MimeConfig \<Rightarrow> MimeConfig" where
  "load_mime m c =
     \<lparr>mi_header_chunk_size = ToInt m ''mime.header_chunk_size'' (mi_header_chunk_size c),
      mi_default_domain = ToString m ''mime.default_domain'' (mi_default_domain c)\<rparr>"

definition load_base64 :: "flat_map \<Rightarrow> Base64Config \<Rightarrow> Base64Config" where
  "load_base64 m c =
     \<lparr>b6_max_file_size_mb = ToInt m ''base64.max_file_size_mb'' (b6_max_file_size_mb c),
      b6_chunk_size_bytes = ToInt m ''base64.chunk_size_bytes'' (b6_chunk_size_bytes c),
      b6_line_length = ToInt m ''base64.line_length'' (b6_line_length c)\<rparr>"

text \<open>\<^verbatim>\<open>Config::Load\<close>: the result and the configuration afterwards.\<close>

definition Config_Load :: "string option \<Rightarrow> AppConfig \<Rightarrow> (bool \<times> AppConfig) option" where
  "Config_Load content c =
     do {
       m \<leftarrow> Json_ParseFile content;
       Some (if m = [] then (False, c)
             else (True, \<lparr>ac_server = load_server m (ac_server c),
                ac_imap = load_imap m (ac_imap c),
                ac_logging = load_logging m (ac_logging c),
                ac_proto = load_proto m (ac_proto c),
                ac_database = load_database m (ac_database c),
                ac_mime = load_mime m (ac_mime c),
                ac_base64 = load_base64 m (ac_base64 c)\<rparr>))
     }"

end
