(* ===== verification/Config_Laws.thy ===== *)
theory Config_Laws
  imports Config_Json Imap_Utils_Laws
begin

text \<open>
  The configuration reader returns on every input, reads back any JSON object that is written with
  its escapes, whatever blanks stand between the tokens, and so restores a configuration that was
  written to a file.
\<close>

section \<open>The parser returns\<close>

lemma length_skip: "length (Json_SkipWhitespace r) \<le> length r"
  by (simp add: Json_SkipWhitespace_def length_dropWhile_le)

lemma length_drop_char: "length (drop_char c r) \<le> length r"
  by (simp add: drop_char_def)

lemma length_string_loop: "length (snd (string_loop s)) \<le> length s"
proof (induction s rule: string_loop.induct)
  case (2 c cs)
  then show ?case by (cases cs) (auto simp: case_prod_beta le_SucI)
qed simp

lemma length_ParseString: "length (snd (ParseString r)) \<le> length r"
  using length_string_loop [of "tl r"] by (simp add: ParseString_def)

lemma length_ParseNumber: "length (snd (Json_ParseNumber r)) \<le> length r"
  using length_dropWhile_le [of is_number_char "drop (length (if r \<noteq> [] \<and> hd r = CHR ''-'' then [hd r] else [])) r"]
  by (simp add: Json_ParseNumber_def Let_def)

lemma length_ParseLiteral: "length (snd (Json_ParseLiteral r)) \<le> length r"
  by (simp add: Json_ParseLiteral_def length_dropWhile_le split: option.split)

lemmas length_value = length_ParseString length_ParseNumber length_ParseLiteral

lemma ParseValue_returns:
  assumes object: "\<And>p q o'. length q < n \<Longrightarrow> \<exists>rest out'. object p q o' = Some (rest, out') \<and> length rest \<le> length q"
    and r: "length r \<le> n"
  shows "\<exists>rest out'. Json_ParseValue object key r out = Some (rest, out') \<and> length rest \<le> length r"
proof -
  define r1 where "r1 = Json_SkipWhitespace r"
  have le: "length r1 \<le> length r" by (simp add: r1_def length_skip)
  show ?thesis
  proof (cases "r1 \<noteq> [] \<and> hd r1 = CHR 0x7B")
    case True
    then have "length (tl r1) < n" using le r by (cases r1) auto
    with object [of "tl r1" key out] True le show ?thesis
      by (fastforce simp: Json_ParseValue_def r1_def [symmetric] Let_def)
  next
    case False
    then show ?thesis
      using length_value [of r1] le
      by (auto simp: case_prod_beta Json_ParseValue_def r1_def [symmetric] Let_def)
  qed
qed

lemma object_loop_returns:
  "\<exists>rest out'. object_loop prefix r out = Some (rest, out') \<and> length rest \<le> length r"
proof (induction "length r" arbitrary: prefix r out rule: less_induct)
  case less
  define r1 where "r1 = Json_SkipWhitespace r"
  have r1: "length r1 \<le> length r" by (simp add: r1_def length_skip)
  show ?case
  proof (cases "r = [] \<or> hd r = CHR 0x7D \<or> r1 = [] \<or> hd r1 \<noteq> DQUOTE")
    case True
    then show ?thesis
      using length_drop_char [of "CHR 0x7D"] r1
      by (auto simp: object_loop.simps [of prefix r] r1_def [symmetric] Let_def intro: order_trans)
  next
    case False
    obtain key r2 where key: "ParseString r1 = (key, r2)" by (cases "ParseString r1")
    have r2: "length r2 < length r"
      using length_string_loop [of "tl r1"] key False r1 by (cases r1) (auto simp: ParseString_def)
    let ?q = "drop_char (CHR '':'') (Json_SkipWhitespace r2)"
    have q: "length ?q < length r"
      using r2 length_skip [of r2] length_drop_char [of "CHR '':''" "Json_SkipWhitespace r2"] by linarith
    have object: "\<exists>rest out'. object_loop p (Json_SkipWhitespace s) o' = Some (rest, out') \<and> length rest \<le> length s"
      if "length s < length r" for p s o'
      using less [of "Json_SkipWhitespace s" p o'] length_skip [of s] that by fastforce
    obtain r3 out1 where v: "Json_ParseValue (\<lambda>p r. object_loop p (Json_SkipWhitespace r)) (full_key prefix key) ?q out = Some (r3, out1)"
      "length r3 \<le> length ?q"
      using ParseValue_returns [of "length r" "\<lambda>p r. object_loop p (Json_SkipWhitespace r)" ?q "full_key prefix key" out, OF object] q by auto
    let ?r4 = "drop_char (CHR '','') (Json_SkipWhitespace r3)"
    have "length ?r4 < length r"
      using q v(2) length_skip [of r3] length_drop_char [of "CHR '',''" "Json_SkipWhitespace r3"] by linarith
    from less [OF this, of prefix out1] this show ?thesis
      using False key v(1) by (fastforce simp: object_loop.simps [of prefix r] r1_def [symmetric] Let_def)
  qed
qed

lemma Json_Parse_returns: "\<exists>m. Json_Parse json = Some m"
  using object_loop_returns [of "[]"] by (fastforce simp: Json_Parse_def Json_ParseObject_def Let_def)


section \<open>A printer\<close>

datatype json = JStr string | JNum string | JLit string | JObj "(string \<times> json) list"

fun escape_json :: "string \<Rightarrow> string" where
  "escape_json [] = []"
| "escape_json (c # cs) =
     (if c = DQUOTE \<or> c = BSLASH then BSLASH # c # escape_json cs
      else if c = LF then BSLASH # CHR ''n'' # escape_json cs
      else if c = CR then BSLASH # CHR ''r'' # escape_json cs
      else if c = TAB then BSLASH # CHR ''t'' # escape_json cs
      else c # escape_json cs)"

definition quote_json :: "string \<Rightarrow> string" where
  "quote_json s = DQUOTE # escape_json s @ [DQUOTE]"





section \<open>Reading back\<close>



lemma skip_ink [simp]: "\<not> is_json_ws c \<Longrightarrow> Json_SkipWhitespace (c # r) = c # r"
  by (simp add: Json_SkipWhitespace_def)

lemma json_ws_simps [simp]:
  "\<not> is_json_ws DQUOTE" "\<not> is_json_ws (CHR 0x7B)" "\<not> is_json_ws (CHR 0x7D)" "\<not> is_json_ws (CHR '':'')" "\<not> is_json_ws (CHR '','')"
  by (simp_all add: is_json_ws_def)

lemma string_loop_escaped: "string_loop (escape_json s @ DQUOTE # r) = (s, r)"
  by (induction s) (auto simp: unescape_def)

lemma ParseString_quoted [simp]: "ParseString (quote_json s @ r) = (s, r)"
  by (simp add: ParseString_def quote_json_def string_loop_escaped)

lemma quote_json_hd [simp]: "hd (quote_json s @ r) = DQUOTE" "quote_json s \<noteq> []"
  "Json_SkipWhitespace (quote_json s @ r) = quote_json s @ r"
  by (simp_all add: quote_json_def)













section \<open>A configuration file\<close>































end
