(* ===== verification/Thread_Pool.thy ===== *)
theory Thread_Pool
  imports Prelude "HOL-Library.Multiset"
begin

text \<open>
  \<^verbatim>\<open>server/threadpool/ThreadPool.cpp\<close> and \<^verbatim>\<open>ThreadPool.h\<close>: the pool that runs the connections of the
  servers. The threads are interleaved by the step relation \<open>pool_step\<close>; a step is one critical
  section of the code, or one load or store of its atomic flags where nothing is locked.

  \<^item> The priority queue is a list: its \<open>pop\<close> may return any task of the highest priority, the order of
    equal priorities is not fixed by the C++ library.
  \<^item> \<open>tp_starting\<close> is the number of threads that \<^verbatim>\<open>initialize\<close> has still to create, \<open>tp_terminating\<close> how far
    \<^verbatim>\<open>terminate\<close> is. \<open>tp_pending\<close> are the tasks that a caller of \<^verbatim>\<open>add_task\<close> has tested for and not yet
    pushed, \<open>tp_pushed\<close> counts the callers between their push and their \<^verbatim>\<open>notify_one\<close>, \<open>tp_unpausing\<close> those
    of \<^verbatim>\<open>unpause\<close> before their \<^verbatim>\<open>notify_all\<close>.
  \<^item> The condition variable is the state of the workers: a waiting worker stays in the wait set until it is
    notified, or woken without a cause.
  \<^item> \<open>tp_accepted\<close>, \<open>tp_done\<close> and \<open>tp_dropped\<close> record what happened to the tasks; a \<^verbatim>\<open>packaged_task\<close> keeps
    an exception of its function in its future, so a worker survives it.
\<close>

section \<open>Tasks\<close>

datatype priority = Low | Normal | High

instantiation priority :: linorder
begin

fun priority_value :: "priority \<Rightarrow> nat" where
  "priority_value Low = 0"
| "priority_value Normal = 1"
| "priority_value High = 2"

definition less_eq_priority :: "priority \<Rightarrow> priority \<Rightarrow> bool" where
  "less_eq_priority a b \<longleftrightarrow> priority_value a \<le> priority_value b"

definition less_priority :: "priority \<Rightarrow> priority \<Rightarrow> bool" where
  "less_priority a b \<longleftrightarrow> priority_value a < priority_value b"

instance
proof
  fix a b :: priority
  show "a \<le> b \<Longrightarrow> b \<le> a \<Longrightarrow> a = b"
    by (cases a; cases b) (simp_all add: less_eq_priority_def)
qed (auto simp: less_eq_priority_def less_priority_def)

end

record 'f task =
  tk_id :: int
  tk_priority :: priority
  tk_func :: 'f

text \<open>\<^verbatim>\<open>TaskComparator\<close>: whether the first task comes behind the second.\<close>

definition TaskComparator :: "'f task \<Rightarrow> 'f task \<Rightarrow> bool" where
  "TaskComparator a b \<longleftrightarrow> tk_priority a < tk_priority b"

definition TasksQueue_push :: "int \<Rightarrow> priority \<Rightarrow> 'f \<Rightarrow> 'f task list \<Rightarrow> 'f task list" where
  "TasksQueue_push taskId p func q = q @ [\<lparr>tk_id = taskId, tk_priority = p, tk_func = func\<rparr>]"

text \<open>\<^verbatim>\<open>TasksQueue::pop\<close> can give the task \<open>t\<close> and leave \<open>q'\<close>.\<close>

definition TasksQueue_pop :: "'f task list \<Rightarrow> 'f task \<Rightarrow> 'f task list \<Rightarrow> bool" where
  "TasksQueue_pop q t q' \<longleftrightarrow> t \<in> set q \<and> list_all (\<lambda>u. \<not> TaskComparator t u) q \<and> q' = remove1 t q"

section \<open>The pool\<close>

text \<open>
  A worker is \<open>Ready\<close> to take the queue mutex and test the predicate of its wait, \<open>Waiting\<close> in the wait
  set of the condition variable, at a task, or has left its routine.
\<close>

datatype 'f pool_worker = Ready | Waiting | Executing "'f task" | Exited

text \<open>How far \<^verbatim>\<open>terminate\<close> is: not called, before its \<^verbatim>\<open>notify_all\<close>, or at its joins.\<close>

datatype terminating = Idle | Notifying | Joining

record 'f thread_pool =
  tp_workers :: "'f pool_worker list"
  tp_queue :: "'f task list"
  tp_terminated :: bool
  tp_initialized :: bool
  tp_paused :: bool
  tp_total :: int
  tp_starting :: "nat option"
  tp_terminating :: terminating
  tp_unpausing :: nat
  tp_pushed :: nat
  tp_pending :: "'f task list"
  tp_accepted :: "'f task list"
  tp_done :: "'f task list"
  tp_dropped :: "'f task list"

definition ThreadPool :: "'f thread_pool" where
  "ThreadPool = \<lparr>tp_workers = [], tp_queue = [], tp_terminated = False, tp_initialized = False, tp_paused = False, tp_total = 0,
     tp_starting = None, tp_terminating = Idle, tp_unpausing = 0, tp_pushed = 0, tp_pending = [], tp_accepted = [],
     tp_done = [], tp_dropped = []\<rparr>"

definition is_working :: "'f thread_pool \<Rightarrow> bool" where
  "is_working p \<longleftrightarrow> tp_initialized p \<and> \<not> tp_terminated p"

text \<open>\<^verbatim>\<open>initialize\<close> holds the state mutex from its test to its last store, but not the queue mutex.\<close>

definition initialize_begin :: "nat \<Rightarrow> 'f thread_pool \<Rightarrow> 'f thread_pool" where
  "initialize_begin workerNumber p = (if tp_initialized p then p else p\<lparr>tp_starting := Some workerNumber\<rparr>)"

definition initialize_spawn :: "nat \<Rightarrow> 'f thread_pool \<Rightarrow> 'f thread_pool" where
  "initialize_spawn left p = p\<lparr>tp_workers := tp_workers p @ [Ready], tp_starting := Some left\<rparr>"

definition initialize_end :: "'f thread_pool \<Rightarrow> 'f thread_pool" where
  "initialize_end p = p\<lparr>tp_initialized := True, tp_paused := False, tp_terminated := False, tp_starting := None\<rparr>"

text \<open>\<^verbatim>\<open>add_task\<close> up to the new number of the task, its push, and its \<^verbatim>\<open>notify_one\<close> behind the lock.\<close>

definition add_task_begin :: "priority \<Rightarrow> 'f \<Rightarrow> 'f thread_pool \<Rightarrow> 'f thread_pool" where
  "add_task_begin pr func p =
     (if \<not> tp_initialized p \<or> tp_terminated p then p
      else let t = \<lparr>tk_id = tp_total p, tk_priority = pr, tk_func = func\<rparr> in
        p\<lparr>tp_total := tp_total p + 1, tp_pending := tp_pending p @ [t], tp_accepted := tp_accepted p @ [t]\<rparr>)"

definition add_task_push :: "'f task \<Rightarrow> 'f thread_pool \<Rightarrow> 'f thread_pool" where
  "add_task_push t p =
     p\<lparr>tp_pending := remove1 t (tp_pending p), tp_queue := TasksQueue_push (tk_id t) (tk_priority t) (tk_func t) (tp_queue p),
       tp_pushed := tp_pushed p + 1\<rparr>"

text \<open>\<^verbatim>\<open>notify_one\<close> wakes the waiting worker \<open>i\<close>, or nobody when none waits.\<close>

definition add_task_notify :: "nat option \<Rightarrow> 'f thread_pool \<Rightarrow> 'f thread_pool" where
  "add_task_notify woken p =
     p\<lparr>tp_pushed := tp_pushed p - 1,
       tp_workers := (case woken of Some i \<Rightarrow> (tp_workers p)[i := Ready] | None \<Rightarrow> tp_workers p)\<rparr>"

definition notify_all :: "'f pool_worker list \<Rightarrow> 'f pool_worker list" where
  "notify_all ws = map (\<lambda>w. if w = Waiting then Ready else w) ws"

text \<open>The predicate of the wait in \<^verbatim>\<open>routine\<close>, and what a worker does with the mutex in its hand.\<close>

definition wait_predicate :: "'f thread_pool \<Rightarrow> bool" where
  "wait_predicate p \<longleftrightarrow> tp_terminated p \<or> (\<not> tp_paused p \<and> tp_queue p \<noteq> [])"

definition routine_wait :: "nat \<Rightarrow> 'f thread_pool \<Rightarrow> 'f thread_pool" where
  "routine_wait i p = p\<lparr>tp_workers := (tp_workers p)[i := Waiting]\<rparr>"

definition routine_exit :: "nat \<Rightarrow> 'f thread_pool \<Rightarrow> 'f thread_pool" where
  "routine_exit i p = p\<lparr>tp_workers := (tp_workers p)[i := Exited]\<rparr>"

definition routine_start :: "nat \<Rightarrow> 'f task \<Rightarrow> 'f task list \<Rightarrow> 'f thread_pool \<Rightarrow> 'f thread_pool" where
  "routine_start i t q p = p\<lparr>tp_workers := (tp_workers p)[i := Executing t], tp_queue := q\<rparr>"

definition routine_finish :: "nat \<Rightarrow> 'f task \<Rightarrow> 'f thread_pool \<Rightarrow> 'f thread_pool" where
  "routine_finish i t p = p\<lparr>tp_workers := (tp_workers p)[i := Ready], tp_done := tp_done p @ [t]\<rparr>"

definition pause :: "'f thread_pool \<Rightarrow> 'f thread_pool" where
  "pause p = (if \<not> tp_initialized p \<or> tp_terminated p then p else p\<lparr>tp_paused := True\<rparr>)"

text \<open>\<^verbatim>\<open>unpause\<close> clears the flag under the state mutex and notifies under the queue mutex.\<close>

definition unpause :: "'f thread_pool \<Rightarrow> 'f thread_pool" where
  "unpause p =
     (if \<not> tp_initialized p \<or> tp_terminated p \<or> \<not> tp_paused p then p
      else p\<lparr>tp_paused := False, tp_unpausing := tp_unpausing p + 1\<rparr>)"

definition unpause_notify :: "'f thread_pool \<Rightarrow> 'f thread_pool" where
  "unpause_notify p = p\<lparr>tp_unpausing := tp_unpausing p - 1, tp_workers := notify_all (tp_workers p)\<rparr>"

definition terminate_begin :: "'f thread_pool \<Rightarrow> 'f thread_pool" where
  "terminate_begin p =
     (if \<not> tp_initialized p \<or> tp_terminated p then p
      else p\<lparr>tp_terminated := True, tp_paused := False, tp_terminating := Notifying\<rparr>)"

definition terminate_notify :: "'f thread_pool \<Rightarrow> 'f thread_pool" where
  "terminate_notify p = p\<lparr>tp_terminating := Joining, tp_workers := notify_all (tp_workers p)\<rparr>"

definition terminate_end :: "'f thread_pool \<Rightarrow> 'f thread_pool" where
  "terminate_end p =
     p\<lparr>tp_workers := [], tp_queue := [], tp_initialized := False, tp_paused := False, tp_total := 0, tp_terminating := Idle,
       tp_dropped := tp_dropped p @ tp_queue p\<rparr>"

text \<open>
  The steps that threads make by themselves: the workers, and the callers that are inside a call. A worker
  leaves the wait set only when it is notified.
\<close>

inductive thread_step :: "'f thread_pool \<Rightarrow> 'f thread_pool \<Rightarrow> bool" where
  push: "t \<in> set (tp_pending p) \<Longrightarrow> thread_step p (add_task_push t p)"
| notify: "0 < tp_pushed p \<Longrightarrow> i < length (tp_workers p) \<Longrightarrow> tp_workers p ! i = Waiting \<Longrightarrow>
    thread_step p (add_task_notify (Some i) p)"
| notify_none: "0 < tp_pushed p \<Longrightarrow> Waiting \<notin> set (tp_workers p) \<Longrightarrow> thread_step p (add_task_notify None p)"
| unpaused: "0 < tp_unpausing p \<Longrightarrow> thread_step p (unpause_notify p)"
| terminated: "tp_terminating p = Notifying \<Longrightarrow> thread_step p (terminate_notify p)"
| wait: "i < length (tp_workers p) \<Longrightarrow> tp_workers p ! i = Ready \<Longrightarrow> \<not> wait_predicate p \<Longrightarrow> thread_step p (routine_wait i p)"
| exit: "i < length (tp_workers p) \<Longrightarrow> tp_workers p ! i = Ready \<Longrightarrow> tp_terminated p \<Longrightarrow> thread_step p (routine_exit i p)"
| start: "i < length (tp_workers p) \<Longrightarrow> tp_workers p ! i = Ready \<Longrightarrow> \<not> tp_terminated p \<Longrightarrow> \<not> tp_paused p \<Longrightarrow>
    TasksQueue_pop (tp_queue p) t q \<Longrightarrow> thread_step p (routine_start i t q p)"
| finish: "i < length (tp_workers p) \<Longrightarrow> tp_workers p ! i = Executing t \<Longrightarrow> thread_step p (routine_finish i t p)"

text \<open>All steps: those of the threads, new calls of the pool, and wake-ups of the condition variable without a cause.\<close>

inductive pool_step :: "'f thread_pool \<Rightarrow> 'f thread_pool \<Rightarrow> bool" where
  thread: "thread_step p p' \<Longrightarrow> pool_step p p'"
| spurious: "i < length (tp_workers p) \<Longrightarrow> tp_workers p ! i = Waiting \<Longrightarrow> pool_step p (p\<lparr>tp_workers := (tp_workers p)[i := Ready]\<rparr>)"
| begin_init: "tp_starting p = None \<Longrightarrow> pool_step p (initialize_begin n p)"
| spawn: "tp_starting p = Some (Suc n) \<Longrightarrow> pool_step p (initialize_spawn n p)"
| end_init: "tp_starting p = Some 0 \<Longrightarrow> pool_step p (initialize_end p)"
| add: "pool_step p (add_task_begin pr func p)"
| pauses: "tp_starting p = None \<Longrightarrow> pool_step p (pause p)"
| unpauses: "tp_starting p = None \<Longrightarrow> pool_step p (unpause p)"
| begin_term: "tp_starting p = None \<Longrightarrow> pool_step p (terminate_begin p)"
| end_term: "tp_starting p = None \<Longrightarrow> tp_terminating p = Joining \<Longrightarrow> list_all (\<lambda>w. w = Exited) (tp_workers p) \<Longrightarrow>
    pool_step p (terminate_end p)"

lemmas pool_defs =
  initialize_begin_def initialize_spawn_def initialize_end_def add_task_begin_def add_task_push_def add_task_notify_def
  routine_wait_def routine_exit_def routine_start_def routine_finish_def pause_def unpause_def unpause_notify_def
  terminate_begin_def terminate_notify_def terminate_end_def

section \<open>No task is lost or run twice\<close>

fun running_tasks :: "'f pool_worker list \<Rightarrow> 'f task multiset" where
  "running_tasks [] = {#}"
| "running_tasks (Executing t # ws) = add_mset t (running_tasks ws)"
| "running_tasks (_ # ws) = running_tasks ws"

definition balanced :: "'f thread_pool \<Rightarrow> bool" where
  "balanced p \<longleftrightarrow> mset (tp_accepted p) =
     mset (tp_pending p) + mset (tp_queue p) + running_tasks (tp_workers p) + mset (tp_done p) + mset (tp_dropped p)"

lemma running_append [simp]: "running_tasks (ws @ vs) = running_tasks ws + running_tasks vs"
  by (induction ws rule: running_tasks.induct) auto

lemma running_update:
  "i < length ws \<Longrightarrow> running_tasks (ws[i := w]) + running_tasks [ws ! i] = running_tasks ws + running_tasks [w]"
proof (induction ws arbitrary: i)
  case (Cons v ws)
  then show ?case
  proof (cases i)
    case 0
    then show ?thesis by (cases v; cases w) (auto simp: ac_simps)
  next
    case (Suc j)
    then show ?thesis using Cons by (cases v) (auto simp: ac_simps)
  qed
qed simp

lemma running_exited: "list_all (\<lambda>w. w = Exited) ws \<Longrightarrow> running_tasks ws = {#}"
  by (induction ws rule: running_tasks.induct) auto

lemma push_back: "TasksQueue_push (tk_id t) (tk_priority t) (tk_func t) q = q @ [t]"
  by (cases t) (simp add: TasksQueue_push_def)

lemma running_notify [simp]: "running_tasks (notify_all ws) = running_tasks ws"
  unfolding notify_all_def by (induction ws rule: running_tasks.induct) auto

lemma balanced_thread:
  assumes "thread_step p p'" and "balanced p"
  shows "balanced p'"
  using assms
proof (induction rule: thread_step.induct)
  case (push t p)
  then show ?case by (simp add: balanced_def add_task_push_def push_back)
next
  case (notify p i)
  then show ?case using running_update [of i "tp_workers p" Ready] by (simp add: balanced_def add_task_notify_def)
next
  case (wait i p)
  then show ?case using running_update [of i "tp_workers p" Waiting] by (simp add: balanced_def routine_wait_def)
next
  case (exit i p)
  then show ?case using running_update [of i "tp_workers p" Exited] by (simp add: balanced_def routine_exit_def)
next
  case (start i p t q)
  then have "mset (tp_queue p) = add_mset t (mset q)" by (simp add: TasksQueue_pop_def)
  with start running_update [of i "tp_workers p" "Executing t"] show ?case
    by (simp add: balanced_def routine_start_def)
next
  case (finish i p t)
  then show ?case using running_update [of i "tp_workers p" Ready]
    by (simp add: balanced_def routine_finish_def)
qed (simp_all add: balanced_def pool_defs)

lemma balanced_step:
  assumes "pool_step p p'" and "balanced p"
  shows "balanced p'"
  using assms
proof (induction rule: pool_step.induct)
  case (spurious i p)
  then show ?case using running_update [of i "tp_workers p" Ready] by (simp add: balanced_def)
next
  case (end_term p)
  then show ?case by (simp add: balanced_def terminate_end_def running_exited ac_simps)
next
  case (thread p p')
  then show ?case by (rule balanced_thread)
qed (auto simp: balanced_def pool_defs Let_def)

lemma balanced_new: "balanced ThreadPool"
  by (simp add: balanced_def ThreadPool_def)

lemma reachable_balanced: "pool_step\<^sup>*\<^sup>* ThreadPool p \<Longrightarrow> balanced p"
  by (induction rule: rtranclp_induct) (auto intro: balanced_new balanced_step)

section \<open>No wake-up is lost\<close>

abbreviation awake :: "'f pool_worker list \<Rightarrow> nat" where
  "awake ws \<equiv> length (filter (\<lambda>w. w = Ready) ws)"

text \<open>
  While a worker sleeps although it has something to do, the notification that covers it is on its way, or
  for every task in the queue a worker is awake or about to be woken.
\<close>

definition wakeup_inv :: "'f thread_pool \<Rightarrow> bool" where
  "wakeup_inv p \<longleftrightarrow>
     (tp_starting p \<noteq> None \<longrightarrow> \<not> tp_initialized p) \<and> (\<not> tp_initialized p \<longrightarrow> \<not> tp_paused p) \<and>
     (Waiting \<in> set (tp_workers p) \<and> wait_predicate p \<longrightarrow>
        0 < tp_unpausing p \<or> tp_terminating p = Notifying \<or>
        \<not> tp_terminated p \<and> length (tp_queue p) \<le> awake (tp_workers p) + tp_pushed p)"

lemma awake_update:
  assumes "i < length ws"
  shows "awake (ws[i := w]) + (if ws ! i = Ready then 1 else 0) = awake ws + (if w = Ready then 1 else 0)"
  using assms
proof (induction ws arbitrary: i)
  case (Cons v ws)
  show ?case
  proof (cases i)
    case (Suc j)
    then show ?thesis using Cons.IH [of j] Cons.prems by (cases "v = Ready") simp_all
  qed simp
qed simp

lemma notify_all_none: "Waiting \<notin> set (notify_all ws)"
  by (auto simp: notify_all_def)

lemma waiting_update:
  "Waiting \<in> set (ws[i := w]) \<Longrightarrow> w \<noteq> Waiting \<Longrightarrow> Waiting \<in> set ws"
  using set_update_subset_insert [of ws i w] by auto

lemma wakeup_thread:
  assumes "thread_step p p'" and "wakeup_inv p"
  shows "wakeup_inv p'"
  using assms
proof (induction rule: thread_step.induct)
  case (push t p)
  then show ?case by (auto simp: wakeup_inv_def add_task_push_def push_back wait_predicate_def)
next
  case (notify p i)
  then show ?case using awake_update [of i "tp_workers p" Ready]
    by (auto simp: wakeup_inv_def add_task_notify_def wait_predicate_def dest: waiting_update)
next
  case (exit i p)
  then show ?case by (auto simp: wakeup_inv_def routine_exit_def wait_predicate_def dest: waiting_update)
next
  case (start i p t q)
  then have "length (tp_queue p) = Suc (length q)"
    by (auto simp: TasksQueue_pop_def length_remove1 dest: length_pos_if_in_set)
  with start awake_update [of i "tp_workers p" "Executing t"] show ?case
    by (auto simp: wakeup_inv_def routine_start_def wait_predicate_def dest: waiting_update)
next
  case (finish i p t)
  then show ?case using awake_update [of i "tp_workers p" Ready]
    by (auto simp: wakeup_inv_def routine_finish_def wait_predicate_def dest: waiting_update)
qed (auto simp: wakeup_inv_def pool_defs wait_predicate_def notify_all_none)

lemma wakeup_step:
  assumes "pool_step p p'" and "wakeup_inv p"
  shows "wakeup_inv p'"
  using assms
proof (induction rule: pool_step.induct)
  case (thread p p')
  then show ?case by (rule wakeup_thread)
next
  case (spurious i p)
  then show ?case using awake_update [of i "tp_workers p" Ready]
    by (auto simp: wakeup_inv_def wait_predicate_def dest: waiting_update)
qed (auto simp: wakeup_inv_def wait_predicate_def pool_defs Let_def)

lemma reachable_wakeup: "pool_step\<^sup>*\<^sup>* ThreadPool p \<Longrightarrow> wakeup_inv p"
proof (induction rule: rtranclp_induct)
  case base
  show ?case by (simp add: wakeup_inv_def ThreadPool_def)
qed (rule wakeup_step)

section \<open>Work gets done\<close>

definition alive :: "'f thread_pool \<Rightarrow> bool" where
  "alive p \<longleftrightarrow> is_working p \<and> \<not> tp_paused p \<and> list_ex (\<lambda>w. w \<noteq> Exited) (tp_workers p)"

fun worker_effort :: "'f pool_worker \<Rightarrow> nat" where
  "worker_effort Ready = 1"
| "worker_effort (Executing t) = 2"
| "worker_effort _ = 0"

text \<open>A bound for the steps that the threads can make before they all stand still.\<close>

definition effort :: "'f thread_pool \<Rightarrow> nat" where
  "effort p = 5 * length (tp_pending p) + 2 * length (tp_queue p) + 2 * tp_pushed p +
     (length (tp_workers p) + 1) * (tp_unpausing p + (if tp_terminating p = Notifying then 1 else 0)) +
     sum_list (map worker_effort (tp_workers p))"

lemma effort_update:
  assumes "i < length ws"
  shows "sum_list (map worker_effort (ws[i := w])) + worker_effort (ws ! i) = sum_list (map worker_effort ws) + worker_effort w"
  using assms
proof (induction ws arbitrary: i)
  case (Cons v ws)
  then show ?case by (cases i) auto
qed simp

lemma effort_notify_all:
  "sum_list (map worker_effort (notify_all ws)) \<le> sum_list (map worker_effort ws) + length ws"
  unfolding notify_all_def by (induction ws) auto

lemma length_notify_all [simp]: "length (notify_all ws) = length ws"
  by (simp add: notify_all_def)

lemma top_task:
  assumes "q \<noteq> []"
  shows "\<exists>t q'. TasksQueue_pop q t q' \<and> length q' < length q"
proof -
  let ?m = "Max (tk_priority ` set q)"
  have "?m \<in> tk_priority ` set q" using assms by (intro Max_in) auto
  then obtain t where t: "t \<in> set q" "tk_priority t = ?m" by auto
  have "\<not> TaskComparator t u" if "u \<in> set q" for u
    using Max_ge [of "tk_priority ` set q" "tk_priority u"] that t by (auto simp: TaskComparator_def not_less)
  then have "TasksQueue_pop q t (remove1 t q)" using t by (simp add: TasksQueue_pop_def list_all_iff)
  moreover have "length (remove1 t q) < length q" using t(1) length_pos_if_in_set [OF t(1)] by (simp add: length_remove1)
  ultimately show ?thesis by blast
qed

lemma effort_decreases:
  assumes "thread_step p p'"
  shows "effort p' < effort p"
  using assms
proof (induction rule: thread_step.induct)
  case (push t p)
  then obtain k where "length (tp_pending p) = Suc k" by (cases "tp_pending p") auto
  then show ?case using push by (simp add: effort_def add_task_push_def push_back length_remove1)
next
  case (notify p i)
  then show ?case using effort_update [of i "tp_workers p" Ready] by (simp add: effort_def add_task_notify_def)
next
  case (unpaused p)
  then obtain k where "tp_unpausing p = Suc k" by (cases "tp_unpausing p") auto
  then show ?case using effort_notify_all [of "tp_workers p"] by (simp add: effort_def unpause_notify_def)
next
  case (terminated p)
  then show ?case using effort_notify_all [of "tp_workers p"] by (simp add: effort_def terminate_notify_def)
next
  case (wait i p)
  then show ?case using effort_update [of i "tp_workers p" Waiting] by (simp add: effort_def routine_wait_def)
next
  case (exit i p)
  then show ?case using effort_update [of i "tp_workers p" Exited] by (simp add: effort_def routine_exit_def)
next
  case (start i p t q)
  then have "length (tp_queue p) = Suc (length q)"
    by (auto simp: TasksQueue_pop_def length_remove1 dest: length_pos_if_in_set)
  then show ?case using start effort_update [of i "tp_workers p" "Executing t"] by (simp add: effort_def routine_start_def)
next
  case (finish i p t)
  then show ?case using effort_update [of i "tp_workers p" Ready] by (simp add: effort_def routine_finish_def)
qed (simp add: effort_def add_task_notify_def)

lemma effort_bounds: "(thread_step ^^ n) p p' \<Longrightarrow> n + effort p' \<le> effort p"
proof (induction n arbitrary: p')
  case (Suc n)
  then obtain p1 where "(thread_step ^^ n) p p1" "thread_step p1 p'" by auto
  with Suc.IH [of p1] effort_decreases [of p1 p'] show ?case by linarith
qed simp

lemma still_reached: "\<exists>p'. thread_step\<^sup>*\<^sup>* p p' \<and> (\<nexists>p''. thread_step p' p'')"
proof (induction "effort p" arbitrary: p rule: less_induct)
  case less
  show ?case
  proof (cases "\<exists>p1. thread_step p p1")
    case True
    then obtain p1 where "thread_step p p1" by blast
    with less.hyps [OF effort_decreases] show ?thesis by (meson converse_rtranclp_into_rtranclp)
  qed blast
qed

lemma alive_update:
  "i < length ws \<Longrightarrow> w \<noteq> Exited \<Longrightarrow> list_ex (\<lambda>w. w \<noteq> Exited) (ws[i := w])"
  by (auto simp: list_ex_iff set_update_memI)

lemma alive_notify_all: "list_ex (\<lambda>w. w \<noteq> Exited) ws \<Longrightarrow> list_ex (\<lambda>w. w \<noteq> Exited) (notify_all ws)"
  by (auto simp: list_ex_iff notify_all_def)

text \<open>The threads by themselves keep the pool alive, and accept and drop nothing.\<close>

lemma thread_run:
  assumes "thread_step\<^sup>*\<^sup>* p p'" and "alive p"
  shows "alive p' \<and> tp_accepted p' = tp_accepted p \<and> tp_dropped p' = tp_dropped p"
  using assms(1)
proof (induction rule: rtranclp_induct)
  case (step p1 p2)
  from step.hyps(2) step.IH show ?case
    by (induction rule: thread_step.induct) (auto simp: alive_def is_working_def pool_defs alive_update alive_notify_all)
qed (simp add: assms(2))

text \<open>Where no thread can step, nothing is left to do.\<close>

lemma stands_still:
  assumes "alive p" "wakeup_inv p" "\<And>p'. \<not> thread_step p p'"
  shows "tp_pending p = [] \<and> tp_queue p = [] \<and> running_tasks (tp_workers p) = {#}"
proof -
  have pending: "tp_pending p = []"
    using assms(3) thread_step.push by (metis list.set_intros(1) neq_Nil_conv)
  have pushed: "tp_pushed p = 0"
    using assms(3) thread_step.notify thread_step.notify_none by (metis in_set_conv_nth not_gr_zero)
  have quiet: "tp_unpausing p = 0" "tp_terminating p \<noteq> Notifying"
    using assms(3) thread_step.unpaused thread_step.terminated by (metis not_gr_zero)+
  have idle: "w = Waiting \<or> w = Exited" if w: "w \<in> set (tp_workers p)" for w
  proof (cases w)
    case Ready
    obtain i where i: "i < length (tp_workers p)" "tp_workers p ! i = Ready" using w Ready by (auto simp: in_set_conv_nth)
    have "wait_predicate p" using assms(3) thread_step.wait [OF i] by blast
    then have "tp_queue p \<noteq> []" "\<not> tp_terminated p" "\<not> tp_paused p"
      using assms(1) by (auto simp: wait_predicate_def alive_def is_working_def)
    then show ?thesis using assms(3) thread_step.start [OF i] top_task by blast
  next
    case (Executing t)
    then show ?thesis using w assms(3) thread_step.finish by (metis in_set_conv_nth)
  qed auto
  have "Waiting \<in> set (tp_workers p)" using assms(1) idle by (auto simp: alive_def list_ex_iff)
  moreover have "awake (tp_workers p) = 0" using idle by (auto simp: filter_empty_conv)
  moreover have "wait_predicate p" if "tp_queue p \<noteq> []"
    using that assms(1) by (simp add: wait_predicate_def alive_def)
  ultimately have "tp_queue p = []" using assms(2) pushed quiet by (auto simp: wakeup_inv_def)
  moreover have "running_tasks ws = {#}" if "\<forall>w \<in> set ws. w = Waiting \<or> w = Exited" for ws :: "'a pool_worker list"
    using that by (induction ws rule: running_tasks.induct) auto
  ultimately show ?thesis using pending idle by blast
qed

section \<open>The pool as a whole\<close>

text \<open>A pool with one worker and a task that is in the queue.\<close>

definition demo_task :: "unit task" where
  "demo_task = \<lparr>tk_id = 0, tk_priority = High, tk_func = ()\<rparr>"

definition demo_pool :: "unit thread_pool" where
  "demo_pool = ThreadPool\<lparr>tp_workers := [Waiting], tp_pushed := 1, tp_initialized := True, tp_total := 1, tp_queue := [demo_task], tp_accepted := [demo_task]\<rparr>"

lemma demo_pool_reachable: "pool_step\<^sup>*\<^sup>* ThreadPool demo_pool"
proof -
  let ?p1 = "initialize_begin 1 ThreadPool :: unit thread_pool" let ?p2 = "initialize_spawn 0 ?p1"
  let ?p3 = "initialize_end ?p2" let ?p4 = "routine_wait 0 ?p3"
  let ?p5 = "add_task_begin High () ?p4" let ?p6 = "add_task_push demo_task ?p5"
  note d = pool_defs ThreadPool_def demo_task_def Let_def
  have "pool_step ThreadPool ?p1" by (rule pool_step.begin_init) (simp add: d)
  moreover have "pool_step ?p1 ?p2" by (rule pool_step.spawn) (simp add: d)
  moreover have "pool_step ?p2 ?p3" by (rule pool_step.end_init) (simp add: d)
  moreover have "pool_step ?p3 ?p4" by (rule pool_step.thread, rule thread_step.wait) (simp_all add: d wait_predicate_def)
  moreover have "pool_step ?p4 ?p5" by (rule pool_step.add)
  moreover have "pool_step ?p5 ?p6" by (rule pool_step.thread, rule thread_step.push) (simp add: d)
  moreover have "?p6 = demo_pool" by (simp add: d demo_pool_def TasksQueue_push_def)
  ultimately show ?thesis by (metis (no_types) rtranclp.simps)
qed

text \<open>
  C31. At every moment each task that \<^verbatim>\<open>add_task\<close> has accepted is in exactly one place: on its way into the
  queue, in the queue, at one worker, finished, or dropped by \<^verbatim>\<open>terminate\<close>. So no task is lost and none
  runs twice, whatever the threads interleave.
\<close>

theorem pool_accounts_for_tasks:
  assumes "pool_step\<^sup>*\<^sup>* ThreadPool p"
  shows "mset (tp_accepted p) =
    mset (tp_pending p) + mset (tp_queue p) + running_tasks (tp_workers p) + mset (tp_done p) + mset (tp_dropped p)"
  using reachable_balanced [OF assms] by (simp add: balanced_def)

theorem pool_accounts_for_tasks_witness:
  "mset (tp_accepted demo_pool) = {#demo_task#} \<and> mset (tp_queue demo_pool) + running_tasks (tp_workers demo_pool) = {#demo_task#}"
  using pool_accounts_for_tasks [OF demo_pool_reachable] by (simp add: demo_pool_def ThreadPool_def)

text \<open>
  C16. No wake-up is lost, so the work gets done under every scheduling: from a reachable pool that works, is
  not paused and has a worker left, the threads by themselves (the workers, and the callers inside \<^verbatim>\<open>add_task\<close>
  and \<^verbatim>\<open>unpause\<close>) make at most \<open>effort p\<close> steps, and where none of them can make another, every accepted task
  is done, except those that an earlier \<^verbatim>\<open>terminate\<close> dropped. A waiting worker steps only when it is
  notified. The functions of the tasks are taken to return.
\<close>

theorem pool_completes:
  assumes "pool_step\<^sup>*\<^sup>* ThreadPool p" and "is_working p" and "\<not> tp_paused p" and "list_ex (\<lambda>w. w \<noteq> Exited) (tp_workers p)"
  shows "(\<forall>n p'. (thread_step ^^ n) p p' \<longrightarrow> n \<le> effort p) \<and>
    (\<forall>p'. thread_step\<^sup>*\<^sup>* p p' \<and> (\<nexists>p''. thread_step p' p'') \<longrightarrow>
       mset (tp_accepted p) = mset (tp_done p') + mset (tp_dropped p))"
proof (intro conjI allI impI)
  fix n p' assume "(thread_step ^^ n) p p'"
  from effort_bounds [OF this] show "n \<le> effort p" by simp
next
  fix p' assume run: "thread_step\<^sup>*\<^sup>* p p' \<and> (\<nexists>p''. thread_step p' p'')"
  then have p': "alive p'" "tp_accepted p' = tp_accepted p" "tp_dropped p' = tp_dropped p"
    using thread_run [of p p'] assms(2-4) by (auto simp: alive_def)
  have "pool_step\<^sup>*\<^sup>* p p'" using run mono_rtranclp [of thread_step pool_step] pool_step.thread by blast
  then have "pool_step\<^sup>*\<^sup>* ThreadPool p'" by (rule rtranclp_trans [OF assms(1)])
  then show "mset (tp_accepted p) = mset (tp_done p') + mset (tp_dropped p)"
    using reachable_balanced [of p'] stands_still [OF p'(1) reachable_wakeup] run p'(2,3) by (auto simp: balanced_def)
qed

text \<open>The pool whose worker sleeps while the task is already in the queue: the notification is still to come.\<close>

theorem pool_completes_witness:
  "\<exists>p'. thread_step\<^sup>*\<^sup>* demo_pool p' \<and> (\<nexists>p''. thread_step p' p'') \<and> mset (tp_done p') = {#demo_task#}"
proof -
  have "is_working demo_pool" "\<not> tp_paused demo_pool" "list_ex (\<lambda>w. w \<noteq> Exited) (tp_workers demo_pool)"
    by (simp_all add: demo_pool_def ThreadPool_def is_working_def)
  from pool_completes [OF demo_pool_reachable this] still_reached [of demo_pool] show ?thesis
    by (auto simp: demo_pool_def ThreadPool_def)
qed

section \<open>A pool that is initialized again\<close>

text \<open>
  \<^verbatim>\<open>terminate\<close> leaves \<^verbatim>\<open>m_is_terminated\<close> set and \<^verbatim>\<open>initialize\<close> clears it only after it has started the threads. A
  thread that reaches its first test before that leaves at once, so a pool can report that it works,
  accept tasks and have no worker for them.
\<close>

definition dead :: "'f thread_pool \<Rightarrow> bool" where
  "dead p \<longleftrightarrow> is_working p \<and> list_all (\<lambda>w. w = Exited) (tp_workers p)"

lemma dead_runs_nothing:
  assumes "dead p" and "pool_step p p'"
  shows "tp_done p' = tp_done p"
  using assms(2,1)
proof (induction rule: pool_step.induct)
  case (thread p p')
  then show ?case by (induction rule: thread_step.induct) (auto simp: pool_defs dead_def list_all_length)
qed (auto simp: pool_defs Let_def)

lemma reinitialized_pool_dead:
  "\<exists>p :: unit thread_pool. pool_step\<^sup>*\<^sup>* ThreadPool p \<and> dead p \<and> tp_workers p = [Exited] \<and> tp_starting p = None"
proof -
  let ?p1 = "terminate_begin demo_pool" let ?p1' = "terminate_notify ?p1" let ?p2 = "routine_exit 0 ?p1'" let ?p3 = "terminate_end ?p2"
  let ?p4 = "initialize_begin 1 ?p3" let ?p5 = "initialize_spawn 0 ?p4" let ?p6 = "routine_exit 0 ?p5" let ?p7 = "initialize_end ?p6"
  note d = demo_pool_def ThreadPool_def pool_defs notify_all_def
  have "pool_step demo_pool ?p1" by (rule pool_step.begin_term) (simp add: d)
  moreover have "pool_step ?p1 ?p1'" by (rule pool_step.thread, rule thread_step.terminated) (simp add: d)
  moreover have "pool_step ?p1' ?p2" by (rule pool_step.thread, rule thread_step.exit) (simp_all add: d)
  moreover have "pool_step ?p2 ?p3" by (rule pool_step.end_term) (simp_all add: d)
  moreover have "pool_step ?p3 ?p4" by (rule pool_step.begin_init) (simp add: d)
  moreover have "pool_step ?p4 ?p5" by (rule pool_step.spawn) (simp add: d)
  moreover have "pool_step ?p5 ?p6" by (rule pool_step.thread, rule thread_step.exit) (simp_all add: d)
  moreover have "pool_step ?p6 ?p7" by (rule pool_step.end_init) (simp add: d)
  ultimately have "pool_step\<^sup>*\<^sup>* demo_pool ?p7" by (meson converse_rtranclp_into_rtranclp rtranclp.rtrancl_refl)
  with demo_pool_reachable have "pool_step\<^sup>*\<^sup>* ThreadPool ?p7" by (rule rtranclp_trans)
  moreover have "dead ?p7 \<and> tp_workers ?p7 = [Exited] \<and> tp_starting ?p7 = None" by (simp add: d dead_def is_working_def)
  ultimately show ?thesis by blast
qed

end
