(* ===== verification/Logger_Files.thy ===== *)
theory Logger_Files
  imports Imap_Utils
begin

text \<open>
  \<^verbatim>\<open>logger/src/FileStrategy.cpp\<close> and \<^verbatim>\<open>ConsoleStrategy.cpp\<close>: where log messages go, and how the log file is
  rotated and read back.

  \<^item> The log file and the old log file are their contents, \<open>None\<close> when there is no such file.
  \<^item> What the operating system answers is the parameter \<open>log_env\<close>, indexed by the number of the call:
    whether a file can be opened, whether a rename succeeds, whether a query or removal of a file throws, how
    much of a text stays in the buffer of the stream, and whether writing to the disk fails, with the
    number of characters that are lost then (a full disk).
  \<^item> \<open>fs_current\<close> is the log file with what is still in the buffer of \<^verbatim>\<open>m_file\<close>, its last \<open>fs_unflushed\<close>
    characters. \<open>fs_fail\<close> is \<^verbatim>\<open>m_file.fail()\<close>; \<open>fs_lost\<close> records that the stream has lost text.
  \<^item> The time stamp and the thread number of a message are texts given by the environment.
\<close>

section \<open>Levels and lines\<close>

datatype log_level = L_NONE | L_INFO | L_ERROR | L_PROD | L_DEBUG | L_TRACE

instantiation log_level :: linorder
begin

fun level_value :: "log_level \<Rightarrow> nat" where
  "level_value L_NONE = 0"
| "level_value L_INFO = 1"
| "level_value L_ERROR = 2"
| "level_value L_PROD = 3"
| "level_value L_DEBUG = 4"
| "level_value L_TRACE = 5"

definition less_eq_log_level :: "log_level \<Rightarrow> log_level \<Rightarrow> bool" where
  "less_eq_log_level a b \<longleftrightarrow> level_value a \<le> level_value b"

definition less_log_level :: "log_level \<Rightarrow> log_level \<Rightarrow> bool" where
  "less_log_level a b \<longleftrightarrow> level_value a < level_value b"

instance
proof
  fix a b :: log_level
  show "a \<le> b \<Longrightarrow> b \<le> a \<Longrightarrow> a = b"
    by (cases a; cases b) (simp_all add: less_eq_log_level_def)
qed (auto simp: less_eq_log_level_def less_log_level_def)

end

fun levelStr :: "log_level \<Rightarrow> string" where
  "levelStr L_NONE = ''NONE''"
| "levelStr L_INFO = ''INFO''"
| "levelStr L_ERROR = ''ERROR''"
| "levelStr L_PROD = ''PROD''"
| "levelStr L_DEBUG = ''DEBUG''"
| "levelStr L_TRACE = ''TRACE''"

record log_env =
  le_open :: "nat \<Rightarrow> bool"
  le_rename :: "nat \<Rightarrow> bool"
  le_throws :: "nat \<Rightarrow> bool"
  le_kept :: "nat \<Rightarrow> nat"
  le_failure :: "nat \<Rightarrow> nat option"
  le_stamp :: string
  le_tid :: string

definition log_header :: "log_env \<Rightarrow> log_level \<Rightarrow> string" where
  "log_header env lvl = ''['' @ le_stamp env @ ''] ['' @ levelStr lvl @ ''] [tid:'' @ le_tid env @ ''] ''"

text \<open>
  \<^verbatim>\<open>SpecificLog\<close> of both strategies, the buffer of 512 bytes included; empty for a level above the
  configured one.
\<close>

definition SpecificLog :: "log_env \<Rightarrow> log_level \<Rightarrow> log_level \<Rightarrow> string \<Rightarrow> string" where
  "SpecificLog env default_level lvl msg =
     (if lvl > default_level then []
      else let header = log_header env lvl; remaining = 512 - length header; copyLen = min (length msg) (remaining - 2)
           in header @ take copyLen msg @ [LF])"

section \<open>FileStrategy\<close>

record file_strategy =
  fs_level :: log_level
  fs_current :: "string option"
  fs_old :: "string option"
  fs_open :: bool
  fs_fail :: bool
  fs_unflushed :: nat
  fs_lost :: bool
  fs_size :: int
  fs_calls :: nat
  fs_error :: string

definition MaxFileSize :: nat where
  "MaxFileSize = 10 * 1024 * 1024"

text \<open>\<^verbatim>\<open>IsValid\<close>.\<close>

definition file_valid :: "file_strategy \<Rightarrow> bool" where
  "file_valid s \<longleftrightarrow> fs_open s \<and> \<not> fs_fail s"

text \<open>\<^verbatim>\<open>open\<close> clears the state of the stream when it succeeds and sets its fail bit when it does not.\<close>

definition OpenFile :: "log_env \<Rightarrow> file_strategy \<Rightarrow> file_strategy" where
  "OpenFile env s =
     (if le_open env (fs_calls s)
      then s\<lparr>fs_open := True, fs_fail := False, fs_unflushed := 0,
             fs_current := (case fs_current s of None \<Rightarrow> Some [] | Some c \<Rightarrow> Some c), fs_calls := fs_calls s + 1\<rparr>
      else s\<lparr>fs_open := False, fs_fail := True, fs_calls := fs_calls s + 1\<rparr>)"

definition open_error :: "file_strategy \<Rightarrow> file_strategy" where
  "open_error s = (if file_valid s then s else s\<lparr>fs_error := ''Can`t open log file: log.txt''\<rparr>)"

text \<open>The constructor; \<open>None\<close> when a query of the file system throws.\<close>

definition FileStrategy :: "log_env \<Rightarrow> log_level \<Rightarrow> string option \<Rightarrow> string option \<Rightarrow> file_strategy option" where
  "FileStrategy env lvl current old =
     (if le_throws env 0 then None
      else Some (open_error (OpenFile env \<lparr>fs_level = lvl, fs_current = current, fs_old = old, fs_open = False, fs_fail = False,
        fs_unflushed = 0, fs_lost = False,
        fs_size = (case current of None \<Rightarrow> 0 | Some c \<Rightarrow> to_int32 (int (length c))), fs_calls = 1, fs_error = []\<rparr>)))"

text \<open>The sum is an \<^verbatim>\<open>int\<close>, compared as a \<^verbatim>\<open>size_t\<close>: a negative sum is above every limit.\<close>

definition CanWrite :: "nat \<Rightarrow> file_strategy \<Rightarrow> bool" where
  "CanWrite message_size s \<longleftrightarrow> 0 \<le> fs_size s + int message_size \<and> fs_size s + int message_size \<le> int MaxFileSize"

text \<open>
  The stream writes what it holds to the disk, at a flush or a close, or fails and loses some of the last
  characters.
\<close>

definition stream_fails :: "nat \<Rightarrow> file_strategy \<Rightarrow> file_strategy" where
  "stream_fails k s =
     (let n = min k (fs_unflushed s)
      in s\<lparr>fs_current := map_option (\<lambda>c. take (length c - n) c) (fs_current s), fs_fail := True, fs_unflushed := 0,
           fs_lost := fs_lost s \<or> 0 < n\<rparr>)"

definition stream_out :: "log_env \<Rightarrow> file_strategy \<Rightarrow> file_strategy" where
  "stream_out env s =
     (let s1 = s\<lparr>fs_calls := fs_calls s + 1\<rparr>
      in case le_failure env (fs_calls s) of None \<Rightarrow> s1\<lparr>fs_unflushed := 0\<rparr> | Some k \<Rightarrow> stream_fails k s1)"

definition File_Flush :: "log_env \<Rightarrow> file_strategy \<Rightarrow> file_strategy" where
  "File_Flush env s = (if file_valid s then stream_out env s else s)"

text \<open>\<open>None\<close>: \<^verbatim>\<open>exists\<close> or \<^verbatim>\<open>remove\<close> throws. Only \<^verbatim>\<open>rename\<close> is called with an error code.\<close>

definition Rotate :: "log_env \<Rightarrow> file_strategy \<Rightarrow> file_strategy option" where
  "Rotate env s =
     (let s0 = (if fs_open s then (stream_out env s)\<lparr>fs_open := False\<rparr> else s) in
      if le_throws env (fs_calls s0) then None
      else let s1 = s0\<lparr>fs_old := None, fs_calls := fs_calls s0 + 1\<rparr>;
          s2 = (case fs_current s1 of
                  None \<Rightarrow> s1\<lparr>fs_size := 0\<rparr>
                | Some c \<Rightarrow>
                    if le_rename env (fs_calls s1)
                    then s1\<lparr>fs_current := None, fs_old := Some c, fs_size := 0, fs_calls := fs_calls s1 + 1\<rparr>
                    else s1\<lparr>fs_error := ''Renamed failed'', fs_calls := fs_calls s1 + 1\<rparr>)
      in Some (open_error (OpenFile env s2)))"

text \<open>
  \<^verbatim>\<open>m_file << message\<close>: the text goes into the buffer, from which the stream may write to the disk. The
  code does not look at the state of the stream afterwards.
\<close>

definition append_log :: "log_env \<Rightarrow> string \<Rightarrow> file_strategy \<Rightarrow> file_strategy" where
  "append_log env message s =
     (let held = fs_unflushed s + length message;
          s1 = s\<lparr>fs_current := map_option (\<lambda>c. c @ message) (fs_current s), fs_calls := fs_calls s + 1, fs_unflushed := held,
                 fs_size := to_int32 (fs_size s + int (length message))\<rparr>
      in case le_failure env (fs_calls s) of
           None \<Rightarrow> s1\<lparr>fs_unflushed := min (le_kept env (fs_calls s)) held\<rparr>
         | Some k \<Rightarrow> stream_fails k s1)"

definition File_Write :: "log_env \<Rightarrow> string \<Rightarrow> file_strategy \<Rightarrow> (bool \<times> file_strategy) option" where
  "File_Write env message s =
     (if \<not> file_valid s then Some (False, s\<lparr>fs_error := ''Current file is not open or failed''\<rparr>)
      else if CanWrite (length message) s then Some (True, append_log env message s)
      else case Rotate env s of
        None \<Rightarrow> None
      | Some s1 \<Rightarrow>
          if \<not> file_valid s1
          then Some (False, s1\<lparr>fs_error := ''Rotation failed. Couldn`t create or open new log file''\<rparr>)
          else Some (True, append_log env message s1))"

text \<open>What another stream finds in the log file: the text without what is still in the buffer.\<close>

definition on_disk :: "file_strategy \<Rightarrow> string option" where
  "on_disk s = map_option (\<lambda>c. take (length c - fs_unflushed s) c) (fs_current s)"

section \<open>Reading back\<close>

text \<open>The loop of \<^verbatim>\<open>Read\<close> over the file from its end: the characters in the order they are pushed.\<close>

fun read_back :: "nat \<Rightarrow> string \<Rightarrow> string" where
  "read_back 0 cs = []"
| "read_back (Suc limit) [] = []"
| "read_back (Suc limit) (c # cs) = c # (if c = LF then read_back limit cs else read_back (Suc limit) cs)"

definition Log_Read :: "string option \<Rightarrow> nat \<Rightarrow> string list" where
  "Log_Read content limit =
     (case content of
        None \<Rightarrow> []
      | Some c \<Rightarrow>
          if c = [] then []
          else let buffer = pop_back_if LF (read_back limit (rev (if last c = LF then butlast c else c)))
               in filter (\<lambda>l. l \<noteq> []) (getlines LF (rev buffer)))"

fun search_loop :: "string \<Rightarrow> nat \<Rightarrow> string list \<Rightarrow> string list \<Rightarrow> string list" where
  "search_loop tag limit results [] = results"
| "search_loop tag limit results (l # ls) =
     (if contains_sub l tag
      then if limit \<le> length results + 1 then results @ [l] else search_loop tag limit (results @ [l]) ls
      else search_loop tag limit results ls)"

text \<open>\<^verbatim>\<open>readN\<close> is an \<^verbatim>\<open>int\<close> given to \<^verbatim>\<open>Read\<close> as a \<^verbatim>\<open>size_t\<close>.\<close>

definition Log_Search :: "string option \<Rightarrow> log_level \<Rightarrow> nat \<Rightarrow> int \<Rightarrow> string list" where
  "Log_Search content lvl limit readN =
     search_loop (''['' @ levelStr lvl @ '']'') limit [] (Log_Read content (nat (readN mod 2 ^ 64)))"

section \<open>ConsoleStrategy\<close>

record console_strategy =
  co_level :: log_level
  co_current :: log_level
  co_out :: string

definition ESC :: char where "ESC = CHR 0x1B"

fun color_of :: "log_level \<Rightarrow> string" where
  "color_of L_INFO = ESC # ''[32m''"
| "color_of L_ERROR = ESC # ''[91m''"
| "color_of L_PROD = ESC # ''[94m''"
| "color_of L_DEBUG = ESC # ''[33m''"
| "color_of L_TRACE = ESC # ''[95m''"
| "color_of L_NONE = ESC # ''[0m''"

definition ConsoleStrategy :: "log_level \<Rightarrow> console_strategy" where
  "ConsoleStrategy lvl = \<lparr>co_level = lvl, co_current = L_NONE, co_out = []\<rparr>"

definition Console_Write :: "string \<Rightarrow> console_strategy \<Rightarrow> console_strategy" where
  "Console_Write message s = s\<lparr>co_out := co_out s @ color_of (co_current s) @ message @ ESC # ''[0m'' @ [LF]\<rparr>"

section \<open>The last lines of the file\<close>

text \<open>The reference: split the file into lines and keep the last ones.\<close>

definition last_lines :: "nat \<Rightarrow> string list \<Rightarrow> string list" where
  "last_lines n ls = drop (length ls - n) ls"

lemma read_back_lines:
  assumes "LF \<notin> set l"
  shows "read_back (Suc n) (rev l @ r) = rev l @ read_back (Suc n) r"
proof -
  have "LF \<notin> set ks \<Longrightarrow> read_back (Suc n) (ks @ r) = ks @ read_back (Suc n) r" for ks
    by (induction ks) auto
  from this [of "rev l"] assms show ?thesis by simp
qed

fun glue_lines :: "string list \<Rightarrow> string" where
  "glue_lines [] = []"
| "glue_lines [l] = l"
| "glue_lines (l # m # ls) = l @ LF # glue_lines (m # ls)"

lemma glue_lines_snoc: "ls \<noteq> [] \<Longrightarrow> glue_lines (ls @ [l]) = glue_lines ls @ LF # l"
  by (induction ls rule: glue_lines.induct) auto

text \<open>Reading back over joined lines gives the last ones, with a line break in front when more lines precede them.\<close>

lemma read_back_joined:
  "list_all (\<lambda>l. LF \<notin> set l) ls \<Longrightarrow> ls \<noteq> [] \<Longrightarrow> 0 < n \<Longrightarrow>
   rev (read_back n (rev (glue_lines ls))) = (if n < length ls then [LF] else []) @ glue_lines (last_lines n ls)"
proof (induction ls arbitrary: n rule: rev_induct)
  case (snoc l ls)
  obtain m where n: "n = Suc m" using snoc.prems(3) by (cases n) auto
  show ?case
  proof (cases "ls = []")
    case True
    with snoc.prems n read_back_lines [of l m "[]"] show ?thesis by (simp add: last_lines_def)
  next
    case False
    have "read_back n (rev (glue_lines (ls @ [l]))) = rev l @ LF # read_back m (rev (glue_lines ls))"
      using snoc.prems n read_back_lines [of l m "LF # rev (glue_lines ls)"] False by (simp add: glue_lines_snoc)
    moreover have "last_lines n (ls @ [l]) = last_lines m ls @ [l]"
      using n by (simp add: last_lines_def)
    moreover have "last_lines m ls = [] \<longleftrightarrow> m = 0" using False by (cases ls) (auto simp: last_lines_def)
    ultimately show ?thesis
      using snoc.IH [of m] snoc.prems False n
      by (cases m) (auto simp: glue_lines_snoc last_lines_def)
  qed
qed simp


text \<open>Splitting and joining.\<close>

fun split_lines :: "string \<Rightarrow> string list" where
  "split_lines [] = [[]]"
| "split_lines (c # cs) =
     (if c = LF then [] # split_lines cs else (case split_lines cs of [] \<Rightarrow> [[c]] | l # ls \<Rightarrow> (c # l) # ls))"

lemma split_lines_ne [simp]: "split_lines s \<noteq> []"
  by (induction s) (auto split: list.splits)

lemma join_split: "glue_lines (split_lines s) = s"
proof (induction s)
  case (Cons c s)
  then show ?case by (cases "split_lines s"; cases "tl (split_lines s)") auto
qed simp

lemma split_clean: "list_all (\<lambda>l. LF \<notin> set l) (split_lines s)"
proof (induction s)
  case (Cons c s)
  then show ?case by (cases "split_lines s") auto
qed simp

lemma getlines_acc_split:
  "getlines_acc LF acc s = (case split_lines s of [] \<Rightarrow> [] | l # ls \<Rightarrow>
     (let ps = (rev acc @ l) # ls in if last ps = [] then butlast ps else ps))"
proof (induction s arbitrary: acc)
  case (Cons c s)
  then show ?case by (cases "split_lines s") (auto simp: Let_def)
qed simp

lemma getlines_split: "getlines LF s = (if last (split_lines s) = [] then butlast (split_lines s) else split_lines s)"
  using getlines_acc_split [of "[]" s] by (cases "split_lines s") (auto simp: getlines_def Let_def)

lemma nonempty_lines: "filter (\<lambda>l. l \<noteq> []) (getlines LF s) = filter (\<lambda>l. l \<noteq> []) (split_lines s)"
proof (cases "last (split_lines s) = []")
  case True
  then have "split_lines s = butlast (split_lines s) @ [[]]" by (metis append_butlast_last_id split_lines_ne)
  then have "filter (\<lambda>l. l \<noteq> []) (split_lines s) = filter (\<lambda>l. l \<noteq> []) (butlast (split_lines s))"
    by (metis (mono_tags, lifting) append_Nil2 filter.simps filter_append)
  then show ?thesis using True by (simp add: getlines_split)
qed (simp add: getlines_split)

lemma split_snoc_break: "split_lines (s @ [LF]) = split_lines s @ [[]]"
proof (induction s)
  case (Cons c s)
  then show ?case by (cases "split_lines s") auto
qed simp

lemma split_join: "list_all (\<lambda>l. LF \<notin> set l) ls \<Longrightarrow> ls \<noteq> [] \<Longrightarrow> split_lines (glue_lines ls) = ls"
proof (induction ls rule: glue_lines.induct)
  case (2 l)
  have "LF \<notin> set l \<Longrightarrow> split_lines l = [l]" by (induction l) auto
  with 2 show ?case by simp
next
  case (3 l m ls)
  have "LF \<notin> set l \<Longrightarrow> split_lines (l @ LF # s) = l # split_lines s" for s by (induction l) auto
  with 3 show ?case by simp
qed simp

text \<open>
  C21. \<^verbatim>\<open>FileStrategy::Read\<close>, which walks the file backwards byte by byte, returns the last lines of the file:
  those of its last \<open>n\<close> lines that are not empty, in the order of the file.
\<close>

theorem log_read_last_lines:
  "Log_Read (Some c) n = filter (\<lambda>l. l \<noteq> []) (last_lines n (getlines LF c))"
proof (cases "c = [] \<or> n = 0")
  case True
  then show ?thesis by (auto simp: Log_Read_def last_lines_def getlines_def pop_back_if_def)
next
  case False
  define c' where "c' = (if last c = LF then butlast c else c)"
  define ls where "ls = split_lines c'"
  have lines: "getlines LF c = ls"
  proof (cases "last c = LF")
    case True
    then have "c = c' @ [LF]" using False append_butlast_last_id [of c] by (simp add: c'_def)
    then show ?thesis using getlines_split [of c] split_snoc_break [of c'] by (simp add: ls_def)
  next
    case no: False
    have "last (split_lines c) \<noteq> []"
    proof
      assume "last (split_lines c) = []"
      then have "split_lines c = butlast (split_lines c) @ [[]]" by (metis append_butlast_last_id split_lines_ne)
      then have "c = glue_lines (butlast (split_lines c) @ [[]])" using join_split by metis
      then have "c = [] \<or> (\<exists>p. c = p @ [LF])"
        using glue_lines_snoc [of "butlast (split_lines c)" "[]"] by (cases "butlast (split_lines c) = []") (simp, metis append_Nil2)
      then show False using no False by auto
    qed
    then show ?thesis using no getlines_split [of c] by (simp add: ls_def c'_def)
  qed
  have clean: "list_all (\<lambda>l. LF \<notin> set l) (last_lines n ls)"
    using split_clean [of c'] by (auto simp: ls_def last_lines_def list_all_iff dest: in_set_dropD)
  have ne: "last_lines n ls \<noteq> []" using False by (cases ls) (auto simp: last_lines_def ls_def)
  let ?b = "read_back n (rev c')"
  have "rev ?b = (if n < length ls then [LF] else []) @ glue_lines (last_lines n ls)"
    using read_back_joined [of ls n] split_clean [of c'] False by (simp add: ls_def join_split)
  moreover have "filter (\<lambda>l. l \<noteq> []) (getlines LF (rev (pop_back_if LF ?b))) = filter (\<lambda>l. l \<noteq> []) (split_lines (rev ?b))"
    by (cases ?b rule: rev_cases) (auto simp: pop_back_if_def nonempty_lines)
  ultimately have "filter (\<lambda>l. l \<noteq> []) (getlines LF (rev (pop_back_if LF ?b))) = filter (\<lambda>l. l \<noteq> []) (last_lines n ls)"
    using split_join [OF clean ne] by simp
  then show ?thesis using False lines by (simp add: Log_Read_def c'_def Let_def)
qed

end
