(* ===== verification/Logger_Queue.thy ===== *)
theory Logger_Queue
  imports Logger_Files "HOL-Library.Sublist"
begin

text \<open>
  \<^verbatim>\<open>logger/src/Logger.cpp\<close>: the queue of log messages, the thread that writes them and the readers that
  wait for it.

  \<^item> Strategies are shared objects: \<open>lg_heap\<close> holds them, a pointer is an index. So the worker goes on
    with the strategy it fetched while \<^verbatim>\<open>set_strategy\<close> replaces the current one, and \<^verbatim>\<open>set_level\<close> is seen by
    both. A file strategy has its two files to itself.
  \<^item> The console holds what was given to the standard output.
  \<^item> A step of \<open>logger_step\<close> is one critical section. The messages that the logger reports about itself
    while it holds the strategy lock are pushed in the same step.
  \<^item> A waiting thread may go on whenever its condition holds; the wait of the worker has a timeout, so
    it may go on at any time.
  \<^item> \<open>lg_pushed\<close> and \<open>lg_handled\<close> record the messages that entered the queue and what the worker did with
    each; \<open>lg_base\<close> what a strategy held when it was installed.
\<close>

section \<open>Strategies\<close>

datatype strategy = File file_strategy | Console console_strategy

fun get_name :: "strategy \<Rightarrow> string" where
  "get_name (File f) = ''File''"
| "get_name (Console c) = ''Console''"

fun get_current_level :: "strategy \<Rightarrow> log_level" where
  "get_current_level (File f) = fs_level f"
| "get_current_level (Console c) = co_level c"

fun set_log_level :: "log_level \<Rightarrow> strategy \<Rightarrow> strategy" where
  "set_log_level lvl (File f) = File (f\<lparr>fs_level := lvl\<rparr>)"
| "set_log_level lvl (Console c) = Console (c\<lparr>co_level := lvl\<rparr>)"

fun IsValid :: "strategy \<Rightarrow> bool" where
  "IsValid (File f) = file_valid f"
| "IsValid (Console c) = True"

fun get_last_error :: "strategy \<Rightarrow> string" where
  "get_last_error (File f) = fs_error f"
| "get_last_error (Console c) = []"

text \<open>The console remembers the level of the message it formats, for the colour.\<close>

fun Strategy_SpecificLog :: "log_env \<Rightarrow> log_level \<Rightarrow> string \<Rightarrow> strategy \<Rightarrow> string \<times> strategy" where
  "Strategy_SpecificLog env lvl msg (File f) = (SpecificLog env (fs_level f) lvl msg, File f)"
| "Strategy_SpecificLog env lvl msg (Console c) =
     (SpecificLog env (co_level c) lvl msg, Console (if lvl > co_level c then c else c\<lparr>co_current := lvl\<rparr>))"

fun Strategy_Write :: "log_env \<Rightarrow> string \<Rightarrow> strategy \<Rightarrow> (bool \<times> strategy) option" where
  "Strategy_Write env message (File f) = map_option (map_prod id File) (File_Write env message f)"
| "Strategy_Write env message (Console c) = Some (True, Console (Console_Write message c))"

fun Strategy_Flush :: "log_env \<Rightarrow> strategy \<Rightarrow> strategy" where
  "Strategy_Flush env (File f) = File (File_Flush env f)"
| "Strategy_Flush env (Console c) = Console c"

text \<open>Only the file strategy is an \<^verbatim>\<open>IReadable\<close>.\<close>

fun Strategy_Read :: "nat \<Rightarrow> strategy \<Rightarrow> string list" where
  "Strategy_Read limit (File f) = Log_Read (on_disk f) limit"
| "Strategy_Read limit (Console c) = []"

fun Strategy_Search :: "log_level \<Rightarrow> nat \<Rightarrow> int \<Rightarrow> strategy \<Rightarrow> string list" where
  "Strategy_Search lvl limit read_n (File f) = Log_Search (on_disk f) lvl limit read_n"
| "Strategy_Search lvl limit read_n (Console c) = []"

section \<open>The logger\<close>

type_synonym log_message = "log_level \<times> string"

text \<open>
  What became of a message: above the level of the strategy, or handed as this text to the \<^verbatim>\<open>Write\<close> of this
  object, which reported success.
\<close>

datatype log_outcome = Filtered log_level | Written nat string

text \<open>Where the worker is: before its wait, in the wait for the readers, with a batch, with a batch and the
  pointer it fetched, writing to a strategy, ended, or at a null pointer or an exception that ends the program.\<close>

datatype log_worker = Idle | Confirmed | Took | Fetched "nat option" | Writing nat | Left | Faulted

record logger =
  lg_heap :: "strategy list"
  lg_strategy :: "nat option"
  lg_queue :: "log_message list"
  lg_running :: bool
  lg_flush :: bool
  lg_flushed :: bool
  lg_worker :: log_worker
  lg_local :: "log_message list"
  lg_readers :: "(nat \<times> nat) list"
  lg_pushed :: "log_message list"
  lg_handled :: "(log_message \<times> log_outcome) list"
  lg_base :: "string list"

text \<open>
  \<^verbatim>\<open>Log\<close>: \<open>seen\<close> is what the call read of the running flag, which it tests before it takes the lock.
\<close>

definition Log :: "bool \<Rightarrow> log_level \<Rightarrow> string \<Rightarrow> logger \<Rightarrow> logger" where
  "Log seen lvl msg s =
     (if lvl = L_NONE \<or> \<not> seen then s
      else s\<lparr>lg_queue := lg_queue s @ [(lvl, msg)], lg_pushed := lg_pushed s @ [(lvl, msg)]\<rparr>)"

definition ReportSystemInfo :: "string \<Rightarrow> logger \<Rightarrow> logger" where
  "ReportSystemInfo msg s = Log (lg_running s) L_INFO msg s"

definition ReportError :: "string \<Rightarrow> logger \<Rightarrow> logger" where
  "ReportError msg s = Log (lg_running s) L_ERROR msg s"

text \<open>The text a strategy holds: the old file and the current one, or what went to the console.\<close>

fun stored :: "strategy \<Rightarrow> string" where
  "stored (File f) = (case fs_old f of None \<Rightarrow> [] | Some c \<Rightarrow> c) @ (case fs_current f of None \<Rightarrow> [] | Some c \<Rightarrow> c)"
| "stored (Console c) = co_out c"

definition install :: "strategy \<Rightarrow> logger \<Rightarrow> logger" where
  "install st s =
     s\<lparr>lg_heap := lg_heap s @ [st], lg_base := lg_base s @ [stored st], lg_strategy := Some (length (lg_heap s))\<rparr>"

text \<open>\<^verbatim>\<open>std::to_string\<close> of a level is its number.\<close>

definition level_digit :: "log_level \<Rightarrow> string" where
  "level_digit lvl = [''012345'' ! level_value lvl]"

definition set_strategy :: "strategy option \<Rightarrow> logger \<Rightarrow> logger" where
  "set_strategy strategy s =
     (case strategy of
        None \<Rightarrow> s
      | Some st \<Rightarrow>
          if IsValid st then ReportSystemInfo (get_name st @ '' output is enabled'') (install st s)
          else let error = (if get_last_error st = [] then ''Invalid strategy'' else get_last_error st);
                   s1 = ReportError (''Failed to initialize strategy: '' @ error) s;
                   level = (case lg_strategy s of None \<Rightarrow> L_PROD | Some i \<Rightarrow> get_current_level (lg_heap s ! i))
               in ReportSystemInfo (''Console output with log level '' @ level_digit level @ '' is enabled'')
                    (install (Console (ConsoleStrategy level)) s1))"

definition Logger :: "strategy option \<Rightarrow> logger" where
  "Logger strategy = set_strategy strategy (ReportSystemInfo ''Logger start working''
     \<lparr>lg_heap = [], lg_strategy = None, lg_queue = [], lg_running = True, lg_flush = False, lg_flushed = False,
      lg_worker = Idle, lg_local = [], lg_readers = [], lg_pushed = [], lg_handled = [], lg_base = []\<rparr>)"

definition set_level :: "log_level \<Rightarrow> logger \<Rightarrow> logger" where
  "set_level level s =
     (case lg_strategy s of
        None \<Rightarrow> s
      | Some i \<Rightarrow> ReportSystemInfo (''Logger level switched to '' @ level_digit level)
                   (s\<lparr>lg_heap := (lg_heap s)[i := set_log_level level (lg_heap s ! i)]\<rparr>))"

text \<open>The destructor: it reports, clears the flag and waits for the worker.\<close>

definition Logger_destroy :: "logger \<Rightarrow> logger" where
  "Logger_destroy s = (ReportSystemInfo ''Logger finished working'' s)\<lparr>lg_running := False\<rparr>"

section \<open>WorkQueue\<close>

text \<open>After the waits: go round, leave, or take the whole queue.\<close>

definition worker_decide :: "logger \<Rightarrow> logger" where
  "worker_decide s =
     (if lg_queue s = [] then s\<lparr>lg_worker := (if lg_running s then Idle else Left)\<rparr>
      else s\<lparr>lg_worker := Took, lg_local := lg_queue s, lg_queue := []\<rparr>)"

definition worker_confirm :: "logger \<Rightarrow> logger" where
  "worker_confirm s = s\<lparr>lg_flushed := True, lg_worker := Confirmed\<rparr>"

definition worker_fetch :: "logger \<Rightarrow> logger" where
  "worker_fetch s = s\<lparr>lg_worker := Fetched (lg_strategy s)\<rparr>"

text \<open>The fallback to the console, with the level of the current strategy; a null pointer is dereferenced.\<close>

definition fall_back :: "string \<Rightarrow> logger \<Rightarrow> logger" where
  "fall_back error s =
     (case lg_strategy s of
        None \<Rightarrow> s\<lparr>lg_worker := Faulted\<rparr>
      | Some i \<Rightarrow>
          let s1 = install (Console (ConsoleStrategy (get_current_level (lg_heap s ! i)))) (ReportError error s)
          in (ReportSystemInfo ''Console output is enabled'' s1)\<lparr>lg_worker := Writing (length (lg_heap s))\<rparr>)"

definition worker_check :: "nat option \<Rightarrow> logger \<Rightarrow> logger" where
  "worker_check local_strategy s =
     (case local_strategy of
        None \<Rightarrow> fall_back ''Log strategy failure'' s
      | Some i \<Rightarrow> if IsValid (lg_heap s ! i) then s\<lparr>lg_worker := Writing i\<rparr> else fall_back ''Log strategy failure'' s)"

definition log_done :: "log_outcome \<Rightarrow> logger \<Rightarrow> logger" where
  "log_done outcome s = s\<lparr>lg_local := tl (lg_local s), lg_handled := lg_handled s @ [(hd (lg_local s), outcome)]\<rparr>"

text \<open>What a strategy adds to its text for a message: the console puts the colour around it.\<close>

fun printed :: "strategy \<Rightarrow> string \<Rightarrow> string" where
  "printed (File f) message = message"
| "printed (Console c) message = color_of (co_current c) @ message @ ESC # ''[0m'' @ [LF]"

definition worker_write :: "log_env \<Rightarrow> nat \<Rightarrow> logger \<Rightarrow> logger" where
  "worker_write env i s =
     (let (lvl, msg) = hd (lg_local s);
          level = get_current_level (lg_heap s ! i);
          (formatted_message, st) = Strategy_SpecificLog env lvl msg (lg_heap s ! i)
      in if formatted_message = [] then log_done (Filtered level) (s\<lparr>lg_heap := (lg_heap s)[i := st]\<rparr>)
         else case Strategy_Write env formatted_message st of
           None \<Rightarrow> s\<lparr>lg_worker := Faulted\<rparr>
         | Some (ok, st') \<Rightarrow>
             let s1 = s\<lparr>lg_heap := (lg_heap s)[i := st']\<rparr>
             in if ok then log_done (Written i (printed st formatted_message)) s1
                else fall_back (''Log strategy writing failure. '' @
                  (case lg_strategy s1 of None \<Rightarrow> [] | Some j \<Rightarrow> get_last_error (lg_heap s1 ! j))) s1)"

text \<open>\<^verbatim>\<open>Flush\<close> of the strategy, and the confirmation for a reader.\<close>

definition worker_flush :: "log_env \<Rightarrow> nat \<Rightarrow> logger \<Rightarrow> logger" where
  "worker_flush env i s =
     s\<lparr>lg_heap := (lg_heap s)[i := Strategy_Flush env (lg_heap s ! i)], lg_worker := Idle,
       lg_flushed := (lg_flushed s \<or> lg_flush s \<and> lg_queue s = [])\<rparr>"

section \<open>WaitFlush, Read and Search\<close>

text \<open>A reader waits with the number of messages that were pushed before it.\<close>

definition WaitFlush_begin :: "nat \<Rightarrow> logger \<Rightarrow> logger" where
  "WaitFlush_begin r s = s\<lparr>lg_flush := True, lg_readers := lg_readers s @ [(r, length (lg_pushed s))]\<rparr>"

definition WaitFlush_ready :: "logger \<Rightarrow> bool" where
  "WaitFlush_ready s \<longleftrightarrow> lg_queue s = [] \<and> lg_flushed s \<or> \<not> lg_running s"

definition WaitFlush_end :: "nat \<times> nat \<Rightarrow> logger \<Rightarrow> logger" where
  "WaitFlush_end r s = s\<lparr>lg_flush := False, lg_flushed := False, lg_readers := remove1 r (lg_readers s)\<rparr>"

definition Logger_Read :: "nat \<Rightarrow> logger \<Rightarrow> string list" where
  "Logger_Read limit s = (case lg_strategy s of None \<Rightarrow> [] | Some i \<Rightarrow> Strategy_Read limit (lg_heap s ! i))"

definition Logger_Search :: "log_level \<Rightarrow> nat \<Rightarrow> int \<Rightarrow> logger \<Rightarrow> string list" where
  "Logger_Search lvl limit read_n s =
     (case lg_strategy s of None \<Rightarrow> [] | Some i \<Rightarrow> Strategy_Search lvl limit read_n (lg_heap s ! i))"

section \<open>The threads together\<close>

text \<open>The constructor of a file strategy creates the file it opens.\<close>

fun strategy_ok :: "strategy \<Rightarrow> bool" where
  "strategy_ok (File f) \<longleftrightarrow> (fs_open f \<longrightarrow> fs_current f \<noteq> None)"
| "strategy_ok (Console c) \<longleftrightarrow> True"

lemma new_file_ok: "FileStrategy env lvl current old = Some f \<Longrightarrow> strategy_ok (File f)"
  by (auto simp: FileStrategy_def open_error_def OpenFile_def split: option.splits if_splits)

text \<open>The steps of the worker and of the callers that neither read nor destroy.\<close>

inductive quiet_step :: "logger \<Rightarrow> logger \<Rightarrow> bool" where
  log: "(lg_running s \<Longrightarrow> seen) \<Longrightarrow> quiet_step s (Log seen lvl msg s)"
| strategy: "pred_option strategy_ok st \<Longrightarrow> quiet_step s (set_strategy st s)"
| level: "quiet_step s (set_level lvl s)"
| pass: "lg_worker s = Idle \<Longrightarrow> \<not> (lg_flush s \<and> lg_queue s = []) \<Longrightarrow> quiet_step s (worker_decide s)"
| confirm: "lg_worker s = Idle \<Longrightarrow> lg_flush s \<Longrightarrow> lg_queue s = [] \<Longrightarrow> quiet_step s (worker_confirm s)"
| wake: "lg_worker s = Confirmed \<Longrightarrow> \<not> lg_flush s \<or> lg_queue s \<noteq> [] \<or> \<not> lg_running s \<Longrightarrow> quiet_step s (worker_decide s)"
| fetch: "lg_worker s = Took \<Longrightarrow> quiet_step s (worker_fetch s)"
| check: "lg_worker s = Fetched p \<Longrightarrow> quiet_step s (worker_check p s)"
| writes: "lg_worker s = Writing i \<Longrightarrow> lg_local s \<noteq> [] \<Longrightarrow> quiet_step s (worker_write env i s)"
| flush: "lg_worker s = Writing i \<Longrightarrow> lg_local s = [] \<Longrightarrow> quiet_step s (worker_flush env i s)"
| reader: "r \<in> set (lg_readers s) \<Longrightarrow> WaitFlush_ready s \<Longrightarrow> quiet_step s (WaitFlush_end r s)"

inductive logger_step :: "logger \<Rightarrow> logger \<Rightarrow> bool" where
  quiet: "quiet_step s s' \<Longrightarrow> logger_step s s'"
| read: "logger_step s (WaitFlush_begin r s)"
| destroy: "lg_running s \<Longrightarrow> logger_step s (Logger_destroy s)"

end
