(* ===== verification/Logger_Laws.thy ===== *)
theory Logger_Laws
  imports Logger_Queue
begin

text \<open>
  What the logger promises. The interface of the strategies is the locale \<open>logger_strategy\<close>; over it, no
  message is dropped by the logger, handed on twice or out of order. A stream that fails loses text
  although the write is reported as done. A single reader sees every message logged before it; of two
  readers that wait together one is left behind.
\<close>

section \<open>What every strategy promises\<close>

text \<open>
  What is left of a text: its characters in order and, when nothing was lost on the way, its end without a gap.
\<close>

definition kept :: "bool \<Rightarrow> string \<Rightarrow> string \<Rightarrow> bool" where
  "kept whole s t \<longleftrightarrow> subseq s t \<and> (whole \<longrightarrow> suffix s t)"

lemma kept_refl [simp]: "kept whole s s"
  by (simp add: kept_def)

lemma kept_suffix: "suffix s t \<Longrightarrow> kept whole s t"
  by (auto simp: kept_def suffix_def)

lemma kept_trans: "kept whole s t \<Longrightarrow> kept whole' t u \<Longrightarrow> (whole \<Longrightarrow> whole') \<Longrightarrow> kept whole s u"
  unfolding kept_def using subseq_order.trans suffix_order.trans by blast

lemma kept_append: "kept whole s t \<Longrightarrow> kept whole (s @ x) (t @ x)"
  by (auto simp: kept_def)

text \<open>
  The interface \<^verbatim>\<open>ILoggerStrategy\<close>: formatting yields nothing exactly above the level, and what a strategy
  holds after a write is what it held followed by what was written, less what it has dropped from the
  beginning; text is missing elsewhere only when the strategy is no longer \<open>intact\<close>.
\<close>

locale logger_strategy =
  fixes ok :: "'s \<Rightarrow> bool" and threshold :: "'s \<Rightarrow> log_level"
    and format :: "log_env \<Rightarrow> log_level \<Rightarrow> string \<Rightarrow> 's \<Rightarrow> string \<times> 's"
    and put :: "log_env \<Rightarrow> string \<Rightarrow> 's \<Rightarrow> (bool \<times> 's) option" and flush :: "log_env \<Rightarrow> 's \<Rightarrow> 's"
    and held :: "'s \<Rightarrow> string" and rendered :: "'s \<Rightarrow> string \<Rightarrow> string" and intact :: "'s \<Rightarrow> bool"
  assumes format_filters: "fst (format env lvl msg s) = (if threshold s < lvl then [] else SpecificLog env lvl lvl msg)"
    and format_held: "held (snd (format env lvl msg s)) = held s" and format_ok: "ok s \<Longrightarrow> ok (snd (format env lvl msg s))"
    and format_intact: "intact (snd (format env lvl msg s)) = intact s"
    and put_ok: "ok s \<Longrightarrow> put env t s = Some (b, s') \<Longrightarrow> ok s' \<and> (intact s' \<longrightarrow> intact s) \<and>
      kept (intact s') (held s') (held s @ (if b then rendered s t else []))"
    and flush_ok: "ok s \<Longrightarrow> ok (flush env s) \<and> (intact (flush env s) \<longrightarrow> intact s) \<and> kept (intact (flush env s)) (held (flush env s)) (held s)"
    and rendered_text: "sublist t (rendered s t)"
begin

lemma written:
  assumes "ok s" and "format env lvl msg s = (t, s1)" and "t \<noteq> []" and "put env t s1 = Some (True, s2)"
  shows "ok s2 \<and> (intact s2 \<longrightarrow> intact s) \<and> kept (intact s2) (held s2) (held s @ rendered s1 t) \<and>
    sublist (SpecificLog env lvl lvl msg) (rendered s1 t) \<and> lvl \<le> threshold s"
proof -
  have "ok s1" "held s1 = held s" "intact s1 = intact s" "t = SpecificLog env lvl lvl msg" "\<not> threshold s < lvl"
    using assms(1-3) format_held [of env lvl msg s] format_ok [of s env lvl msg] format_filters [of env lvl msg s]
      format_intact [of env lvl msg s] by (auto split: if_splits)
  with put_ok [of s1 env t True s2] assms(4) rendered_text [of t s1] show ?thesis by (auto simp: not_less)
qed

lemma not_written:
  assumes "ok s" and "format env lvl msg s = (t, s1)" and "put env t s1 = Some (False, s2)"
  shows "ok s2 \<and> (intact s2 \<longrightarrow> intact s) \<and> kept (intact s2) (held s2) (held s)"
proof -
  have "ok s1" "held s1 = held s" "intact s1 = intact s"
    using assms(1,2) format_held [of env lvl msg s] format_ok [of s env lvl msg] format_intact [of env lvl msg s] by auto
  with put_ok [of s1 env t False s2] assms(3) show ?thesis by auto
qed

lemma filtered:
  assumes "ok s" and "format env lvl msg s = (t, s1)" and "t = []" and "SpecificLog env lvl lvl msg \<noteq> []"
  shows "ok s1 \<and> held s1 = held s \<and> intact s1 = intact s \<and> threshold s < lvl"
  using assms format_held [of env lvl msg s] format_ok [of s env lvl msg] format_filters [of env lvl msg s]
    format_intact [of env lvl msg s] by (auto split: if_splits)

end

fun intact :: "strategy \<Rightarrow> bool" where
  "intact (File f) \<longleftrightarrow> \<not> fs_lost f"
| "intact (Console c) \<longleftrightarrow> True"

lemma SpecificLog_ne: "SpecificLog env lvl lvl msg \<noteq> []"
  by (simp add: SpecificLog_def Let_def)

lemma kept_take: "kept (n = 0) (a @ take (length c - n) c) (a @ c)"
  using take_is_prefix [of "length c - n" c] by (auto simp: kept_def subseq_append')

text \<open>What an operation of the file strategy keeps of its text.\<close>

definition file_kept :: "file_strategy \<Rightarrow> file_strategy \<Rightarrow> bool" where
  "file_kept f f' \<longleftrightarrow> kept (intact (File f')) (stored (File f')) (stored (File f)) \<and> (intact (File f') \<longrightarrow> intact (File f))"

lemma file_kept_trans: "file_kept f g \<Longrightarrow> file_kept g h \<Longrightarrow> file_kept f h"
  unfolding file_kept_def using kept_trans by blast

lemma file_kept_same:
  "fs_current f' = fs_current f \<Longrightarrow> fs_old f' = fs_old f \<Longrightarrow> fs_lost f' = fs_lost f \<Longrightarrow> file_kept f f'"
  by (simp add: file_kept_def)

lemma stream_fails_kept: "file_kept f (stream_fails k f) \<and> fs_open (stream_fails k f) = fs_open f \<and>
   (fs_current (stream_fails k f) = None) = (fs_current f = None)"
proof (cases "fs_current f")
  case (Some c)
  obtain n where n: "min k (fs_unflushed f) = n" by simp
  have "kept (\<not> fs_lost f \<and> n = 0) (a @ take (length c - n) c) (a @ c)" for a
    using kept_take [of n a c] unfolding kept_def by blast
  then show ?thesis unfolding stream_fails_def n by (simp add: Let_def file_kept_def Some)
qed (simp add: stream_fails_def file_kept_def)

lemma stream_out_kept: "file_kept f (stream_out env f) \<and> (fs_current (stream_out env f) = None) = (fs_current f = None)"
proof -
  let ?g = "f\<lparr>fs_calls := fs_calls f + 1\<rparr>"
  have "file_kept f ?g" "file_kept f (?g\<lparr>fs_unflushed := 0\<rparr>)" by (simp_all add: file_kept_same)
  with stream_fails_kept [of ?g] file_kept_trans show ?thesis
    unfolding stream_out_def Let_def by (cases "le_failure env (fs_calls f)") auto
qed

lemma append_held:
  assumes "fs_current f \<noteq> None"
  shows "kept (intact (File (append_log env m f))) (stored (File (append_log env m f))) (stored (File f) @ m) \<and>
    (intact (File (append_log env m f)) \<longrightarrow> intact (File f)) \<and> strategy_ok (File (append_log env m f))"
proof -
  let ?g = "f\<lparr>fs_current := map_option (\<lambda>c. c @ m) (fs_current f), fs_calls := fs_calls f + 1,
    fs_unflushed := fs_unflushed f + length m, fs_size := to_int32 (fs_size f + int (length m))\<rparr>"
  have g: "stored (File ?g) = stored (File f) @ m" "intact (File ?g) = intact (File f)" "fs_current ?g \<noteq> None"
    using assms by auto
  have "file_kept ?g (append_log env m f) \<and> fs_current (append_log env m f) \<noteq> None"
    unfolding append_log_def Let_def using stream_fails_kept [of ?g] g(3)
    by (cases "le_failure env (fs_calls f)") (simp_all add: file_kept_same)
  then show ?thesis using g(1,2) by (simp add: file_kept_def del: stored.simps intact.simps)
qed

lemma reopened: "file_kept f (open_error (OpenFile env f)) \<and> strategy_ok (File (open_error (OpenFile env f)))"
  by (auto simp: file_kept_def open_error_def OpenFile_def split: option.split)

lemma Rotate_held:
  assumes "Rotate env f = Some f'"
  shows "file_kept f f' \<and> strategy_ok (File f')"
proof -
  let ?s = "if fs_open f then (stream_out env f)\<lparr>fs_open := False\<rparr> else f"
  have "file_kept (stream_out env f) ((stream_out env f)\<lparr>fs_open := False\<rparr>)" by (simp add: file_kept_same)
  then have s: "file_kept f ?s" using stream_out_kept [of f env] file_kept_trans by (auto simp: file_kept_same)
  obtain g where g: "f' = open_error (OpenFile env g)" "suffix (stored (File g)) (stored (File ?s))" "fs_lost g = fs_lost ?s"
    using assms unfolding Rotate_def Let_def
    by (cases "fs_current ?s") (auto simp: suffix_def split: if_splits)
  then have "file_kept ?s g" by (simp add: file_kept_def kept_suffix del: stored.simps)
  with s reopened [of g env] g(1) file_kept_trans show ?thesis by blast
qed

lemma File_Write_held:
  assumes "strategy_ok (File f)" and "File_Write env m f = Some (b, f')"
  shows "strategy_ok (File f') \<and> (intact (File f') \<longrightarrow> intact (File f)) \<and>
    kept (intact (File f')) (stored (File f')) (stored (File f) @ (if b then m else []))"
proof -
  consider "\<not> file_valid f" | "file_valid f" "CanWrite (length m) f"
    | f1 where "file_valid f" "\<not> CanWrite (length m) f" "Rotate env f = Some f1"
    using assms(2) by (auto simp: File_Write_def split: if_splits option.splits)
  then show ?thesis
  proof cases
    case 1
    then show ?thesis using assms by (auto simp: File_Write_def)
  next
    case 2
    with assms(1) have "fs_current f \<noteq> None" by (simp add: file_valid_def)
    with 2 append_held [OF this, of env m] assms(2) show ?thesis by (auto simp: File_Write_def)
  next
    case (3 f1)
    note r = Rotate_held [OF 3(3), unfolded file_kept_def]
    show ?thesis
    proof (cases "file_valid f1")
      case True
      with r have "fs_current f1 \<noteq> None" by (simp add: file_valid_def)
      note app = append_held [OF this, of env m]
      have "kept (intact (File (append_log env m f1))) (stored (File (append_log env m f1))) (stored (File f) @ m)"
        by (rule kept_trans [OF _ kept_append, of _ _ "stored (File f1)" m "intact (File f1)"]) (use app r in blast)+
      with app r True 3 assms(2) show ?thesis
        by (auto simp: File_Write_def simp del: stored.simps intact.simps strategy_ok.simps)
    next
      case False
      have "stored (File (f1\<lparr>fs_error := e\<rparr>)) = stored (File f1)" "intact (File (f1\<lparr>fs_error := e\<rparr>)) = intact (File f1)"
        "strategy_ok (File (f1\<lparr>fs_error := e\<rparr>)) = strategy_ok (File f1)" for e by simp_all
      with False 3 assms(2) r show ?thesis by (auto simp: File_Write_def simp del: stored.simps intact.simps strategy_ok.simps)
    qed
  qed
qed

interpretation strategy: logger_strategy strategy_ok get_current_level Strategy_SpecificLog Strategy_Write Strategy_Flush stored printed intact
proof
  show "fst (Strategy_SpecificLog env lvl msg s) = (if get_current_level s < lvl then [] else SpecificLog env lvl lvl msg)"
    for env lvl msg s by (cases s) (simp_all add: SpecificLog_def)
  show "stored (snd (Strategy_SpecificLog env lvl msg s)) = stored s" for env lvl msg s by (cases s) auto
  show "strategy_ok s \<Longrightarrow> strategy_ok (snd (Strategy_SpecificLog env lvl msg s))" for env lvl msg s by (cases s) auto
  show "intact (snd (Strategy_SpecificLog env lvl msg s)) = intact s" for env lvl msg s by (cases s) auto
  show "strategy_ok s' \<and> (intact s' \<longrightarrow> intact s) \<and> kept (intact s') (stored s') (stored s @ (if b then printed s t else []))"
    if "strategy_ok s" "Strategy_Write env t s = Some (b, s')" for env t s b s'
  proof (cases s)
    case (File f)
    then show ?thesis using that File_Write_held [of f env t]
      by (auto simp del: strategy_ok.simps stored.simps intact.simps)
  qed (use that in \<open>auto simp: Console_Write_def\<close>)
  show "strategy_ok (Strategy_Flush env s) \<and> (intact (Strategy_Flush env s) \<longrightarrow> intact s) \<and>
      kept (intact (Strategy_Flush env s)) (stored (Strategy_Flush env s)) (stored s)" if "strategy_ok s" for env s
  proof (cases s)
    case (File f)
    then show ?thesis using that stream_out_kept [of f env]
      by (auto simp: File_Flush_def file_kept_def file_valid_def simp del: stored.simps intact.simps)
  qed simp
  show "sublist t (printed s t)" for t s by (cases s) (auto simp: sublist_appendI)
qed

section \<open>No message is dropped or reordered\<close>

text \<open>The text that the worker handed to an object.\<close>

fun written_to :: "nat \<Rightarrow> log_message \<times> log_outcome \<Rightarrow> string" where
  "written_to i (m, Written j t) = (if i = j then t else [])"
| "written_to i (m, Filtered l) = []"

definition log_stream :: "nat \<Rightarrow> (log_message \<times> log_outcome) list \<Rightarrow> string" where
  "log_stream i hs = concat (map (written_to i) hs)"

fun outcome_ok :: "log_message \<times> log_outcome \<Rightarrow> bool" where
  "outcome_ok ((lvl, msg), Filtered l) \<longleftrightarrow> l < lvl"
| "outcome_ok ((lvl, msg), Written i t) \<longleftrightarrow> (\<exists>env. sublist (SpecificLog env lvl lvl msg) t)"

fun worker_object :: "log_worker \<Rightarrow> nat option" where
  "worker_object (Fetched p) = p"
| "worker_object (Writing i) = Some i"
| "worker_object _ = None"

definition queue_inv :: "logger \<Rightarrow> bool" where
  "queue_inv s \<longleftrightarrow> lg_pushed s = map fst (lg_handled s) @ lg_local s @ lg_queue s \<and>
     (lg_worker s = Idle \<or> lg_worker s = Confirmed \<or> lg_worker s = Left \<longrightarrow> lg_local s = [])"

definition heap_inv :: "logger \<Rightarrow> bool" where
  "heap_inv s \<longleftrightarrow> length (lg_base s) = length (lg_heap s) \<and>
     pred_option (\<lambda>i. i < length (lg_heap s)) (lg_strategy s) \<and>
     pred_option (\<lambda>i. i < length (lg_heap s)) (worker_object (lg_worker s)) \<and>
     list_all outcome_ok (lg_handled s) \<and>
     (\<forall>i t m. (m, Written i t) \<in> set (lg_handled s) \<longrightarrow> i < length (lg_heap s)) \<and>
     (\<forall>i < length (lg_heap s). strategy_ok (lg_heap s ! i) \<and>
        kept (intact (lg_heap s ! i)) (stored (lg_heap s ! i)) (lg_base s ! i @ log_stream i (lg_handled s)))"

lemma log_stream_snoc [simp]: "log_stream i (hs @ [h]) = log_stream i hs @ written_to i h"
  by (simp add: log_stream_def)

lemma log_stream_fresh:
  assumes "\<forall>i t m. (m, Written i t) \<in> set hs \<longrightarrow> i < n"
  shows "log_stream n hs = []"
  using assms
proof (induction hs)
  case (Cons h hs)
  then have "log_stream n hs = []" by auto
  moreover have "written_to n h = []" using Cons.prems by (cases h; cases "snd h") auto
  ultimately show ?case by (simp add: log_stream_def)
qed (simp add: log_stream_def)

subsection \<open>The queue\<close>

lemma Log_queue: "queue_inv s \<Longrightarrow> queue_inv (Log seen lvl msg s)"
  by (simp add: queue_inv_def Log_def)

lemma report_queue: "queue_inv s \<Longrightarrow> queue_inv (ReportSystemInfo m s)" "queue_inv s \<Longrightarrow> queue_inv (ReportError m s)"
  by (simp_all add: ReportSystemInfo_def ReportError_def Log_queue)

lemma install_queue: "queue_inv (install st s) = queue_inv s"
  by (simp add: queue_inv_def install_def)

lemma fall_back_queue: "queue_inv s \<Longrightarrow> queue_inv (fall_back e s)"
proof (cases "lg_strategy s")
  case (Some i)
  assume "queue_inv s"
  then have "queue_inv (ReportSystemInfo m (install st (ReportError e s)))" for m st
    by (intro report_queue) (simp add: install_queue report_queue)
  with Some show ?thesis by (simp add: fall_back_def Let_def) (simp add: queue_inv_def)
qed (simp add: fall_back_def queue_inv_def)

lemma set_strategy_queue: "queue_inv s \<Longrightarrow> queue_inv (set_strategy st s)"
  by (auto simp: set_strategy_def Let_def install_queue intro!: report_queue split: option.splits)

lemma log_done_queue:
  "queue_inv s \<Longrightarrow> lg_local s \<noteq> [] \<Longrightarrow> lg_worker s = Writing i \<Longrightarrow> queue_inv (log_done out s)"
  by (cases "lg_local s") (auto simp: queue_inv_def log_done_def)

lemma heap_queue: "queue_inv (s\<lparr>lg_heap := h\<rparr>) = queue_inv s"
  by (simp add: queue_inv_def)

lemma writing_queue: "queue_inv s \<Longrightarrow> queue_inv (s\<lparr>lg_worker := Writing i\<rparr>)"
  by (simp add: queue_inv_def)

lemma worker_write_cases:
  obtains h out where "worker_write env i s = log_done out (s\<lparr>lg_heap := h\<rparr>)"
  | h e where "worker_write env i s = fall_back e (s\<lparr>lg_heap := h\<rparr>)"
  | "worker_write env i s = s\<lparr>lg_worker := Faulted\<rparr>"
proof -
  obtain lvl msg where m: "hd (lg_local s) = (lvl, msg)" by fastforce
  obtain t st where f: "Strategy_SpecificLog env lvl msg (lg_heap s ! i) = (t, st)" by fastforce
  note w = worker_write_def [of env i s, unfolded m f Let_def prod.case]
  consider "t = []" | "t \<noteq> []" "Strategy_Write env t st = None" | st' where "t \<noteq> []" "Strategy_Write env t st = Some (True, st')"
    | st' where "t \<noteq> []" "Strategy_Write env t st = Some (False, st')"
    by (metis (full_types) option.exhaust surj_pair)
  then show ?thesis
  proof cases
    case 1
    then show ?thesis using w that(1) by simp
  next
    case 2
    then show ?thesis using w that(3) by simp
  next
    case (3 st')
    then show ?thesis using w that(1) by simp
  next
    case (4 st')
    then show ?thesis using w that(2) by simp
  qed
qed

lemma quiet_queue: "quiet_step s s' \<Longrightarrow> queue_inv s \<Longrightarrow> queue_inv s'"
proof (induction rule: quiet_step.induct)
  case (log s seen lvl msg)
  then show ?case by (simp add: Log_queue)
next
  case (strategy st s)
  then show ?case by (simp add: set_strategy_queue)
next
  case (level s lvl)
  then show ?case by (auto simp: set_level_def heap_queue intro!: report_queue split: option.splits)
next
  case (check s p)
  then show ?case by (auto simp: worker_check_def intro!: fall_back_queue writing_queue split: option.splits)
next
  case (writes s i env)
  show ?case
  proof (cases rule: worker_write_cases [of env i s])
    case (1 h out)
    then show ?thesis using writes by (simp add: log_done_queue heap_queue)
  next
    case (2 h e)
    then show ?thesis using writes by (simp add: fall_back_queue heap_queue)
  next
    case 3
    then show ?thesis using writes by (simp add: queue_inv_def)
  qed
qed (auto simp: queue_inv_def worker_decide_def worker_confirm_def worker_fetch_def
    worker_flush_def WaitFlush_end_def)

lemma step_queue: "logger_step s s' \<Longrightarrow> queue_inv s \<Longrightarrow> queue_inv s'"
proof (induction rule: logger_step.induct)
  case (quiet s s')
  then show ?case by (rule quiet_queue)
next
  case (destroy s)
  then show ?case using report_queue(1) [OF destroy(2)] by (simp add: Logger_destroy_def queue_inv_def)
qed (auto simp: WaitFlush_begin_def queue_inv_def)

subsection \<open>The objects\<close>

lemma heap_inv_cong:
  assumes "lg_heap s' = lg_heap s" "lg_base s' = lg_base s" "lg_strategy s' = lg_strategy s" "lg_handled s' = lg_handled s"
    and "pred_option (\<lambda>i. i < length (lg_heap s)) (worker_object (lg_worker s'))"
  shows "heap_inv s \<Longrightarrow> heap_inv s'"
  using assms by (simp add: heap_inv_def)

lemma report_fields [simp]:
  "lg_heap (Log seen lvl m s) = lg_heap s" "lg_base (Log seen lvl m s) = lg_base s" "lg_strategy (Log seen lvl m s) = lg_strategy s"
  "lg_handled (Log seen lvl m s) = lg_handled s" "lg_worker (Log seen lvl m s) = lg_worker s"
  "lg_flush (Log seen lvl m s) = lg_flush s" "lg_flushed (Log seen lvl m s) = lg_flushed s"
  "lg_readers (Log seen lvl m s) = lg_readers s" "lg_running (Log seen lvl m s) = lg_running s" "lg_local (Log seen lvl m s) = lg_local s"
  by (simp_all add: Log_def)

lemmas report_defs = ReportSystemInfo_def ReportError_def

lemma Log_heap: "heap_inv (Log seen lvl m s) = heap_inv s"
  by (simp add: heap_inv_def)

lemma install_heap:
  assumes "heap_inv s" and "strategy_ok st"
  shows "heap_inv (install st s)"
proof -
  let ?n = "length (lg_heap s)"
  have h: "length (lg_base s) = ?n" "\<forall>i t m. (m, Written i t) \<in> set (lg_handled s) \<longrightarrow> i < ?n" using assms(1) by (auto simp: heap_inv_def)
  have "strategy_ok ((lg_heap s @ [st]) ! i) \<and> kept (intact ((lg_heap s @ [st]) ! i)) (stored ((lg_heap s @ [st]) ! i)) ((lg_base s @ [stored st]) ! i @ log_stream i (lg_handled s))"
    if "i < Suc ?n" for i
  proof (cases "i = ?n")
    case True
    then show ?thesis using assms(2) h log_stream_fresh [OF h(2)] by (simp add: nth_append)
  next
    case False
    then show ?thesis using that assms(1) h(1) by (simp add: nth_append heap_inv_def)
  qed
  moreover have "pred_option (\<lambda>i. i < Suc ?n) (worker_object (lg_worker s))"
    using assms(1) by (cases "worker_object (lg_worker s)") (auto simp: heap_inv_def)
  ultimately show ?thesis using assms(1) h by (auto simp: heap_inv_def install_def less_Suc_eq)
qed

lemma fall_back_heap: "heap_inv s \<Longrightarrow> heap_inv (fall_back e s)"
proof (cases "lg_strategy s")
  case (Some i)
  assume "heap_inv s"
  then have "heap_inv (install (Console (ConsoleStrategy l)) (ReportError e s))" for l
    by (intro install_heap) (simp_all add: report_defs Log_heap)
  then have "heap_inv (ReportSystemInfo m (install (Console (ConsoleStrategy l)) (ReportError e s)))" for l m
    by (simp add: report_defs Log_heap)
  from heap_inv_cong [OF _ _ _ _ _ this] Some show ?thesis
    by (simp add: fall_back_def Let_def report_defs install_def)
qed (auto simp: fall_back_def heap_inv_def)

lemma set_strategy_heap:
  assumes "heap_inv s" and "pred_option strategy_ok st"
  shows "heap_inv (set_strategy st s)"
  using assms by (auto simp: set_strategy_def Let_def report_defs Log_heap intro!: install_heap split: option.splits)

lemma update_heap:
  assumes "heap_inv s" and "i < length (lg_heap s)" and "strategy_ok st" and "intact st \<longrightarrow> intact (lg_heap s ! i)"
    and "kept (intact st) (stored st) (stored (lg_heap s ! i))"
  shows "heap_inv (s\<lparr>lg_heap := (lg_heap s)[i := st]\<rparr>)"
proof -
  have "kept (intact st) (stored st) (lg_base s ! i @ log_stream i (lg_handled s))"
    using assms kept_trans [OF assms(5)] by (auto simp: heap_inv_def)
  then show ?thesis using assms(1-3) by (auto simp: heap_inv_def nth_list_update)
qed

lemma heap_inv_written: "heap_inv s \<Longrightarrow> (m, Written i t) \<in> set (lg_handled s) \<Longrightarrow> i < length (lg_heap s)"
  unfolding heap_inv_def by blast

lemma log_done_heap:
  assumes "heap_inv s" and "i < length (lg_heap s)" and "strategy_ok st" and "outcome_ok (hd (lg_local s), out)"
    and "kept (intact st) (stored st) (stored (lg_heap s ! i) @ written_to i (hd (lg_local s), out))"
    and "\<And>j t. out = Written j t \<Longrightarrow> j = i" and "intact st \<longrightarrow> intact (lg_heap s ! i)"
  shows "heap_inv (log_done out (s\<lparr>lg_heap := (lg_heap s)[i := st]\<rparr>))"
proof -
  let ?h = "(hd (lg_local s), out)"
  have other: "written_to j ?h = []" if "j \<noteq> i" for j using that assms(6) by (cases out) auto
  have "kept (intact (lg_heap s ! i)) (stored (lg_heap s ! i) @ written_to i ?h) (lg_base s ! i @ log_stream i (lg_handled s) @ written_to i ?h)"
    using assms(1,2) kept_append [of _ _ "lg_base s ! i @ log_stream i (lg_handled s)" "written_to i ?h"] by (auto simp: heap_inv_def)
  with kept_trans [OF assms(5)] assms(7) have new: "kept (intact st) (stored st) (lg_base s ! i @ log_stream i (lg_handled s) @ written_to i ?h)"
    by blast
  have "strategy_ok ((lg_heap s)[i := st] ! j) \<and> kept (intact ((lg_heap s)[i := st] ! j)) (stored ((lg_heap s)[i := st] ! j)) (lg_base s ! j @ log_stream j (lg_handled s) @ written_to j ?h)"
    if "j < length (lg_heap s)" for j
    using that assms(1-3) new other [of j] by (cases "j = i") (auto simp: heap_inv_def)
  moreover have "k < length (lg_heap s)" if "(m, Written k t) \<in> set (lg_handled s @ [?h])" for m k t
    using that assms(2,6) heap_inv_written [OF assms(1), of m k t] by auto
  ultimately show ?thesis using assms(1,4) by (auto simp: heap_inv_def log_done_def)
qed

lemma write_heap:
  assumes "heap_inv s" and "lg_worker s = Writing i"
  shows "heap_inv (worker_write env i s)"
proof -
  obtain lvl msg where m: "hd (lg_local s) = (lvl, msg)" by fastforce
  obtain t st where f: "Strategy_SpecificLog env lvl msg (lg_heap s ! i) = (t, st)" by fastforce
  have i: "i < length (lg_heap s)" "strategy_ok (lg_heap s ! i)" using assms by (auto simp: heap_inv_def)
  consider "t = []" | st' where "t \<noteq> []" "Strategy_Write env t st = Some (True, st')"
    | st' where "t \<noteq> []" "Strategy_Write env t st = Some (False, st')" | "t \<noteq> []" "Strategy_Write env t st = None"
    by (metis (full_types) option.exhaust surj_pair)
  then show ?thesis
  proof cases
    case 1
    with strategy.filtered [OF i(2) f _ SpecificLog_ne] have "heap_inv (log_done (Filtered (get_current_level (lg_heap s ! i))) (s\<lparr>lg_heap := (lg_heap s)[i := st]\<rparr>))"
      by (intro log_done_heap assms(1) i(1)) (auto simp: m)
    then show ?thesis using 1 m f by (simp add: worker_write_def)
  next
    case (2 st')
    with strategy.written [OF i(2) f] have "heap_inv (log_done (Written i (printed st t)) (s\<lparr>lg_heap := (lg_heap s)[i := st']\<rparr>))"
      by (intro log_done_heap assms(1) i(1)) (auto simp: m)
    then show ?thesis using 2 m f by (simp add: worker_write_def)
  next
    case (3 st')
    with strategy.not_written [OF i(2) f] have "heap_inv (s\<lparr>lg_heap := (lg_heap s)[i := st']\<rparr>)"
      by (intro update_heap assms(1) i(1)) auto
    then show ?thesis using 3 m f by (simp add: worker_write_def Let_def fall_back_heap)
  next
    case 4
    then show ?thesis using assms(1) m f by (simp add: worker_write_def heap_inv_def)
  qed
qed


lemma quiet_heap: "quiet_step s s' \<Longrightarrow> heap_inv s \<Longrightarrow> heap_inv s'"
proof (induction rule: quiet_step.induct)
  case (strategy st s)
  then show ?case by (simp add: set_strategy_heap)
next
  case (level s lvl)
  have "strategy_ok (set_log_level lvl st) = strategy_ok st" "stored (set_log_level lvl st) = stored st" "intact (set_log_level lvl st) = intact st" for st by (cases st; simp)+
  with level show ?case by (auto simp: set_level_def report_defs Log_heap heap_inv_def nth_list_update split: option.splits)
next
  case (check s p)
  then have "pred_option (\<lambda>i. i < length (lg_heap s)) p" by (simp add: heap_inv_def)
  then have "heap_inv (s\<lparr>lg_worker := Writing i\<rparr>)" if "p = Some i" for i
    using check(2) that by (simp add: heap_inv_def)
  with check show ?case by (auto simp: worker_check_def intro: fall_back_heap split: option.splits)
next
  case (writes s i env)
  then show ?case by (simp add: write_heap)
next
  case (flush s i env)
  then have i: "i < length (lg_heap s)" by (simp add: heap_inv_def)
  have "heap_inv (s\<lparr>lg_heap := (lg_heap s)[i := Strategy_Flush env (lg_heap s ! i)]\<rparr>)"
    using strategy.flush_ok [of "lg_heap s ! i" env] flush(3) i by (intro update_heap) (auto simp: heap_inv_def)
  then show ?case by (simp add: heap_inv_def worker_flush_def)
next
  case (pass s)
  then show ?case by (elim heap_inv_cong [rotated 5]) (auto simp: worker_decide_def)
next
  case (wake s)
  then show ?case by (elim heap_inv_cong [rotated 5]) (auto simp: worker_decide_def)
qed (auto simp: Log_heap heap_inv_def worker_confirm_def worker_fetch_def worker_flush_def WaitFlush_end_def)

lemma step_heap: "logger_step s s' \<Longrightarrow> heap_inv s \<Longrightarrow> heap_inv s'"
proof (induction rule: logger_step.induct)
  case (quiet s s')
  then show ?case by (rule quiet_heap)
qed (auto simp: WaitFlush_begin_def Logger_destroy_def heap_inv_def report_defs)

lemma new_logger:
  assumes "pred_option strategy_ok st"
  shows "queue_inv (Logger st)" "heap_inv (Logger st)"
  unfolding Logger_def
  by (intro set_strategy_queue report_queue) (simp add: queue_inv_def,
    intro set_strategy_heap assms, simp add: report_defs Log_heap heap_inv_def)

lemma reachable_logger:
  assumes "logger_step\<^sup>*\<^sup>* (Logger st) s" and "pred_option strategy_ok st"
  shows "queue_inv s \<and> heap_inv s"
  using assms(1) by (induction rule: rtranclp_induct) (auto simp: new_logger [OF assms(2)] intro: step_queue step_heap)

text \<open>
  C3. At every moment the messages that entered the queue are, in their order, those the worker has
  dealt with, those of its batch and those still queued. Each one dealt with was above the level of the
  strategy at that time, or was handed as a line that holds it to a strategy that reported success. What a
  strategy holds are characters of what it held at first followed by the lines handed to it, in that order;
  and as long as its stream has lost nothing to a failed write, it is the end of that text, without a gap,
  whatever the threads interleave and however opening and renaming files fails. A failed write to the disk
  is not noticed by the code: the line is lost.
\<close>

theorem logger_accounts:
  assumes "logger_step\<^sup>*\<^sup>* (Logger st) s" and "pred_option strategy_ok st"
  shows "lg_pushed s = map fst (lg_handled s) @ lg_local s @ lg_queue s \<and> list_all outcome_ok (lg_handled s) \<and>
    (\<forall>i < length (lg_heap s). subseq (stored (lg_heap s ! i)) (lg_base s ! i @ log_stream i (lg_handled s)) \<and>
       (intact (lg_heap s ! i) \<longrightarrow> suffix (stored (lg_heap s ! i)) (lg_base s ! i @ log_stream i (lg_handled s))))"
  using reachable_logger [OF assms] by (auto simp: queue_inv_def heap_inv_def kept_def)

text \<open>
  On a full disk \<^verbatim>\<open>Write\<close> reports success and the line is gone; the next message finds the stream failed and
  goes to the console.
\<close>

lemma full_disk_loses_line:
  assumes "file_valid f" "CanWrite (length m) f" "fs_current f = Some c" "fs_unflushed f = 0" "le_failure env (fs_calls f) = Some (length m)"
  shows "\<exists>f'. File_Write env m f = Some (True, f') \<and> fs_current f' = Some c \<and> \<not> file_valid f'"
  using assms by (auto simp: File_Write_def append_log_def stream_fails_def Let_def file_valid_def)


definition demo_logger :: logger where
  "demo_logger = Logger (Some (Console (ConsoleStrategy L_INFO)))"

definition demo_log_env :: log_env where
  "demo_log_env = \<lparr>le_open = (\<lambda>_. True), le_rename = (\<lambda>_. True), le_throws = (\<lambda>_. False), le_kept = (\<lambda>_. 0), le_failure = (\<lambda>_. None), le_stamp = ''t'', le_tid = ''1''\<rparr>"

definition demo_written :: logger where
  "demo_written = worker_write demo_log_env 0 (worker_check (Some 0) (worker_fetch (worker_decide demo_logger)))"

lemmas demo_defs =
  demo_logger_def demo_log_env_def demo_written_def Logger_def set_strategy_def report_defs Log_def install_def worker_decide_def
  worker_fetch_def worker_check_def worker_write_def log_done_def SpecificLog_def log_header_def ConsoleStrategy_def Let_def

lemma demo_steps: "logger_step\<^sup>*\<^sup>* demo_logger demo_written"
proof -
  let ?a = "worker_decide demo_logger"
  let ?b = "worker_fetch ?a"
  let ?c = "worker_check (Some 0) ?b"
  have "logger_step demo_logger ?a" by (intro quiet pass) (simp_all add: demo_defs)
  moreover have "logger_step ?a ?b" by (intro quiet fetch) (simp add: demo_defs)
  moreover have "logger_step ?b ?c" by (intro quiet check) (simp add: demo_defs)
  moreover have "logger_step ?c demo_written" unfolding demo_written_def by (intro quiet writes) (simp_all add: demo_defs)
  ultimately show ?thesis by (meson rtranclp.rtrancl_into_rtrancl rtranclp.rtrancl_refl)
qed

theorem logger_accounts_witness:
  "logger_step\<^sup>*\<^sup>* demo_logger demo_written \<and> map fst (lg_handled demo_written) = [(L_INFO, ''Logger start working'')] \<and>
   lg_pushed demo_written = map fst (lg_handled demo_written) @ lg_local demo_written @ lg_queue demo_written"
  using logger_accounts [OF demo_steps [unfolded demo_logger_def]] demo_steps by (simp add: demo_defs)

section \<open>The end of the worker\<close>

text \<open>The worker leaves only when every message that entered the queue so far has been dealt with.\<close>

lemma worker_leaves_nothing:
  assumes "logger_step\<^sup>*\<^sup>* (Logger st) s" and "pred_option strategy_ok st"
    and "logger_step s s'" and "lg_worker s \<noteq> Left" and "lg_worker s' = Left"
  shows "map fst (lg_handled s') = lg_pushed s' \<and> \<not> lg_running s'"
proof -
  have "queue_inv s'" using reachable_logger [OF assms(1,2)] step_queue [OF assms(3)] by blast
  moreover have "lg_queue s' = [] \<and> \<not> lg_running s'"
    using assms(3)
  proof (cases rule: logger_step.cases)
    case quiet
    then show ?thesis
      using assms(4,5)
      by (cases rule: quiet_step.cases)
        (auto simp: set_strategy_def set_level_def install_def report_defs Let_def worker_decide_def worker_confirm_def worker_fetch_def
          worker_check_def fall_back_def worker_write_def log_done_def worker_flush_def WaitFlush_end_def
          split: option.splits prod.splits if_splits)
  qed (use assms(4,5) in \<open>auto simp: WaitFlush_begin_def Logger_destroy_def report_defs\<close>)
  ultimately show ?thesis using assms(5) by (simp add: queue_inv_def)
qed

text \<open>A logger without a strategy ends at a null pointer when it writes its first message.\<close>

lemma null_strategy_faults:
  "\<exists>s. logger_step\<^sup>*\<^sup>* (Logger None) s \<and> lg_worker s = Faulted"
proof -
  let ?a = "worker_decide (Logger None)"
  let ?b = "worker_fetch ?a"
  have "logger_step (Logger None) ?a" by (intro quiet pass) (simp_all add: demo_defs)
  moreover have "logger_step ?a ?b" by (intro quiet fetch) (simp add: demo_defs)
  moreover have "logger_step ?b (worker_check None ?b)" by (intro quiet check) (simp add: demo_defs)
  moreover have "lg_worker (worker_check None ?b) = Faulted" by (simp add: demo_defs fall_back_def)
  ultimately show ?thesis by (meson rtranclp.rtrancl_into_rtrancl rtranclp.rtrancl_refl)
qed

section \<open>Readers\<close>

text \<open>Runs in which no reader starts while another waits.\<close>

definition solo_step :: "logger \<Rightarrow> logger \<Rightarrow> bool" where
  "solo_step s s' \<longleftrightarrow> logger_step s s' \<and> length (lg_readers s') \<le> 1"

definition solo_inv :: "logger \<Rightarrow> bool" where
  "solo_inv s \<longleftrightarrow> queue_inv s \<and> length (lg_readers s) \<le> 1 \<and> (lg_flush s \<longleftrightarrow> lg_readers s \<noteq> []) \<and> (lg_flushed s \<longrightarrow> lg_flush s) \<and>
     list_all (\<lambda>(r, m). m \<le> length (lg_pushed s) \<and> (lg_flushed s \<longrightarrow> m \<le> length (lg_handled s))) (lg_readers s)"

text \<open>What a step that is no reader's and confirms nothing leaves as it was.\<close>

definition keeps_readers :: "logger \<Rightarrow> logger \<Rightarrow> bool" where
  "keeps_readers s s' \<longleftrightarrow> lg_readers s' = lg_readers s \<and> lg_flush s' = lg_flush s \<and> lg_flushed s' = lg_flushed s \<and>
     length (lg_pushed s) \<le> length (lg_pushed s') \<and> length (lg_handled s) \<le> length (lg_handled s')"

lemma keeps_trans: "keeps_readers a b \<Longrightarrow> keeps_readers b c \<Longrightarrow> keeps_readers a c"
  by (auto simp: keeps_readers_def)

lemma Log_keeps: "keeps_readers s (Log seen lvl m s)"
  by (simp add: keeps_readers_def Log_def)

lemma fall_back_keeps: "keeps_readers s (fall_back e s)"
  by (auto simp: keeps_readers_def fall_back_def Let_def report_defs Log_def install_def split: option.split)

lemma quiet_cases:
  assumes "quiet_step s s'"
  shows "keeps_readers s s' \<or> s' = worker_confirm s \<and> lg_worker s = Idle \<and> lg_flush s \<and> lg_queue s = [] \<or>
    (\<exists>env i. s' = worker_flush env i s \<and> lg_local s = []) \<or> (\<exists>r \<in> set (lg_readers s). s' = WaitFlush_end r s \<and> WaitFlush_ready s)"
  using assms
proof cases
  case (strategy st)
  then show ?thesis by (auto simp: keeps_readers_def set_strategy_def report_defs Log_def install_def Let_def split: option.split)
next
  case (level lvl)
  then show ?thesis by (auto simp: keeps_readers_def set_level_def report_defs Log_def split: option.split)
next
  case (check p)
  then show ?thesis using fall_back_keeps [of s] by (auto simp: worker_check_def keeps_readers_def split: option.splits)
next
  case (writes i env)
  have "keeps_readers s (fall_back e (s\<lparr>lg_heap := h\<rparr>))" for e h
    by (rule keeps_trans [OF _ fall_back_keeps]) (simp add: keeps_readers_def)
  then have "keeps_readers s (worker_write env i s)"
    by (cases rule: worker_write_cases [of env i s]) (simp_all add: log_done_def keeps_readers_def)
  with writes show ?thesis by simp
qed (auto simp: keeps_readers_def worker_decide_def worker_fetch_def Log_def)

lemma keeps_solo: "keeps_readers s s' \<Longrightarrow> queue_inv s' \<Longrightarrow> solo_inv s \<Longrightarrow> solo_inv s'"
  by (auto simp: solo_inv_def keeps_readers_def list_all_iff)

lemma solo_inv_step:
  assumes "solo_step s s'" and "solo_inv s"
  shows "solo_inv s'"
proof -
  have q: "queue_inv s'" using assms step_queue by (auto simp: solo_step_def solo_inv_def)
  have all: "length (lg_handled s) = length (lg_pushed s)" if "lg_local s = []" "lg_queue s = []"
    using assms(2) that by (simp add: solo_inv_def queue_inv_def)
  from assms(1) have "logger_step s s'" by (simp add: solo_step_def)
  then show ?thesis
  proof cases
    case quiet
    then consider "keeps_readers s s'" | "s' = worker_confirm s" "lg_worker s = Idle" "lg_flush s" "lg_queue s = []"
      | env i where "s' = worker_flush env i s" "lg_local s = []" | r where "r \<in> set (lg_readers s)" "s' = WaitFlush_end r s" using quiet_cases by blast
    then show ?thesis
    proof cases
      case 1
      then show ?thesis using q assms(2) by (rule keeps_solo)
    next
      case 2
      moreover have "lg_local s = []" using 2 assms(2) by (simp add: solo_inv_def queue_inv_def)
      ultimately show ?thesis using assms(2) q all by (auto simp: solo_inv_def worker_confirm_def list_all_iff)
    next
      case 3
      then show ?thesis using assms(2) q all by (auto simp: solo_inv_def worker_flush_def list_all_iff split: if_splits)
    next
      case 4
      then have "lg_readers s = [r]" using assms(2) by (cases "lg_readers s") (auto simp: solo_inv_def)
      then show ?thesis using 4 q by (simp add: solo_inv_def WaitFlush_end_def)
    qed
  next
    case (read r)
    then have "lg_readers s = []" using assms(1) by (simp add: solo_step_def WaitFlush_begin_def)
    then show ?thesis using read q assms(2) by (auto simp: solo_inv_def WaitFlush_begin_def)
  next
    case destroy
    then have "keeps_readers s s'" by (simp add: keeps_readers_def Logger_destroy_def report_defs Log_def)
    then show ?thesis using q assms(2) by (rule keeps_solo)
  qed
qed

lemma solo_inv_new: "pred_option strategy_ok st \<Longrightarrow> solo_inv (Logger st)"
  using new_logger(1) [of st]
  by (auto simp: solo_inv_def Logger_def set_strategy_def report_defs Log_def install_def Let_def split: option.splits)

text \<open>
  \<^verbatim>\<open>Read\<close> and \<^verbatim>\<open>Search\<close> promise to flush first: a reader that is not joined by another and goes on while
  the logger runs finds every message that was pushed before it dealt with.
\<close>

lemma read_sees_earlier_messages:
  assumes "solo_step\<^sup>*\<^sup>* (Logger st) s" and "pred_option strategy_ok st"
    and "(r, m) \<in> set (lg_readers s)" and "WaitFlush_ready s" and "lg_running s"
  shows "take m (lg_pushed s) = take m (map fst (lg_handled s))"
proof -
  have "solo_inv s" using assms(1) by (induction rule: rtranclp_induct) (auto simp: solo_inv_new [OF assms(2)] solo_inv_step)
  with assms(3-5) have "m \<le> length (lg_handled s)" "queue_inv s"
    by (auto simp: solo_inv_def WaitFlush_ready_def list_all_iff)
  then show ?thesis by (simp add: queue_inv_def)
qed

text \<open>
  Two readers that wait together share the two flags: the one that wakes first clears both, and the
  other waits for a confirmation that nobody asks for any more. No step of the worker or of a caller
  of \<^verbatim>\<open>Log\<close>, \<^verbatim>\<open>set_level\<close> and \<^verbatim>\<open>set_strategy\<close> ever wakes it.
\<close>

lemma unconfirmed_step:
  assumes "quiet_step s s'" and "lg_running s \<and> \<not> lg_flush s \<and> \<not> lg_flushed s"
  shows "lg_running s' \<and> \<not> lg_flush s' \<and> \<not> lg_flushed s' \<and> lg_readers s' = lg_readers s"
proof -
  have "lg_running s' = lg_running s"
    using assms(1)
    by cases
      (auto simp: set_strategy_def set_level_def install_def report_defs Let_def worker_decide_def worker_confirm_def worker_fetch_def
        worker_check_def fall_back_def worker_write_def log_done_def worker_flush_def WaitFlush_end_def
        split: option.splits prod.splits)
  with quiet_cases [OF assms(1)] assms(2) show ?thesis
    by (auto simp: keeps_readers_def WaitFlush_ready_def worker_flush_def)
qed

lemma second_reader_starves:
  assumes "lg_worker s = Idle" "lg_queue s = []" "lg_readers s = []" "lg_running s"
  shows "\<exists>s' r. logger_step\<^sup>*\<^sup>* s s' \<and> (\<forall>s''. quiet_step\<^sup>*\<^sup>* s' s'' \<longrightarrow> lg_running s'' \<and> r \<in> set (lg_readers s''))"
proof -
  let ?a = "WaitFlush_begin 0 s"
  let ?b = "WaitFlush_begin 1 ?a"
  let ?c = "worker_confirm ?b"
  let ?r = "(0, length (lg_pushed s))"
  let ?d = "WaitFlush_end ?r ?c"
  have "logger_step s ?a" "logger_step ?a ?b" by (rule read)+
  moreover have "logger_step ?b ?c" using assms by (intro quiet confirm) (simp_all add: WaitFlush_begin_def)
  moreover have "logger_step ?c ?d"
    using assms by (intro quiet reader) (simp_all add: WaitFlush_begin_def WaitFlush_ready_def worker_confirm_def)
  ultimately have run: "logger_step\<^sup>*\<^sup>* s ?d" by (meson rtranclp.rtrancl_into_rtrancl rtranclp.rtrancl_refl)
  have "lg_running s'' \<and> \<not> lg_flush s'' \<and> \<not> lg_flushed s'' \<and> lg_readers s'' = [(1, length (lg_pushed s))]"
    if "quiet_step\<^sup>*\<^sup>* ?d s''" for s''
    using that
  proof (induction rule: rtranclp_induct)
    case base
    then show ?case using assms by (simp add: WaitFlush_end_def WaitFlush_begin_def worker_confirm_def)
  next
    case (step y z)
    then show ?case using unconfirmed_step [OF step(2)] by auto
  qed
  then show ?thesis using run by (intro exI [of _ ?d] exI [of _ "(1, length (lg_pushed s))"]) auto
qed

end
