(* ===== verification/Mua_Console.thy ===== *)
theory Mua_Console
  imports Mua_Handlers
begin

text \<open>
  \<^verbatim>\<open>mua/mua_console_main.cpp\<close>: the interactive front end of the mail client. A line is split into
  arguments, the arguments become a command for the worker or a message to the user, and the answer of
  the worker is printed.

  \<^item> The results that the worker has reported and the console has not taken yet are the content of
    \<^verbatim>\<open>ResultInbox\<close>; \<open>cs_popped\<close> counts those taken.
  \<^item> \<open>cs_sent\<close> are the commands pushed so far, \<open>cs_answers\<close> what ended each wait: a result, or \<open>None\<close> for
    the timeout of ten seconds.
  \<^item> The console and the worker are two threads; a step of \<open>console_step\<close> is a step of one of them.
\<close>

section \<open>Arguments\<close>

text \<open>The loop of \<^verbatim>\<open>splitArgs\<close> with its variables \<^verbatim>\<open>inQuotes\<close>, \<^verbatim>\<open>tokenStarted\<close> and \<^verbatim>\<open>current\<close>.\<close>

fun split_loop :: "bool \<Rightarrow> bool \<Rightarrow> string \<Rightarrow> string \<Rightarrow> string list" where
  "split_loop inQuotes tokenStarted current [] = (if tokenStarted then [current] else [])"
| "split_loop inQuotes tokenStarted current (c # cs) =
     (if c = DQUOTE then split_loop (\<not> inQuotes) True current cs
      else if c = BSLASH \<and> cs \<noteq> [] \<and> hd cs = DQUOTE then split_loop inQuotes True (current @ [DQUOTE]) (tl cs)
      else if \<not> inQuotes \<and> (c = SP \<or> c = TAB)
      then (if tokenStarted then current # split_loop inQuotes False [] cs else split_loop inQuotes tokenStarted current cs)
      else split_loop inQuotes True (current @ [c]) cs)"

definition splitArgs :: "string \<Rightarrow> string list" where
  "splitArgs line = split_loop False False [] line"

text \<open>The loop of \<^verbatim>\<open>splitBySemicolon\<close>; no part is empty.\<close>

fun semicolon_loop :: "string \<Rightarrow> string \<Rightarrow> string list" where
  "semicolon_loop current [] = (if current = [] then [] else [current])"
| "semicolon_loop current (c # cs) =
     (if c = CHR '';'' then (if current = [] then semicolon_loop [] cs else current # semicolon_loop [] cs)
      else semicolon_loop (current @ [c]) cs)"

definition splitBySemicolon :: "string \<Rightarrow> string list" where
  "splitBySemicolon s = filter (\<lambda>v. v \<noteq> []) (semicolon_loop [] s)"

definition parseU16 :: "string \<Rightarrow> 16 word option" where
  "parseU16 s =
     (case stoi s of
        Inl _ \<Rightarrow> None
      | Inr parsed \<Rightarrow> if parsed < 0 \<or> 65535 < parsed then None else Some (word_of_int parsed))"

definition parseI64 :: "string \<Rightarrow> int option" where
  "parseI64 s = (case stoll s of Inl _ \<Rightarrow> None | Inr v \<Rightarrow> Some v)"

definition parseBoolWord :: "string \<Rightarrow> bool option" where
  "parseBoolWord s =
     (if s = ''on'' \<or> s = ''true'' \<or> s = ''1'' then Some True
      else if s = ''off'' \<or> s = ''false'' \<or> s = ''0'' then Some False
      else None)"

text \<open>
  \<^verbatim>\<open>std::stoul\<close> and \<^verbatim>\<open>std::stoull\<close> on 64 bits: a minus sign negates modulo \<open>2 ^ 64\<close>.
\<close>

definition stoul :: "string \<Rightarrow> nat outcome" where
  "stoul s =
     (case read_integer s of
        None \<Rightarrow> Inl (invalid_argument ''stoul'')
      | Some (v, _) \<Rightarrow> if 2 ^ 64 \<le> \<bar>v\<bar> then Inl (out_of_range ''stoul'') else Inr (nat (v mod 2 ^ 64)))"

definition normalizeEmailForConsole :: "string \<Rightarrow> string" where
  "normalizeEmailForConsole s = (if CHR ''@'' \<in> set s then s else s @ ''@localhost'')"

section \<open>Commands\<close>

text \<open>What a line asks for: nothing, the help, the end, a command, or a message for a wrong line.\<close>

datatype console_request = Nothing | Help | Quit | Command mail_command | Complaint string

definition usage :: "string \<Rightarrow> console_request" where
  "usage s = Complaint (''Usage: '' @ s @ [LF])"

definition fail_request :: "string \<Rightarrow> console_request" where
  "fail_request s = Complaint (''[FAIL] '' @ s @ [LF])"

definition connect_request :: "string list \<Rightarrow> console_request" where
  "connect_request args =
     (if length args \<noteq> 6 then usage ''connect <smtpHost> <smtpPort> <imapHost> <imapPort> <user> <pass>''
      else case (parseU16 (args ! 1), parseU16 (args ! 3)) of
        (Some smtpPort, Some imapPort) \<Rightarrow>
          Command (ConnectCommand \<lparr>cc_SMTPhost = args ! 0, cc_SMTPport = smtpPort, cc_IMAPhost = args ! 2,
            cc_IMAPport = imapPort, cc_username = args ! 4, cc_password = args ! 5\<rparr>)
      | _ \<Rightarrow> fail_request ''Invalid port'')"

definition send_request :: "string list \<Rightarrow> console_request" where
  "send_request args =
     (if length args < 4 \<or> 5 < length args
      then usage ''send <from|from@domain> <to|to@domain> <subject> <body> [attachmentPath1;attachmentPath2;...]''
      else Command (SendMailCommand \<lparr>sm_sender = normalizeEmailForConsole (args ! 0), sm_to = [normalizeEmailForConsole (args ! 1)],
        sm_cc = [], sm_bcc = [], sm_recipients = [normalizeEmailForConsole (args ! 1)], sm_subject = args ! 2, sm_body = args ! 3,
        sm_htmlBody = [], sm_attachments = (if length args = 5 then splitBySemicolon (args ! 4) else [])\<rparr>))"

text \<open>The two numbers are cut to 32 bits.\<close>

definition fetch_request :: "string list \<Rightarrow> console_request" where
  "fetch_request args =
     (if args = [] \<or> 3 < length args then usage ''fetch <folder> [offset] [limit]''
      else case (if 2 \<le> length args then stoul (args ! 1) else Inr 0, if 3 \<le> length args then stoul (args ! 2) else Inr 20) of
        (Inr offset, Inr limit) \<Rightarrow> Command (FetchMailsCommand (args ! 0) (of_nat offset) (of_nat limit))
      | _ \<Rightarrow> fail_request ''Invalid offset/limit'')"

definition getatt_request :: "string list \<Rightarrow> console_request" where
  "getatt_request args =
     (if length args \<noteq> 2 \<and> length args \<noteq> 3 then usage ''getatt <seqId> <attachmentIndex> [outputPath]''
      else case parseI64 (args ! 0) of
        None \<Rightarrow> fail_request ''Invalid seqId''
      | Some mailId \<Rightarrow>
          (let attachmentIndex = (case stoul (args ! 1) of Inl _ \<Rightarrow> 0 | Inr n \<Rightarrow> n)
           in if attachmentIndex = 0 then fail_request ''Invalid attachmentIndex''
              else Command (DownloadAttachmentCommand mailId attachmentIndex (if length args = 3 then args ! 2 else []))))"

text \<open>The commands with a message number alone, with a number and a text, and with a number and a switch.\<close>

definition seq_request :: "string \<Rightarrow> (int \<Rightarrow> mail_command) \<Rightarrow> string list \<Rightarrow> console_request" where
  "seq_request u f args =
     (if length args \<noteq> 1 then usage u
      else case parseI64 (args ! 0) of None \<Rightarrow> fail_request ''Invalid seqId'' | Some i \<Rightarrow> Command (f i))"

definition seq_text_request :: "string \<Rightarrow> (int \<Rightarrow> string \<Rightarrow> mail_command) \<Rightarrow> string list \<Rightarrow> console_request" where
  "seq_text_request u f args =
     (if length args \<noteq> 2 then usage u
      else case parseI64 (args ! 0) of None \<Rightarrow> fail_request ''Invalid seqId'' | Some i \<Rightarrow> Command (f i (args ! 1)))"

definition seq_switch_request :: "string \<Rightarrow> (int \<Rightarrow> bool \<Rightarrow> mail_command) \<Rightarrow> string list \<Rightarrow> console_request" where
  "seq_switch_request u f args =
     (if length args \<noteq> 2 then usage u
      else case (parseI64 (args ! 0), parseBoolWord (args ! 1)) of
        (Some i, Some enabled) \<Rightarrow> Command (f i enabled)
      | _ \<Rightarrow> fail_request ''Invalid args'')"

definition folder_request :: "string \<Rightarrow> (string \<Rightarrow> mail_command) \<Rightarrow> string list \<Rightarrow> console_request" where
  "folder_request u f args = (if length args \<noteq> 1 then usage u else Command (f (args ! 0)))"

definition request_of :: "string \<Rightarrow> string list \<Rightarrow> console_request" where
  "request_of cmd args =
     (if cmd = ''help'' then Help
      else if cmd = ''quit'' \<or> cmd = ''exit'' then Quit
      else if cmd = ''connect'' then connect_request args
      else if cmd = ''disconnect'' then Command DisconnectCommand
      else if cmd = ''send'' then send_request args
      else if cmd = ''folders'' then Command FetchFoldersCommand
      else if cmd = ''fetch'' then fetch_request args
      else if cmd = ''fetchmail'' then seq_request ''fetchmail <seqId>'' FetchMailCommand args
      else if cmd = ''getatt'' then getatt_request args
      else if cmd = ''deletemail'' then seq_request ''deletemail <seqId>'' DeleteMailCommand args
      else if cmd = ''read'' then seq_request ''read <seqId>'' MarkMailReadCommand args
      else if cmd = ''move'' then seq_text_request ''move <seqId> <targetFolder>'' MoveMailCommand args
      else if cmd = ''mkdir'' then folder_request ''mkdir <folderName>'' CreateFolderCommand args
      else if cmd = ''rmdir'' then folder_request ''rmdir <folderName>'' DeleteFolderCommand args
      else if cmd = ''labeladd'' then seq_text_request ''labeladd <seqId> <label>'' AddLabelCommand args
      else if cmd = ''labelrm'' then seq_text_request ''labelrm <seqId> <label>'' RemoveLabelCommand args
      else if cmd = ''star'' then seq_switch_request ''star <seqId> <on|off>'' MarkMailStarredCommand args
      else if cmd = ''important'' then seq_switch_request ''important <seqId> <on|off>'' MarkMailImportantCommand args
      else Complaint (''Unknown command: '' @ cmd @ [LF] @ ''Type '' @ [CHR 0x27] @ ''help'' @ [CHR 0x27] @ '' for command list.'' @ [LF]))"

definition console_request_of :: "string \<Rightarrow> console_request" where
  "console_request_of line =
     (case splitArgs (pop_back_if CR line) of [] \<Rightarrow> Nothing | cmd # args \<Rightarrow> request_of cmd args)"

section \<open>Answers\<close>

definition help_text :: string where
  "help_text = concat (map (\<lambda>l. l @ [LF])
     [''Commands:'',
      ''  help'',
      ''  quit | exit'',
      ''  connect <smtpHost> <smtpPort> <imapHost> <imapPort> <user> <pass>'',
      ''  disconnect'',
      ''  send <from|from@domain> <to|to@domain> <subject> <body> [attachmentPath1;attachmentPath2;...]'',
      ''  folders'',
      ''  fetch <folder> [offset] [limit]'',
      ''  fetchmail <seqId>'',
      ''  getatt <seqId> <attachmentIndex> [outputPath]'',
      ''  deletemail <seqId>'',
      ''  read <seqId>'',
      ''  move <seqId> <targetFolder>'',
      ''  mkdir <folderName>'',
      ''  rmdir <folderName>'',
      ''  labeladd <seqId> <label>'',
      ''  labelrm <seqId> <label>'',
      ''  star <seqId> <on|off>'',
      ''  important <seqId> <on|off>'',
      [],
      ''Tips:'',
      ''  Use quotes for values with spaces.'',
      ''  Example: send testmail2@localhost alice@localhost '' @ [DQUOTE] @ ''Test subject'' @ [DQUOTE] @ '' '' @ [DQUOTE] @ ''Hello from REPL'' @ [DQUOTE],
      ''  Short aliases are auto-expanded to @localhost (alice -> alice@localhost).'',
      ''  With files: send testmail2@localhost alice@localhost '' @ [DQUOTE] @ ''Report'' @ [DQUOTE] @ '' '' @ [DQUOTE] @ ''See attachment'' @ [DQUOTE] @ '' '' @ [DQUOTE] @ ''C:/tmp/a.txt;C:/tmp/b.pdf'' @ [DQUOTE]])"

definition ok_or_fail :: "bool \<Rightarrow> string \<Rightarrow> string \<Rightarrow> string \<Rightarrow> string \<times> bool" where
  "ok_or_fail success done what error =
     (if success then (''[OK] '' @ done @ [LF], True) else (''[FAIL] '' @ what @ '': '' @ error @ [LF], False))"

definition yes_no :: "bool \<Rightarrow> string" where
  "yes_no b = (if b then ''Y'' else ''N'')"

definition in_quotes :: "string \<Rightarrow> string" where
  "in_quotes s = [DQUOTE] @ s @ [DQUOTE]"

definition summary_line :: "nat \<times> mail_summary \<Rightarrow> string" where
  "summary_line im = (case im of (i, m) \<Rightarrow>
     ''  ['' @ nat_to_string i @ '']'' @ '' id='' @ int_to_string (su_mailId m) @ '' seen='' @ yes_no (su_isSeen m) @
     '' flagged='' @ yes_no (su_isFlagged m) @ '' date='' @ in_quotes (su_date m) @ '' subject='' @ in_quotes (su_subject m) @ [LF])"

definition attachment_line :: "nat \<times> attachment_info \<Rightarrow> string" where
  "attachment_line ia = (case ia of (i, a) \<Rightarrow>
     ''    ['' @ nat_to_string i @ ''] '' @ ai_fileName a @ '' ('' @ nat_to_string (ai_sizeBytes a) @ '' bytes, '' @ ai_mimeType a @ '')'' @ [LF])"

definition details_text :: "mail_details \<Rightarrow> string" where
  "details_text m =
     ''[OK] Mail details:'' @ [LF] @
     ''  id='' @ int_to_string (md_mailId m) @ [LF] @
     ''  from='' @ in_quotes (md_sender m) @ [LF] @
     ''  subject='' @ in_quotes (md_subject m) @ [LF] @
     ''  date='' @ in_quotes (md_date m) @ [LF] @
     ''  to='' @ JoinArgs (md_to m) @ [LF] @
     ''  cc='' @ JoinArgs (md_cc m) @ [LF] @
     ''  bcc='' @ JoinArgs (md_bcc m) @ [LF] @
     ''  reply-to='' @ JoinArgs (md_replyTo m) @ [LF] @
     ''  attachments='' @ nat_to_string (length (md_attachments m)) @ [LF] @
     concat (map attachment_line (enumerate 1 (md_attachments m))) @
     ''[OK] Mail body:'' @ [LF] @ md_body m @ [LF]"

text \<open>The text printed for a result, and whether it is a success.\<close>

fun printResult :: "mail_result \<Rightarrow> string \<times> bool" where
  "printResult (ConnectResult success error) = ok_or_fail success ''Connected'' ''Connect'' error"
| "printResult (DisconnectResult success error) = ok_or_fail success ''Disconnected'' ''Disconnect'' error"
| "printResult (SendMailResult success error) = ok_or_fail success ''Mail sent'' ''Send'' error"
| "printResult (FetchFoldersResult success error folders) =
     (if \<not> success then (''[FAIL] Folders: '' @ error @ [LF], False)
      else (''[OK] Folders count: '' @ nat_to_string (length folders) @ [LF] @ concat (map (\<lambda>f. ''  - '' @ f @ [LF]) folders), True))"
| "printResult (FetchMailsResult success error mails) =
     (if \<not> success then (''[FAIL] Fetch mails: '' @ error @ [LF], False)
      else (''[OK] Mails fetched: '' @ nat_to_string (length mails) @ [LF] @ concat (map summary_line (enumerate 1 mails)) @
        ''  Note: mail IDs here are IMAP sequence numbers (1-based).'' @ [LF], True))"
| "printResult (FetchMailResult success error mail) =
     (if \<not> success then (''[FAIL] Fetch mail: '' @ error @ [LF], False) else (details_text mail, True))"
| "printResult (DownloadAttachmentResult success error outputPath fileName bytesWritten) =
     (if \<not> success then (''[FAIL] Attachment download: '' @ error @ [LF], False)
      else (''[OK] Attachment saved: '' @ outputPath @ '' ('' @ nat_to_string bytesWritten @ '' bytes)'' @ [LF], True))"
| "printResult (ReconnectStateResult reconnecting attempt message) =
     (if reconnecting then ''[INFO] Reconnecting (attempt '' @ nat_to_string (unat attempt) @ ''): '' @ message @ [LF]
      else if message \<noteq> [] then ''[INFO] '' @ message @ [LF] else [], True)"
| "printResult (MailActionResult success error) = ok_or_fail success ''Action completed'' ''Action'' error"

section \<open>The main loop\<close>

datatype console_phase = Prompt | Waiting mail_command | Leaving | Exited

record console =
  cs_client :: client
  cs_popped :: nat
  cs_phase :: console_phase
  cs_hadError :: bool
  cs_isConnected :: bool
  cs_out :: string
  cs_sent :: "mail_command list"
  cs_answers :: "mail_result option list"

definition inbox :: "console \<Rightarrow> mail_result list" where
  "inbox s = drop (cs_popped s) (mw_results (cl_worker (cs_client s)))"

definition say :: "string \<Rightarrow> console \<Rightarrow> console" where
  "say t s = s\<lparr>cs_out := cs_out s @ t\<rparr>"

definition console_push :: "mail_command \<Rightarrow> console_phase \<Rightarrow> console \<Rightarrow> console" where
  "console_push cmd phase s =
     s\<lparr>cs_client := (cs_client s)\<lparr>cl_queue := queue_push cmd (cl_queue (cs_client s))\<rparr>, cs_sent := cs_sent s @ [cmd], cs_phase := phase\<rparr>"

text \<open>\<^verbatim>\<open>MailWorker::stop\<close>; the program ends when the worker has ended.\<close>

definition console_stop :: "console \<Rightarrow> console" where
  "console_stop s =
     s\<lparr>cs_client := (cs_client s)\<lparr>cl_queue := queue_stop (cl_queue (cs_client s)), cl_worker := (cl_worker (cs_client s))\<lparr>mw_stop := True\<rparr>\<rparr>,
       cs_phase := Exited\<rparr>"

definition console_leave :: "console \<Rightarrow> console" where
  "console_leave s = (if cs_isConnected s then console_push DisconnectCommand Leaving s else console_stop s)"

definition console_line :: "string \<Rightarrow> console \<Rightarrow> console" where
  "console_line line s =
     (case console_request_of line of
        Nothing \<Rightarrow> s
      | Help \<Rightarrow> say help_text s
      | Quit \<Rightarrow> console_leave s
      | Complaint t \<Rightarrow> say t s
      | Command cmd \<Rightarrow> console_push cmd (Waiting cmd) s)"

text \<open>The end of a wait, and what the caller of \<^verbatim>\<open>waitAndPrint\<close> does with its value.\<close>

definition now_connected :: "mail_command \<Rightarrow> bool \<Rightarrow> bool" where
  "now_connected cmd before = (case cmd of ConnectCommand _ \<Rightarrow> True | DisconnectCommand \<Rightarrow> False | _ \<Rightarrow> before)"

definition finish_wait :: "bool \<Rightarrow> mail_result option \<Rightarrow> console \<Rightarrow> console" where
  "finish_wait ok answer s =
     (let s1 = s\<lparr>cs_answers := cs_answers s @ [answer]\<rparr> in
      case cs_phase s of
        Waiting cmd \<Rightarrow>
          s1\<lparr>cs_phase := Prompt, cs_hadError := (cs_hadError s \<or> \<not> ok),
             cs_isConnected := (if ok then now_connected cmd (cs_isConnected s) else cs_isConnected s)\<rparr>
      | Leaving \<Rightarrow> console_stop s1
      | _ \<Rightarrow> s1)"

fun is_reconnect_state :: "mail_result \<Rightarrow> bool" where
  "is_reconnect_state (ReconnectStateResult _ _ _) = True"
| "is_reconnect_state _ = False"

definition console_receive :: "mail_result \<Rightarrow> console \<Rightarrow> console" where
  "console_receive r s =
     (let (t, ok) = printResult r; s1 = (say t s)\<lparr>cs_popped := cs_popped s + 1\<rparr>
      in if is_reconnect_state r then s1 else finish_wait ok (Some r) s1)"

definition console_timeout :: "console \<Rightarrow> console" where
  "console_timeout s = finish_wait False None (say (''[FAIL] Timeout waiting for server response'' @ [LF]) s)"

fun is_waiting :: "console_phase \<Rightarrow> bool" where
  "is_waiting (Waiting cmd) = True"
| "is_waiting Leaving = True"
| "is_waiting _ = False"

inductive console_step :: "client_env \<Rightarrow> console \<Rightarrow> console \<Rightarrow> bool" for env where
  line: "cs_phase s = Prompt \<Longrightarrow> console_step env s (console_line line (say ''mua> '' s))"
| end_of_input: "cs_phase s = Prompt \<Longrightarrow> console_step env s (console_leave (say ''mua> '' s))"
| receive: "is_waiting (cs_phase s) \<Longrightarrow> inbox s = r # rs \<Longrightarrow> console_step env s (console_receive r s)"
| timeout: "is_waiting (cs_phase s) \<Longrightarrow> inbox s = [] \<Longrightarrow> console_step env s (console_timeout s)"
| work: "cl_running (cs_client s) \<Longrightarrow> queue_pop (cl_queue (cs_client s)) = Some (Some cmd, q') \<Longrightarrow>
    handle env cmd (cl_worker (cs_client s)) = Some w \<Longrightarrow>
    console_step env s (s\<lparr>cs_client := (cs_client s)\<lparr>cl_queue := q', cl_worker := w, cl_taken := cl_taken (cs_client s) @ [cmd],
      cl_running := (mw_crash w = None)\<rparr>\<rparr>)"
| ended: "cl_running (cs_client s) \<Longrightarrow> queue_pop (cl_queue (cs_client s)) = Some (None, q') \<Longrightarrow>
    console_step env s (s\<lparr>cs_client := (cs_client s)\<lparr>cl_running := False\<rparr>\<rparr>)"

definition console_main :: "net_event list \<Rightarrow> console" where
  "console_main events =
     \<lparr>cs_client = new_client events, cs_popped = 0, cs_phase = Prompt, cs_hadError = False, cs_isConnected = False,
      cs_out = ''smtp_mua interactive mode'' @ [LF] @ help_text, cs_sent = [], cs_answers = []\<rparr>"

definition exit_code :: "console \<Rightarrow> nat" where
  "exit_code s = (if cs_hadError s then 1 else 0)"

end
