(* ===== verification/Mua_Console_Laws.thy ===== *)
theory Mua_Console_Laws
  imports Mua_Console Mua_Client_Laws
begin

text \<open>
  The console of the mail client: a line of quoted arguments is read back as these arguments, and the
  results it shows answer the commands in the order they were sent.
\<close>

section \<open>Quoted arguments\<close>

fun escape_quotes :: "string \<Rightarrow> string" where
  "escape_quotes [] = []"
| "escape_quotes (c # cs) = (if c = DQUOTE then BSLASH # DQUOTE # escape_quotes cs else c # escape_quotes cs)"

fun console_words :: "string list \<Rightarrow> string" where
  "console_words [] = []"
| "console_words [a] = in_quotes (escape_quotes a)"
| "console_words (a # b # args) = in_quotes (escape_quotes a) @ SP # console_words (b # args)"

definition quotable :: "string \<Rightarrow> bool" where
  "quotable a \<longleftrightarrow> a = [] \<or> last a \<noteq> BSLASH"

lemma quotable_Cons: "quotable (c # cs) \<Longrightarrow> quotable cs"
  by (auto simp: quotable_def split: if_splits)

lemma hd_escaped: "cs \<noteq> [] \<Longrightarrow> escape_quotes cs \<noteq> [] \<and> hd (escape_quotes cs) \<noteq> DQUOTE"
  by (cases cs) auto

lemma split_quoted:
  "quotable a \<Longrightarrow> split_loop True True current (escape_quotes a @ DQUOTE # rest) = split_loop False True (current @ a) rest"
proof (induction a arbitrary: current)
  case (Cons c cs)
  have next_char: "hd (escape_quotes cs @ DQUOTE # rest) \<noteq> DQUOTE" if "c = BSLASH"
  proof -
    have "cs \<noteq> []" using Cons.prems that by (auto simp: quotable_def)
    then show ?thesis using hd_escaped [of cs] by simp
  qed
  then show ?case using Cons.IH [OF quotable_Cons [OF Cons.prems]] by auto
qed simp

lemma split_words: "list_all quotable args \<Longrightarrow> split_loop False False [] (console_words args) = args"
proof (induction args rule: console_words.induct)
  case (2 a)
  then show ?case by (simp add: in_quotes_def split_quoted)
next
  case (3 a b args)
  then show ?case by (simp add: in_quotes_def split_quoted)
qed simp

lemma words_end: "args \<noteq> [] \<Longrightarrow> console_words args \<noteq> [] \<and> last (console_words args) = DQUOTE"
  by (induction args rule: console_words.induct) (auto simp: in_quotes_def)

text \<open>
  A line of quoted arguments is the request for exactly these arguments. An argument that ends with a
  backslash cannot be written: the backslash escapes the closing quote.
\<close>

lemma console_line_roundtrip:
  assumes "list_all quotable (cmd # args)"
  shows "console_request_of (console_words (cmd # args)) = request_of cmd args"
proof -
  have "pop_back_if CR (console_words (cmd # args)) = console_words (cmd # args)"
    using words_end [of "cmd # args"] by (simp add: pop_back_if_def)
  then show ?thesis using split_words [OF assms] by (simp add: console_request_of_def splitArgs_def)
qed

lemma trailing_backslash_lost: "splitArgs (console_words [''getatt'', [BSLASH]]) = [''getatt'', [DQUOTE]]"
  by (simp add: splitArgs_def in_quotes_def)

section \<open>Commands and answers\<close>

fun shown :: "mail_result option list \<Rightarrow> mail_result list" where
  "shown [] = []"
| "shown (None # as) = shown as"
| "shown (Some r # as) = r # shown as"

lemma shown_append [simp]: "shown (as @ bs) = shown as @ shown bs"
  by (induction as rule: shown.induct) auto

lemma shown_all: "None \<notin> set as \<Longrightarrow> as = map Some (shown as)"
  by (induction as rule: shown.induct) auto

lemma reconnect_kind: "is_reconnect_state r \<longleftrightarrow> kind_of r = Reconnect_kind"
  by (cases r) auto

definition console_inv :: "client_env \<Rightarrow> net_event list \<Rightarrow> console \<Rightarrow> bool" where
  "console_inv env events s \<longleftrightarrow>
     (client_step env)\<^sup>*\<^sup>* (new_client events) (cs_client s) \<and>
     cs_sent s = cl_taken (cs_client s) @ cq_queue (cl_queue (cs_client s)) \<and>
     length (cl_taken (cs_client s)) + length (cq_queue (cl_queue (cs_client s))) = length (cs_answers s) + (if is_waiting (cs_phase s) then 1 else 0) \<and>
     (mw_crash (cl_worker (cs_client s)) = None \<longrightarrow> cs_popped s \<le> length (mw_results (cl_worker (cs_client s))) \<and>
        shown (cs_answers s) = filter (\<lambda>r. kind_of r \<noteq> Reconnect_kind) (take (cs_popped s) (mw_results (cl_worker (cs_client s)))))"

lemma say_fields [simp]:
  "cs_client (say t s) = cs_client s" "cs_popped (say t s) = cs_popped s" "cs_phase (say t s) = cs_phase s"
  "cs_sent (say t s) = cs_sent s" "cs_answers (say t s) = cs_answers s" "console_inv env events (say t s) = console_inv env events s"
  by (simp_all add: say_def console_inv_def)

lemma push_inv:
  assumes "console_inv env events s" and "cs_phase s = Prompt" and "is_waiting p"
  shows "console_inv env events (console_push cmd p s)"
proof -
  have "client_step env (cs_client s) ((cs_client s)\<lparr>cl_queue := queue_push cmd (cl_queue (cs_client s))\<rparr>)" by (rule client_step.push)
  with assms show ?thesis by (auto simp: console_inv_def console_push_def queue_push_def intro: rtranclp.rtrancl_into_rtrancl)
qed

lemma stop_inv:
  assumes "console_inv env events s" and "\<not> is_waiting (cs_phase s)"
  shows "console_inv env events (console_stop s)"
proof -
  have "client_step env (cs_client s) (cs_client (console_stop s))" by (simp add: console_stop_def client_step.stop)
  with assms show ?thesis by (auto simp: console_inv_def console_stop_def queue_stop_def intro: rtranclp.rtrancl_into_rtrancl)
qed

lemma leave_inv: "console_inv env events s \<Longrightarrow> cs_phase s = Prompt \<Longrightarrow> console_inv env events (console_leave s)"
  by (simp add: console_leave_def push_inv stop_inv)

text \<open>A wait ends with one more answer; the results taken account for it.\<close>

lemma finish_inv:
  assumes "console_inv env events s'" and "is_waiting (cs_phase s)"
    and "s' = s\<lparr>cs_answers := cs_answers s @ [a], cs_phase := Prompt\<rparr>"
  shows "console_inv env events (finish_wait ok a s)"
proof (cases "cs_phase s")
  case (Waiting cmd)
  then show ?thesis using assms(1) by (simp add: finish_wait_def Let_def console_inv_def assms(3))
next
  case Leaving
  have "console_inv env events (console_stop s')" using assms by (intro stop_inv) simp_all
  moreover have "console_stop s' = finish_wait ok a s" using Leaving by (simp add: assms(3) finish_wait_def console_stop_def)
  ultimately show ?thesis by simp
qed (use assms(2) in simp_all)

lemma receive_inv:
  assumes "console_inv env events s" and "is_waiting (cs_phase s)" and "inbox s = r # rs"
  shows "console_inv env events (console_receive r s)"
proof -
  let ?rs = "mw_results (cl_worker (cs_client s))"
  obtain t ok where p: "printResult r = (t, ok)" by fastforce
  have "cs_popped s < length ?rs" using assms(3) by (cases "cs_popped s < length ?rs") (auto simp: inbox_def)
  then have next_result: "take (Suc (cs_popped s)) ?rs = take (cs_popped s) ?rs @ [r]"
    using assms(3) Cons_nth_drop_Suc [of "cs_popped s" ?rs] by (simp add: inbox_def take_Suc_conv_app_nth)
  let ?s = "(say t s)\<lparr>cs_popped := cs_popped s + 1\<rparr>"
  show ?thesis
  proof (cases "is_reconnect_state r")
    case True
    then have "kind_of r = Reconnect_kind" by (simp add: reconnect_kind)
    with assms(1) next_result \<open>cs_popped s < length ?rs\<close> have "console_inv env events ?s" by (simp add: console_inv_def)
    then show ?thesis using True p by (simp add: console_receive_def)
  next
    case False
    then have "kind_of r \<noteq> Reconnect_kind" by (simp add: reconnect_kind)
    with assms(1,2) next_result \<open>cs_popped s < length ?rs\<close>
    have "console_inv env events (?s\<lparr>cs_answers := cs_answers s @ [Some r], cs_phase := Prompt\<rparr>)" by (simp add: console_inv_def)
    then have "console_inv env events (finish_wait ok (Some r) ?s)" by (rule finish_inv) (use assms(2) in \<open>simp_all add: say_def\<close>)
    then show ?thesis using False p by (simp add: console_receive_def)
  qed
qed

lemma timeout_inv:
  assumes "console_inv env events s" and "is_waiting (cs_phase s)"
  shows "console_inv env events (console_timeout s)"
proof -
  have "console_inv env events ((say t s)\<lparr>cs_answers := cs_answers s @ [None], cs_phase := Prompt\<rparr>)" for t
    using assms by (simp add: console_inv_def)
  then have "console_inv env events (finish_wait False None (say t s))" for t
    by (rule finish_inv) (use assms(2) in simp_all)
  then show ?thesis by (simp add: console_timeout_def)
qed

lemma work_inv:
  assumes "console_inv env events s" and "cl_running (cs_client s)"
    and "queue_pop (cl_queue (cs_client s)) = Some (Some cmd, q')" and "handle env cmd (cl_worker (cs_client s)) = Some w"
  shows "console_inv env events (s\<lparr>cs_client := (cs_client s)\<lparr>cl_queue := q', cl_worker := w, cl_taken := cl_taken (cs_client s) @ [cmd],
      cl_running := (mw_crash w = None)\<rparr>\<rparr>)"
proof -
  let ?c = "cs_client s"
  have run: "(client_step env)\<^sup>*\<^sup>* (new_client events) ?c" using assms(1) by (simp add: console_inv_def)
  have "secured (cl_worker ?c)" using reachable_clear_ok [OF run] by (simp add: clear_ok_def)
  then have "outer (answer_kind cmd) (command_user (mw_smtpUsername (cl_worker ?c)) cmd) (cl_worker ?c) w"
    using holdsD [OF handle_outer assms(4)] by simp
  then have "\<exists>rs. mw_crash w = None \<longrightarrow> mw_results w = mw_results (cl_worker ?c) @ rs" unfolding outer_def by (cases "mw_crash w") auto
  then obtain rs where "mw_crash w = None \<longrightarrow> mw_results w = mw_results (cl_worker ?c) @ rs" ..
  moreover have "mw_crash (cl_worker ?c) = None" using reachable_all_answered [OF run] assms(2) by simp
  moreover have "cq_queue (cl_queue ?c) = cmd # cq_queue q'"
    using assms(3) by (cases "cq_queue (cl_queue ?c)") (auto simp: queue_pop_def split: if_splits)
  ultimately show ?thesis using assms(1) client_step.run [OF assms(2-4)]
    by (auto simp: console_inv_def intro: rtranclp.rtrancl_into_rtrancl)
qed

lemma console_step_inv: "console_step env s s' \<Longrightarrow> console_inv env events s \<Longrightarrow> console_inv env events s'"
proof (induction rule: console_step.induct)
  case (line s l)
  then show ?case by (auto simp: console_line_def push_inv leave_inv split: console_request.split)
next
  case (ended s q')
  then show ?case using client_step.finish [OF ended(1,2)]
    by (auto simp: console_inv_def intro: rtranclp.rtrancl_into_rtrancl)
qed (simp_all add: leave_inv receive_inv timeout_inv work_inv)

lemma console_main_inv: "console_inv env events (console_main events)"
  by (simp add: console_inv_def console_main_def new_client_def)

lemma reachable_console: "(console_step env)\<^sup>*\<^sup>* (console_main events) s \<Longrightarrow> console_inv env events s"
  by (induction rule: rtranclp_induct) (auto simp: console_main_inv console_step_inv)

lemma shown_kinds:
  assumes "(console_step env)\<^sup>*\<^sup>* (console_main events) s" and "mw_crash (cl_worker (cs_client s)) = None"
  shows "list_all2 (\<lambda>cmd r. kind_of r = answer_kind cmd) (take (length (shown (cs_answers s))) (cs_sent s)) (shown (cs_answers s))"
proof -
  let ?c = "cs_client s"
  let ?final = "filter (\<lambda>r. kind_of r \<noteq> Reconnect_kind)"
  have inv: "console_inv env events s" by (rule reachable_console [OF assms(1)])
  then have kinds: "list_all2 (\<lambda>cmd r. kind_of r = answer_kind cmd) (cl_taken ?c) (?final (mw_results (cl_worker ?c)))"
    using reachable_all_answered [of env events ?c] assms(2) by (auto simp: console_inv_def all_answered_def)
  have split: "?final (mw_results (cl_worker ?c)) = shown (cs_answers s) @ ?final (drop (cs_popped s) (mw_results (cl_worker ?c)))"
    using inv assms(2) filter_append [of _ "take (cs_popped s) (mw_results (cl_worker ?c))" "drop (cs_popped s) (mw_results (cl_worker ?c))"]
    by (simp add: console_inv_def)
  let ?n = "length (shown (cs_answers s))"
  have "?n \<le> length (cl_taken ?c)" using list_all2_lengthD [OF kinds] split by simp
  then have "take ?n (cs_sent s) = take ?n (cl_taken ?c)" using inv by (simp add: console_inv_def)
  moreover have "list_all2 (\<lambda>cmd r. kind_of r = answer_kind cmd) (take ?n (cl_taken ?c)) (take ?n (?final (mw_results (cl_worker ?c))))"
    using kinds by (rule list_all2_takeI)
  ultimately show ?thesis using split by simp
qed

text \<open>
  C35. The results that the console shows are answers to the commands in the order they were sent, of the
  type of the command. So while no wait has timed out every command is shown its own answer; after a
  timeout the late answer is shown for the next command, and so on for ever.
\<close>

theorem console_answers_in_order:
  assumes "(console_step env)\<^sup>*\<^sup>* (console_main events) s" and "mw_crash (cl_worker (cs_client s)) = None"
  shows "list_all2 (\<lambda>cmd r. kind_of r = answer_kind cmd) (take (length (shown (cs_answers s))) (cs_sent s)) (shown (cs_answers s)) \<and>
    (None \<notin> set (cs_answers s) \<longrightarrow>
      list_all2 (\<lambda>cmd a. \<exists>r. a = Some r \<and> kind_of r = answer_kind cmd) (take (length (cs_answers s)) (cs_sent s)) (cs_answers s))"
proof (intro conjI impI)
  show k: "list_all2 (\<lambda>cmd r. kind_of r = answer_kind cmd) (take (length (shown (cs_answers s))) (cs_sent s)) (shown (cs_answers s))"
    by (rule shown_kinds [OF assms])
  assume "None \<notin> set (cs_answers s)"
  then have e: "cs_answers s = map Some (shown (cs_answers s))" by (rule shown_all)
  have "length (cs_answers s) = length (shown (cs_answers s))" by (subst e) simp
  with k show "list_all2 (\<lambda>cmd a. \<exists>r. a = Some r \<and> kind_of r = answer_kind cmd) (take (length (cs_answers s)) (cs_sent s)) (cs_answers s)"
    by (subst (2) e) (simp add: list_all2_map2)
qed

text \<open>
  A run: the answer to \<^verbatim>\<open>disconnect\<close> comes after the timeout and is shown for \<^verbatim>\<open>folders\<close>, as a success.
\<close>

definition late_worker :: mail_worker where
  "late_worker = (new_worker [])\<lparr>mw_results := [ReconnectStateResult False 0 [], DisconnectResult True []]\<rparr>"

definition late_pushed :: console where
  "late_pushed = console_line ''disconnect'' (say ''mua> '' (console_main []))"

definition late_done :: console where
  "late_done = (console_timeout late_pushed)\<lparr>cs_client := \<lparr>cl_queue = \<lparr>cq_queue = [], cq_stopped = False\<rparr>, cl_worker = late_worker,
     cl_taken = [DisconnectCommand], cl_running = True\<rparr>\<rparr>"

definition late_asked :: console where
  "late_asked = console_line ''folders'' (say ''mua> '' late_done)"

definition late_shown :: console where
  "late_shown = console_receive (DisconnectResult True []) (console_receive (ReconnectStateResult False 0 []) late_asked)"

lemmas late_defs =
  late_worker_def late_pushed_def late_done_def late_asked_def late_shown_def console_line_def console_request_of_def splitArgs_def
  pop_back_if_def request_of_def console_push_def queue_push_def console_timeout_def console_receive_def finish_wait_def Let_def
  console_main_def new_client_def say_def now_connected_def ok_or_fail_def

lemma late_run: "(console_step env)\<^sup>*\<^sup>* (console_main []) late_shown"
proof -
  have "console_step env (console_main []) late_pushed"
    unfolding late_pushed_def by (rule console_step.line) (simp add: console_main_def)
  moreover have "console_step env late_pushed (console_timeout late_pushed)"
    by (rule console_step.timeout) (simp_all add: late_defs inbox_def new_worker_def)
  moreover have "console_step env (console_timeout late_pushed) late_done"
  proof -
    have "handle env DisconnectCommand (new_worker []) = Some late_worker"
      by (simp add: handleDisconnect_def late_worker_def new_worker_def reportReconnectState_def emit_def)
    then show ?thesis
      using console_step.work [of "console_timeout late_pushed" DisconnectCommand "\<lparr>cq_queue = [], cq_stopped = False\<rparr>" env late_worker]
      by (simp add: late_done_def) (simp add: late_defs queue_pop_def new_worker_def)
  qed
  moreover have "console_step env late_done late_asked"
    unfolding late_asked_def by (rule console_step.line) (simp add: late_defs)
  moreover have "console_step env late_asked (console_receive (ReconnectStateResult False 0 []) late_asked)"
    by (rule console_step.receive) (simp_all add: late_defs inbox_def)
  moreover have "console_step env (console_receive (ReconnectStateResult False 0 []) late_asked) late_shown"
    unfolding late_shown_def by (rule console_step.receive) (simp_all add: late_defs inbox_def)
  ultimately show ?thesis by (meson rtranclp.rtrancl_into_rtrancl rtranclp.rtrancl_refl)
qed

theorem console_answers_in_order_witness:
  "list_all2 (\<lambda>cmd r. kind_of r = answer_kind cmd) [DisconnectCommand] (shown (cs_answers late_shown)) \<and>
   cs_sent late_shown = [DisconnectCommand, FetchFoldersCommand] \<and> cs_answers late_shown = [None, Some (DisconnectResult True [])] \<and>
   \<not> is_waiting (cs_phase late_shown)"
proof -
  have c: "mw_crash (cl_worker (cs_client late_shown)) = None" by (simp add: late_defs new_worker_def)
  have a: "cs_sent late_shown = [DisconnectCommand, FetchFoldersCommand]" "cs_answers late_shown = [None, Some (DisconnectResult True [])]"
    "\<not> is_waiting (cs_phase late_shown)" by (simp_all add: late_defs)
  from console_answers_in_order [OF late_run c] a show ?thesis by simp
qed

end
