(* ===== verification/Mua_Bridge.thy ===== *)
theory Mua_Bridge
  imports Mua_Handlers
begin

text \<open>
  \<^verbatim>\<open>mua/bridge/MuaBridge.cpp\<close>: the mail client as an object with properties and signals for the graphical
  interface. Its methods push commands, its slot \<open>onResult\<close> receives the results of the worker in their order.

  \<^item> The properties are the record \<open>bridge_props\<close>; a signal is recorded with the properties at the moment it
    is emitted, which is what a slot connected to it reads.
  \<^item> A \<^verbatim>\<open>QString\<close> is its text, a \<^verbatim>\<open>QVariant\<close> a value of \<open>variant\<close>.
\<close>

section \<open>Properties and signals\<close>

datatype variant = V_Int int | V_Bool bool | V_String string | V_List "variant list" | V_Map "(string \<times> variant) list"

record bridge_props =
  bp_isConnected :: bool
  bp_isBusy :: bool
  bp_isReconnecting :: bool
  bp_reconnectAttempt :: int
  bp_reconnectMessage :: string
  bp_lastError :: string
  bp_folders :: "variant list"
  bp_mails :: "variant list"
  bp_currentMail :: "(string \<times> variant) list"
  bp_lastDownloadedPath :: string

datatype bridge_signal =
    connectionStateChanged | busyChanged | reconnectingChanged | reconnectAttemptChanged | reconnectMessageChanged
  | lastErrorChanged | foldersChanged | mailsChanged | currentMailChanged
  | connected | disconnected | mailSent | errorOccurred string
  | mailsFetched | mailFetched | foldersFetched | attachmentDownloaded string | actionDone

record bridge =
  br_queue :: "mail_command command_queue"
  br_props :: bridge_props
  br_signals :: "(bridge_signal \<times> bridge_props) list"

definition signal :: "bridge_signal \<Rightarrow> bridge \<Rightarrow> bridge" where
  "signal sg s = s\<lparr>br_signals := br_signals s @ [(sg, br_props s)]\<rparr>"

definition assign :: "(bridge_props \<Rightarrow> bridge_props) \<Rightarrow> bridge \<Rightarrow> bridge" where
  "assign f s = s\<lparr>br_props := f (br_props s)\<rparr>"

definition MuaBridge :: bridge where
  "MuaBridge = \<lparr>br_queue = \<lparr>cq_queue = [], cq_stopped = False\<rparr>,
     br_props = \<lparr>bp_isConnected = False, bp_isBusy = False, bp_isReconnecting = False, bp_reconnectAttempt = 0, bp_reconnectMessage = [],
       bp_lastError = [], bp_folders = [], bp_mails = [], bp_currentMail = [], bp_lastDownloadedPath = []\<rparr>,
     br_signals = []\<rparr>"

definition setBusy :: "bool \<Rightarrow> bridge \<Rightarrow> bridge" where
  "setBusy v s =
     (if bp_isBusy (br_props s) = v then s else signal busyChanged (assign (\<lambda>p. p\<lparr>bp_isBusy := v\<rparr>) s))"

definition setLastError :: "string \<Rightarrow> bridge \<Rightarrow> bridge" where
  "setLastError v s =
     (if bp_lastError (br_props s) = v then s else signal lastErrorChanged (assign (\<lambda>p. p\<lparr>bp_lastError := v\<rparr>) s))"

section \<open>Methods\<close>

text \<open>Every method does the same around its command. Numbers are cast to the types of the command.\<close>

definition bridge_push :: "mail_command \<Rightarrow> bridge \<Rightarrow> bridge" where
  "bridge_push cmd s = (setLastError [] (setBusy True s))\<lparr>br_queue := queue_push cmd (br_queue s)\<rparr>"

definition connectToServer :: "string \<Rightarrow> int \<Rightarrow> string \<Rightarrow> int \<Rightarrow> string \<Rightarrow> string \<Rightarrow> bridge \<Rightarrow> bridge" where
  "connectToServer smtpHost smtpPort imapHost imapPort login password =
     bridge_push (ConnectCommand \<lparr>cc_SMTPhost = smtpHost, cc_SMTPport = word_of_int smtpPort, cc_IMAPhost = imapHost,
       cc_IMAPport = word_of_int imapPort, cc_username = login, cc_password = password\<rparr>)"

definition disconnectFromServer :: "bridge \<Rightarrow> bridge" where
  "disconnectFromServer = bridge_push DisconnectCommand"

definition sendMail ::
  "string \<Rightarrow> string list \<Rightarrow> string \<Rightarrow> string \<Rightarrow> string list \<Rightarrow> string list \<Rightarrow> string \<Rightarrow> string list \<Rightarrow> bridge \<Rightarrow> bridge" where
  "sendMail from_user tos title plain ccs bccs html paths =
     bridge_push (SendMailCommand \<lparr>sm_sender = from_user, sm_to = tos, sm_cc = ccs, sm_bcc = bccs, sm_recipients = tos,
       sm_subject = title, sm_body = plain, sm_htmlBody = html, sm_attachments = paths\<rparr>)"

definition fetchMails :: "string \<Rightarrow> int \<Rightarrow> int \<Rightarrow> bridge \<Rightarrow> bridge" where
  "fetchMails folderName offset limit = bridge_push (FetchMailsCommand folderName (word_of_int offset) (word_of_int limit))"

definition fetchMail :: "int \<Rightarrow> bridge \<Rightarrow> bridge" where
  "fetchMail mailId = bridge_push (FetchMailCommand mailId)"

definition deleteMail :: "int \<Rightarrow> bridge \<Rightarrow> bridge" where
  "deleteMail mailId = bridge_push (DeleteMailCommand mailId)"

definition markMailRead :: "int \<Rightarrow> bridge \<Rightarrow> bridge" where
  "markMailRead mailId = bridge_push (MarkMailReadCommand mailId)"

definition moveMail :: "int \<Rightarrow> string \<Rightarrow> bridge \<Rightarrow> bridge" where
  "moveMail mailId targetFolder = bridge_push (MoveMailCommand mailId targetFolder)"

definition downloadAttachment :: "int \<Rightarrow> int \<Rightarrow> string \<Rightarrow> bridge \<Rightarrow> bridge" where
  "downloadAttachment mailId attachmentIndex outputPath =
     bridge_push (DownloadAttachmentCommand mailId (nat (attachmentIndex mod 2 ^ 64)) outputPath)"

definition fetchFolders :: "bridge \<Rightarrow> bridge" where
  "fetchFolders = bridge_push FetchFoldersCommand"

definition bridge_createFolder :: "string \<Rightarrow> bridge \<Rightarrow> bridge" where
  "bridge_createFolder name = bridge_push (CreateFolderCommand name)"

definition bridge_deleteFolder :: "string \<Rightarrow> bridge \<Rightarrow> bridge" where
  "bridge_deleteFolder folderName = bridge_push (DeleteFolderCommand folderName)"

definition addLabel :: "int \<Rightarrow> string \<Rightarrow> bridge \<Rightarrow> bridge" where
  "addLabel mailId label = bridge_push (AddLabelCommand mailId label)"

definition removeLabel :: "int \<Rightarrow> string \<Rightarrow> bridge \<Rightarrow> bridge" where
  "removeLabel mailId label = bridge_push (RemoveLabelCommand mailId label)"

definition markMailStarred :: "int \<Rightarrow> bool \<Rightarrow> bridge \<Rightarrow> bridge" where
  "markMailStarred mailId starred = bridge_push (MarkMailStarredCommand mailId starred)"

definition markMailImportant :: "int \<Rightarrow> bool \<Rightarrow> bridge \<Rightarrow> bridge" where
  "markMailImportant mailId important = bridge_push (MarkMailImportantCommand mailId important)"

section \<open>Results\<close>

definition ToVariantList :: "string list \<Rightarrow> variant" where
  "ToVariantList vs = V_List (map V_String vs)"

text \<open>A \<^verbatim>\<open>QVariantMap\<close> as the list of its insertions.\<close>

definition summary_item :: "mail_summary \<Rightarrow> variant" where
  "summary_item m = V_Map
     [(''mailId'', V_Int (su_mailId m)), (''isSeen'', V_Bool (su_isSeen m)), (''isFlagged'', V_Bool (su_isFlagged m)),
      (''subject'', V_String (su_subject m)), (''date'', V_String (su_date m))]"

definition attachment_item :: "attachment_info \<Rightarrow> variant" where
  "attachment_item a = V_Map
     [(''fileName'', V_String (ai_fileName a)), (''mimeType'', V_String (ai_mimeType a)), (''sizeBytes'', V_Int (int (ai_sizeBytes a)))]"

definition details_map :: "mail_details \<Rightarrow> (string \<times> variant) list" where
  "details_map m =
     [(''mailId'', V_Int (md_mailId m)), (''isSeen'', V_Bool (md_isSeen m)), (''isFlagged'', V_Bool (md_isFlagged m)),
      (''sender'', V_String (md_sender m)), (''to'', ToVariantList (md_to m)), (''cc'', ToVariantList (md_cc m)),
      (''bcc'', ToVariantList (md_bcc m)), (''replyTo'', ToVariantList (md_replyTo m)), (''subject'', V_String (md_subject m)),
      (''date'', V_String (md_date m)), (''messageId'', V_String (md_messageId m)), (''inReplyTo'', V_String (md_inReplyTo m)),
      (''references'', V_String (md_references m)), (''plainBody'', V_String (md_plainBody m)), (''htmlBody'', V_String (md_htmlBody m)),
      (''body'', V_String (md_body m)), (''attachments'', V_List (map attachment_item (md_attachments m)))]"

definition report_error :: "string \<Rightarrow> bridge \<Rightarrow> bridge" where
  "report_error e s = signal (errorOccurred e) (setLastError e s)"

definition set_connected :: "bool \<Rightarrow> bridge \<Rightarrow> bridge" where
  "set_connected b s = signal connectionStateChanged (assign (\<lambda>p. p\<lparr>bp_isConnected := b\<rparr>) s)"

definition reset_reconnect :: "bridge \<Rightarrow> bridge" where
  "reset_reconnect s =
     signal reconnectMessageChanged (signal reconnectAttemptChanged (signal reconnectingChanged
       (assign (\<lambda>p. p\<lparr>bp_isReconnecting := False, bp_reconnectAttempt := 0, bp_reconnectMessage := []\<rparr>) s)))"

definition signal_if :: "bool \<Rightarrow> bridge_signal \<Rightarrow> bridge \<Rightarrow> bridge" where
  "signal_if b sg s = (if b then signal sg s else s)"

text \<open>The branch for \<^verbatim>\<open>ReconnectStateResult\<close>; the attempt is an unsigned number cast to \<^verbatim>\<open>int\<close>.\<close>

definition on_reconnect_state :: "bool \<Rightarrow> u32 \<Rightarrow> string \<Rightarrow> bridge \<Rightarrow> bridge" where
  "on_reconnect_state reconnecting attempt msg s0 =
     (let s = setBusy reconnecting s0; p = br_props s; newAttempt = sint attempt;
          s1 = assign (\<lambda>p. p\<lparr>bp_isReconnecting := reconnecting, bp_reconnectAttempt := newAttempt, bp_reconnectMessage := msg\<rparr>) s;
          s2 = (if reconnecting \<and> bp_isConnected p then set_connected False s1 else s1);
          s3 = (if \<not> reconnecting \<and> \<not> bp_isConnected (br_props s2) \<and> msg \<noteq> [] \<and> msg \<noteq> ''Reconnect canceled''
                then set_connected True s2 else s2)
      in signal_if (bp_reconnectMessage p \<noteq> msg) reconnectMessageChanged
           (signal_if (bp_reconnectAttempt p \<noteq> newAttempt) reconnectAttemptChanged
             (signal_if (bp_isReconnecting p \<noteq> reconnecting) reconnectingChanged s3)))"

fun on_result :: "mail_result \<Rightarrow> bridge \<Rightarrow> bridge" where
  "on_result (ConnectResult success e) s =
     (if success then signal connected (setLastError [] (set_connected True (reset_reconnect s)))
      else report_error e (set_connected False s))"
| "on_result (DisconnectResult success e) s =
     (if success then signal disconnected (set_connected False s) else report_error e s)"
| "on_result (SendMailResult success e) s =
     (if success then signal mailSent (setLastError [] s) else report_error e s)"
| "on_result (FetchMailsResult success e mails) s =
     (if success then signal mailsFetched (signal mailsChanged (assign (\<lambda>p. p\<lparr>bp_mails := map summary_item mails\<rparr>) s)) else report_error e s)"
| "on_result (FetchMailResult success e mail) s =
     (if success then signal mailFetched (signal currentMailChanged (assign (\<lambda>p. p\<lparr>bp_currentMail := details_map mail\<rparr>) s)) else report_error e s)"
| "on_result (FetchFoldersResult success e folders) s =
     (if success then signal foldersFetched (signal foldersChanged (assign (\<lambda>p. p\<lparr>bp_folders := map V_String folders\<rparr>) s)) else report_error e s)"
| "on_result (DownloadAttachmentResult success e outputPath fileName bytesWritten) s =
     (if success then signal (attachmentDownloaded outputPath) (assign (\<lambda>p. p\<lparr>bp_lastDownloadedPath := outputPath\<rparr>) s) else report_error e s)"
| "on_result (ReconnectStateResult reconnecting attempt msg) s = on_reconnect_state reconnecting attempt msg s"
| "on_result (MailActionResult success e) s = (if success then signal actionDone s else report_error e s)"

fun is_reconnect_result :: "mail_result \<Rightarrow> bool" where
  "is_reconnect_result (ReconnectStateResult _ _ _) = True"
| "is_reconnect_result _ = False"

definition onResult :: "mail_result \<Rightarrow> bridge \<Rightarrow> bridge" where
  "onResult result s = on_result result (if is_reconnect_result result then s else setBusy False s)"

section \<open>Every change is announced\<close>

text \<open>The properties as the interface declares them, each with its signal.\<close>

datatype bridge_property =
    P_isConnected | P_isBusy | P_isReconnecting | P_reconnectAttempt | P_reconnectMessage | P_lastError | P_folders | P_mails
  | P_currentMail | P_lastDownloadedPath

fun observe :: "bridge_property \<Rightarrow> bridge_props \<Rightarrow> variant" where
  "observe P_isConnected p = V_Bool (bp_isConnected p)"
| "observe P_isBusy p = V_Bool (bp_isBusy p)"
| "observe P_isReconnecting p = V_Bool (bp_isReconnecting p)"
| "observe P_reconnectAttempt p = V_Int (bp_reconnectAttempt p)"
| "observe P_reconnectMessage p = V_String (bp_reconnectMessage p)"
| "observe P_lastError p = V_String (bp_lastError p)"
| "observe P_folders p = V_List (bp_folders p)"
| "observe P_mails p = V_List (bp_mails p)"
| "observe P_currentMail p = V_Map (bp_currentMail p)"
| "observe P_lastDownloadedPath p = V_String (bp_lastDownloadedPath p)"

fun notifies :: "bridge_property \<Rightarrow> bridge_signal \<Rightarrow> bool" where
  "notifies P_isConnected sg \<longleftrightarrow> sg = connectionStateChanged"
| "notifies P_isBusy sg \<longleftrightarrow> sg = busyChanged"
| "notifies P_isReconnecting sg \<longleftrightarrow> sg = reconnectingChanged"
| "notifies P_reconnectAttempt sg \<longleftrightarrow> sg = reconnectAttemptChanged"
| "notifies P_reconnectMessage sg \<longleftrightarrow> sg = reconnectMessageChanged"
| "notifies P_lastError sg \<longleftrightarrow> sg = lastErrorChanged"
| "notifies P_folders sg \<longleftrightarrow> sg = foldersChanged"
| "notifies P_mails sg \<longleftrightarrow> sg = mailsChanged"
| "notifies P_currentMail sg \<longleftrightarrow> sg = currentMailChanged"
| "notifies P_lastDownloadedPath sg \<longleftrightarrow> (\<exists>path. sg = attachmentDownloaded path)"

text \<open>
  From \<open>s\<close> to \<open>s'\<close> signals were only added, and each property that differs was announced when it had its final value.
\<close>

definition announced :: "bridge \<Rightarrow> bridge \<Rightarrow> bool" where
  "announced s s' \<longleftrightarrow> (\<exists>new. br_signals s' = br_signals s @ new \<and>
     (\<forall>p. observe p (br_props s') \<noteq> observe p (br_props s) \<longrightarrow>
        (\<exists>(sg, q) \<in> set new. notifies p sg \<and> observe p q = observe p (br_props s'))))"

lemma announcedI:
  assumes "br_signals s' = br_signals s @ new"
    and "\<And>p. observe p (br_props s') \<noteq> observe p (br_props s) \<Longrightarrow> \<exists>(sg, q) \<in> set new. notifies p sg \<and> observe p q = observe p (br_props s')"
  shows "announced s s'"
  using assms by (auto simp: announced_def)

lemma announced_refl: "announced s s"
  by (simp add: announced_def)

lemma announced_trans:
  assumes "announced s s1" and "announced s1 s2"
  shows "announced s s2"
proof -
  obtain a where a: "br_signals s1 = br_signals s @ a"
    "\<And>p. observe p (br_props s1) \<noteq> observe p (br_props s) \<Longrightarrow> \<exists>(sg, q) \<in> set a. notifies p sg \<and> observe p q = observe p (br_props s1)"
    using assms(1) unfolding announced_def by blast
  obtain b where b: "br_signals s2 = br_signals s1 @ b"
    "\<And>p. observe p (br_props s2) \<noteq> observe p (br_props s1) \<Longrightarrow> \<exists>(sg, q) \<in> set b. notifies p sg \<and> observe p q = observe p (br_props s2)"
    using assms(2) unfolding announced_def by blast
  show ?thesis
  proof (rule announcedI [of _ _ "a @ b"])
    fix p
    assume "observe p (br_props s2) \<noteq> observe p (br_props s)"
    then show "\<exists>(sg, q) \<in> set (a @ b). notifies p sg \<and> observe p q = observe p (br_props s2)"
      using a(2) [of p] b(2) [of p] by (cases "observe p (br_props s2) = observe p (br_props s1)") auto
  qed (simp add: a(1) b(1))
qed

lemma announced_signal: "announced s s1 \<Longrightarrow> announced s (signal sg s1)"
  by (rule announced_trans) (auto simp: announced_def signal_def)

lemma announced_assign:
  assumes "\<And>p. observe p (f (br_props s)) \<noteq> observe p (br_props s) \<Longrightarrow> notifies p sg"
  shows "announced s (signal sg (assign f s))"
  using assms by (auto simp: announced_def signal_def assign_def)

lemma announced_busy: "announced s (setBusy b s)"
proof -
  have "announced s (signal busyChanged (assign (\<lambda>p. p\<lparr>bp_isBusy := b\<rparr>) s))"
  proof (rule announced_assign)
    show "observe p (br_props s\<lparr>bp_isBusy := b\<rparr>) \<noteq> observe p (br_props s) \<Longrightarrow> notifies p busyChanged" for p by (cases p) auto
  qed
  then show ?thesis by (simp add: setBusy_def announced_refl)
qed

lemma announced_error: "announced s (setLastError e s)"
proof -
  have "announced s (signal lastErrorChanged (assign (\<lambda>p. p\<lparr>bp_lastError := e\<rparr>) s))"
  proof (rule announced_assign)
    show "observe p (br_props s\<lparr>bp_lastError := e\<rparr>) \<noteq> observe p (br_props s) \<Longrightarrow> notifies p lastErrorChanged" for p by (cases p) auto
  qed
  then show ?thesis by (simp add: setLastError_def announced_refl)
qed

lemma announced_connected: "announced s (set_connected b s)"
  unfolding set_connected_def
proof (rule announced_assign)
  show "observe p (br_props s\<lparr>bp_isConnected := b\<rparr>) \<noteq> observe p (br_props s) \<Longrightarrow> notifies p connectionStateChanged" for p by (cases p) auto
qed

lemma announced_values:
  "announced s (signal mailsChanged (assign (\<lambda>p. p\<lparr>bp_mails := v\<rparr>) s))"
  "announced s (signal currentMailChanged (assign (\<lambda>p. p\<lparr>bp_currentMail := w\<rparr>) s))"
  "announced s (signal foldersChanged (assign (\<lambda>p. p\<lparr>bp_folders := v\<rparr>) s))"
  "announced s (signal (attachmentDownloaded path) (assign (\<lambda>p. p\<lparr>bp_lastDownloadedPath := t\<rparr>) s))"
proof -
  have "observe p (br_props s\<lparr>bp_mails := v\<rparr>) \<noteq> observe p (br_props s) \<Longrightarrow> notifies p mailsChanged"
    "observe p (br_props s\<lparr>bp_currentMail := w\<rparr>) \<noteq> observe p (br_props s) \<Longrightarrow> notifies p currentMailChanged"
    "observe p (br_props s\<lparr>bp_folders := v\<rparr>) \<noteq> observe p (br_props s) \<Longrightarrow> notifies p foldersChanged"
    "observe p (br_props s\<lparr>bp_lastDownloadedPath := t\<rparr>) \<noteq> observe p (br_props s) \<Longrightarrow> notifies p (attachmentDownloaded path)" for p
    by (cases p; auto)+
  then show
    "announced s (signal mailsChanged (assign (\<lambda>p. p\<lparr>bp_mails := v\<rparr>) s))"
    "announced s (signal currentMailChanged (assign (\<lambda>p. p\<lparr>bp_currentMail := w\<rparr>) s))"
    "announced s (signal foldersChanged (assign (\<lambda>p. p\<lparr>bp_folders := v\<rparr>) s))"
    "announced s (signal (attachmentDownloaded path) (assign (\<lambda>p. p\<lparr>bp_lastDownloadedPath := t\<rparr>) s))"
    by (blast intro: announced_assign)+
qed

lemma announced_report: "announced s (report_error e s)"
  by (simp add: report_error_def announced_signal announced_error)

lemma announced_reset: "announced s (reset_reconnect s)"
proof (rule announcedI)
  show "br_signals (reset_reconnect s) = br_signals s @
      map (\<lambda>sg. (sg, br_props (reset_reconnect s))) [reconnectingChanged, reconnectAttemptChanged, reconnectMessageChanged]"
    by (simp add: reset_reconnect_def signal_def assign_def)
  show "\<exists>(sg, q) \<in> set (map (\<lambda>sg. (sg, br_props (reset_reconnect s))) [reconnectingChanged, reconnectAttemptChanged, reconnectMessageChanged]).
      notifies p sg \<and> observe p q = observe p (br_props (reset_reconnect s))"
    if "observe p (br_props (reset_reconnect s)) \<noteq> observe p (br_props s)" for p
    using that by (cases p) (simp_all add: reset_reconnect_def signal_def assign_def)
qed

lemma signal_if_fields:
  "br_props (signal_if c sg s) = br_props s" "br_signals (signal_if c sg s) = br_signals s @ (if c then [(sg, br_props s)] else [])"
  by (simp_all add: signal_if_def signal_def)

lemma connected_self: "p\<lparr>bp_isConnected := bp_isConnected p\<rparr> = p"
  by (cases p) simp

text \<open>The connection state after the new reconnect state has been stored.\<close>

lemma reconnect_connection:
  assumes "s2 = (if b \<and> bp_isConnected (br_props s1) then set_connected False s1 else s1)"
    and "s3 = (if \<not> b \<and> \<not> bp_isConnected (br_props s2) \<and> c then set_connected True s2 else s2)"
  shows "\<exists>new. br_signals s3 = br_signals s1 @ new \<and> br_props s3 = (br_props s1)\<lparr>bp_isConnected := bp_isConnected (br_props s3)\<rparr> \<and>
    (bp_isConnected (br_props s3) \<noteq> bp_isConnected (br_props s1) \<longrightarrow> (connectionStateChanged, br_props s3) \<in> set new)"
proof (cases b)
  case True
  then show ?thesis using assms
    by (cases "bp_isConnected (br_props s1)") (auto simp: connected_self set_connected_def signal_def assign_def)
next
  case False
  then show ?thesis using assms
    by (cases "\<not> bp_isConnected (br_props s1) \<and> c") (auto simp: connected_self set_connected_def signal_def assign_def)
qed

lemma announced_state: "announced s (on_reconnect_state b n m s)"
proof -
  define s0 where "s0 = setBusy b s"
  define s1 where "s1 = assign (\<lambda>p. p\<lparr>bp_isReconnecting := b, bp_reconnectAttempt := sint n, bp_reconnectMessage := m\<rparr>) s0"
  define s2 where "s2 = (if b \<and> bp_isConnected (br_props s1) then set_connected False s1 else s1)"
  define s3 where "s3 = (if \<not> b \<and> \<not> bp_isConnected (br_props s2) \<and> (m \<noteq> [] \<and> m \<noteq> ''Reconnect canceled'') then set_connected True s2 else s2)"
  let ?p = "br_props s0"
  let ?t = "on_reconnect_state b n m s"
  have t: "?t = signal_if (bp_reconnectMessage ?p \<noteq> m) reconnectMessageChanged
      (signal_if (bp_reconnectAttempt ?p \<noteq> sint n) reconnectAttemptChanged (signal_if (bp_isReconnecting ?p \<noteq> b) reconnectingChanged s3))"
    unfolding s3_def s2_def by (simp add: on_reconnect_state_def Let_def s0_def [symmetric] s1_def assign_def)
  obtain new where "br_signals s3 = br_signals s1 @ new"
    "br_props s3 = (br_props s1)\<lparr>bp_isConnected := bp_isConnected (br_props s3)\<rparr>"
    "bp_isConnected (br_props s3) \<noteq> bp_isConnected (br_props s1) \<longrightarrow> (connectionStateChanged, br_props s3) \<in> set new"
    using reconnect_connection [OF s2_def s3_def] by blast
  moreover define v where "v = bp_isConnected (br_props s3)"
  ultimately have new: "br_signals s3 = br_signals s0 @ new"
    "br_props s3 = ?p\<lparr>bp_isReconnecting := b, bp_reconnectAttempt := sint n, bp_reconnectMessage := m, bp_isConnected := v\<rparr>"
    "v \<noteq> bp_isConnected ?p \<longrightarrow> (connectionStateChanged, br_props s3) \<in> set new"
    by (simp_all add: s1_def assign_def)
  let ?new = "new @ (if bp_isReconnecting ?p \<noteq> b then [(reconnectingChanged, br_props s3)] else []) @
      (if bp_reconnectAttempt ?p \<noteq> sint n then [(reconnectAttemptChanged, br_props s3)] else []) @
      (if bp_reconnectMessage ?p \<noteq> m then [(reconnectMessageChanged, br_props s3)] else [])"
  have fields: "bp_isConnected (br_props s3) = v" "bp_isReconnecting (br_props s3) = b" "bp_reconnectAttempt (br_props s3) = sint n"
    "bp_reconnectMessage (br_props s3) = m" "bp_isBusy (br_props s3) = bp_isBusy ?p" "bp_lastError (br_props s3) = bp_lastError ?p"
    "bp_folders (br_props s3) = bp_folders ?p" "bp_mails (br_props s3) = bp_mails ?p" "bp_currentMail (br_props s3) = bp_currentMail ?p"
    "bp_lastDownloadedPath (br_props s3) = bp_lastDownloadedPath ?p"
    by (simp_all add: new(2))
  have props: "br_props ?t = br_props s3" by (simp add: t signal_if_fields)
  have "announced s0 ?t"
  proof (rule announcedI)
    show "br_signals ?t = br_signals s0 @ ?new" by (simp add: t signal_if_fields new(1))
    fix p
    assume "observe p (br_props ?t) \<noteq> observe p ?p"
    then have "\<exists>sg. (sg, br_props s3) \<in> set ?new \<and> notifies p sg"
      using new(3) unfolding props by (cases p) (simp_all add: fields)
    then show "\<exists>(sg, q) \<in> set ?new. notifies p sg \<and> observe p q = observe p (br_props ?t)" unfolding props by blast
  qed
  then show ?thesis unfolding s0_def by (rule announced_trans [OF announced_busy])
qed

lemma announced_result: "announced s (on_result r s)"
proof (cases r)
  case (ConnectResult ok e)
  have "announced s (setLastError [] (set_connected True (reset_reconnect s)))"
    by (blast intro: announced_trans announced_reset announced_connected announced_error)
  moreover have "announced s (report_error e (set_connected False s))"
    by (blast intro: announced_trans announced_connected announced_report)
  ultimately show ?thesis using ConnectResult by (simp add: announced_signal)
qed (simp_all add: announced_signal announced_report announced_connected announced_error announced_values announced_state announced_refl)

text \<open>What can happen to the bridge: a method with its command, or a result of the worker.\<close>

datatype bridge_event = Call mail_command | Result mail_result

fun bridge_exec :: "bridge_event \<Rightarrow> bridge \<Rightarrow> bridge" where
  "bridge_exec (Call cmd) s = bridge_push cmd s"
| "bridge_exec (Result r) s = onResult r s"

lemma announced_exec: "announced s (bridge_exec ev s)"
proof (cases ev)
  case (Call cmd)
  have "announced s (setLastError [] (setBusy True s))" by (rule announced_trans [OF announced_busy announced_error])
  then show ?thesis using Call by (simp add: bridge_push_def announced_def)
next
  case (Result r)
  then show ?thesis using announced_trans [OF announced_busy announced_result] announced_result by (simp add: onResult_def)
qed

text \<open>
  C7. Whatever methods are called and results arrive, every property of the bridge that has changed was
  announced by the signal that the interface declares for it, at a moment when the property had the value
  it has now.
\<close>

theorem bridge_announces_changes: "announced s (fold bridge_exec evs s)"
proof (induction evs arbitrary: s)
  case (Cons ev evs)
  have "announced (bridge_exec ev s) (fold bridge_exec evs (bridge_exec ev s))" by (rule Cons.IH)
  then show ?case using announced_trans [OF announced_exec] by simp
qed (simp add: announced_refl)

text \<open>The busy flag does not count: the answer to the first of two commands clears it while the second waits.\<close>

lemma busy_cleared_early:
  "\<not> bp_isBusy (br_props (onResult (FetchFoldersResult True [] []) (fetchMail 1 (fetchFolders MuaBridge)))) \<and>
   length (cq_queue (br_queue (fetchMail 1 (fetchFolders MuaBridge)))) = 2"
  by (simp add: onResult_def fetchMail_def fetchFolders_def MuaBridge_def bridge_push_def setBusy_def setLastError_def signal_def assign_def queue_push_def)

end
