(* ===== verification/Api_Server.thy ===== *)
theory Api_Server
  imports Repository_Behaviour
begin

text \<open>
  \<^verbatim>\<open>api-server/ApiHandler.cpp\<close> and the connections of \<^verbatim>\<open>ApiServer.cpp\<close>: registration and change of the
  password over HTTPS. Boost.JSON is the parameter \<open>api_env\<close>: \<open>ae_parse\<close> is \<open>None\<close> where \<^verbatim>\<open>json::parse\<close>
  throws, \<open>ae_serialize\<close> writes an object of strings. A handler maps the database to the response and the
  database after it; the text of a JSON string ends at its first NUL, as \<^verbatim>\<open>c_str\<close> gives it.
\<close>

section \<open>Requests and responses\<close>

datatype json_value = Json_Object "(string \<times> json_value) list" | Json_String string | Json_Other

datatype http_method = POST | Other_Method

record http_request =
  rq_method :: http_method
  rq_target :: string
  rq_body :: string

datatype http_status = Ok_200 | Bad_Request_400 | Unauthorized_401 | Not_Found_404 | Conflict_409 | Internal_Server_Error_500

record http_response =
  rs_status :: http_status
  rs_version :: nat
  rs_content_type :: string
  rs_body :: string

record api_env =
  ae_parse :: "string \<Rightarrow> json_value option"
  ae_serialize :: "(string \<times> string) list \<Rightarrow> string"
  ae_pwhash :: "string \<Rightarrow> string option"
  ae_verify :: "string \<Rightarrow> string \<Rightarrow> bool"

definition okResponse :: "api_env \<Rightarrow> string \<Rightarrow> http_response" where
  "okResponse env msg =
     \<lparr>rs_status = Ok_200, rs_version = 11, rs_content_type = ''application/json'',
      rs_body = ae_serialize env [(''status'', ''ok''), (''message'', msg)]\<rparr>"

definition errorResponse :: "api_env \<Rightarrow> http_status \<Rightarrow> string \<Rightarrow> http_response" where
  "errorResponse env status msg =
     \<lparr>rs_status = status, rs_version = 11, rs_content_type = ''application/json'',
      rs_body = ae_serialize env [(''status'', ''error''), (''message'', msg)]\<rparr>"

section \<open>The handlers\<close>

fun if_string :: "json_value \<Rightarrow> string option" where
  "if_string (Json_String s) = Some (c_text s)"
| "if_string _ = None"

text \<open>
  The part that both handlers share: the members \<open>names\<close> of the object in the body, each a text that is not
  empty; \<open>missing\<close>, \<open>no_strings\<close> and \<open>no_text\<close> are the messages of the handler.
\<close>

definition body_fields :: "api_env \<Rightarrow> string list \<Rightarrow> string \<Rightarrow> string \<Rightarrow> string \<Rightarrow> string \<Rightarrow> http_response + string list" where
  "body_fields env names missing no_strings no_text body =
     (case ae_parse env body of
        None \<Rightarrow> Inl (errorResponse env Bad_Request_400 ''Invalid JSON'')
      | Some (Json_Object obj) \<Rightarrow>
          (let vals = map (map_of obj) names in
           if None \<in> set vals then Inl (errorResponse env Bad_Request_400 missing)
           else let strs = map (if_string \<circ> the) vals in
             if None \<in> set strs then Inl (errorResponse env Bad_Request_400 no_strings)
             else if [] \<in> set (map the strs) then Inl (errorResponse env Bad_Request_400 no_text)
             else Inr (map the strs))
      | Some _ \<Rightarrow> Inl (errorResponse env Bad_Request_400 ''Expected JSON object''))"

definition new_user :: "string \<Rightarrow> user" where
  "new_user username =
     \<lparr>u_id = None, u_username = username, u_password_hash = [], u_first_name = None, u_last_name = None, u_birthdate = None,
      u_avatar_b64 = None\<rparr>"

abbreviation QUOTED :: "string \<Rightarrow> string" where
  "QUOTED s \<equiv> [CHR 0x27] @ s @ [CHR 0x27]"

definition handleRegister :: "api_env \<Rightarrow> engine \<Rightarrow> string \<Rightarrow> db \<Rightarrow> http_response \<times> db" where
  "handleRegister env engine body d =
     (case body_fields env [''username'', ''password'']
             (''Missing '' @ QUOTED ''username'' @ '' or '' @ QUOTED ''password'')
             (QUOTED ''username'' @ '' and '' @ QUOTED ''password'' @ '' must be strings'')
             (QUOTED ''username'' @ '' and '' @ QUOTED ''password'' @ '' must not be empty'') body of
        Inl r \<Rightarrow> (r, d)
      | Inr texts \<Rightarrow>
          (case registerUser (ae_pwhash env) engine d (new_user (texts ! 0)) (texts ! 1) of
             (Inl e, d') \<Rightarrow> (errorResponse env Conflict_409 e, d')
           | (Inr _, d') \<Rightarrow> (okResponse env ''User registered successfully'', d')))"

definition handleChangePassword :: "api_env \<Rightarrow> engine \<Rightarrow> string \<Rightarrow> db \<Rightarrow> http_response \<times> db" where
  "handleChangePassword env engine body d =
     (case body_fields env [''username'', ''old_password'', ''new_password'']
             (''Missing '' @ QUOTED ''username'' @ '', '' @ QUOTED ''old_password'' @ '' or '' @ QUOTED ''new_password'')
             ''All fields must be strings'' ''Fields must not be empty'' body of
        Inl r \<Rightarrow> (r, d)
      | Inr texts \<Rightarrow>
          (case authorize (ae_verify env) engine d (texts ! 0) (texts ! 1) of
             Inl _ \<Rightarrow> (errorResponse env Unauthorized_401 ''Invalid credentials'', d)
           | Inr _ \<Rightarrow>
               (case Option.bind (UserDAL_findByUsername engine d (texts ! 0)) u_id of
                  None \<Rightarrow> (errorResponse env Not_Found_404 ''User not found'', d)
                | Some i \<Rightarrow>
                    (case changePassword (ae_pwhash env) engine d i (texts ! 2) of
                       (Inl e, d') \<Rightarrow> (errorResponse env Internal_Server_Error_500 e, d')
                     | (Inr _, d') \<Rightarrow> (okResponse env ''Password changed successfully'', d')))))"

definition Api_handle :: "api_env \<Rightarrow> engine \<Rightarrow> http_request \<Rightarrow> db \<Rightarrow> http_response \<times> db" where
  "Api_handle env engine request d =
     (if rq_method request = POST \<and> rq_target request = ''/register'' then handleRegister env engine (rq_body request) d
      else if rq_method request = POST \<and> rq_target request = ''/change-password''
      then handleChangePassword env engine (rq_body request) d
      else (errorResponse env Not_Found_404 ''Unknown endpoint'', d))"

text \<open>
  \<^verbatim>\<open>ApiServer::handleConnection\<close>: the handshake, the request and the answer may fail with an exception that
  is caught and logged. \<open>None\<close> where no answer reaches the client.
\<close>

record api_connection =
  ac_handshake :: bool
  ac_request :: "http_request option"
  ac_write :: bool

definition handleConnection :: "api_env \<Rightarrow> engine \<Rightarrow> api_connection \<Rightarrow> db \<Rightarrow> http_response option \<times> db" where
  "handleConnection env engine c d =
     (if \<not> ac_handshake c then (None, d)
      else case ac_request c of
        None \<Rightarrow> (None, d)
      | Some request \<Rightarrow>
          (case Api_handle env engine request d of (response, d') \<Rightarrow> (if ac_write c then Some response else None, d')))"

section \<open>Who may change an account\<close>

lemma body_fields_Inr:
  assumes "body_fields env names a b c body = Inr texts"
  shows "\<exists>obj. ae_parse env body = Some (Json_Object obj) \<and> length texts = length names \<and>
    (\<forall>i < length names. \<exists>s. map_of obj (names ! i) = Some (Json_String s) \<and> texts ! i = c_text s \<and> c_text s \<noteq> [])"
proof -
  obtain obj where obj: "ae_parse env body = Some (Json_Object obj)"
    using assms by (auto simp: body_fields_def split: option.splits json_value.splits)
  let ?strs = "map (if_string \<circ> the) (map (map_of obj) names)"
  have f: "None \<notin> set (map (map_of obj) names)" "None \<notin> set ?strs" "[] \<notin> set (map the ?strs)" "texts = map the ?strs"
    using assms obj by (auto simp: body_fields_def Let_def split: if_splits)
  have "\<exists>s. map_of obj (names ! i) = Some (Json_String s) \<and> texts ! i = c_text s \<and> c_text s \<noteq> []" if "i < length names" for i
  proof -
    have n: "names ! i \<in> set names" using that by simp
    obtain v where v: "map_of obj (names ! i) = Some v" using f(1) n by (cases "map_of obj (names ! i)") force+
    obtain t where t: "if_string v = Some t"
      using f(2) n v by (cases "if_string v") (force simp: image_iff)+
    then obtain s where s: "v = Json_String s" "t = c_text s" by (cases v) auto
    have e: "texts ! i = c_text s" using that f(4) v s by simp
    moreover have "texts ! i \<in> set texts" using that f(4) by simp
    then have "texts ! i \<noteq> []" using f(3) unfolding f(4) by metis
    ultimately show ?thesis using v s by auto
  qed
  then show ?thesis using obj f(4) by auto
qed

lemma insert_keeps: "UserDAL_insert engine d v = Inr (v', d1) \<Longrightarrow> u \<in> set (db_users d) \<Longrightarrow> u \<in> set (db_users d1)"
  by (auto simp: UserDAL_insert_def Let_def)

lemma registerUser_keeps:
  "registerUser pwhash engine d u password = (r, d') \<Longrightarrow> v \<in> set (db_users d) \<Longrightarrow> v \<in> set (db_users d')"
  by (auto simp: registerUser_def Let_def dest!: create_folders_users dest: insert_keeps
      split: if_splits sum.splits prod.splits option.splits)

lemma handleRegister_keeps:
  "handleRegister env engine body d = (r, d') \<Longrightarrow> v \<in> set (db_users d) \<Longrightarrow> v \<in> set (db_users d')"
  by (auto simp: handleRegister_def dest: registerUser_keeps split: sum.splits prod.splits)

lemma changePassword_changes:
  assumes "changePassword pwhash engine d i p = (r, d')" and "u \<in> set (db_users d)" and "u \<notin> set (db_users d')"
  shows "r = Inr () \<and> u_id u = Some i \<and> u\<lparr>u_password_hash := c_text (hashPassword pwhash p)\<rparr> \<in> set (db_users d')"
proof -
  let ?f = "\<lambda>v. v\<lparr>u_password_hash := c_text (hashPassword pwhash p)\<rparr>"
  have d': "r = Inr ()" "d' = d\<lparr>db_users := update_where (\<lambda>v. u_id v = Some i) ?f (db_users d)\<rparr>"
    using assms by (auto simp: changePassword_def autocommit_def UserDAL_updatePassword_def run_write_def split: option.splits sum.splits)
  have "u_id u = Some i" using assms(2,3) d' by (auto simp: update_where_def image_iff)
  then show ?thesis using assms(2) d' by (auto simp: update_where_def image_iff)
qed

lemma findByUsername_row:
  assumes "UserDAL_findByUsername engine d name = Some v"
  shows "\<exists>w \<in> set (db_users d). v = row_no_avatar w \<and> u_username w = c_text name"
proof -
  obtain w ws where "filter (\<lambda>u. u_username u = c_text name) (db_users d) = w # ws" "v = row_no_avatar w"
    using assms by (auto simp: UserDAL_findByUsername_def read_one_def split: if_splits list.splits)
  then show ?thesis by (auto simp: filter_eq_Cons_iff)
qed

text \<open>
  C15. An account that was there before a request is changed by it only if the request is a change of the
  password that names this account and gives a password that verifies against its stored hash; the
  answer is then 200 and the hash of the new password is all that changes.
\<close>

theorem api_guards_passwords:
  assumes "db_inv d" and "Api_handle env engine request d = (response, d')"
    and "u \<in> set (db_users d)" and "u \<notin> set (db_users d')"
  shows "rq_method request = POST \<and> rq_target request = ''/change-password'' \<and> rs_status response = Ok_200 \<and>
    (\<exists>obj name old new. ae_parse env (rq_body request) = Some (Json_Object obj) \<and>
       map_of obj ''username'' = Some (Json_String name) \<and> map_of obj ''old_password'' = Some (Json_String old) \<and>
       map_of obj ''new_password'' = Some (Json_String new) \<and> c_text name = u_username u \<and>
       ae_verify env (c_text (u_password_hash u)) (c_text old) \<and>
       u\<lparr>u_password_hash := c_text (hashPassword (ae_pwhash env) (c_text new))\<rparr> \<in> set (db_users d'))"
proof -
  have "\<not> (rq_method request = POST \<and> rq_target request = ''/register'')"
    using assms(2-4) handleRegister_keeps by (auto simp: Api_handle_def)
  then have rq: "rq_method request = POST" "rq_target request = ''/change-password''"
    and h: "handleChangePassword env engine (rq_body request) d = (response, d')"
    using assms(2-4) by (auto simp: Api_handle_def split: if_splits)
  from h assms(3,4) obtain m e f texts v i where b: "body_fields env [''username'', ''old_password'', ''new_password''] m e f (rq_body request) = Inr texts"
    and auth: "authorize (ae_verify env) engine d (texts ! 0) (texts ! 1) = Inr ()"
    and v: "UserDAL_findByUsername engine d (texts ! 0) = Some v" "u_id v = Some i"
    and ch: "\<exists>r. changePassword (ae_pwhash env) engine d i (texts ! 2) = (r, d') \<and> (\<forall>x. r = Inr x \<longrightarrow> rs_status response = Ok_200)"
    by (auto simp: handleChangePassword_def okResponse_def errorResponse_def split: sum.splits prod.splits option.splits
        bind_splits)
  from ch changePassword_changes [OF _ assms(3,4)]
  have i: "u_id u = Some i" "rs_status response = Ok_200"
    "u\<lparr>u_password_hash := c_text (hashPassword (ae_pwhash env) (texts ! 2))\<rparr> \<in> set (db_users d')" by blast+
  obtain w where w: "w \<in> set (db_users d)" "v = row_no_avatar w" "u_username w = c_text (texts ! 0)"
    using findByUsername_row [OF v(1)] by blast
  have "distinct (map u_id (db_users d))" using assms(1) by (simp add: store_inv_def users_ok_def ids_ok_def)
  then have "w = u" using w(1,2) assms(3) v(2) i(1) by (auto simp: row_no_avatar_def distinct_map inj_on_def)
  have ver: "ae_verify env (c_text (u_password_hash u)) (texts ! 1)"
    using auth v(1) w(2) \<open>w = u\<close> by (auto simp: authorize_def row_no_avatar_def split: if_splits)
  from body_fields_Inr [OF b] obtain obj where obj: "ae_parse env (rq_body request) = Some (Json_Object obj)"
    and field: "\<And>j. j < length [''username'', ''old_password'', ''new_password''] \<Longrightarrow> \<exists>s. map_of obj ([''username'', ''old_password'', ''new_password''] ! j) = Some (Json_String s) \<and> texts ! j = c_text s"
    by blast
  obtain name old new where
    "map_of obj ''username'' = Some (Json_String name)" "texts ! 0 = c_text name"
    "map_of obj ''old_password'' = Some (Json_String old)" "texts ! 1 = c_text old"
    "map_of obj ''new_password'' = Some (Json_String new)" "texts ! 2 = c_text new"
    using field [of 0] field [of 1] field [of 2] by auto
  then show ?thesis using obj rq i ver w(3) \<open>w = u\<close> by (auto simp: c_text_def takeWhile_takeWhile)
qed

definition demo_api :: api_env where
  "demo_api = \<lparr>ae_parse = (\<lambda>_. Some (Json_Object [(''username'', Json_String ''alice''), (''old_password'', Json_String ''pw''),
       (''new_password'', Json_String ''new'')])), ae_serialize = (\<lambda>_. []), ae_pwhash = Some, ae_verify = (\<lambda>h p. h = p)\<rparr>"

definition demo_request :: http_request where
  "demo_request = \<lparr>rq_method = POST, rq_target = ''/change-password'', rq_body = []\<rparr>"

lemma demo_api_changes:
  "hd (db_users first_state) \<in> set (db_users first_state) \<and>
   hd (db_users first_state) \<notin> set (db_users (snd (Api_handle demo_api healthy demo_request first_state)))"
  by code_simp

theorem api_guards_passwords_witness:
  "rs_status (fst (Api_handle demo_api healthy demo_request first_state)) = Ok_200 \<and>
   (\<exists>old. ae_verify demo_api (c_text (u_password_hash (hd (db_users first_state)))) (c_text old))"
proof -
  have inv: "db_inv first_state"
    using repo.run_inv [OF empty_db_inv, of Some healthy first_calls] by (simp add: first_state_def)
  from api_guards_passwords [OF inv prod.collapse [symmetric] conjunct1 [OF demo_api_changes] conjunct2 [OF demo_api_changes]]
  show ?thesis by blast
qed

end
