(* ===== verification/Sockets.thy ===== *)
theory Sockets
  imports Connection "HOL-Library.Word"
begin

text \<open>
  \<^verbatim>\<open>proto/SocketAcceptor.cpp\<close> and \<^verbatim>\<open>proto/SocketConnector.cpp\<close>: how a server and a client come to a
  connection. What the calls of Boost.Asio do is a parameter: \<open>tcp_setup\<close> tells which of them throws
  while the acceptor is set up, an accept returns a connection or an error code, the resolver finds end
  points or throws, and a connect reaches one of them or throws.
\<close>

section \<open>SocketAcceptor\<close>

record tcp_setup =
  su_created :: bool
  su_opened :: bool
  su_reuse :: bool
  su_bound :: "16 word \<Rightarrow> bool"
  su_listens :: bool

text \<open>The pointer \<^verbatim>\<open>m_acceptor\<close>; an acceptor behind it listens only when every call of the set-up went through.\<close>

datatype acceptor = No_Acceptor | Tcp_Acceptor (ta_listening: bool)

definition Acceptor_Initialize :: "tcp_setup \<Rightarrow> 16 word \<Rightarrow> acceptor \<Rightarrow> bool \<times> acceptor" where
  "Acceptor_Initialize su port a =
     (if \<not> su_created su then (False, a)
      else if \<not> su_opened su then (False, Tcp_Acceptor False)
      else if \<not> su_reuse su then (False, Tcp_Acceptor False)
      else if \<not> su_bound su port then (False, Tcp_Acceptor False)
      else if \<not> su_listens su then (False, Tcp_Acceptor False)
      else (True, Tcp_Acceptor True))"

text \<open>\<^verbatim>\<open>Accept\<close> returns true with a connection, or false; \<open>sys_accept\<close> is the call of the operating system.\<close>

definition Acceptor_Accept :: "(bool \<Rightarrow> 'c option) \<Rightarrow> acceptor \<Rightarrow> 'c option" where
  "Acceptor_Accept sys_accept a =
     (case a of No_Acceptor \<Rightarrow> None | Tcp_Acceptor listening \<Rightarrow> sys_accept listening)"

definition Acceptor_Stop :: "bool \<Rightarrow> acceptor \<Rightarrow> bool \<times> acceptor" where
  "Acceptor_Stop closed a =
     (case a of No_Acceptor \<Rightarrow> (False, No_Acceptor) | Tcp_Acceptor listening \<Rightarrow> (closed, Tcp_Acceptor False))"

lemma initialized_listens:
  "Acceptor_Initialize su port No_Acceptor = (ok, a) \<Longrightarrow> a = Tcp_Acceptor True \<longleftrightarrow> ok"
  by (auto simp: Acceptor_Initialize_def split: if_splits)

text \<open>
  The operating system refuses to accept on a socket that does not listen; then nothing is accepted after
  a failed \<^verbatim>\<open>Initialize\<close> or after \<^verbatim>\<open>Stop\<close>, whatever \<^verbatim>\<open>Stop\<close> returned.
\<close>

lemma nothing_accepted:
  assumes "sys_accept False = None"
  shows "Acceptor_Initialize su port No_Acceptor = (False, a) \<Longrightarrow> Acceptor_Accept sys_accept a = None"
    and "Acceptor_Accept sys_accept (snd (Acceptor_Stop closed b)) = None"
  using assms
  by (auto simp: Acceptor_Initialize_def Acceptor_Accept_def Acceptor_Stop_def split: if_splits acceptor.splits)

section \<open>SocketConnector\<close>

text \<open>The connector is its pointer \<^verbatim>\<open>m_io_context\<close>.\<close>

type_synonym 'x connector = "'x option"

definition Connector_Initialize :: "'x \<Rightarrow> 'x connector \<Rightarrow> bool \<times> 'x connector" where
  "Connector_Initialize io_context x = (True, Some io_context)"

definition Connector_Connect ::
  "('x \<Rightarrow> string \<Rightarrow> 16 word \<Rightarrow> 'e list option) \<Rightarrow> ('x \<Rightarrow> 'e list \<Rightarrow> 'c option) \<Rightarrow>
   string \<Rightarrow> 16 word \<Rightarrow> 'x connector \<Rightarrow> 'c option" where
  "Connector_Connect resolve connect host port x =
     (case x of
        None \<Rightarrow> None
      | Some io_context \<Rightarrow>
          (case resolve io_context host port of None \<Rightarrow> None | Some endpoints \<Rightarrow> connect io_context endpoints))"

lemma connect_needs_context:
  "Connector_Connect resolve connect host port x = Some c \<Longrightarrow>
   \<exists>io endpoints. x = Some io \<and> resolve io host port = Some endpoints \<and> connect io endpoints = Some c"
  by (auto simp: Connector_Connect_def split: option.splits)

end
