(* ===== verification/Database_Manager.thy ===== *)
theory Database_Manager
  imports Config_Json
begin

text \<open>
  \<^verbatim>\<open>database/ConnectionPool.cpp\<close> and \<^verbatim>\<open>DataBaseManager.cpp\<close>: the handles of the database. A handle is a number;
  what SQLite answers is the parameter \<open>sqlite\<close>. The threads that read share the pool: \<open>guard_step\<close>
  interleaves the life of their \<^verbatim>\<open>ReadGuard\<close> objects.
\<close>

section \<open>The pool of read connections\<close>

text \<open>
  \<open>sq_open_read k\<close> is the handle of the \<open>k\<close>-th connection, or the error text. The other members are the steps
  of the constructor of the manager that may fail.
\<close>

record sqlite =
  sq_open :: bool
  sq_wal :: bool
  sq_foreign_keys :: bool
  sq_migration :: bool
  sq_open_read :: "nat \<Rightarrow> string + nat"

record slot =
  sl_conn :: nat
  sl_in_use :: bool

fun open_slots :: "sqlite \<Rightarrow> nat \<Rightarrow> nat \<Rightarrow> string + slot list" where
  "open_slots sq k 0 = Inr []"
| "open_slots sq k (Suc n) =
     (case sq_open_read sq k of
        Inl e \<Rightarrow> Inl (''ConnectionPool: cannot open read connection: '' @ e)
      | Inr c \<Rightarrow> (case open_slots sq (Suc k) n of Inl e \<Rightarrow> Inl e | Inr ss \<Rightarrow> Inr (\<lparr>sl_conn = c, sl_in_use = False\<rparr> # ss)))"

text \<open>A negative size cast to \<^verbatim>\<open>size_t\<close> is more than a vector may hold.\<close>

definition ConnectionPool :: "sqlite \<Rightarrow> AppConfig \<Rightarrow> int \<Rightarrow> string + slot list" where
  "ConnectionPool sq config pool_size =
     (let n = (if pool_size \<le> 0 then sv_worker_threads (ac_server config) else pool_size)
      in if n < 0 then Inl ''vector::_M_default_append'' else open_slots sq 0 (nat n))"

text \<open>\<^verbatim>\<open>acquire\<close> is \<open>None\<close> while it waits.\<close>

fun acquire :: "slot list \<Rightarrow> (nat \<times> slot list) option" where
  "acquire [] = None"
| "acquire (s # ss) =
     (if \<not> sl_in_use s then Some (sl_conn s, s\<lparr>sl_in_use := True\<rparr> # ss)
      else map_option (map_prod id ((#) s)) (acquire ss))"

fun release :: "nat \<Rightarrow> slot list \<Rightarrow> slot list" where
  "release conn [] = []"
| "release conn (s # ss) = (if sl_conn s = conn then s\<lparr>sl_in_use := False\<rparr> # ss else s # release conn ss)"

lemma open_slots_Inr: "sq_open_read sq = Inr \<Longrightarrow> \<exists>ss. open_slots sq k n = Inr ss"
  by (induction n arbitrary: k) (auto split: sum.split, metis Inl_Inr_False)

section \<open>The manager\<close>

record database_manager =
  dm_open :: bool
  dm_connected :: bool
  dm_pool :: "slot list option"
  dm_log :: "string list"

definition closed_manager :: "string list \<Rightarrow> database_manager" where
  "closed_manager log = \<lparr>dm_open = False, dm_connected = False, dm_pool = None, dm_log = log\<rparr>"

definition DataBaseManager :: "sqlite \<Rightarrow> AppConfig \<Rightarrow> int \<Rightarrow> database_manager" where
  "DataBaseManager sq config read_pool_size =
     (if \<not> sq_open sq then closed_manager [''[DB] Failed to open'']
      else if \<not> sq_wal sq then closed_manager [''[DB] Opened'', ''[DB] Failed to enable WAL'']
      else if \<not> sq_foreign_keys sq then closed_manager [''[DB] Opened'', ''[DB] Failed to enable foreign keys'']
      else if \<not> sq_migration sq then closed_manager [''[DB] Opened'', ''[DB] Migration error'', ''[DB] Migration failed'']
      else case ConnectionPool sq config read_pool_size of
        Inl e \<Rightarrow> closed_manager [''[DB] Opened'', ''[DB] Migration applied'', ''[DB] Pool creation failed: '' @ e]
      | Inr pool \<Rightarrow> \<lparr>dm_open = True, dm_connected = True, dm_pool = Some pool, dm_log = [''[DB] Opened'', ''[DB] Migration applied'']\<rparr>)"

definition isConnected :: "database_manager \<Rightarrow> bool" where
  "isConnected m = dm_connected m"

definition getDB :: "database_manager \<Rightarrow> unit option" where
  "getDB m = (if \<not> dm_connected m then None else Some ())"

lemma connected_has_pool: "isConnected (DataBaseManager sq config n) \<longleftrightarrow> dm_pool (DataBaseManager sq config n) \<noteq> None"
  by (auto simp: isConnected_def DataBaseManager_def closed_manager_def split: sum.split)

section \<open>Readers\<close>

text \<open>The pool and the handles that guards hold.\<close>

record guards =
  gd_slots :: "slot list"
  gd_held :: "nat list"

inductive guard_step :: "guards \<Rightarrow> guards \<Rightarrow> bool" where
  acquires: "acquire (gd_slots g) = Some (c, ss) \<Longrightarrow> guard_step g \<lparr>gd_slots = ss, gd_held = gd_held g @ [c]\<rparr>"
| releases: "c \<in> set (gd_held g) \<Longrightarrow> guard_step g \<lparr>gd_slots = release c (gd_slots g), gd_held = remove1 c (gd_held g)\<rparr>"

fun used_conns :: "slot list \<Rightarrow> nat list" where
  "used_conns [] = []"
| "used_conns (s # ss) = (if sl_in_use s then sl_conn s # used_conns ss else used_conns ss)"

lemma used_subset: "c \<in> set (used_conns ss) \<Longrightarrow> c \<in> set (map sl_conn ss)"
  by (induction ss) (auto split: if_splits)

lemma all_used: "distinct (map sl_conn ss) \<Longrightarrow> set (used_conns ss) = set (map sl_conn ss) \<longleftrightarrow> list_all sl_in_use ss"
proof (induction ss)
  case (Cons s ss)
  then have "sl_conn s \<notin> set (used_conns ss)" using used_subset [of "sl_conn s" ss] by auto
  then show ?case using Cons by (auto simp: insert_ident)
qed simp

definition guards_ok :: "nat list \<Rightarrow> guards \<Rightarrow> bool" where
  "guards_ok conns g \<longleftrightarrow> map sl_conn (gd_slots g) = conns \<and> distinct conns \<and> distinct (gd_held g) \<and>
     set (gd_held g) = set (used_conns (gd_slots g))"

lemma acquire_Some:
  assumes "acquire ss = Some (c, ss')" and "distinct (map sl_conn ss)"
  shows "map sl_conn ss' = map sl_conn ss \<and> c \<notin> set (used_conns ss) \<and> set (used_conns ss') = insert c (set (used_conns ss))"
  using assms
proof (induction ss arbitrary: ss')
  case (Cons s ss)
  show ?case
  proof (cases "sl_in_use s")
    case False
    then show ?thesis using Cons.prems used_subset [of c ss] by auto
  next
    case True
    then obtain ss1 where ss1: "acquire ss = Some (c, ss1)" "ss' = s # ss1" using Cons.prems(1) by auto
    with Cons.IH [OF ss1(1)] Cons.prems(2) have ih: "map sl_conn ss1 = map sl_conn ss" "c \<notin> set (used_conns ss)"
      "set (used_conns ss1) = insert c (set (used_conns ss))" by auto
    have "c \<in> set (map sl_conn ss)" using used_subset [of c ss1] ih by (metis insertI1)
    then show ?thesis using ih True ss1(2) Cons.prems(2) by auto
  qed
qed simp

lemma acquire_None: "acquire ss = None \<longleftrightarrow> list_all sl_in_use ss"
  by (induction ss) auto

lemma release_used:
  "distinct (map sl_conn ss) \<Longrightarrow> map sl_conn (release c ss) = map sl_conn ss \<and> set (used_conns (release c ss)) = set (used_conns ss) - {c}"
proof (induction ss)
  case (Cons s ss)
  then show ?case using used_subset [of "sl_conn s" ss] by auto
qed simp

lemma guards_ok_step: "guard_step g g' \<Longrightarrow> guards_ok conns g \<Longrightarrow> guards_ok conns g'"
proof (induction rule: guard_step.induct)
  case (acquires g c ss)
  then show ?case using acquire_Some [OF acquires(1)] by (auto simp: guards_ok_def)
next
  case (releases c g)
  then show ?case using release_used [of "gd_slots g" c] by (auto simp: guards_ok_def)
qed

text \<open>
  No two guards hold the same connection, a guard waits only while every connection is held, and no
  connection gets lost: over any interleaving of readers the pool keeps its connections and marks exactly
  the held ones. SQLite gives a new handle for every opened connection.
\<close>

lemma guards_exclusive:
  assumes "guard_step\<^sup>*\<^sup>* \<lparr>gd_slots = ss, gd_held = []\<rparr> g" and "open_slots sq 0 n = Inr ss" and "distinct (map sl_conn ss)"
  shows "distinct (gd_held g) \<and> set (gd_held g) \<subseteq> set (map sl_conn ss) \<and>
    (acquire (gd_slots g) = None \<longleftrightarrow> set (gd_held g) = set (map sl_conn ss))"
proof -
  have "open_slots sq k n = Inr ts \<Longrightarrow> used_conns ts = []" for k ts
    by (induction n arbitrary: k ts) (auto split: sum.splits)
  then have "guards_ok (map sl_conn ss) \<lparr>gd_slots = ss, gd_held = []\<rparr>" using assms(2,3) by (simp add: guards_ok_def)
  with assms(1) have ok: "guards_ok (map sl_conn ss) g"
    by (induction rule: rtranclp_induct) (auto intro: guards_ok_step)
  then have "set (gd_held g) = set (used_conns (gd_slots g))" "map sl_conn (gd_slots g) = map sl_conn ss" "distinct (gd_held g)"
    by (auto simp: guards_ok_def)
  then show ?thesis using all_used [of "gd_slots g"] used_subset [of _ "gd_slots g"] assms(3) by (auto simp: acquire_None)
qed

end
