(* ===== verification/Api_Main.thy ===== *)
theory Api_Main
  imports Api_Server Sockets Database_Manager
begin

text \<open>
  \<^verbatim>\<open>api-server/ApiServer.cpp\<close> and \<^verbatim>\<open>ApiMain.cpp\<close>: the life of the HTTPS server. The thread of \<^verbatim>\<open>run\<close> prepares TLS and
  the acceptor, then accepts until \<^verbatim>\<open>m_running\<close> is false; the main thread waits for a key and stops it; the
  workers of the pool handle the connections. The three are interleaved by \<open>api_step\<close>: a step is a stretch
  of code between two accesses to what they share. The accept call is a step of its own, since the flag may change
  while it blocks; whether it returns is up to the operating system.
\<close>

section \<open>State\<close>

datatype api_thread = No_Thread | Setting_Up | At_Loop_Head | In_Accept | Returned

record api_server =
  as_running :: bool
  as_acceptor :: acceptor
  as_thread :: api_thread
  as_stopping :: bool
  as_pool :: bool
  as_tasks :: "api_connection list"
  as_db :: db

definition API_PORT :: "16 word" where
  "API_PORT = 8080"

definition ApiServer :: "db \<Rightarrow> api_server" where
  "ApiServer d = \<lparr>as_running = False, as_acceptor = No_Acceptor, as_thread = No_Thread, as_stopping = False, as_pool = True,
     as_tasks = [], as_db = d\<rparr>"

text \<open>\<^verbatim>\<open>start\<close>; a second thread on top of a joinable one ends the program (\<open>None\<close>).\<close>

definition Api_start :: "api_server \<Rightarrow> api_server option" where
  "Api_start sv = (if as_thread sv = No_Thread then Some (sv\<lparr>as_running := True, as_thread := Setting_Up\<rparr>) else None)"

text \<open>
  \<^verbatim>\<open>main\<close> up to \<^verbatim>\<open>std::cin.get()\<close>: the exit code or the server. A new server has no thread, so its start does not end
  the program (134 would be the status of \<^verbatim>\<open>std::terminate\<close>).
\<close>

definition api_main :: "bool \<Rightarrow> sqlite \<Rightarrow> AppConfig \<Rightarrow> db \<Rightarrow> int + api_server" where
  "api_main sql_file_open sq config d =
     (if \<not> sql_file_open then Inl 1
      else if \<not> isConnected (DataBaseManager sq config 4) then Inl 1
      else case Api_start (ApiServer d) of None \<Rightarrow> Inl 134 | Some sv \<Rightarrow> Inr sv)"

section \<open>The accept loop\<close>

text \<open>What the calls before the loop do: certificate, key, and the acceptor on its port.\<close>

record api_setup =
  ps_certificate :: bool
  ps_key :: bool
  ps_bound :: "16 word \<Rightarrow> bool"

definition run_setup :: "api_setup \<Rightarrow> api_server \<Rightarrow> api_server" where
  "run_setup ps sv =
     (if \<not> ps_certificate ps \<or> \<not> ps_key ps \<or> \<not> ps_bound ps API_PORT then sv\<lparr>as_thread := Returned\<rparr>
      else sv\<lparr>as_acceptor := Tcp_Acceptor True, as_thread := At_Loop_Head\<rparr>)"

definition run_head :: "api_server \<Rightarrow> api_server" where
  "run_head sv = sv\<lparr>as_thread := if as_running sv then In_Accept else Returned\<rparr>"

text \<open>Behind the accept: an error ends the loop only when the server is stopping; a connection becomes a task.\<close>

definition run_accepted :: "api_connection option \<Rightarrow> api_server \<Rightarrow> api_server" where
  "run_accepted accepted sv =
     (case accepted of
        None \<Rightarrow> sv\<lparr>as_thread := if \<not> as_running sv then Returned else At_Loop_Head\<rparr>
      | Some c \<Rightarrow> sv\<lparr>as_thread := At_Loop_Head, as_tasks := (if as_pool sv then as_tasks sv @ [c] else as_tasks sv)\<rparr>)"

text \<open>\<^verbatim>\<open>stop\<close> up to the join, and behind it: \<^verbatim>\<open>terminate\<close> drops the tasks that no worker has started.\<close>

definition stop_begin :: "api_server \<Rightarrow> api_server" where
  "stop_begin sv = sv\<lparr>as_running := False, as_acceptor := snd (Acceptor_Stop True (as_acceptor sv)), as_stopping := True\<rparr>"

definition stop_end :: "api_server \<Rightarrow> api_server" where
  "stop_end sv = sv\<lparr>as_thread := No_Thread, as_stopping := False, as_pool := False, as_tasks := []\<rparr>"

inductive api_step :: "api_env \<Rightarrow> engine \<Rightarrow> api_server \<Rightarrow> api_server \<Rightarrow> bool" for env engine where
  sets_up: "as_thread sv = Setting_Up \<Longrightarrow> api_step env engine sv (run_setup ps sv)"
| loop_head: "as_thread sv = At_Loop_Head \<Longrightarrow> api_step env engine sv (run_head sv)"
| accept_returns: "as_thread sv = In_Accept \<Longrightarrow> accepted \<noteq> None \<longrightarrow> as_acceptor sv = Tcp_Acceptor True \<Longrightarrow>
    api_step env engine sv (run_accepted accepted sv)"
| task_done: "as_tasks sv = ts @ c # us \<Longrightarrow> as_pool sv \<Longrightarrow>
    api_step env engine sv (sv\<lparr>as_tasks := ts @ us, as_db := snd (handleConnection env engine c (as_db sv))\<rparr>)"
| stops: "\<not> as_stopping sv \<Longrightarrow> as_pool sv \<Longrightarrow> api_step env engine sv (stop_begin sv)"
| joined: "as_stopping sv \<Longrightarrow> as_thread sv \<in> {No_Thread, Returned} \<Longrightarrow> api_step env engine sv (stop_end sv)"

inductive_cases api_stepE: "api_step env engine sv sv'"

lemmas api_defs = run_setup_def run_head_def run_accepted_def stop_begin_def stop_end_def

section \<open>What the server keeps\<close>

text \<open>The store stays consistent, whatever requests arrive.\<close>

lemma handleChangePassword_step: "db_inv d \<Longrightarrow> store_step d (snd (handleChangePassword env engine body d))"
  by (auto simp: handleChangePassword_def store_step_refl split: sum.split option.split prod.split bind_splits
      dest!: arg_cong [where f = snd] intro: user_call_step)

lemma handleRegister_step: "db_inv d \<Longrightarrow> store_step d (snd (handleRegister env engine body d))"
  by (auto simp: handleRegister_def store_step_refl split: sum.split prod.split
      dest!: arg_cong [where f = snd] intro: registerUser_step)

lemma handleConnection_step: "db_inv d \<Longrightarrow> store_step d (snd (handleConnection env engine c d))"
  using handleRegister_step handleChangePassword_step
  by (auto simp: handleConnection_def Api_handle_def store_step_refl split: option.split prod.split dest!: arg_cong [where f = snd])

definition api_inv :: "api_server \<Rightarrow> bool" where
  "api_inv sv \<longleftrightarrow> db_inv (as_db sv) \<and> (as_stopping sv \<or> \<not> as_pool sv \<longrightarrow> \<not> as_running sv) \<and>
     (\<not> as_pool sv \<longrightarrow> as_tasks sv = [] \<and> as_thread sv = No_Thread \<and> \<not> as_stopping sv)"

lemma api_step_inv:
  assumes "api_step env engine sv sv'" "api_inv sv"
  shows "api_inv sv' \<and> store_step (as_db sv) (as_db sv')"
  using assms
proof (cases rule: api_step.cases)
  case (task_done ts c us)
  then show ?thesis
    using assms(2) handleConnection_step [of "as_db sv" env engine c] by (auto simp: api_inv_def store_step_def)
qed (auto simp: api_inv_def api_defs store_step_refl split: option.split)

lemma api_main_inv: "api_main opened sq config d = Inr sv \<Longrightarrow> db_inv d \<Longrightarrow> api_inv sv \<and> as_db sv = d"
  by (auto simp: api_main_def Api_start_def ApiServer_def api_inv_def split: if_splits)

text \<open>From the start to the end of the program the store stays consistent and no folder's next UID goes back.\<close>

lemma api_run_integrity:
  assumes "api_main opened sq config d = Inr sv0" "db_inv d" "(api_step env engine)\<^sup>*\<^sup>* sv0 sv"
  shows "api_inv sv \<and> uid_extends d (as_db sv)"
  using assms(3)
proof (induction rule: rtranclp_induct)
  case base
  then show ?case using api_main_inv [OF assms(1,2)] by simp
next
  case (step sv sv')
  then show ?case
    using api_step_inv [OF step.hyps(2)] uid_extends_trans [of d "as_db sv" "as_db sv'"] assms(2)
    by (auto simp: store_step_def api_inv_def)
qed

section \<open>Stopping\<close>

text \<open>Once \<^verbatim>\<open>stop\<close> has returned nothing happens any more: no connection is accepted and no request is handled.\<close>

lemma stopped_api_is_silent:
  assumes "api_inv sv" "\<not> as_pool sv"
  shows "\<not> api_step env engine sv sv'"
  using assms by (auto simp: api_inv_def elim: api_stepE)

text \<open>
  \<^verbatim>\<open>stop\<close> returns as soon as the pending accept returns: two more steps of the loop at most, then the join. Closing the
  acceptor keeps that accept from delivering a connection.
\<close>

lemma stop_returns:
  assumes "as_stopping sv" "\<not> as_running sv" "as_thread sv \<noteq> Setting_Up"
  shows "\<exists>sv'. (api_step env engine)\<^sup>*\<^sup>* sv sv' \<and> api_step env engine sv' (stop_end sv')"
proof (cases "as_thread sv")
  case At_Loop_Head
  then have "api_step env engine sv (run_head sv)" by (rule api_step.loop_head)
  moreover have "api_step env engine (run_head sv) (stop_end (run_head sv))"
    using assms by (intro api_step.joined) (simp_all add: run_head_def)
  ultimately show ?thesis by blast
next
  case In_Accept
  then have "api_step env engine sv (run_accepted None sv)" by (rule api_step.accept_returns) simp
  moreover have "api_step env engine (run_accepted None sv) (stop_end (run_accepted None sv))"
    using assms by (intro api_step.joined) (simp_all add: run_accepted_def)
  ultimately show ?thesis by blast
qed (use assms in \<open>auto intro!: exI [of _ sv] api_step.joined\<close>)

end
