(* ===== verification/Admin_Tools.thy ===== *)
theory Admin_Tools
  imports Repository_Behaviour Imap_Utils "HOL-Library.Monad_Syntax"
begin

text \<open>
  \<^verbatim>\<open>mua/tools\<close>: the programs that create and delete test accounts, over the user repository. A program maps the
  database to the texts it prints, its exit code and the database after it; the row of a user that was
  read from the table has an identifier.
\<close>

section \<open>Creating accounts\<close>

definition is_slash :: "char \<Rightarrow> bool" where
  "is_slash c \<longleftrightarrow> c = CHR ''/'' \<or> c = BSLASH"

definition normalizeRoot :: "string \<Rightarrow> string" where
  "normalizeRoot root =
     (let r = rev (dropWhile is_slash (rev root)) in if r = [] then [] else r @ ''/'')"

definition succeeded :: "'a action \<Rightarrow> bool" where
  "succeeded r = (case fst r of Inl _ \<Rightarrow> False | Inr _ \<Rightarrow> True)"

text \<open>\<^verbatim>\<open>ensureUser\<close> of \<^verbatim>\<open>seed_users.cpp\<close> and of \<^verbatim>\<open>seed_stress_users.cpp\<close>.\<close>

definition ensureUser ::
  "(string \<Rightarrow> string option) \<Rightarrow> engine \<Rightarrow> string \<Rightarrow> string \<Rightarrow> string option \<Rightarrow> string option \<Rightarrow> string option \<Rightarrow> db \<Rightarrow> bool \<times> db" where
  "ensureUser pwhash engine username password firstName lastName birthdate d =
     (case UserDAL_findByUsername engine d username of
        None \<Rightarrow>
          (let r = registerUser pwhash engine d
                     \<lparr>u_id = None, u_username = username, u_password_hash = [], u_first_name = firstName, u_last_name = lastName,
                      u_birthdate = birthdate, u_avatar_b64 = None\<rparr> password
           in (succeeded r, snd r))
      | Some existing \<Rightarrow>
          (let i = the (u_id existing);
               r1 = changePassword pwhash engine d i password;
               r2 = updateProfile engine (snd r1) i firstName lastName birthdate;
               r3 = updateAvatar engine (snd r2) i None
           in if \<not> succeeded r1 then (False, snd r1)
              else if \<not> succeeded r2 then (False, snd r2)
              else (succeeded r3, snd r3)))"

definition ensureStressUser :: "(string \<Rightarrow> string option) \<Rightarrow> engine \<Rightarrow> string \<Rightarrow> string \<Rightarrow> db \<Rightarrow> bool \<times> db" where
  "ensureStressUser pwhash engine username password d =
     (case UserDAL_findByUsername engine d username of
        None \<Rightarrow>
          (let r = registerUser pwhash engine d
                     \<lparr>u_id = None, u_username = username, u_password_hash = [], u_first_name = None, u_last_name = None,
                      u_birthdate = None, u_avatar_b64 = None\<rparr> password
           in (succeeded r, snd r))
      | Some existing \<Rightarrow> (let r = changePassword pwhash engine d (the (u_id existing)) password in (succeeded r, snd r)))"

definition seed_users :: "(string \<Rightarrow> string option) \<Rightarrow> engine \<Rightarrow> db \<Rightarrow> nat \<times> db" where
  "seed_users pwhash engine d =
     (let (ok1, d1) = ensureUser pwhash engine ''alice'' ''pass'' (Some ''Alice'') (Some ''User'') (Some ''1990-01-01'') d;
          (ok2, d2) = ensureUser pwhash engine ''bob'' ''pass'' (Some ''Bob'') (Some ''User'') (Some ''1991-01-01'') d1
      in (if ok2 \<and> ok1 then 0 else 1, d2))"

definition stress_name :: "nat \<Rightarrow> string" where
  "stress_name i = ''stress_user'' @ nat_to_string i"

fun seed_loop :: "(string \<Rightarrow> string option) \<Rightarrow> engine \<Rightarrow> nat list \<Rightarrow> bool \<Rightarrow> db \<Rightarrow> string list \<times> bool \<times> db" where
  "seed_loop pwhash engine [] ok d = ([], ok, d)"
| "seed_loop pwhash engine (i # is) ok d =
     (case ensureStressUser pwhash engine (stress_name i) ''pass'' d of
        (True, d') \<Rightarrow> seed_loop pwhash engine is ok d'
      | (False, d') \<Rightarrow>
          (case seed_loop pwhash engine is False d' of
             (out, r) \<Rightarrow> ((''Failed to create user: '' @ stress_name i @ [LF]) # out, r)))"

definition seed_stress_users :: "(string \<Rightarrow> string option) \<Rightarrow> engine \<Rightarrow> int \<Rightarrow> db \<Rightarrow> string list \<times> nat \<times> db" where
  "seed_stress_users pwhash engine count d =
     (case seed_loop pwhash engine [1 ..< nat count + 1] True d of
        (out, ok, d') \<Rightarrow>
          ([''Seeding '' @ int_to_string count @ '' stress test users...'' @ [LF]] @ out @
           (if ok then [''Done! Created '' @ int_to_string count @ '' users (stress_user1..stress_user'' @ int_to_string count @ ''), password: pass'' @ [LF]]
            else []), if ok then 0 else 1, d'))"

section \<open>Deleting accounts\<close>

text \<open>The pattern \<^verbatim>\<open>^stress_user[0-9]+$\<close> for the whole name.\<close>

definition stressUserPattern :: "string \<Rightarrow> bool" where
  "stressUserPattern name \<longleftrightarrow>
     (let p = ''stress_user''; rest = drop (length p) name in take (length p) name = p \<and> rest \<noteq> [] \<and> list_all is_digit_char rest)"

fun delete_batch :: "engine \<Rightarrow> user list \<Rightarrow> nat \<Rightarrow> db \<Rightarrow> nat \<times> db" where
  "delete_batch engine [] deleted d = (deleted, d)"
| "delete_batch engine (u # us) deleted d =
     (if stressUserPattern (u_username u)
      then let r = hardDelete_user engine d (the (u_id u))
           in delete_batch engine us (if succeeded r then deleted + 1 else deleted) (snd r)
      else delete_batch engine us deleted d)"

definition batchSize :: nat where
  "batchSize = 100"

text \<open>The loop over the pages; its result is the number of deleted accounts.\<close>

partial_function (option) delete_loop :: "engine \<Rightarrow> nat \<Rightarrow> nat \<Rightarrow> db \<Rightarrow> (nat \<times> db) option" where
  "delete_loop engine offset deleted d =
     (let batch = UserDAL_findAll engine d (int batchSize) (int offset) in
      if batch = [] then Some (deleted, d)
      else let r = delete_batch engine batch deleted d in
        if length batch < batchSize then Some r
        else delete_loop engine (offset + batchSize) (fst r) (snd r))"

definition delete_stress_users :: "engine \<Rightarrow> db \<Rightarrow> (nat \<times> db) option" where
  "delete_stress_users engine d = delete_loop engine 0 0 d"

section \<open>The loop ends\<close>

lemma page_length:
  "length (UserDAL_findAll engine d (int batchSize) (int offset)) \<le> length (db_users d) - offset"
  unfolding UserDAL_findAll_def by (rule order_trans [OF read_many_length]) (simp add: limit_offset_def Let_def)

lemma hardDelete_fewer: "length (db_users (snd (hardDelete_user engine d i))) \<le> length (db_users d)"
  by (auto simp: hardDelete_user_def autocommit_def UserDAL_hardDelete_def run_write_def delete_user_def Let_def split: option.split)

lemma delete_batch_fewer: "length (db_users (snd (delete_batch engine us k d))) \<le> length (db_users d)"
proof (induction us arbitrary: k d)
  case (Cons u us)
  then show ?case
    using le_trans [OF Cons.IH hardDelete_fewer] by (simp add: Let_def)
qed simp

lemma delete_loop_returns: "\<exists>r. delete_loop engine offset deleted d = Some r"
proof (induction "length (db_users d) - offset" arbitrary: offset deleted d rule: less_induct)
  case less
  let ?b = "UserDAL_findAll engine d (int batchSize) (int offset)"
  let ?r = "delete_batch engine ?b deleted d"
  show ?case
  proof (cases "?b = [] \<or> length ?b < batchSize")
    case True
    then show ?thesis by (subst delete_loop.simps) (auto simp: Let_def)
  next
    case False
    then have "0 < length (db_users d) - offset" using page_length [of engine d offset] by (cases ?b) auto
    then have "length (db_users (snd ?r)) - (offset + batchSize) < length (db_users d) - offset"
      using delete_batch_fewer [of engine ?b deleted d] by (simp add: batchSize_def)
    from less [OF this] show ?thesis using False by (subst delete_loop.simps) (simp add: Let_def)
  qed
qed

section \<open>Accounts that are left\<close>

text \<open>Deleting a page of accounts that are all in the table removes exactly these.\<close>

lemma hardDelete_healthy:
  assumes "u \<in> set (db_users d)" and "u_id u = Some i"
  shows "succeeded (hardDelete_user healthy d i) \<and>
    db_users (snd (hardDelete_user healthy d i)) = filter (\<lambda>v. u_id v \<noteq> Some i) (db_users d)"
proof -
  have "UserDAL_findByID healthy d i \<noteq> None"
    using assms by (auto simp: UserDAL_findByID_def read_one_healthy filter_empty_conv split: list.split)
  then show ?thesis
    by (auto simp: hardDelete_user_def autocommit_def UserDAL_hardDelete_def run_write_def healthy_def delete_user_def succeeded_def Let_def)
qed

lemma delete_batch_exact:
  assumes "list_all (\<lambda>u. stressUserPattern (u_username u) \<and> u_id u \<noteq> None \<and> (\<exists>v \<in> set (db_users d). u_id v = u_id u)) us"
    and "distinct (map u_id us)"
  shows "fst (delete_batch healthy us k d) = k + length us \<and>
    db_users (snd (delete_batch healthy us k d)) = filter (\<lambda>v. u_id v \<notin> set (map u_id us)) (db_users d)"
  using assms
proof (induction us arbitrary: k d)
  case (Cons u us)
  then obtain v i where v: "v \<in> set (db_users d)" "u_id v = Some i" "u_id u = Some i" by auto
  let ?d = "snd (hardDelete_user healthy d i)"
  have h: "succeeded (hardDelete_user healthy d i)" "db_users ?d = filter (\<lambda>v. u_id v \<noteq> Some i) (db_users d)"
    using hardDelete_healthy [OF v(1,2)] by simp_all
  have "list_all (\<lambda>u. stressUserPattern (u_username u) \<and> u_id u \<noteq> None \<and> (\<exists>v \<in> set (db_users ?d). u_id v = u_id u)) us"
    using Cons.prems v(3) by (force simp: list_all_iff h(2) image_iff)
  from Cons.IH [OF this, of "Suc k"] have "fst (delete_batch healthy us (Suc k) ?d) = Suc k + length us"
    "db_users (snd (delete_batch healthy us (Suc k) ?d)) = filter (\<lambda>v. u_id v \<notin> set (map u_id us)) (db_users ?d)"
    using Cons.prems(2) by (simp_all del: healthy_simp)
  moreover have "delete_batch healthy (u # us) k d = delete_batch healthy us (Suc k) ?d"
    using Cons.prems(1) h(1) v(3) by (simp add: Let_def del: healthy_simp)
  ultimately show ?case using v(3) by (simp add: h(2) conj_commute del: healthy_simp)
qed simp

lemma length_filter_notin:
  assumes "distinct (map f xs)" and "distinct ks" and "set ks \<subseteq> set (map f xs)"
  shows "length (filter (\<lambda>x. f x \<notin> set ks) xs) = length xs - length ks"
proof -
  have "length (filter (\<lambda>x. f x \<in> set ks) xs) = card (set (map f (filter (\<lambda>x. f x \<in> set ks) xs)))"
    using distinct_card [of "map f (filter (\<lambda>x. f x \<in> set ks) xs)"] assms(1) by (simp add: distinct_map inj_on_def)
  also have "set (map f (filter (\<lambda>x. f x \<in> set ks) xs)) = set ks" using assms(3) by auto
  finally have "length (filter (\<lambda>x. f x \<in> set ks) xs) = length ks" using assms(2) by (simp add: distinct_card)
  then show ?thesis using sum_length_filter_compl [of "\<lambda>x. f x \<in> set ks" xs] by simp
qed

text \<open>
  The program is meant to delete all test accounts, but it moves on by a whole page after the rows of the
  page are gone: with more than one page of test accounts it stops with the others still there.
\<close>

lemma delete_skips_accounts:
  assumes "db_inv d" and "list_all (\<lambda>u. stressUserPattern (u_username u)) (db_users d)"
    and "batchSize < length (db_users d)" and "length (db_users d) \<le> 2 * batchSize"
  shows "\<exists>d'. delete_stress_users healthy d = Some (batchSize, d') \<and> length (db_users d') = length (db_users d) - batchSize"
proof -
  let ?rows = "sort_key u_username (db_users d)"
  let ?b = "map row_no_avatar (take batchSize ?rows)"
  have page: "UserDAL_findAll healthy e (int batchSize) (int k) = map row_no_avatar (take batchSize (drop k (sort_key u_username (db_users e))))" for e k
    by (simp add: UserDAL_findAll_def read_many_healthy limit_offset_def Let_def drop_map take_map)
  have len: "length ?b = batchSize" using assms(3) by simp
  have dist: "distinct (map u_id (db_users d))" and some: "\<forall>u \<in> set (db_users d). u_id u \<noteq> None"
    using assms(1) by (auto simp: store_inv_def users_ok_def ids_ok_def split: option.splits)
  have sub: "set (take batchSize ?rows) \<subseteq> set (db_users d)" by (metis set_sort set_take_subset)
  have ids: "map u_id ?b = map u_id (take batchSize ?rows)" by (simp add: row_no_avatar_def comp_def)
  have "distinct (take batchSize (map u_id ?rows))" using dist by (intro distinct_take) (simp add: distinct_map)
  then have distb: "distinct (map u_id ?b)" unfolding ids by (simp add: take_map)
  have all: "list_all (\<lambda>u. stressUserPattern (u_username u) \<and> u_id u \<noteq> None \<and> (\<exists>v \<in> set (db_users d). u_id v = u_id u)) ?b"
    using sub assms(2) some by (force simp: list_all_iff row_no_avatar_def)
  define r where "r = delete_batch healthy ?b 0 d"
  have r: "fst r = batchSize" "db_users (snd r) = filter (\<lambda>v. u_id v \<notin> set (map u_id ?b)) (db_users d)"
    using delete_batch_exact [OF all distb, of 0] len by (simp_all add: r_def del: map_map)
  have "length (db_users (snd r)) = length (db_users d) - length (map u_id ?b)"
    unfolding r(2) by (rule length_filter_notin [OF dist distb]) (use sub ids in auto)
  then have left: "length (db_users (snd r)) = length (db_users d) - batchSize" using len by simp
  have "delete_loop healthy (0 + batchSize) batchSize (snd r) = Some (batchSize, snd r)"
    using left assms(4) by (subst delete_loop.simps) (simp add: Let_def page)
  moreover have "delete_loop healthy 0 0 d = delete_loop healthy (0 + batchSize) (fst r) (snd r)"
  proof -
    have "UserDAL_findAll healthy d (int batchSize) (int 0) = ?b" by (simp only: page drop_0)
    moreover have "0 < length ?b" unfolding len by (simp add: batchSize_def)
    then have "?b \<noteq> []" by (rule length_greater_0_conv [THEN iffD1])
    ultimately show ?thesis using len by (subst delete_loop.simps) (simp only: Let_def r_def if_False less_irrefl)
  qed
  ultimately show ?thesis using left r(1) by (auto simp: delete_stress_users_def)
qed

end
