(* ===== verification/Smtp_Server.thy ===== *)
theory Smtp_Server
  imports Smtp_Laws Sockets Database_Manager "HOL-Library.AList"
begin

text \<open>
  \<^verbatim>\<open>server/server_main.cpp\<close>: the start of the SMTP server, its accept loop and the connections that its
  four worker threads serve side by side on one mail store.

  A connection has the number it was accepted with. It waits in the queue of the thread pool
  (\<open>sm_waiting\<close>), is served by a worker (\<open>sm_served\<close>, with its session), or is closed. The tasks all have
  the same priority, so a free worker may take any of them. A step is one turn of the accept loop, the start
  of a task, one line of one connection (the turn of the \<^verbatim>\<open>while\<close> loop around \<^verbatim>\<open>ProcessLine\<close>, which is
  \<open>serve\<close> of the session model), a failing \<^verbatim>\<open>Receive\<close>, or repository calls of another process that has the
  same database open. The calls that one final dot makes on the repositories are one step here; for
  interleavings of single repository calls see \<open>Repository_Laws\<close>.
\<close>

section \<open>State\<close>

record smtp_server =
  sm_world :: world
  sm_acceptor :: acceptor
  sm_waiting :: "nat list"
  sm_served :: "(nat \<times> smtp_session) list"
  sm_closed :: "nat list"
  sm_count :: nat

definition PORT :: "16 word" where
  "PORT = 25000"

definition SERVER_DOMAIN :: string where
  "SERVER_DOMAIN = ''localhost''"

definition WORKER_THREADS :: nat where
  "WORKER_THREADS = 4"

text \<open>
  What \<^verbatim>\<open>main\<close> finds: the result of \<^verbatim>\<open>sodium_init\<close>, SQLite, the outcomes of setting up the acceptor, and
  whether one of the constructors of logger, event loop and thread pool throws.
\<close>

record smtp_setup =
  st_sodium :: int
  st_sqlite :: sqlite
  st_config :: AppConfig
  st_throws :: bool
  st_tcp :: tcp_setup

text \<open>\<^verbatim>\<open>main\<close> up to its loop: the exit code, or the server that then loops for ever.\<close>

definition smtp_main :: "smtp_setup \<Rightarrow> world \<Rightarrow> int + smtp_server" where
  "smtp_main st w =
     (if st_sodium st < 0 then Inl 1
      else if \<not> isConnected (DataBaseManager (st_sqlite st) (st_config st) 0) then Inl 1
      else if st_throws st then Inl 0
      else case Acceptor_Initialize (st_tcp st) PORT No_Acceptor of
        (False, a) \<Rightarrow> Inl 1
      | (True, a) \<Rightarrow>
          Inr \<lparr>sm_world = w, sm_acceptor = a, sm_waiting = [], sm_served = [], sm_closed = [], sm_count = 0\<rparr>)"

section \<open>Steps\<close>

datatype smtp_event =
    Accept_Turn "bool \<Rightarrow> unit option" | Start_Task nat bool | Line nat received | Hang_Up nat
  | Other_Process "string \<Rightarrow> string option" "repo_call list"

text \<open>One turn of the accept loop: a failed \<^verbatim>\<open>Accept\<close> only tries again.\<close>

definition accept_turn :: "(bool \<Rightarrow> unit option) \<Rightarrow> smtp_server \<Rightarrow> smtp_server" where
  "accept_turn sys_accept sv =
     (case Acceptor_Accept sys_accept (sm_acceptor sv) of
        None \<Rightarrow> sv
      | Some _ \<Rightarrow> sv\<lparr>sm_waiting := sm_waiting sv @ [sm_count sv], sm_count := sm_count sv + 1\<rparr>)"

text \<open>A worker that is free starts a waiting task, which greets or closes the connection.\<close>

definition start_task :: "nat \<Rightarrow> bool \<Rightarrow> smtp_server \<Rightarrow> smtp_server" where
  "start_task i sent sv =
     (if i \<in> set (sm_waiting sv) \<and> length (sm_served sv) < WORKER_THREADS then
        (let sv' = sv\<lparr>sm_waiting := remove1 i (sm_waiting sv)\<rparr> in
         case accepted SERVER_DOMAIN sent (sm_world sv) of
           Running s w \<Rightarrow> sv'\<lparr>sm_served := sm_served sv @ [(i, s)]\<rparr>
         | _ \<Rightarrow> sv'\<lparr>sm_closed := sm_closed sv @ [i]\<rparr>)
      else sv)"

text \<open>The end of the task: \<^verbatim>\<open>shared_connection->Close()\<close>, and the worker is free again.\<close>

definition end_task :: "nat \<Rightarrow> smtp_server \<Rightarrow> smtp_server" where
  "end_task i sv =
     (if i \<in> set (map fst (sm_served sv))
      then sv\<lparr>sm_served := AList.delete i (sm_served sv), sm_closed := sm_closed sv @ [i]\<rparr> else sv)"

definition line_turn :: "backend \<Rightarrow> nat \<Rightarrow> received \<Rightarrow> smtp_server \<Rightarrow> smtp_server" where
  "line_turn be i r sv =
     (case map_of (sm_served sv) i of
        None \<Rightarrow> sv
      | Some s \<Rightarrow>
          (case serve be r (Running s (sm_world sv)) of
             Running s' w' \<Rightarrow> sv\<lparr>sm_served := AList.update i s' (sm_served sv), sm_world := w'\<rparr>
           | Ended w' \<Rightarrow> end_task i (sv\<lparr>sm_world := w'\<rparr>)
           | Crashed e w' \<Rightarrow> end_task i (sv\<lparr>sm_world := w'\<rparr>)))"

definition other_process :: "backend \<Rightarrow> (string \<Rightarrow> string option) \<Rightarrow> repo_call list \<Rightarrow> smtp_server \<Rightarrow> smtp_server" where
  "other_process be pwhash calls sv =
     sv\<lparr>sm_world := (sm_world sv)\<lparr>w_db := fold (exec_call pwhash (be_engine be)) calls (w_db (sm_world sv))\<rparr>\<rparr>"

fun server_step :: "backend \<Rightarrow> smtp_event \<Rightarrow> smtp_server \<Rightarrow> smtp_server" where
  "server_step be (Accept_Turn sys_accept) sv = accept_turn sys_accept sv"
| "server_step be (Start_Task i sent) sv = start_task i sent sv"
| "server_step be (Line i r) sv = line_turn be i r sv"
| "server_step be (Hang_Up i) sv = end_task i sv"
| "server_step be (Other_Process pwhash calls) sv = other_process be pwhash calls sv"

section \<open>The invariant\<close>

definition server_conns :: "smtp_server \<Rightarrow> nat list" where
  "server_conns sv = sm_waiting sv @ map fst (sm_served sv) @ sm_closed sv"

definition server_inv :: "smtp_server \<Rightarrow> bool" where
  "server_inv sv \<longleftrightarrow>
     db_inv (w_db (sm_world sv)) \<and>
     list_all (\<lambda>(i, s). smtp_inv s \<and> ss_state s \<notin> {ST_STARTTLS, CLOSED}) (sm_served sv) \<and>
     length (sm_served sv) \<le> WORKER_THREADS \<and>
     distinct (server_conns sv) \<and> set (server_conns sv) = {..< sm_count sv}"

lemma server_inv_db: "server_inv sv \<Longrightarrow> db_inv (w_db (sm_world sv))"
  by (simp add: server_inv_def)

lemma server_inv_session:
  assumes "server_inv sv" "map_of (sm_served sv) i = Some s"
  shows "conn_inv (Running s (sm_world sv))"
  using assms map_of_SomeD [OF assms(2)] by (auto simp: server_inv_def list_all_iff)

lemma update_subset: "set (AList.update k v al) \<subseteq> insert (k, v) (set al)"
  by (induction al) auto

text \<open>Moving a connection from one list to another, and the session of one connection.\<close>

lemma end_task_inv:
  assumes "server_inv sv" "db_inv (w_db w)"
  shows "server_inv (end_task i (sv\<lparr>sm_world := w\<rparr>))"
proof (cases "i \<in> set (map fst (sm_served sv))")
  case True
  have len: "length (AList.delete i (sm_served sv)) \<le> length (sm_served sv)" by (rule length_delete_le)
  have ran: "set (AList.delete i (sm_served sv)) \<subseteq> set (sm_served sv)" by (auto simp: AList.delete_eq)
  have keys: "map fst (AList.delete i (sm_served sv)) = removeAll i (map fst (sm_served sv))" by (rule delete_keys)
  show ?thesis
    using assms True len ran
    by (auto simp: server_inv_def server_conns_def end_task_def list_all_iff keys distinct_removeAll)
qed (use assms in \<open>simp add: end_task_def server_inv_def server_conns_def\<close>)

lemma update_session_inv:
  assumes inv: "server_inv sv" and i: "map_of (sm_served sv) i = Some s0" and new: "conn_inv (Running s w)"
  shows "server_inv (sv\<lparr>sm_served := AList.update i s (sm_served sv), sm_world := w\<rparr>)"
proof -
  have key: "i \<in> set (map fst (sm_served sv))" using map_of_SomeD [OF i] by force
  have keys: "map fst (AList.update i s (sm_served sv)) = map fst (sm_served sv)"
    using key by (simp add: update_keys)
  then have len: "length (AList.update i s (sm_served sv)) = length (sm_served sv)" by (metis length_map)
  have ran: "set (AList.update i s (sm_served sv)) \<subseteq> insert (i, s) (set (sm_served sv))"
    by (rule update_subset)
  show ?thesis
    using inv new ran by (fastforce simp: server_inv_def server_conns_def list_all_iff keys len)
qed

lemma start_task_inv: "server_inv sv \<Longrightarrow> server_inv (start_task i sent sv)"
  by (auto simp: server_inv_def server_conns_def start_task_def accepted_def SmtpSession_def smtp_inv_def MAX_MESSAGE_SIZE_def
      Let_def list_all_iff)

lemma accept_turn_inv: "server_inv sv \<Longrightarrow> server_inv (accept_turn sys_accept sv)"
  by (auto simp: server_inv_def server_conns_def accept_turn_def lessThan_Suc split: option.split)

lemma line_turn_inv:
  assumes inv: "server_inv sv"
  shows "server_inv (line_turn be i r sv)"
    and "store_step (w_db (sm_world sv)) (w_db (sm_world (line_turn be i r sv)))"
proof -
  have db: "db_inv (w_db (sm_world sv))" using inv by (simp add: server_inv_def)
  have "server_inv (line_turn be i r sv) \<and> store_step (w_db (sm_world sv)) (w_db (sm_world (line_turn be i r sv)))"
  proof (cases "map_of (sm_served sv) i")
    case None
    then show ?thesis using inv db by (simp add: line_turn_def store_step_refl)
  next
    case (Some s)
    have step: "conn_inv (serve be r (Running s (sm_world sv)))"
      "store_step (w_db (sm_world sv)) (w_db (conn_world (serve be r (Running s (sm_world sv)))))"
      using serve_step [OF server_inv_session [OF inv Some]] by simp_all
    show ?thesis
    proof (cases "serve be r (Running s (sm_world sv))")
      case (Running s' w')
      then show ?thesis using step update_session_inv [OF inv Some, of s' w'] Some by (simp add: line_turn_def)
    qed (use step Some end_task_inv [OF inv] in \<open>auto simp: line_turn_def end_task_def\<close>)
  qed
  then show "server_inv (line_turn be i r sv)"
    "store_step (w_db (sm_world sv)) (w_db (sm_world (line_turn be i r sv)))" by simp_all
qed

lemma other_process_step:
  assumes "server_inv sv"
  shows "server_inv (other_process be pwhash calls sv)"
    and "store_step (w_db (sm_world sv)) (w_db (sm_world (other_process be pwhash calls sv)))"
  using assms repo.run_inv repo.run_rel
  by (auto simp: server_inv_def server_conns_def other_process_def store_step_def)

lemma server_step_inv: "server_inv sv \<Longrightarrow> server_inv (server_step be e sv)"
  using end_task_inv [of sv "sm_world sv"] server_inv_db [of sv]
  by (cases e) (simp_all add: accept_turn_inv start_task_inv line_turn_inv other_process_step)

lemma server_step_store:
  assumes "server_inv sv"
  shows "store_step (w_db (sm_world sv)) (w_db (sm_world (server_step be e sv)))"
proof -
  have "store_step (w_db (sm_world sv)) (w_db (sm_world sv))" using assms by (simp add: server_inv_def store_step_refl)
  then show ?thesis
    using assms by (cases e)
      (auto simp: line_turn_inv other_process_step accept_turn_def start_task_def accepted_def end_task_def Let_def
        split: option.splits)
qed

interpretation smtp_net: guarded_system "server_step be" server_inv
  "\<lambda>a b. uid_extends (w_db (sm_world a)) (w_db (sm_world b))"
proof (unfold_locales, goal_cases)
  case (4 s u t)
  then show ?case using uid_extends_trans by (auto simp: server_inv_def)
qed (use server_step_inv server_step_store in \<open>auto simp: store_step_def\<close>)

text \<open>A line that leaves the store of its connection leaves that of the server.\<close>

lemma line_turn_same:
  assumes "map_of (sm_served sv) i = Some s"
    and "conn_world (serve be r (Running s (sm_world sv))) = conn_world (Running s (sm_world sv))"
  shows "sm_world (line_turn be i r sv) = sm_world sv"
  using assms by (cases "serve be r (Running s (sm_world sv))") (simp_all add: line_turn_def end_task_def del: serve.simps)

lemma smtp_main_inv: "smtp_main st w = Inr sv \<Longrightarrow> db_inv (w_db w) \<Longrightarrow> server_inv sv \<and> sm_world sv = w"
  by (auto simp: smtp_main_def server_inv_def server_conns_def split: if_splits prod.splits bool.splits)

section \<open>A server for the examples\<close>

definition test_setup :: smtp_setup where
  "test_setup = \<lparr>st_sodium = 0,
     st_sqlite = \<lparr>sq_open = True, sq_wal = True, sq_foreign_keys = True, sq_migration = True, sq_open_read = Inr\<rparr>,
     st_config = default_config, st_throws = False,
     st_tcp = \<lparr>su_created = True, su_opened = True, su_reuse = True, su_bound = (\<lambda>_. True), su_listens = True\<rparr>\<rparr>"

definition fresh_server :: "world \<Rightarrow> smtp_server" where
  "fresh_server w =
     \<lparr>sm_world = w, sm_acceptor = Tcp_Acceptor True, sm_waiting = [], sm_served = [], sm_closed = [], sm_count = 0\<rparr>"

lemma test_main: "smtp_main test_setup w = Inr (fresh_server w)"
proof -
  have "isConnected (DataBaseManager (st_sqlite test_setup) default_config 0)"
    using open_slots_Inr [of "st_sqlite test_setup" 0 4]
    by (auto simp: isConnected_def DataBaseManager_def test_setup_def ConnectionPool_def default_config_def)
  then show ?thesis
    by (simp add: smtp_main_def test_setup_def Acceptor_Initialize_def fresh_server_def)
qed

text \<open>Two clients; alice hands in a message while the other one only greets.\<close>

definition two_clients :: "smtp_event list" where
  "two_clients =
     [Accept_Turn (\<lambda>_. Some ()), Accept_Turn (\<lambda>_. Some ()), Start_Task 1 True, Start_Task 0 True] @
     map (\<lambda>l. Line 0 (received_line test_env l)) alice_lines @ [Line 1 (received_line test_env ''EHLO b'')]"

section \<open>Properties\<close>

text \<open>
  C17. From its start on, whatever the clients send on their connections and in whatever order the workers
  serve them, whatever the network, the file system, SQLite and other processes on the database do, the
  SMTP server keeps its invariant: mail data is only received in a session that authenticated over TLS and
  named a recipient, no collected body exceeds ten megabytes, a pending user name exists only while its
  password is awaited, at most four connections are served, every accepted connection is waiting, served or
  closed and none of them twice, the mail store stays consistent, and no folder's next UID goes back.
\<close>

theorem smtp_server_invariant:
  assumes "smtp_main st w = Inr sv" "db_inv (w_db w)"
  shows "server_inv (fold (server_step be) es sv) \<and>
    uid_extends (w_db w) (w_db (sm_world (fold (server_step be) es sv)))"
  using smtp_main_inv [OF assms] smtp_net.run_inv smtp_net.run_rel by blast

theorem smtp_server_invariant_witness:
  "server_inv (fold (server_step test_backend) two_clients (fresh_server empty_world)) \<and>
    uid_extends (w_db empty_world) (w_db (sm_world (fold (server_step test_backend) two_clients (fresh_server empty_world))))"
  by (rule smtp_server_invariant [OF test_main empty_world_inv])

text \<open>
  C18. The server changes the database and the mail files in one situation only: a client that authenticated
  on a TLS connection, with at least one accepted recipient, sends the line with the single dot on its own
  connection. Nothing another connection does makes up for a missing login.
\<close>

theorem only_authenticated_mail_is_stored:
  assumes "smtp_main st w = Inr sv0" "db_inv (w_db w)" "sv = fold (server_step be) es sv0"
    and "sm_world (server_step be e sv) \<noteq> sm_world sv" "\<forall>pwhash calls. e \<noteq> Other_Process pwhash calls"
  shows "\<exists>i r s. e = Line i r \<and> map_of (sm_served sv) i = Some s \<and> rc_line r = ''.'' \<and>
    ss_state s = RECEIVING_DATA \<and> ss_authenticated s \<and> ss_secure s \<and> ss_recipients s \<noteq> []"
proof -
  have inv: "server_inv sv" using smtp_main_inv [OF assms(1,2)] smtp_net.run_inv assms(3) by blast
  obtain i r where e: "e = Line i r"
    using assms(4,5) by (cases e)
      (auto simp: accept_turn_def start_task_def accepted_def end_task_def Let_def split: option.splits if_splits)
  obtain s where s: "map_of (sm_served sv) i = Some s" using assms(4) e by (auto simp: line_turn_def split: option.splits)
  have "conn_world (serve be r (Running s (sm_world sv))) \<noteq> conn_world (Running s (sm_world sv))"
    using assms(4) unfolding e server_step.simps by (rule contrapos_nn) (rule line_turn_same [OF s])
  from stored_when_authenticated [OF server_inv_session [OF inv s] this] e s show ?thesis by auto
qed

definition alice_server :: smtp_server where
  "alice_server = fold (server_step test_backend) two_clients (fresh_server alice_world)"

lemma alice_stores:
  "length (w_files (sm_world alice_server)) = 0"
  "length (w_files (sm_world (server_step test_backend (Line 0 (received_line test_env ''.'')) alice_server))) = 1"
  by code_simp+

theorem only_authenticated_mail_is_stored_witness:
  "\<exists>i s. map_of (sm_served alice_server) i = Some s \<and> ss_authenticated s \<and> ss_secure s \<and> ss_recipients s \<noteq> []"
proof -
  have "sm_world (server_step test_backend (Line 0 (received_line test_env ''.'')) alice_server) \<noteq> sm_world alice_server"
    using alice_stores by auto
  from only_authenticated_mail_is_stored [OF test_main alice_world_inv alice_server_def this] show ?thesis by blast
qed

text \<open>The lines of one connection among the events, and that its replies are sent and it does not hang up.\<close>

fun lines_of :: "nat \<Rightarrow> smtp_event list \<Rightarrow> string list" where
  "lines_of i [] = []"
| "lines_of i (Line j r # es) = (if i = j then rc_line r # lines_of i es else lines_of i es)"
| "lines_of i (_ # es) = lines_of i es"

fun stays_connected :: "nat \<Rightarrow> smtp_event \<Rightarrow> bool" where
  "stays_connected i (Line j r) \<longleftrightarrow> (i = j \<longrightarrow> rc_send_ok r)"
| "stays_connected i (Hang_Up j) \<longleftrightarrow> i \<noteq> j"
| "stays_connected i _ \<longleftrightarrow> True"

lemma data_text_Cons: "data_text (l # ls) = data_text [l] @ data_text ls"
  by (simp add: data_text_def)

text \<open>What the others do leaves the session of a served connection as it is.\<close>

lemma end_task_other: "i \<noteq> j \<Longrightarrow> map_of (sm_served (end_task j sv)) i = map_of (sm_served sv) i"
  by (simp add: end_task_def delete_conv')

lemma line_turn_other: "i \<noteq> j \<Longrightarrow> map_of (sm_served (line_turn be j r sv)) i = map_of (sm_served sv) i"
  by (auto simp: line_turn_def end_task_other update_conv' simp del: serve.simps split: option.split Smtp_Session.connection.split)

lemma start_task_served: "map_of (sm_served sv) i = Some s \<Longrightarrow> map_of (sm_served (start_task j sent sv)) i = Some s"
  by (auto simp: start_task_def accepted_def Let_def map_add_def)

lemma isolated_step:
  assumes "map_of (sm_served sv) i = Some s" "stays_connected i e" "lines_of i [e] = []"
  shows "map_of (sm_served (server_step be e sv)) i = Some s"
  using assms by (cases e)
    (auto simp: accept_turn_def start_task_served line_turn_other end_task_other other_process_def
      split: option.splits if_splits)

lemma own_line:
  assumes "map_of (sm_served sv) i = Some s" "ss_state s = RECEIVING_DATA" "rc_line r \<noteq> ''.''" "rc_send_ok r"
    and "length (ss_body s @ data_text [rc_line r]) \<le> MAX_MESSAGE_SIZE"
  shows "map_of (sm_served (line_turn be i r sv)) i = Some (s\<lparr>ss_body := ss_body s @ data_text [rc_line r]\<rparr>)"
  using assms(1) serve_line_collected [OF assms(2-5), of be "sm_world sv"]
  by (simp add: line_turn_def update_conv' del: serve.simps)

lemma interleaved_data:
  assumes "map_of (sm_served sv) i = Some s" "ss_state s = RECEIVING_DATA"
    and "list_all (stays_connected i) es" "''.'' \<notin> set (lines_of i es)"
    and "length (ss_body s @ data_text (lines_of i es)) \<le> MAX_MESSAGE_SIZE"
  shows "map_of (sm_served (fold (server_step be) es sv)) i = Some (s\<lparr>ss_body := ss_body s @ data_text (lines_of i es)\<rparr>)"
  using assms
proof (induction es arbitrary: sv s)
  case Nil
  then show ?case by (simp add: data_text_def)
next
  case (Cons e es)
  show ?case
  proof (cases "lines_of i [e] = []")
    case True
    then have "lines_of i (e # es) = lines_of i es" by (cases e) (auto split: if_splits)
    then show ?thesis using Cons.IH [OF isolated_step [OF Cons.prems(1) _ True]] Cons.prems by simp
  next
    case False
    then obtain r where e: "e = Line i r" by (cases e) (auto split: if_splits)
    have split: "data_text (lines_of i (e # es)) = data_text [rc_line r] @ data_text (lines_of i es)"
      by (simp only: e lines_of.simps if_True data_text_Cons [of "rc_line r" "lines_of i es"] simp_thms)
    let ?s = "s\<lparr>ss_body := ss_body s @ data_text [rc_line r]\<rparr>"
    have "map_of (sm_served (server_step be e sv)) i = Some ?s"
      unfolding e server_step.simps
    proof (rule own_line [OF Cons.prems(1,2)])
      show "rc_line r \<noteq> ''.''" "rc_send_ok r" using Cons.prems(3,4) e by auto
      show "length (ss_body s @ data_text [rc_line r]) \<le> MAX_MESSAGE_SIZE"
        using Cons.prems(5) split by simp
    qed
    from Cons.IH [OF this] show ?thesis using Cons.prems split e by simp
  qed
qed

text \<open>
  C19. The connections of the server do not mix: while a client sends the lines of a message, whatever the
  other connections, the accept loop and other processes do in between, the body collected for it is its own
  lines in order, each with a line feed. A line of more than 512 bytes is answered with a syntax error and is
  missing from the message.
\<close>

theorem data_lines_collected:
  assumes "map_of (sm_served sv) i = Some s" "ss_state s = RECEIVING_DATA"
    and "list_all (stays_connected i) es" "''.'' \<notin> set (lines_of i es)"
    and "length (ss_body s @ data_text (lines_of i es)) \<le> MAX_MESSAGE_SIZE"
  shows "map_of (sm_served (fold (server_step be) es sv)) i = Some (s\<lparr>ss_body := ss_body s @ data_text (lines_of i es)\<rparr>)"
  by (rule interleaved_data [OF assms])

definition data_session :: smtp_session where
  "data_session = (SmtpSession ''d'' True)\<lparr>ss_state := RECEIVING_DATA\<rparr>"

theorem data_lines_collected_witness:
  "map_of (sm_served (fold (server_step test_backend)
       [Line 3 (received_line test_env ''Hi''), Line 5 (received_line test_env ''other''), Hang_Up 5,
        Line 3 (received_line test_env ''..'')]
       ((fresh_server empty_world)\<lparr>sm_served := [(5, data_session), (3, data_session)]\<rparr>))) 3 =
   Some (data_session\<lparr>ss_body := ''Hi'' @ [LF] @ ''..'' @ [LF]\<rparr>)"
  using data_lines_collected [of "(fresh_server empty_world)\<lparr>sm_served := [(5, data_session), (3, data_session)]\<rparr>" 3 data_session
      "[Line 3 (received_line test_env ''Hi''), Line 5 (received_line test_env ''other''), Hang_Up 5,
        Line 3 (received_line test_env ''..'')]" test_backend]
  by (simp add: data_text_def MAX_SMTP_LINE_def MAX_MESSAGE_SIZE_def SmtpSession_def data_session_def received_line_def)

section \<open>Four silent clients\<close>

text \<open>
  A worker serves its connection until the end. While four clients neither send a line nor hang up, no
  other connection is served, however many are accepted.
\<close>

lemma silent_clients_starve:
  assumes "length (sm_served sv) = WORKER_THREADS"
    and "list_all (\<lambda>e. case e of Line _ _ \<Rightarrow> False | Hang_Up _ \<Rightarrow> False | _ \<Rightarrow> True) es"
  shows "sm_served (fold (server_step be) es sv) = sm_served sv"
  using assms
proof (induction es arbitrary: sv)
  case (Cons e es)
  have "sm_served (server_step be e sv) = sm_served sv"
    using Cons.prems by (cases e) (auto simp: accept_turn_def start_task_def other_process_def split: option.split)
  then show ?case using Cons.IH [of "server_step be e sv"] Cons.prems by simp
qed simp

end
