(* ===== verification/Smtp_Replies.thy ===== *)
theory Smtp_Replies
  imports Smtp_Laws Mua_Worker
begin

text \<open>
  The replies of the SMTP server as a language, and the client that reads them: every reply of
  \<^verbatim>\<open>server/SmtpSession.cpp\<close> has the form of RFC 5321, and \<^verbatim>\<open>ReadSmtpResponse\<close> of \<^verbatim>\<open>mua/core/MailWorker.cpp\<close> reads
  from the byte stream the lines of one reply, no more and no fewer.
\<close>

section \<open>The form of a reply\<close>

text \<open>The codes of \<^verbatim>\<open>proto/SmtpResponse.hpp\<close>.\<close>

definition smtp_codes :: "int list" where
  "smtp_codes = [220, 221, 235, 250, 334, 354, 452, 500, 502, 503, 504, 530, 535, 538, 552]"

definition reply_text :: "string \<Rightarrow> bool" where
  "reply_text t \<longleftrightarrow> CR \<notin> set t \<and> LF \<notin> set t"

definition reply_line :: "int \<Rightarrow> char \<Rightarrow> string \<Rightarrow> bool" where
  "reply_line code sep l \<longleftrightarrow>
     code \<in> set smtp_codes \<and> 4 \<le> length l \<and> take 3 l = int_to_string code \<and> l ! 3 = sep \<and> reply_text l"

text \<open>A reply with the code \<open>code\<close> and the lines \<open>ls\<close> on the wire.\<close>

inductive smtp_reply :: "int \<Rightarrow> string list \<Rightarrow> string \<Rightarrow> bool" for code where
  final_line: "reply_line code SP l \<Longrightarrow> smtp_reply code [l] (l @ CRLF)"
| continued: "reply_line code (CHR ''-'') l \<Longrightarrow> smtp_reply code ls r \<Longrightarrow> smtp_reply code (l # ls) (l @ CRLF @ r)"

inductive_cases smtp_replyE: "smtp_reply code (l # ls) r"

definition is_reply :: "string \<Rightarrow> bool" where
  "is_reply r \<longleftrightarrow> (\<exists>code ls. smtp_reply code ls r)"

section \<open>The replies of the server\<close>

named_theorems replies \<open>every text of SmtpResponse is a reply\<close>

lemma code_digits: "code \<in> set smtp_codes \<Longrightarrow> length (int_to_string code) = 3 \<and> TryParseSmtpCode (int_to_string code) = Some code"
proof -
  have "list_all (\<lambda>c. length (int_to_string c) = 3 \<and> TryParseSmtpCode (int_to_string c) = Some c) smtp_codes" by code_simp
  then show "code \<in> set smtp_codes \<Longrightarrow> length (int_to_string code) = 3 \<and> TryParseSmtpCode (int_to_string code) = Some code"
    by (simp add: list_all_iff)
qed

lemma one_line_reply: "reply_line code SP l \<Longrightarrow> is_reply (l @ CRLF)"
  unfolding is_reply_def by (blast intro: final_line)

text \<open>A line is checked by evaluation, with a text that is not known behind it.\<close>

definition line_start :: "int \<Rightarrow> char \<Rightarrow> string \<Rightarrow> bool" where
  "line_start code sep l \<longleftrightarrow> code \<in> set smtp_codes \<and> l = int_to_string code @ [sep] @ drop 4 l \<and> reply_text l"

lemma reply_line_start: "line_start code sep l \<Longrightarrow> reply_text t \<Longrightarrow> reply_line code sep (l @ t)"
proof -
  assume l: "line_start code sep l" and t: "reply_text t"
  then obtain d where d: "l = int_to_string code @ [sep] @ d" unfolding line_start_def by blast
  have "length (int_to_string code) = 3" using code_digits l by (simp add: line_start_def)
  then show ?thesis using l t by (simp add: reply_line_def line_start_def reply_text_def d nth_append)
qed

lemma fixed_reply: "line_start code SP l \<Longrightarrow> is_reply (l @ CRLF)"
  using reply_line_start [of code SP l "[]"] by (simp add: one_line_reply reply_text_def)

lemma fixed_replies [replies]:
  "is_reply Ok250" "is_reply StartMailInput" "is_reply MessageStorageFailed" "is_reply BadSequence" "is_reply MessageTooLarge"
  "is_reply SyntaxError" "is_reply NotImplemented" "is_reply Closing" "is_reply StartTls" "is_reply AuthSucceeded"
  "is_reply AuthFailed" "is_reply AuthRequired" "is_reply EncryptionRequired" "is_reply UnrecognizedAuthMech"
  unfolding Ok250_def StartMailInput_def MessageStorageFailed_def BadSequence_def MessageTooLarge_def SyntaxError_def
    NotImplemented_def Closing_def StartTls_def AuthSucceeded_def AuthFailed_def AuthRequired_def EncryptionRequired_def
    UnrecognizedAuthMech_def
  by (rule fixed_reply [of 250] fixed_reply [of 354] fixed_reply [of 452] fixed_reply [of 503] fixed_reply [of 552]
      fixed_reply [of 500] fixed_reply [of 502] fixed_reply [of 221] fixed_reply [of 220] fixed_reply [of 235]
      fixed_reply [of 535] fixed_reply [of 530] fixed_reply [of 538] fixed_reply [of 504]; code_simp; fail)+

lemma text_append: "reply_text (s @ t) \<longleftrightarrow> reply_text s \<and> reply_text t"
  by (auto simp: reply_text_def)

lemma greeting_reply [replies]:
  assumes "reply_text domain"
  shows "is_reply (ServiceReady domain)" "is_reply (Hello domain)" "is_reply (Ehlo domain tls)" "is_reply (AuthChallenge domain)"
proof -
  have start: "line_start 220 SP ''220 ''" "line_start 250 SP ''250 ''" "line_start 334 SP ''334 ''"
    "line_start 250 (CHR ''-'') ''250-''" "line_start 250 (CHR ''-'') ''250-STARTTLS''" "line_start 250 SP ''250 AUTH LOGIN PLAIN''"
    "reply_text '' Service ready''" "reply_text '' greets you''" "reply_text ([] :: string)"
    by code_simp+
  have line: "reply_line code sep (l @ t)" if "line_start code sep l" "reply_text t" for code sep l t
    using that by (rule reply_line_start)
  show "is_reply (ServiceReady domain)"
    using one_line_reply [OF line [OF start(1), of "domain @ '' Service ready''"]] assms start by (simp add: ServiceReady_def text_append)
  show "is_reply (Hello domain)"
    using one_line_reply [OF line [OF start(2), of "domain @ '' greets you''"]] assms start by (simp add: Hello_def text_append)
  show "is_reply (AuthChallenge domain)"
    using one_line_reply [OF line [OF start(3) assms]] by (simp add: AuthChallenge_def)
  have auth: "smtp_reply 250 [''250 AUTH LOGIN PLAIN''] (''250 AUTH LOGIN PLAIN'' @ CRLF)"
    using final_line [OF line [OF start(6,9)]] by simp
  have "smtp_reply 250 (''250-STARTTLS'' # [''250 AUTH LOGIN PLAIN'']) (''250-STARTTLS'' @ CRLF @ ''250 AUTH LOGIN PLAIN'' @ CRLF)"
    using continued [OF line [OF start(5,9)] auth] by simp
  from continued [OF line [OF start(4) assms] this] continued [OF line [OF start(4) assms] auth]
  show "is_reply (Ehlo domain tls)" unfolding is_reply_def Ehlo_def by (cases tls) auto
qed

lemma quad_text: "reply_text (quad_chars h1 h2 block)"
  using quad_chars_valid [of h1 h2 block] valid_not_break by (auto simp: reply_text_def)

lemma challenge_reply:
  assumes "label_challenge label = Inr r" "label \<in> {''Username:'', ''Password:''}"
  shows "is_reply r"
proof -
  have "reply_text (ChunkBytes (map byte_of_char label) 0)"
    using assms(2) by (auto simp: text_append quad_text) (simp_all add: reply_text_def)?
  then show ?thesis using assms(1) greeting_reply(4) by (auto simp: label_challenge_def EncodeBase64_def split: if_splits)
qed

lemma auth_reply:
  assumes "HandleAuth be d s c = Inr (r, s')"
  shows "is_reply r \<and> ss_domain s' = ss_domain s"
  using assms greeting_reply(4) [of "[]"]
  by (auto simp: HandleAuth_def Let_def replies reply_text_def split: if_splits sum.splits option.splits dest: challenge_reply)

lemma auth_line_reply:
  assumes "HandleAuthLine be d s line = Inr (r, s')"
  shows "is_reply r \<and> ss_domain s' = ss_domain s"
  using assms
  by (auto simp: HandleAuthLine_def Let_def replies split: if_splits sum.splits option.splits dest: challenge_reply)

lemma dispatch_reply:
  assumes "reply_text (ss_domain s)" "dispatch_command be c s d = Inr (r, s')"
  shows "is_reply r \<and> ss_domain s' = ss_domain s"
proof (cases "sc_type c = AUTH")
  case True
  then show ?thesis using assms auth_reply by (simp add: dispatch_command_def)
next
  case False
  have "ss_domain (ResetToHelo s) = ss_domain s" "ss_domain (ResetMessage s) = ss_domain s"
    by (simp_all add: ResetToHelo_def ResetMessage_def)
  with False show ?thesis
    using assms by (cases "sc_type c")
      (auto simp: dispatch_command_def HandleHelo_def HandleMail_def HandleRcpt_def HandleData_def HandleRset_def HandleNoop_def
        HandleQuit_def HandleStartTLS_def Let_def replies split: if_splits)
qed

section \<open>Reading a reply\<close>

text \<open>What a connection has in its buffer and what is still to come.\<close>

abbreviation stream :: "connection \<Rightarrow> string" where
  "stream c \<equiv> cn_buffer c @ cn_incoming c"

lemma fill_buffer_append: "fill_buffer b cs = (b', cs') \<Longrightarrow> b' @ concat cs' = b @ concat cs"
  by (induction b cs rule: fill_buffer.induct) (auto split: if_splits)

lemma fill_buffer_found: "fill_buffer b cs = (b', cs') \<Longrightarrow> contains_sub (b @ concat cs) CRLF \<Longrightarrow> contains_sub b' CRLF"
  by (induction b cs rule: fill_buffer.induct) (auto split: if_splits)

lemma contains_CRLF: "CR \<notin> set l \<Longrightarrow> contains_sub (l @ CRLF @ rest) CRLF"
  by (simp add: contains_sub_def find_sub_skip StartsWith_def)

lemma no_CRLF_inside:
  assumes "CR \<notin> set l" "contains_sub b CRLF" "b @ x = l @ CRLF @ rest"
  shows "\<exists>left. b = l @ CRLF @ left \<and> left @ x = rest"
proof -
  obtain i where "find_sub CRLF b = Some i" using assms(2) by (auto simp: contains_sub_def)
  from find_sub_SomeD [OF this] have i: "i + 2 \<le> length b" "take 2 (drop i b) = CRLF" by (simp_all add: numeral_2_eq_2)
  have "b ! i = CR" using i arg_cong [OF i(2), of hd] by (simp add: hd_drop_conv_nth take_Suc numeral_2_eq_2 hd_conv_nth)
  have "\<not> i < length l"
  proof
    assume "i < length l"
    then have "(b @ x) ! i = l ! i" using assms(3) by (simp add: nth_append)
    then have "b ! i = l ! i" using i(1) by (simp add: nth_append)
    then show False using \<open>b ! i = CR\<close> \<open>i < length l\<close> assms(1) nth_mem by fastforce
  qed
  then have "length (l @ CRLF) \<le> length b" using i(1) by simp
  moreover have "take (length (l @ CRLF)) (b @ x) = l @ CRLF" using assms(3) by simp
  ultimately have "take (length (l @ CRLF)) b = l @ CRLF" by simp
  then obtain left where "b = (l @ CRLF) @ left" by (metis append_take_drop_id)
  then show ?thesis using assms(3) by auto
qed

lemma take_line_CRLF: "reply_text l \<Longrightarrow> take_line (l @ CRLF @ rest) = (l, rest)"
proof -
  assume "reply_text l"
  then have "takeWhile (\<lambda>c. c \<noteq> LF) (l @ CRLF @ rest) = l @ [CR]"
    by (subst takeWhile_append2) (auto simp: reply_text_def)
  then show ?thesis by (simp add: take_line_def Let_def pop_back_if_def)
qed

lemma receive_reply_line:
  assumes "cn_open c" "stream c = l @ CRLF @ rest" "reply_text l" "length (stream c) \<le> MAX_LINE_SIZE"
  shows "\<exists>c'. Socket_Receive c = Some (Some l, c') \<and> cn_open c' \<and> stream c' = rest"
proof -
  obtain b cs where f: "fill_buffer (cn_buffer c) (cn_arriving c) = (b, cs)" by fastforce
  have CR: "CR \<notin> set l" using assms(3) by (simp add: reply_text_def)
  have found: "contains_sub b CRLF"
    using fill_buffer_found [OF f] contains_CRLF [OF CR] assms(2) by simp
  have all: "b @ concat cs = l @ CRLF @ rest" using fill_buffer_append [OF f] assms(2) by simp
  obtain left where left: "b = l @ CRLF @ left" "left @ concat cs = rest" using no_CRLF_inside [OF CR found all] by blast
  have "length b \<le> MAX_LINE_SIZE" using assms(4) fill_buffer_append [OF f] by (metis length_append trans_le_add1 le_trans le_add1)
  moreover have "\<not> (cn_buffer c = [] \<and> concat (cn_arriving c) = [])" using assms(2) by (auto simp del: concat_eq_Nil_conv)
  ultimately show ?thesis
    using assms(1) found take_line_CRLF [OF assms(3), of left] left
    by (simp add: Socket_Receive_def f Let_def del: append.simps)
qed

lemma reply_line_text: "reply_line code sep l \<Longrightarrow> reply_text l \<and> l \<noteq> []"
  by (auto simp: reply_line_def)

lemma logical_one:
  assumes "reply_text l" "l \<noteq> []"
  shows "logical_lines l = [l]"
proof -
  have "last l \<noteq> CR" using last_in_set [OF assms(2)] assms(1) by (auto simp: reply_text_def)
  then show ?thesis
    using getlines_acc_last [of LF l "[]"] assms
    by (simp add: logical_lines_def getlines_def reply_text_def pop_back_if_def)
qed

lemma reply_line_code:
  assumes "reply_line code sep l"
  shows "TryParseSmtpCode l = Some code" "StartsWith l (int_to_string code @ '' '') \<longleftrightarrow> sep = SP"
proof -
  have l: "take 3 l = int_to_string code" "4 \<le> length l" "l ! 3 = sep" and d: "TryParseSmtpCode (int_to_string code) = Some code"
    "length (int_to_string code) = 3"
    using assms code_digits by (simp_all add: reply_line_def)
  have "TryParseSmtpCode l = TryParseSmtpCode (take 3 l)" using l(2) by (simp add: TryParseSmtpCode_def)
  then show "TryParseSmtpCode l = Some code" using l d by simp
  have "take 4 l = int_to_string code @ [sep]"
    using l take_Suc_conv_app_nth [of 3 l] by (simp add: numeral_eq_Suc)
  then show "StartsWith l (int_to_string code @ '' '') \<longleftrightarrow> sep = SP"
    using d l(2) by (simp add: StartsWith_def)
qed

lemma reply_code: "smtp_reply code ls r \<Longrightarrow> ls \<noteq> [] \<and> GetSmtpCode ls = code"
  by (induction rule: smtp_reply.induct) (auto simp: GetSmtpCode_def reply_line_code)

lemma read_continuation_reply:
  assumes "smtp_reply code ls r" "cn_open c" "stream c = r @ rest" "length (stream c) \<le> MAX_LINE_SIZE"
  shows "\<exists>c'. read_continuation env (int_to_string code @ '' '') acc (Plain c) = Some ((True, acc @ ls), Plain c') \<and>
    cn_open c' \<and> stream c' = rest"
  using assms
proof (induction arbitrary: c acc rule: smtp_reply.induct)
  case (final_line l)
  have t: "reply_text l" "l \<noteq> []" using reply_line_text [OF final_line(1)] by simp_all
  obtain c' where "Socket_Receive c = Some (Some l, c')" "cn_open c'" "stream c' = rest"
    using receive_reply_line [of c l rest] final_line t by auto
  then show ?case
    using logical_one [OF t] reply_line_code(2) [OF final_line(1)] by (subst read_continuation.simps) simp
next
  case (continued l ls r)
  have t: "reply_text l" "l \<noteq> []" using reply_line_text [OF continued(1)] by simp_all
  obtain c1 where c1: "Socket_Receive c = Some (Some l, c1)" "cn_open c1" "stream c1 = r @ rest"
    using receive_reply_line [of c l "r @ rest"] continued t by auto
  have "length (stream c1) \<le> MAX_LINE_SIZE" using continued.prems(2,3) c1(3) by simp
  from continued.IH [OF c1(2,3) this, of "acc @ [l]"] show ?case
    using c1(1) logical_one [OF t] reply_line_code(2) [OF continued(1)] by (subst read_continuation.simps) simp
qed

lemma read_reply:
  assumes reply: "smtp_reply code ls r" and c: "cn_open c" "stream c = r @ rest" "length (stream c) \<le> MAX_LINE_SIZE"
  shows "\<exists>c'. ReadSmtpResponse env (Plain c) = Some ((True, ls), Plain c') \<and> cn_open c' \<and> stream c' = rest"
  using reply
proof (cases rule: smtp_reply.cases)
  case (final_line l)
  have t: "reply_text l" "l \<noteq> []" using reply_line_text [OF final_line(3)] by simp_all
  obtain c' where "Socket_Receive c = Some (Some l, c')" "cn_open c'" "stream c' = rest"
    using receive_reply_line [of c l rest] final_line c t by auto
  then show ?thesis
    using final_line logical_one [OF t] reply_line_code [OF final_line(3)] by (auto simp: ReadSmtpResponse_def reply_line_def)
next
  case (continued l ls' r')
  have t: "reply_text l" "l \<noteq> []" using reply_line_text [OF continued(3)] by simp_all
  obtain c1 where c1: "Socket_Receive c = Some (Some l, c1)" "cn_open c1" "stream c1 = r' @ rest"
    using receive_reply_line [of c l "r' @ rest"] continued c t by auto
  have "length (stream c1) \<le> MAX_LINE_SIZE" using c continued c1(3) by simp
  from read_continuation_reply [OF continued(4) c1(2,3) this, of env "[l]"] show ?thesis
    using continued c1(1) logical_one [OF t] reply_line_code [OF continued(3)]
    by (auto simp: ReadSmtpResponse_def reply_line_def Let_def)
qed

section \<open>Properties\<close>

lemma reply_not_empty: "is_reply r \<Longrightarrow> r \<noteq> []"
  by (auto simp: is_reply_def elim: smtp_reply.cases)

lemma receive_line_reply:
  assumes "receive_line be env line s w = (r, s', w')" "ss_state s = RECEIVING_DATA"
  shows "ss_domain s' = ss_domain s \<and> (if r = [] then ss_state s' = RECEIVING_DATA else is_reply r)"
proof -
  have "Ok250 \<noteq> []" "MessageStorageFailed \<noteq> []" "MessageTooLarge \<noteq> []"
    using reply_not_empty fixed_replies by blast+
  then show ?thesis
    using assms
    by (auto simp: receive_line_def ResetMessage_def Let_def fixed_replies split: if_splits prod.splits bool.splits)
qed

lemma process_reply:
  assumes "reply_text (ss_domain s)" "ProcessLine be env line s w = Inr (r, s', w')"
  shows "ss_domain s' = ss_domain s \<and>
    (if r = [] then ss_state s = RECEIVING_DATA \<and> ss_state s' = RECEIVING_DATA else is_reply r)"
proof -
  consider (long) "r = SyntaxError" "s' = s"
    | (auth) "HandleAuthLine be (w_db w) s line = Inr (r, s')"
    | (data) "ss_state s = RECEIVING_DATA" "receive_line be env line s w = (r, s', w')"
    | (command) "dispatch_command be (SmtpParse line) s (w_db w) = Inr (r, s')"
    using assms(2) by (auto simp: ProcessLine_def map_sum_def split: if_splits sum.splits)
  then show ?thesis
  proof cases
    case long
    then show ?thesis using fixed_replies(6) reply_not_empty by simp
  next
    case auth
    then show ?thesis using auth_line_reply reply_not_empty by fastforce
  next
    case data
    then show ?thesis using receive_line_reply [OF data(2,1)] by simp
  next
    case command
    then show ?thesis using dispatch_reply [OF assms(1)] reply_not_empty by fastforce
  qed
qed

text \<open>
  C10. Every reply of the SMTP session has the form of the protocol: lines that start with the same code of
  \<^verbatim>\<open>SmtpResponse.hpp\<close>, a hyphen on all but the last and a space there, no stray CR or LF, each line ended by
  CRLF. The session answers every line with one such reply; only a line of mail data is answered with nothing,
  and then the session goes on receiving data. Its domain never changes, so this holds for all later lines.
\<close>

theorem smtp_replies_typed:
  assumes "reply_text (ss_domain s)" "ProcessLine be env line s w = Inr (r, s', w')"
  shows "ss_domain s' = ss_domain s \<and>
    (if r = [] then ss_state s = RECEIVING_DATA \<and> ss_state s' = RECEIVING_DATA else is_reply r)"
  by (rule process_reply [OF assms])

definition greeted :: smtp_session where
  "greeted = (ResetToHelo (SmtpSession ''localhost'' True))\<lparr>ss_state := WAIT_MAIL\<rparr>"

lemma ehlo_answer:
  "ProcessLine test_backend test_env ''EHLO a'' (SmtpSession ''localhost'' True) empty_world =
     Inr (Ehlo ''localhost'' False, greeted, empty_world)"
proof -
  have "SmtpParse ''EHLO a'' = \<lparr>sc_type = EHLO, sc_argument = ''a''\<rparr>" by code_simp
  then show ?thesis
    by (simp add: ProcessLine_def dispatch_command_def HandleHelo_def SmtpSession_def ResetToHelo_def ResetMessage_def
        MAX_SMTP_LINE_def greeted_def Let_def)
qed

lemma localhost_text: "reply_text (ss_domain (SmtpSession ''localhost'' True))"
  by code_simp

theorem smtp_replies_typed_witness: "ss_domain greeted = ''localhost'' \<and> is_reply (Ehlo ''localhost'' False)"
  using smtp_replies_typed [OF localhost_text ehlo_answer] by (simp add: SmtpSession_def Ehlo_def)

text \<open>
  C29. The mail client understands the server: when a reply of the session stands at the head of the bytes that
  reach the client, however they are cut into reads, \<^verbatim>\<open>ReadSmtpResponse\<close> succeeds with the lines of that reply,
  finds its code, and leaves the bytes behind it for the next call.
\<close>

theorem replies_understood:
  assumes "reply_text (ss_domain s)" "ProcessLine be env line s w = Inr (r, s', w')" "r \<noteq> []"
    and "cn_open c" "stream c = r @ rest" "length (stream c) \<le> MAX_LINE_SIZE"
  shows "\<exists>code ls c'. smtp_reply code ls r \<and> ReadSmtpResponse cenv (Plain c) = Some ((True, ls), Plain c') \<and>
    GetSmtpCode ls = code \<and> cn_open c' \<and> stream c' = rest"
proof -
  obtain code ls where reply: "smtp_reply code ls r"
    using process_reply [OF assms(1,2)] assms(3) by (auto simp: is_reply_def)
  then show ?thesis using read_reply [OF reply assms(4-6), of cenv] reply_code [OF reply] by blast
qed

definition cut_connection :: connection where
  "cut_connection = \<lparr>cn_open = True, cn_arriving = [''250-local'', ''host'' @ [CR], [LF] @ ''250-STARTTLS'' @ CRLF @ ''250 AUTH LOGIN PLAIN'' @ CRLF],
     cn_silent = False, cn_accepting = [], cn_sent = [], cn_buffer = []\<rparr>"

theorem replies_understood_witness:
  "\<forall>cenv. \<exists>code ls c'. smtp_reply code ls (Ehlo ''localhost'' False) \<and>
    ReadSmtpResponse cenv (Plain cut_connection) = Some ((True, ls), Plain c') \<and>
    GetSmtpCode ls = code \<and> cn_open c' \<and> stream c' = []"
  by (rule allI, rule replies_understood [OF localhost_text ehlo_answer])
    (simp_all add: cut_connection_def Ehlo_def MAX_LINE_SIZE_def)

end
