(* ===== verification/Imap_Server.thy ===== *)
theory Imap_Server
  imports Imap_Laws Database_Manager
begin

text \<open>
  \<^verbatim>\<open>imap-server/src/ImapMain.cpp\<close> and \<^verbatim>\<open>ImapServer.cpp\<close>: the start of the IMAP server, the chain of
  asynchronous accepts, and its sessions side by side on one database.

  The sessions share the database: \<open>on_db\<close> puts the current one under a session before its step and the step
  leaves the new one in \<open>sr_db\<close>. A command runs as one task of the thread pool and is one step; other
  processes on the same database take part with repository calls of their own.
\<close>

section \<open>State and start\<close>

record imap_server =
  sr_db :: db
  sr_connected :: bool
  sr_workers :: int
  sr_accepting :: bool
  sr_sessions :: "imap_session list"

text \<open>
  What \<^verbatim>\<open>main\<close> finds: its arguments behind the program name, the files, \<^verbatim>\<open>sodium_init\<close>, SQLite, and which port
  the acceptor can be bound to.
\<close>

record imap_setup =
  ms_args :: "string list"
  ms_file :: "string \<Rightarrow> string option"
  ms_sodium :: int
  ms_sqlite :: "string \<Rightarrow> sqlite"
  ms_bound :: "16 word \<Rightarrow> bool"

text \<open>
  \<^verbatim>\<open>main\<close> up to \<^verbatim>\<open>m_context.run()\<close>: the exit code or the server. \<open>None\<close> is a configuration file on which the
  JSON parser does not return. A negative number of workers makes \<^verbatim>\<open>reserve\<close> throw, as does a port that is taken
  the constructor of the acceptor; the handler of \<^verbatim>\<open>main\<close> then returns 0.
\<close>

definition imap_main :: "imap_setup \<Rightarrow> db \<Rightarrow> (int + imap_server) option" where
  "imap_main st d =
     (case ms_args st of
        [] \<Rightarrow> Some (Inl 1)
      | path_to_root # _ \<Rightarrow>
          do {
            (loaded, config) \<leftarrow> Config_Load (ms_file st (path_to_root @ ''./default_config.json'')) default_config;
            Some (if ms_sodium st < 0 then Inl 1
                  else let cnfg = ac_imap config;
                           db = DataBaseManager (ms_sqlite st (path_to_root @ ''./data/mail.db'')) config 0
                    in if im_worker_threads cnfg < 0 then Inl 0
                       else if \<not> ms_bound st (im_port cnfg) then Inl 0
                       else Inr \<lparr>sr_db = d, sr_connected = isConnected db, sr_workers = im_worker_threads cnfg,
                         sr_accepting = True, sr_sessions = []\<rparr>)
          })"

section \<open>Accepting connections\<close>

datatype accept_result = Operation_Aborted | Accept_Error | Accepted_Socket

text \<open>
  The handler of one accept. A session makes its repositories from the pool of the database manager, which
  does not exist when the database could not be opened: the behaviour is then undefined (\<open>None\<close>).
\<close>

definition AcceptConnection :: "accept_result \<Rightarrow> imap_server \<Rightarrow> imap_server option" where
  "AcceptConnection ec sv =
     (case ec of
        Operation_Aborted \<Rightarrow> Some (sv\<lparr>sr_accepting := False\<rparr>)
      | Accepted_Socket \<Rightarrow>
          if sr_connected sv then Some (sv\<lparr>sr_sessions := sr_sessions sv @ [Start (sr_db sv)]\<rparr>) else None
      | Accept_Error \<Rightarrow> Some sv)"

definition on_db :: "db \<Rightarrow> imap_session \<Rightarrow> imap_session" where
  "on_db d s = s\<lparr>is_disp := (is_disp s)\<lparr>id_db := d\<rparr>\<rparr>"

datatype server_event =
    Accept_Done accept_result | Session_Event nat imap_event | Other_Calls "repo_call list"

inductive imap_server_step :: "imap_env \<Rightarrow> imap_server \<Rightarrow> server_event \<Rightarrow> imap_server \<Rightarrow> bool" for env where
  accepts: "sr_accepting sv \<Longrightarrow> AcceptConnection ec sv = Some sv' \<Longrightarrow> imap_server_step env sv (Accept_Done ec) sv'"
| session: "i < length (sr_sessions sv) \<Longrightarrow> imap_step env (on_db (sr_db sv) (sr_sessions sv ! i)) e s' \<Longrightarrow>
    \<forall>calls. e \<noteq> Other_Client calls \<Longrightarrow> (e = Task_Done \<longrightarrow> 0 < sr_workers sv) \<Longrightarrow>
    imap_server_step env sv (Session_Event i e)
      (sv\<lparr>sr_db := id_db (is_disp s'), sr_sessions := (sr_sessions sv)[i := s']\<rparr>)"
| others: "imap_server_step env sv (Other_Calls calls)
      (sv\<lparr>sr_db := fold (exec_call pwhash (ie_engine env)) calls (sr_db sv)\<rparr>)"

inductive_cases server_acceptE: "imap_server_step env sv (Accept_Done ec) sv'"
inductive_cases server_sessionE: "imap_server_step env sv (Session_Event i e) sv'"

inductive server_reach :: "imap_env \<Rightarrow> imap_server \<Rightarrow> imap_server \<Rightarrow> bool" for env sv0 where
  server_start: "server_reach env sv0 sv0"
| server_next: "server_reach env sv0 sv \<Longrightarrow> imap_server_step env sv e sv' \<Longrightarrow> server_reach env sv0 sv'"

section \<open>The invariant\<close>

definition served_ok :: "db \<Rightarrow> imap_session \<Rightarrow> bool" where
  "served_ok d s \<longleftrightarrow> imap_inv (is_disp (on_db d s)) \<and> gate_passed s \<and> traffic_inv s"

definition imap_server_inv :: "imap_server \<Rightarrow> bool" where
  "imap_server_inv sv \<longleftrightarrow> db_inv (sr_db sv) \<and> list_all (served_ok (sr_db sv)) (sr_sessions sv)"

lemma on_db_simps [simp]:
  "is_task (on_db d s) = is_task s" "id_db (is_disp (on_db d s)) = d" "id_state (is_disp (on_db d s)) = id_state (is_disp s)"
  "gate_passed (on_db d s) = gate_passed s" "traffic_inv (on_db d s) = traffic_inv s"
  "on_db d' (on_db d s) = on_db d' s" "on_db (id_db (is_disp s)) s = s"
  by (simp_all add: on_db_def gate_passed_def traffic_inv_def)

lemma served_other_db: "served_ok d s \<Longrightarrow> db_inv d' \<Longrightarrow> served_ok d' s"
  by (simp add: served_ok_def imap_inv_def links_ok_def on_db_def)

lemma served_start: "db_inv d \<Longrightarrow> served_ok d (Start d)"
  using session_inv_start [of d] traffic_inv_start [of d]
  by (simp add: served_ok_def session_inv_def imap_inv_def links_ok_def on_db_def)

lemma served_step:
  assumes "served_ok d s" "imap_step env (on_db d s) e s'"
  shows "served_ok (id_db (is_disp s')) s' \<and> store_step d (id_db (is_disp s'))"
proof -
  have ok: "imap_inv (is_disp (on_db d s))" "gate_passed (on_db d s)" "traffic_inv (on_db d s)"
    using assms(1) by (simp_all add: served_ok_def)
  then have "db_inv d" "session_inv d (on_db d s)" using imap_inv_db [OF ok(1)] by (simp_all add: session_inv_def)
  then have "session_inv d s'" using session_inv_step [OF assms(2)] by blast
  then show ?thesis
    using traffic_inv_step [OF assms(2) ok(3)] by (simp add: served_ok_def session_inv_def imap_inv_def store_step_def)
qed

lemma server_step_ok:
  assumes "imap_server_step env sv e sv'" "imap_server_inv sv"
  shows "imap_server_inv sv' \<and> store_step (sr_db sv) (sr_db sv')"
  using assms
proof (cases rule: imap_server_step.cases)
  case (accepts ec)
  then show ?thesis using assms(2) served_start [of "sr_db sv"]
    by (auto simp: AcceptConnection_def imap_server_inv_def store_step_refl split: accept_result.splits if_splits)
next
  case (session i e s')
  have step: "served_ok (id_db (is_disp s')) s'" "store_step (sr_db sv) (id_db (is_disp s'))"
    using served_step [of "sr_db sv" "sr_sessions sv ! i"] session assms(2)
    by (auto simp: imap_server_inv_def list_all_length)
  then have "list_all (served_ok (id_db (is_disp s'))) ((sr_sessions sv)[i := s'])"
    using assms(2) session(3) served_other_db [of "sr_db sv"]
    by (auto simp: imap_server_inv_def list_all_length nth_list_update store_step_def)
  then show ?thesis using session step by (auto simp: imap_server_inv_def store_step_def)
next
  case (others pwhash calls)
  then show ?thesis
    using assms(2) repo.run_inv [of "sr_db sv"] repo.run_rel [of "sr_db sv"] served_other_db [of "sr_db sv"]
    by (auto simp: imap_server_inv_def store_step_def list_all_iff)
qed

lemma server_reach_ok:
  "server_reach env sv0 sv \<Longrightarrow> imap_server_inv sv0 \<Longrightarrow> imap_server_inv sv \<and> uid_extends (sr_db sv0) (sr_db sv)"
proof (induction rule: server_reach.induct)
  case (server_next sv e sv')
  then show ?case
    using server_step_ok [OF server_next.hyps(2)] uid_extends_trans [of "sr_db sv0" "sr_db sv" "sr_db sv'"]
    by (auto simp: store_step_def imap_server_inv_def)
qed simp

lemma imap_main_ok: "imap_main st d = Some (Inr sv) \<Longrightarrow> db_inv d \<Longrightarrow> imap_server_inv sv \<and> sr_db sv = d"
  by (auto simp: imap_main_def imap_server_inv_def Let_def split: list.splits if_splits bind_splits)

section \<open>A server for the examples\<close>

definition test_imap_setup :: imap_setup where
  "test_imap_setup = \<lparr>ms_args = [''..''], ms_file = (\<lambda>_. None), ms_sodium = 0,
     ms_sqlite = (\<lambda>_. \<lparr>sq_open = True, sq_wal = True, sq_foreign_keys = True, sq_migration = True, sq_open_read = Inr\<rparr>),
     ms_bound = (\<lambda>_. True)\<rparr>"

definition fresh_imap_server :: imap_server where
  "fresh_imap_server =
     \<lparr>sr_db = empty_db, sr_connected = True, sr_workers = 4, sr_accepting = True, sr_sessions = []\<rparr>"

lemma test_imap_main: "imap_main test_imap_setup empty_db = Some (Inr fresh_imap_server)"
proof -
  have "isConnected (DataBaseManager (ms_sqlite test_imap_setup p) default_config 0)" for p
    using open_slots_Inr [of "ms_sqlite test_imap_setup p" 0 4]
    by (auto simp: isConnected_def DataBaseManager_def test_imap_setup_def ConnectionPool_def default_config_def)
  moreover have "Config_Load None default_config = Some (False, default_config)"
    by (simp add: Config_Load_def Json_ParseFile_def)
  ultimately show ?thesis
    by (simp add: imap_main_def test_imap_setup_def fresh_imap_server_def default_config_def Let_def)
qed

definition noop_server :: imap_server where
  "noop_server = fresh_imap_server\<lparr>sr_sessions := [Start empty_db, noop_session]\<rparr>"

definition answered_server :: imap_server where
  "answered_server = fresh_imap_server\<lparr>sr_sessions := [Start empty_db, answered_session]\<rparr>"

lemma session_dbs [simp]:
  "id_db (is_disp (Start empty_db)) = empty_db" "id_db (is_disp noop_session) = empty_db"
  "id_db (is_disp answered_session) = empty_db"
  by (simp_all add: answered_session_def noop_session_def finish_command_def ReadCommand_def WriteResponse_def Start_def
      SendBanner_def new_imap_session_def ImapCommandDispatcher_def)

lemma on_own_db: "id_db (is_disp s) = d \<Longrightarrow> on_db d s = s"
  using on_db_simps(7) [of s] by simp

lemma noop_server_reach: "server_reach test_imap_env fresh_imap_server noop_server"
proof -
  let ?s1 = "fresh_imap_server\<lparr>sr_sessions := [Start empty_db]\<rparr>"
  let ?s2 = "fresh_imap_server\<lparr>sr_sessions := [Start empty_db, Start empty_db]\<rparr>"
  have 1: "imap_server_step test_imap_env fresh_imap_server (Accept_Done Accepted_Socket) ?s1"
    by (rule imap_server_step.accepts) (simp_all add: AcceptConnection_def fresh_imap_server_def)
  have 2: "imap_server_step test_imap_env ?s1 (Accept_Done Accepted_Socket) ?s2"
    by (rule imap_server_step.accepts) (simp_all add: AcceptConnection_def fresh_imap_server_def)
  have "imap_step test_imap_env (on_db (sr_db ?s2) (sr_sessions ?s2 ! 1)) (Line_Read ''a NOOP'') noop_session"
    using noop_line by (simp add: fresh_imap_server_def on_own_db)
  from imap_server_step.session [OF _ this] have
    "imap_server_step test_imap_env ?s2 (Session_Event 1 (Line_Read ''a NOOP'')) noop_server"
    by (simp add: noop_server_def fresh_imap_server_def)
  with 1 2 show ?thesis by (blast intro: server_reach.intros)
qed

lemma noop_server_step: "imap_server_step test_imap_env noop_server (Session_Event 1 Task_Done) answered_server"
proof -
  have "imap_step test_imap_env (on_db (sr_db noop_server) (sr_sessions noop_server ! 1)) Task_Done answered_session"
    using noop_step by (simp add: noop_server_def fresh_imap_server_def on_own_db)
  from imap_server_step.session [OF _ this] show ?thesis
    by (simp add: noop_server_def answered_server_def fresh_imap_server_def)
qed

section \<open>Properties\<close>



text \<open>
  C33. Before its login a session cannot change the database: a step of a session after which it is not
  authenticated leaves the database as it was, whatever the other sessions have done before.
\<close>

theorem no_change_before_login:
  assumes "imap_main st d = Some (Inr sv0)" "db_inv d" "server_reach env sv0 sv"
    and step: "imap_server_step env sv (Session_Event i e) sv'"
    and closed: "id_state (is_disp (sr_sessions sv' ! i)) = NonAuthenticated"
  shows "sr_db sv' = sr_db sv"
proof -
  have inv: "imap_server_inv sv" using server_reach_ok [OF assms(3)] imap_main_ok [OF assms(1,2)] by auto
  obtain s' where i: "i < length (sr_sessions sv)" and st: "imap_step env (on_db (sr_db sv) (sr_sessions sv ! i)) e s'"
    and own: "\<forall>calls. e \<noteq> Other_Client calls"
    and sv': "sv' = sv\<lparr>sr_db := id_db (is_disp s'), sr_sessions := (sr_sessions sv)[i := s']\<rparr>"
    using step by (rule server_sessionE)
  have "served_ok (sr_db sv) (sr_sessions sv ! i)" using inv i by (simp add: imap_server_inv_def list_all_length)
  then show ?thesis
    using open_step_keeps_db [OF _ _ st _ own] closed i sv' by (simp add: served_ok_def)
qed

theorem no_change_before_login_witness: "sr_db answered_server = sr_db noop_server"
  by (rule no_change_before_login [OF test_imap_main empty_db_inv noop_server_reach noop_server_step])
    (simp add: answered_server_def answered_session_def noop_session_def finish_command_def ReadCommand_def
      WriteResponse_def Start_def SendBanner_def new_imap_session_def ImapCommandDispatcher_def)

text \<open>
  C34. No command of a session throws: the identifiers that the handlers unwrap are always there,
  and every other exception is caught in the handler. The reply "BAD Internal server error" of
  a session is never sent; what is left is the out-of-range read of FETCH.
\<close>

theorem no_internal_error:
  assumes "imap_main st d = Some (Inr sv0)" "db_inv d" "server_reach env sv0 sv"
    and "s \<in> set (sr_sessions sv)" "is_task s = Some cmd"
  shows "no_exception (fst (Imap_Dispatch env cmd (is_disp (on_db (sr_db sv) s))))"
proof -
  have "imap_server_inv sv" using server_reach_ok [OF assms(3)] imap_main_ok [OF assms(1,2)] by auto
  then have "served_ok (sr_db sv) s" using assms(4) by (simp add: imap_server_inv_def list_all_iff)
  then have "handled (is_disp (on_db (sr_db sv) s)) (Imap_Dispatch env cmd (is_disp (on_db (sr_db sv) s)))"
    using assms(5) by (intro task_handled) (simp_all add: served_ok_def)
  then show ?thesis by (simp add: handled_def)
qed

theorem no_internal_error_witness:
  "no_exception (fst (Imap_Dispatch test_imap_env \<lparr>ic_tag = ''a'', ic_type = Noop, ic_args = []\<rparr>
     (is_disp (on_db (sr_db noop_server) noop_session))))"
  by (rule no_internal_error [OF test_imap_main empty_db_inv noop_server_reach])
    (simp_all add: noop_server_def noop_session_def)

section \<open>A start without a database or without workers\<close>

text \<open>
  \<^verbatim>\<open>main\<close> does not ask whether the database was opened: the server starts, and its first connection is
  undefined behaviour.
\<close>

lemma unconnected_server_starts:
  assumes "imap_main st d = Some (Inr sv)" "\<not> sr_connected sv"
  shows "sr_accepting sv \<and> AcceptConnection Accepted_Socket sv = None"
  using assms
  by (auto simp: imap_main_def AcceptConnection_def Let_def split: list.splits if_splits bind_splits)

text \<open>With \<^verbatim>\<open>worker_threads\<close> 0 in the configuration the server accepts commands and never answers one.\<close>

lemma no_worker_no_answer:
  assumes "server_reach env sv0 sv" "sr_workers sv0 = 0"
  shows "sr_workers sv = 0 \<and> (\<forall>sv'. \<not> imap_server_step env sv (Session_Event i Task_Done) sv')"
proof -
  have "sr_workers sv = 0"
    using assms(1,2)
  proof (induction rule: server_reach.induct)
    case (server_next sv e sv')
    from server_next.hyps(2) show ?case
      using server_next.IH server_next.prems
      by cases (auto simp: AcceptConnection_def split: accept_result.splits if_splits)
  qed simp
  then show ?thesis by (auto elim: server_sessionE)
qed

end
