(* ===== verification/Timed_Connection.thy ===== *)
theory Timed_Connection
  imports Connection
begin

text \<open>
  \<^verbatim>\<open>proto/SocketConnection.cpp\<close> with its clock. \<^verbatim>\<open>Connection\<close> leaves time out: there a time limit is
  the end of the arriving bytes. Here the time limits are computed as the code computes them, from
  \<^verbatim>\<open>m_timeout_seconds\<close>, the steady clock and the wait of \<^verbatim>\<open>select\<close>, and the theory without time is
  shown to be what remains when the arrivals are cut where a limit expired.

  The clock counts nanoseconds, and \<open>ts_work\<close> holds the time that passes before each of its
  readings. The operating system is given by the moments at which successive reads find bytes
  (\<open>ts_arriving\<close>), the moment at which the peer closes its end behind them, if it does
  (\<open>ts_eof\<close>), and the moments at which successive writes take bytes, with their sizes
  (\<open>ts_accepting\<close>); a write behind the last of them fails.
\<close>

record timed_socket =
  ts_open :: bool
  ts_arriving :: "(int \<times> string) list"
  ts_eof :: "int option"
  ts_accepting :: "(int \<times> nat) list"
  ts_sent :: string
  ts_buffer :: string
  m_timeout_seconds :: int
  ts_now :: int
  ts_work :: "int list"

definition second :: int where
  "second = 1000000000"

section \<open>The operations\<close>

text \<open>The constructor: an open socket, with the default of \<^verbatim>\<open>m_timeout_seconds\<close>.\<close>

definition new_socket ::
  "(int \<times> string) list \<Rightarrow> int option \<Rightarrow> (int \<times> nat) list \<Rightarrow> int \<Rightarrow> int list \<Rightarrow> timed_socket" where
  "new_socket arriving eof accepting now work =
     \<lparr>ts_open = True, ts_arriving = arriving, ts_eof = eof, ts_accepting = accepting, ts_sent = [], ts_buffer = [],
      m_timeout_seconds = 30, ts_now = now, ts_work = work\<rparr>"

definition Timed_Close :: "timed_socket \<Rightarrow> timed_socket" where
  "Timed_Close c = c\<lparr>ts_open := False\<rparr>"

definition SetTimeout :: "int \<Rightarrow> timed_socket \<Rightarrow> timed_socket" where
  "SetTimeout seconds c = (if seconds > 0 then c\<lparr>m_timeout_seconds := seconds\<rparr> else c)"

text \<open>The moment from which the socket can be read, or written to.\<close>

definition ready_at :: "bool \<Rightarrow> timed_socket \<Rightarrow> int option" where
  "ready_at for_read c =
     (if for_read then (case ts_arriving c of (t, d) # cs \<Rightarrow> Some t | [] \<Rightarrow> ts_eof c)
      else (case ts_accepting c of (t, k) # ks \<Rightarrow> Some t | [] \<Rightarrow> Some (ts_now c)))"

text \<open>\<^verbatim>\<open>select\<close> with a negative time fails at once; a limit of zero only looks.\<close>

definition WaitForEvent :: "bool \<Rightarrow> int \<Rightarrow> timed_socket \<Rightarrow> bool \<times> timed_socket" where
  "WaitForEvent for_read t_seconds c =
     (if \<not> ts_open c then (False, c)
      else let limit = (if t_seconds = -1 then m_timeout_seconds c else t_seconds) in
        if limit < 0 then (False, Timed_Close c)
        else case ready_at for_read c of
          Some t \<Rightarrow>
            if t \<le> ts_now c + limit * second then (True, c\<lparr>ts_now := max (ts_now c) t\<rparr>)
            else (False, Timed_Close (c\<lparr>ts_now := ts_now c + limit * second\<rparr>))
        | None \<Rightarrow> (False, Timed_Close (c\<lparr>ts_now := ts_now c + limit * second\<rparr>)))"

text \<open>A reading of the clock.\<close>

definition read_clock :: "timed_socket \<Rightarrow> timed_socket" where
  "read_clock c = (case ts_work c of [] \<Rightarrow> c | w # ws \<Rightarrow> c\<lparr>ts_now := ts_now c + w, ts_work := ws\<rparr>)"

text \<open>The rest of a time limit in whole seconds, as \<^verbatim>\<open>duration_cast\<close> cuts it.\<close>

definition remaining :: "int \<Rightarrow> timed_socket \<Rightarrow> int" where
  "remaining deadline c = (deadline - ts_now c) div second"

text \<open>
  \<^verbatim>\<open>read_some\<close> for at most \<open>n\<close> bytes: \<open>None\<close> is the error at the end of the stream.
  \<open>ReceiveRaw\<close> calls it only when \<^verbatim>\<open>select\<close> has found something to read.
\<close>

definition read_some :: "nat \<Rightarrow> timed_socket \<Rightarrow> (string \<times> timed_socket) option" where
  "read_some n c =
     (case ts_arriving c of
        [] \<Rightarrow> None
      | (t, d) # cs \<Rightarrow>
          Some (take n d, c\<lparr>ts_arriving := (if length d \<le> n then cs else (t, drop n d) # cs)\<rparr>))"

definition write_some :: "string \<Rightarrow> timed_socket \<Rightarrow> (nat \<times> timed_socket) option" where
  "write_some data c =
     (case ts_accepting c of
        [] \<Rightarrow> None
      | (t, k) # ks \<Rightarrow>
          Some (min k (length data), c\<lparr>ts_accepting := ks, ts_sent := ts_sent c @ take k data\<rparr>))"

lemma WaitForEvent_frame:
  "WaitForEvent for_read s c = (b, c') \<Longrightarrow>
   ts_arriving c' = ts_arriving c \<and> ts_accepting c' = ts_accepting c \<and> ts_eof c' = ts_eof c \<and>
   ts_sent c' = ts_sent c \<and> ts_buffer c' = ts_buffer c \<and> ts_work c' = ts_work c \<and>
   m_timeout_seconds c' = m_timeout_seconds c \<and> ts_open c' = b \<or> \<not> ts_open c \<and> c' = c \<and> \<not> b"
  by (auto simp: WaitForEvent_def Timed_Close_def Let_def split: if_splits option.splits)

lemma read_clock_frame [simp]:
  "ts_arriving (read_clock c) = ts_arriving c" "ts_accepting (read_clock c) = ts_accepting c"
  "ts_eof (read_clock c) = ts_eof c" "ts_sent (read_clock c) = ts_sent c"
  "ts_buffer (read_clock c) = ts_buffer c" "ts_open (read_clock c) = ts_open c"
  by (simp_all add: read_clock_def split: list.split)

text \<open>The loop of \<^verbatim>\<open>ReceiveRaw\<close>, for the bytes that are still missing.\<close>

function receive_loop :: "int \<Rightarrow> nat \<Rightarrow> timed_socket \<Rightarrow> string option \<times> timed_socket" where
  "receive_loop deadline missing c =
     (if missing = 0 then (Some [], c)
      else let c1 = read_clock c in
        if deadline \<le> ts_now c1 then (None, Timed_Close c1)
        else case WaitForEvent True (remaining deadline c1) c1 of
          (False, c2) \<Rightarrow> (None, c2)
        | (True, c2) \<Rightarrow>
            (case read_some missing c2 of
               None \<Rightarrow> (None, Timed_Close c2)
             | Some (d, c3) \<Rightarrow>
                 (case receive_loop deadline (missing - length d) c3 of
                    (r, c4) \<Rightarrow> (map_option (\<lambda>ds. d @ ds) r, c4))))"
  by pat_completeness auto
termination
proof (relation "measure (\<lambda>(deadline, missing, c). missing + length (ts_arriving c))", goal_cases)
  case 1
  show ?case by simp
next
  case (2 deadline missing c c1 b c2 p d c3)
  then show ?case
    using WaitForEvent_frame [of True "remaining deadline c1" c1 True c2]
    by (auto simp: read_some_def split: list.splits if_splits)
qed

definition Timed_ReceiveRaw :: "nat \<Rightarrow> timed_socket \<Rightarrow> string option \<times> timed_socket" where
  "Timed_ReceiveRaw n c =
     (if \<not> ts_open c then (None, c)
      else let c1 = read_clock c in receive_loop (ts_now c1 + m_timeout_seconds c1 * second) n c1)"

text \<open>The loop of \<^verbatim>\<open>SendRaw\<close>, for the bytes from \<^verbatim>\<open>buffer + total\<close> on.\<close>

function send_loop :: "int \<Rightarrow> string \<Rightarrow> timed_socket \<Rightarrow> bool \<times> timed_socket" where
  "send_loop deadline data c =
     (if data = [] then (True, c)
      else let c1 = read_clock c in
        if deadline \<le> ts_now c1 then (False, Timed_Close c1)
        else case WaitForEvent False (remaining deadline c1) c1 of
          (False, c2) \<Rightarrow> (False, c2)
        | (True, c2) \<Rightarrow>
            (case write_some data c2 of
               None \<Rightarrow> (False, Timed_Close c2)
             | Some (k, c3) \<Rightarrow> send_loop deadline (drop k data) c3))"
  by pat_completeness auto
termination
proof (relation "measure (\<lambda>(deadline, data, c). length (ts_accepting c))", goal_cases)
  case 1
  show ?case by simp
next
  case (2 deadline data c c1 b c2 p k c3)
  then show ?case
    using WaitForEvent_frame [of False "remaining deadline c1" c1 True c2]
    by (auto simp: write_some_def split: list.splits)
qed

declare receive_loop.simps [simp del] send_loop.simps [simp del]

definition Timed_SendRaw :: "string \<Rightarrow> timed_socket \<Rightarrow> bool \<times> timed_socket" where
  "Timed_SendRaw data c =
     (if \<not> ts_open c then (False, c)
      else let c1 = read_clock c in send_loop (ts_now c1 + m_timeout_seconds c1 * second) data c1)"

text \<open>
  \<^verbatim>\<open>boost::asio::read_until\<close> and \<^verbatim>\<open>boost::asio::write\<close> have no time limit. The first
  result of \<open>read_until\<close> is whether CRLF is in the buffer; \<open>None\<close> is a read that waits for ever.
\<close>

fun read_until :: "(int \<times> string) list \<Rightarrow> int option \<Rightarrow> int \<Rightarrow> string \<Rightarrow>
    (bool \<times> (int \<times> string) list \<times> int \<times> string) option" where
  "read_until [] eof now buffer =
     (if contains_sub buffer CRLF then Some (True, [], now, buffer)
      else map_option (\<lambda>t. (False, [], max now t, buffer)) eof)"
| "read_until ((t, d) # cs) eof now buffer =
     (if contains_sub buffer CRLF then Some (True, (t, d) # cs, now, buffer)
      else read_until cs eof (max now t) (buffer @ d))"

fun write_all :: "string \<Rightarrow> (int \<times> nat) list \<Rightarrow> int \<Rightarrow> string \<times> string \<times> (int \<times> nat) list \<times> int" where
  "write_all data [] now = ([], data, [], now)"
| "write_all data ((t, k) # ks) now =
     (if data = [] then ([], [], (t, k) # ks, now)
      else case write_all (drop k data) ks (max now t) of
        (w, unsent, rest, now') \<Rightarrow> (take k data @ w, unsent, rest, now'))"

definition Timed_Receive :: "timed_socket \<Rightarrow> (string option \<times> timed_socket) option" where
  "Timed_Receive c =
     (if \<not> ts_open c then Some (None, c)
      else case (if ts_buffer c = [] then WaitForEvent True (-1) c else (True, c)) of
        (False, c1) \<Rightarrow> Some (None, c1)
      | (True, c1) \<Rightarrow>
          (case read_until (ts_arriving c1) (ts_eof c1) (ts_now c1) (ts_buffer c1) of
             None \<Rightarrow> None
           | Some (found, rest, now, buffer) \<Rightarrow>
               let c2 = c1\<lparr>ts_arriving := rest, ts_now := now, ts_buffer := buffer\<rparr> in
               if \<not> found then Some (None, Timed_Close c2)
               else if length buffer > MAX_LINE_SIZE then Some (None, Timed_Close c2)
               else (case take_line buffer of (l, left) \<Rightarrow> Some (Some l, c2\<lparr>ts_buffer := left\<rparr>))))"

definition Timed_Send :: "string \<Rightarrow> timed_socket \<Rightarrow> bool \<times> timed_socket" where
  "Timed_Send data c =
     (if \<not> ts_open c then (False, c)
      else if data = [] then (False, c)
      else case WaitForEvent False (-1) c of
        (False, c1) \<Rightarrow> (False, c1)
      | (True, c1) \<Rightarrow>
          (case write_all data (ts_accepting c1) (ts_now c1) of (w, unsent, rest, now) \<Rightarrow>
             let c2 = c1\<lparr>ts_accepting := rest, ts_sent := ts_sent c1 @ w, ts_now := now\<rparr> in
             if unsent \<noteq> [] then (False, Timed_Close c2) else (True, c2)))"

section \<open>Time\<close>

definition work_ok :: "timed_socket \<Rightarrow> bool" where
  "work_ok c \<longleftrightarrow> (\<forall>w \<in> set (ts_work c). 0 \<le> w)"

text \<open>The clock with all the work that is still to come: every step of a loop keeps it below the deadline.\<close>

definition clock_end :: "timed_socket \<Rightarrow> int" where
  "clock_end c = ts_now c + sum_list (ts_work c)"

lemma second_pos [simp]: "0 < second"
  by (simp add: second_def)

lemma read_clock_work:
  assumes "work_ok c"
  shows "work_ok (read_clock c)" "clock_end (read_clock c) = clock_end c" "ts_now c \<le> ts_now (read_clock c)"
    "sum_list (ts_work (read_clock c)) \<le> sum_list (ts_work c)" "0 \<le> sum_list (ts_work (read_clock c))"
    "m_timeout_seconds (read_clock c) = m_timeout_seconds c"
  using assms by (auto simp: work_ok_def clock_end_def read_clock_def intro: sum_list_nonneg split: list.split)

lemma now_le_clock_end: "work_ok c \<Longrightarrow> ts_now c \<le> clock_end c"
  by (auto simp: work_ok_def clock_end_def intro: sum_list_nonneg)

lemma remaining_bounds:
  assumes "ts_now c < deadline"
  shows "0 \<le> remaining deadline c" "ts_now c + remaining deadline c * second \<le> deadline"
    "deadline - second < ts_now c + remaining deadline c * second"
proof -
  let ?x = "deadline - ts_now c"
  have x: "?x = ?x div second * second + ?x mod second" "0 \<le> ?x mod second" "?x mod second < second" by auto
  show "0 \<le> remaining deadline c" using assms by (simp add: remaining_def pos_imp_zdiv_nonneg_iff)
  show "ts_now c + remaining deadline c * second \<le> deadline" "deadline - second < ts_now c + remaining deadline c * second"
    unfolding remaining_def using x by linarith+
qed

lemma WaitForEvent_time:
  assumes "WaitForEvent for_read (remaining deadline c) c = (b, c')" "ts_now c < deadline"
  shows "ts_now c \<le> ts_now c' \<and> ts_now c' \<le> deadline"
  using assms(1) remaining_bounds [OF assms(2)] assms(2)
  by (auto simp: WaitForEvent_def Timed_Close_def Let_def split: if_splits option.splits)

text \<open>A wait for what is left of a limit misses nothing that comes a second before the deadline.\<close>

lemma WaitForEvent_misses:
  assumes "WaitForEvent for_read (remaining deadline c) c = (False, c')" "ts_open c" "ts_now c < deadline"
    and "ready_at for_read c = Some t"
  shows "deadline - second < t"
  using assms(1,2,4) remaining_bounds [OF assms(3)]
  by (auto simp: WaitForEvent_def Let_def split: if_splits)

lemma wait_step:
  assumes "WaitForEvent for_read (remaining deadline (read_clock c)) (read_clock c) = (b, c')"
    and "ts_open c" "work_ok c" "ts_now (read_clock c) < deadline"
  shows "ts_open c' = b" "work_ok c'" "clock_end c' \<le> max (clock_end c) (deadline + sum_list (ts_work c'))"
    "sum_list (ts_work c') \<le> sum_list (ts_work c)" "ts_arriving c' = ts_arriving c" "ts_accepting c' = ts_accepting c"
    "ts_eof c' = ts_eof c" "ts_sent c' = ts_sent c" "ts_buffer c' = ts_buffer c"
  using WaitForEvent_frame [OF assms(1)] WaitForEvent_time [OF assms(1,4)] read_clock_work [OF assms(3)] assms(2)
  by (auto simp: work_ok_def clock_end_def)

lemma some_frame:
  "read_some n c = Some (d, c') \<Longrightarrow> ts_open c' = ts_open c \<and> ts_now c' = ts_now c \<and> ts_work c' = ts_work c \<and>
     ts_accepting c' = ts_accepting c \<and> ts_eof c' = ts_eof c \<and> ts_sent c' = ts_sent c \<and> ts_buffer c' = ts_buffer c"
  "write_some data c = Some (k, c') \<Longrightarrow> ts_open c' = ts_open c \<and> ts_now c' = ts_now c \<and> ts_work c' = ts_work c \<and>
     ts_arriving c' = ts_arriving c \<and> ts_eof c' = ts_eof c \<and> ts_buffer c' = ts_buffer c"
  by (auto simp: read_some_def write_some_def split: list.splits)

text \<open>Induction over the runs of a loop.\<close>

lemma receive_loop_run [consumes 3, case_names all_read late waited closed some_read]:
  assumes "receive_loop deadline n c = (r, c')" "ts_open c" "work_ok c"
    and "\<And>c. ts_open c \<Longrightarrow> work_ok c \<Longrightarrow> P 0 c (Some []) c"
    and "\<And>n c. n \<noteq> 0 \<Longrightarrow> ts_open c \<Longrightarrow> work_ok c \<Longrightarrow> deadline \<le> ts_now (read_clock c) \<Longrightarrow>
      P n c None (Timed_Close (read_clock c))"
    and "\<And>n c c2. n \<noteq> 0 \<Longrightarrow> ts_open c \<Longrightarrow> work_ok c \<Longrightarrow> ts_now (read_clock c) < deadline \<Longrightarrow>
      WaitForEvent True (remaining deadline (read_clock c)) (read_clock c) = (False, c2) \<Longrightarrow> P n c None c2"
    and "\<And>n c c2. n \<noteq> 0 \<Longrightarrow> ts_open c \<Longrightarrow> work_ok c \<Longrightarrow> ts_now (read_clock c) < deadline \<Longrightarrow>
      WaitForEvent True (remaining deadline (read_clock c)) (read_clock c) = (True, c2) \<Longrightarrow>
      read_some n c2 = None \<Longrightarrow> P n c None (Timed_Close c2)"
    and "\<And>n c c2 d c3 r c'. n \<noteq> 0 \<Longrightarrow> ts_open c \<Longrightarrow> work_ok c \<Longrightarrow> ts_now (read_clock c) < deadline \<Longrightarrow>
      WaitForEvent True (remaining deadline (read_clock c)) (read_clock c) = (True, c2) \<Longrightarrow>
      read_some n c2 = Some (d, c3) \<Longrightarrow> P (n - length d) c3 r c' \<Longrightarrow> P n c (map_option (\<lambda>ds. d @ ds) r) c'"
  shows "P n c r c'"
proof -
  have "dl = deadline \<Longrightarrow> receive_loop dl n c = (r, c') \<Longrightarrow> ts_open c \<Longrightarrow> work_ok c \<Longrightarrow> P n c r c'" for dl n c r c'
  proof (induction dl n c arbitrary: r c' rule: receive_loop.induct)
    case (1 dl n c)
    let ?c1 = "read_clock c"
    obtain b c2 where w: "WaitForEvent True (remaining dl ?c1) ?c1 = (b, c2)" by fastforce
    note run = "1.prems"(2) [unfolded receive_loop.simps [of dl n c] Let_def w prod.case]
    consider "n = 0" | "n \<noteq> 0" "dl \<le> ts_now ?c1" | "n \<noteq> 0" "ts_now ?c1 < dl" "\<not> b"
      | "n \<noteq> 0" "ts_now ?c1 < dl" "b" "read_some n c2 = None"
      | d c3 where "n \<noteq> 0" "ts_now ?c1 < dl" "b" "read_some n c2 = Some (d, c3)"
      by fastforce
    then show ?case
    proof cases
      case (5 d c3)
      obtain r' where r': "receive_loop dl (n - length d) c3 = (r', c')" "r = map_option (\<lambda>ds. d @ ds) r'"
        using run 5 by (auto split: prod.splits)
      have "ts_open c3" "work_ok c3"
        using wait_step [OF w "1.prems"(3,4) 5(2)] some_frame(1) [OF 5(4)] 5(3) by (auto simp: work_ok_def)
      moreover have "\<not> dl \<le> ts_now ?c1" "b = True" using 5(2,3) by simp_all
      ultimately have "P (n - length d) c3 r' c'"
        using "1.IH" [OF 5(1) refl _ w [symmetric] _ 5(4) refl "1.prems"(1) r'(1)] by blast
      with assms(8) 5 w "1.prems" r'(2) show ?thesis by auto
    qed (use run w "1.prems" assms(4-7) in auto)
  qed
  with assms(1-3) show ?thesis by simp
qed

lemma send_loop_run [consumes 3, case_names all_written late waited broken some_written]:
  assumes "send_loop deadline data c = (r, c')" "ts_open c" "work_ok c"
    and "\<And>c. ts_open c \<Longrightarrow> work_ok c \<Longrightarrow> P [] c True c"
    and "\<And>data c. data \<noteq> [] \<Longrightarrow> ts_open c \<Longrightarrow> work_ok c \<Longrightarrow> deadline \<le> ts_now (read_clock c) \<Longrightarrow>
      P data c False (Timed_Close (read_clock c))"
    and "\<And>data c c2. data \<noteq> [] \<Longrightarrow> ts_open c \<Longrightarrow> work_ok c \<Longrightarrow> ts_now (read_clock c) < deadline \<Longrightarrow>
      WaitForEvent False (remaining deadline (read_clock c)) (read_clock c) = (False, c2) \<Longrightarrow> P data c False c2"
    and "\<And>data c c2. data \<noteq> [] \<Longrightarrow> ts_open c \<Longrightarrow> work_ok c \<Longrightarrow> ts_now (read_clock c) < deadline \<Longrightarrow>
      WaitForEvent False (remaining deadline (read_clock c)) (read_clock c) = (True, c2) \<Longrightarrow>
      write_some data c2 = None \<Longrightarrow> P data c False (Timed_Close c2)"
    and "\<And>data c c2 k c3 r c'. data \<noteq> [] \<Longrightarrow> ts_open c \<Longrightarrow> work_ok c \<Longrightarrow> ts_now (read_clock c) < deadline \<Longrightarrow>
      WaitForEvent False (remaining deadline (read_clock c)) (read_clock c) = (True, c2) \<Longrightarrow>
      write_some data c2 = Some (k, c3) \<Longrightarrow> P (drop k data) c3 r c' \<Longrightarrow> P data c r c'"
  shows "P data c r c'"
proof -
  have "dl = deadline \<Longrightarrow> send_loop dl data c = (r, c') \<Longrightarrow> ts_open c \<Longrightarrow> work_ok c \<Longrightarrow> P data c r c'" for dl data c r c'
  proof (induction dl data c arbitrary: r c' rule: send_loop.induct)
    case (1 dl data c)
    let ?c1 = "read_clock c"
    obtain b c2 where w: "WaitForEvent False (remaining dl ?c1) ?c1 = (b, c2)" by fastforce
    note run = "1.prems"(2) [unfolded send_loop.simps [of dl data c] Let_def w prod.case]
    consider "data = []" | "data \<noteq> []" "dl \<le> ts_now ?c1" | "data \<noteq> []" "ts_now ?c1 < dl" "\<not> b"
      | "data \<noteq> []" "ts_now ?c1 < dl" "b" "write_some data c2 = None"
      | k c3 where "data \<noteq> []" "ts_now ?c1 < dl" "b" "write_some data c2 = Some (k, c3)"
      by fastforce
    then show ?case
    proof cases
      case (5 k c3)
      have "ts_open c3" "work_ok c3"
        using wait_step [OF w "1.prems"(3,4) 5(2)] some_frame(2) [OF 5(4)] 5(3) by (auto simp: work_ok_def)
      moreover have "\<not> dl \<le> ts_now ?c1" "b = True" "send_loop dl (drop k data) c3 = (r, c')"
        using run 5 by simp_all
      ultimately have "P (drop k data) c3 r c'"
        using "1.IH" [OF 5(1) refl _ w [symmetric] _ 5(4) refl "1.prems"(1)] by blast
      with assms(8) 5 w "1.prems" show ?thesis by auto
    qed (use run w "1.prems" assms(4-7) in auto)
  qed
  with assms(1-3) show ?thesis by simp
qed

text \<open>A loop ends when its deadline is reached, but for the work it still does.\<close>

lemma receive_loop_time:
  assumes "receive_loop deadline n c = (r, c')" "ts_open c" "work_ok c"
  shows "ts_now c' \<le> max (clock_end c) (deadline + sum_list (ts_work c))"
  using assms
proof (induction rule: receive_loop_run)
  case (late n c)
  then show ?case using read_clock_work [OF late(3)] now_le_clock_end [of "read_clock c"] by (simp add: Timed_Close_def)
next
  case (waited n c c2)
  then show ?case using wait_step [OF waited(5,2,3,4)] now_le_clock_end [of c2] by auto
next
  case (closed n c c2)
  then show ?case using wait_step [OF closed(5,2,3,4)] now_le_clock_end [of c2] by (auto simp: Timed_Close_def)
next
  case (some_read n c c2 d c3 r c')
  then show ?case using wait_step [OF some_read(5,2,3,4)] some_frame(1) [OF some_read(6)]
    by (auto simp: clock_end_def)
qed (simp add: now_le_clock_end max.coboundedI1)

lemma send_loop_time:
  assumes "send_loop deadline data c = (r, c')" "ts_open c" "work_ok c"
  shows "ts_now c' \<le> max (clock_end c) (deadline + sum_list (ts_work c))"
  using assms
proof (induction rule: send_loop_run)
  case (late data c)
  then show ?case using read_clock_work [OF late(3)] now_le_clock_end [of "read_clock c"] by (simp add: Timed_Close_def)
next
  case (waited data c c2)
  then show ?case using wait_step [OF waited(5,2,3,4)] now_le_clock_end [of c2] by auto
next
  case (broken data c c2)
  then show ?case using wait_step [OF broken(5,2,3,4)] now_le_clock_end [of c2] by (auto simp: Timed_Close_def)
next
  case (some_written data c c2 k c3 r c')
  then show ?case using wait_step [OF some_written(5,2,3,4)] some_frame(2) [OF some_written(6)]
    by (auto simp: clock_end_def)
qed (simp add: now_le_clock_end max.coboundedI1)

section \<open>The theory without time\<close>

text \<open>
  The connection without a clock on which the first \<open>i\<close> writes take bytes and the first \<open>j\<close>
  arrivals come.
\<close>

definition cut :: "nat \<Rightarrow> nat \<Rightarrow> timed_socket \<Rightarrow> connection" where
  "cut i j c =
     \<lparr>cn_open = ts_open c, cn_arriving = take j (map snd (ts_arriving c)), cn_silent = (ts_eof c = None),
      cn_accepting = take i (map snd (ts_accepting c)), cn_sent = ts_sent c, cn_buffer = ts_buffer c\<rparr>"

text \<open>How many reads, or writes, find the socket ready up to a moment without a later one between them.\<close>

definition times :: "bool \<Rightarrow> timed_socket \<Rightarrow> int list" where
  "times for_read c = (if for_read then map fst (ts_arriving c) else map fst (ts_accepting c))"

definition in_time :: "int \<Rightarrow> int list \<Rightarrow> nat" where
  "in_time limit ts = length (takeWhile (\<lambda>t. t \<le> limit) ts)"

lemma in_time_simps [simp]:
  "in_time limit [] = 0"
  "in_time limit (t # ts) = (if t \<le> limit then Suc (in_time limit ts) else 0)"
  by (simp_all add: in_time_def)

lemma in_time_mono: "a \<le> b \<Longrightarrow> in_time a ts \<le> in_time b ts"
  by (induction ts) auto

lemma in_time_le: "in_time limit ts \<le> length ts"
  by (simp add: in_time_def length_takeWhile_le)

lemma ready_at_times: "times for_read c = t # ts \<Longrightarrow> ready_at for_read c = Some t"
  by (auto simp: times_def ready_at_def split: if_splits list.splits)

lemma times_read_clock [simp]: "times for_read (read_clock c) = times for_read c"
  by (simp add: times_def)

text \<open>The events that a loop is sure to see: those a second and its work before the deadline.\<close>

definition seen :: "bool \<Rightarrow> int \<Rightarrow> timed_socket \<Rightarrow> nat" where
  "seen for_read deadline c =
     (if clock_end c + second \<le> deadline then in_time (deadline - second - sum_list (ts_work c)) (times for_read c) else 0)"

lemma seen_le: "seen for_read deadline c \<le> length (times for_read c)"
  by (simp add: seen_def in_time_le)

lemma seen_late:
  assumes "work_ok c" "deadline \<le> ts_now (read_clock c)"
  shows "seen for_read deadline c = 0"
proof -
  have "deadline < clock_end c + second"
    using assms(2) read_clock_work [OF assms(1)] second_pos unfolding clock_end_def by linarith
  then show ?thesis by (simp add: seen_def)
qed

lemma seen_waited:
  assumes "WaitForEvent for_read (remaining deadline (read_clock c)) (read_clock c) = (False, c2)"
    and "ts_open c" "work_ok c" "ts_now (read_clock c) < deadline"
  shows "seen for_read deadline c = 0"
proof (cases "times for_read c")
  case (Cons t ts)
  then have "deadline - second < t"
    using WaitForEvent_misses [OF assms(1) _ assms(4) ready_at_times] assms(2) by simp
  moreover have "0 \<le> sum_list (ts_work c)" using assms(3) by (auto simp: work_ok_def intro: sum_list_nonneg)
  ultimately show ?thesis using Cons by (simp add: seen_def)
qed (simp add: seen_def)

lemma WaitForEvent_ready:
  assumes "WaitForEvent for_read s c = (True, c')" "ready_at for_read c = Some t"
  shows "ts_now c' = max (ts_now c) t"
  using assms by (auto simp: WaitForEvent_def Let_def split: if_splits)

lemma seen_step:
  assumes wait: "WaitForEvent for_read (remaining deadline (read_clock c)) (read_clock c) = (True, c2)"
    and c: "ts_open c" "work_ok c" "ts_now (read_clock c) < deadline"
    and times: "times for_read c = t # ts" "times for_read c3 = ts"
    and c3: "ts_now c3 = ts_now c2" "ts_work c3 = ts_work c2"
  shows "seen for_read deadline c \<le> Suc (seen for_read deadline c3)"
proof (cases "clock_end c + second \<le> deadline \<and> t \<le> deadline - second - sum_list (ts_work c)")
  case True
  have "ts_now c2 = max (ts_now (read_clock c)) t"
    using WaitForEvent_ready [OF wait] ready_at_times [of for_read "read_clock c"] times(1) by simp
  then have "clock_end c3 + second \<le> deadline"
    using True c3 read_clock_work [OF c(2)] WaitForEvent_frame [OF wait] by (auto simp: clock_end_def)
  moreover have "in_time (deadline - second - sum_list (ts_work c)) ts \<le> in_time (deadline - second - sum_list (ts_work c3)) ts"
    using wait_step(4) [OF wait c] c3 by (intro in_time_mono) simp
  ultimately show ?thesis using True times by (simp add: seen_def)
qed (auto simp: seen_def times)

text \<open>What a run of the read loop is on the connection that \<open>j\<close> arrivals reach.\<close>

definition read_cut :: "nat \<Rightarrow> timed_socket \<Rightarrow> string option \<Rightarrow> timed_socket \<Rightarrow> nat \<Rightarrow> bool" where
  "read_cut n c r c' j \<longleftrightarrow>
     (case read_loop n (take j (map snd (ts_arriving c))) of (d, rest) \<Rightarrow>
        r = (if length d < n then None else Some d) \<and>
        map snd (ts_arriving c') = rest @ drop j (map snd (ts_arriving c))) \<and>
     ts_open c' = (r \<noteq> None) \<and> ts_accepting c' = ts_accepting c \<and> ts_eof c' = ts_eof c \<and>
     ts_sent c' = ts_sent c \<and> ts_buffer c' = ts_buffer c"

definition write_cut :: "string \<Rightarrow> timed_socket \<Rightarrow> bool \<Rightarrow> timed_socket \<Rightarrow> nat \<Rightarrow> bool" where
  "write_cut data c r c' i \<longleftrightarrow>
     (case write_loop data (take i (map snd (ts_accepting c))) of (w, unsent, rest) \<Rightarrow>
        r = (unsent = []) \<and> ts_sent c' = ts_sent c @ w \<and>
        map snd (ts_accepting c') = rest @ drop i (map snd (ts_accepting c))) \<and>
     ts_open c' = r \<and> ts_arriving c' = ts_arriving c \<and> ts_eof c' = ts_eof c \<and> ts_buffer c' = ts_buffer c"

lemma read_loop_zero [simp]: "read_loop 0 cs = ([], cs)"
  by (cases cs) auto

lemma write_loop_none [simp]: "write_loop [] ks = ([], [], ks)"
  by (cases ks) auto

lemma receive_loop_cut:
  assumes "receive_loop deadline n c = (r, c')" "ts_open c" "work_ok c"
  shows "\<exists>j. read_cut n c r c' j \<and> seen True deadline c \<le> j"
  using assms
proof (induction rule: receive_loop_run)
  case (all_read c)
  then have "read_cut 0 c (Some []) c (length (ts_arriving c))" by (simp add: read_cut_def)
  then show ?case using seen_le [of True deadline c] by (auto simp: times_def)
next
  case (late n c)
  then have "read_cut n c None (Timed_Close (read_clock c)) 0" by (simp add: read_cut_def Timed_Close_def)
  then show ?case using seen_late [OF late(3,4)] by (metis le_refl)
next
  case (waited n c c2)
  then have "read_cut n c None c2 0" using wait_step [OF waited(5,2,3,4)] by (simp add: read_cut_def)
  then show ?case using seen_waited [OF waited(5,2,3,4)] by (metis le_refl)
next
  case (closed n c c2)
  note w = wait_step [OF closed(5,2,3,4)]
  have "read_cut n c None (Timed_Close c2) 0" using closed(1) w by (simp add: read_cut_def Timed_Close_def)
  moreover have "times True c = []" using closed(6) w by (auto simp: times_def read_some_def split: list.splits)
  ultimately show ?case using seen_le [of True deadline c] by auto
next
  case (some_read n c c2 d c3 r c')
  note w = wait_step [OF some_read(5,2,3,4)] and f = some_frame(1) [OF some_read(6)]
  obtain t x cs where a: "ts_arriving c = (t, x) # cs" "d = take n x"
      "ts_arriving c3 = (if length x \<le> n then cs else (t, drop n x) # cs)"
    using some_read(6) w(5) by (auto simp: read_some_def split: list.splits)
  obtain j where j: "read_cut (n - length d) c3 r c' j" "seen True deadline c3 \<le> j"
    using some_read(7) by blast
  show ?case
  proof (cases "length x \<le> n")
    case True
    then have "read_cut n c (map_option (\<lambda>ds. d @ ds) r) c' (Suc j)"
      using j(1) a w f some_read(1) by (auto simp: read_cut_def split: prod.splits if_splits)
    moreover have "seen True deadline c \<le> Suc j"
      using seen_step [OF some_read(5,2,3,4), of t "map fst cs" c3] a True f j(2) by (simp add: times_def)
    ultimately show ?thesis by blast
  next
    case False
    then have "read_cut n c (map_option (\<lambda>ds. d @ ds) r) c' (length (ts_arriving c))"
      using j(1) a w f some_read(1) by (auto simp: read_cut_def split: prod.splits if_splits)
    then show ?thesis using seen_le [of True deadline c] by (auto simp: times_def)
  qed
qed

lemma send_loop_cut:
  assumes "send_loop deadline data c = (r, c')" "ts_open c" "work_ok c"
  shows "\<exists>i. write_cut data c r c' i \<and> seen False deadline c \<le> i"
  using assms
proof (induction rule: send_loop_run)
  case (all_written c)
  then have "write_cut [] c True c (length (ts_accepting c))" by (simp add: write_cut_def)
  then show ?case using seen_le [of False deadline c] by (auto simp: times_def)
next
  case (late data c)
  then have "write_cut data c False (Timed_Close (read_clock c)) 0" by (simp add: write_cut_def Timed_Close_def)
  then show ?case using seen_late [OF late(3,4)] by (metis le_refl)
next
  case (waited data c c2)
  then have "write_cut data c False c2 0" using wait_step [OF waited(5,2,3,4)] by (simp add: write_cut_def)
  then show ?case using seen_waited [OF waited(5,2,3,4)] by (metis le_refl)
next
  case (broken data c c2)
  note w = wait_step [OF broken(5,2,3,4)]
  have "write_cut data c False (Timed_Close c2) 0" using broken(1) w by (simp add: write_cut_def Timed_Close_def)
  moreover have "times False c = []" using broken(6) w by (auto simp: times_def write_some_def split: list.splits)
  ultimately show ?case using seen_le [of False deadline c] by auto
next
  case (some_written data c c2 k c3 r c')
  note w = wait_step [OF some_written(5,2,3,4)] and f = some_frame(2) [OF some_written(6)]
  obtain t m ks where a: "ts_accepting c = (t, m) # ks" "k = min m (length data)" "ts_accepting c3 = ks"
      "ts_sent c3 = ts_sent c @ take m data"
    using some_written(6) w by (auto simp: write_some_def split: list.splits)
  have k: "drop k data = drop m data" by (simp add: a(2) min_def)
  obtain i where i: "write_cut (drop m data) c3 r c' i" "seen False deadline c3 \<le> i"
    using some_written(7) k by auto
  have "write_cut data c r c' (Suc i)"
    using i(1) a w f some_written(1) by (auto simp: write_cut_def split: prod.splits)
  moreover have "seen False deadline c \<le> Suc i"
    using seen_step [OF some_written(5,2,3,4), of t "map fst ks" c3] a f i(2) by (simp add: times_def)
  ultimately show ?case by blast
qed

section \<open>The operations within their limits\<close>

lemma cut_read:
  assumes "read_cut n c r c' j" "ts_open c"
  shows "\<exists>k. Socket_ReceiveRaw n (cut i j c) = Some (r, cut i k c')"
proof -
  obtain d rest where d: "read_loop n (take j (map snd (ts_arriving c))) = (d, rest)" by fastforce
  then have "take (length rest) (map snd (ts_arriving c')) = rest" using assms(1) by (simp add: read_cut_def)
  then have "Socket_ReceiveRaw n (cut i j c) = Some (r, cut i (length rest) c')"
    using assms d by (auto simp: Socket_ReceiveRaw_def Socket_Close_def cut_def read_cut_def split: if_splits)
  then show ?thesis ..
qed

lemma cut_write:
  assumes "write_cut data c r c' i" "ts_open c"
  shows "\<exists>k. Socket_SendRaw data (cut i j c) = (r, cut k j c')"
proof -
  obtain w unsent rest where d: "write_loop data (take i (map snd (ts_accepting c))) = (w, unsent, rest)"
    using prod_cases3 by blast
  then have "take (length rest) (map snd (ts_accepting c')) = rest" using assms(1) by (simp add: write_cut_def)
  then have "Socket_SendRaw data (cut i j c) = (r, cut (length rest) j c')"
    using assms d by (auto simp: Socket_SendRaw_def Socket_Close_def cut_def write_cut_def split: if_splits)
  then show ?thesis ..
qed

lemma seen_read_clock:
  assumes "work_ok c"
  shows "seen for_read (ts_now c + m_timeout_seconds c * second) c
    \<le> seen for_read (ts_now (read_clock c) + m_timeout_seconds (read_clock c) * second) (read_clock c)"
  using read_clock_work [OF assms] by (auto simp: seen_def intro!: in_time_mono)

lemma limit_reached:
  assumes "work_ok c" "0 \<le> m_timeout_seconds c"
    and "t \<le> max (clock_end (read_clock c))
      (ts_now (read_clock c) + m_timeout_seconds (read_clock c) * second + sum_list (ts_work (read_clock c)))"
  shows "t \<le> ts_now c + m_timeout_seconds c * second + sum_list (ts_work c)"
proof -
  note w = read_clock_work [OF assms(1)]
  have "0 \<le> m_timeout_seconds c * second" using assms(2) by (intro mult_nonneg_nonneg) (simp_all add: second_def)
  then show ?thesis using assms(3) w(2) unfolding w(6) clock_end_def by linarith
qed

text \<open>
  C14. \<^verbatim>\<open>ReceiveRaw\<close> returns at the latest when the time limit has passed, but for the work done
  in between. What it returns is what it returns without a clock on the first \<open>j\<close> arrivals, and
  these include all that come, without a later one before them, a second and the work before the limit
  (the remaining time is cut to whole seconds).
\<close>

theorem receive_raw_in_time:
  assumes "ts_open c" and "work_ok c" and "0 \<le> m_timeout_seconds c"
    and "Timed_ReceiveRaw n c = (r, c')"
  shows "ts_now c' \<le> ts_now c + m_timeout_seconds c * second + sum_list (ts_work c) \<and>
    (\<exists>j k. Socket_ReceiveRaw n (cut i j c) = Some (r, cut i k c') \<and>
      seen True (ts_now c + m_timeout_seconds c * second) c \<le> j)"
proof -
  let ?c1 = "read_clock c"
  have run: "receive_loop (ts_now ?c1 + m_timeout_seconds ?c1 * second) n ?c1 = (r, c')"
    using assms(1,4) by (simp add: Timed_ReceiveRaw_def Let_def)
  have c1: "ts_open ?c1" "work_ok ?c1" using assms(1) read_clock_work [OF assms(2)] by simp_all
  obtain j where j: "read_cut n ?c1 r c' j" "seen True (ts_now ?c1 + m_timeout_seconds ?c1 * second) ?c1 \<le> j"
    using receive_loop_cut [OF run c1] by blast
  have "cut i j ?c1 = cut i j c" by (simp add: cut_def)
  moreover have "seen True (ts_now c + m_timeout_seconds c * second) c \<le> j"
    using seen_read_clock [OF assms(2)] j(2) by (rule le_trans)
  ultimately show ?thesis
    using limit_reached [OF assms(2,3) receive_loop_time [OF run c1]] cut_read [OF j(1) c1(1), of i] by auto
qed

lemma send_raw_in_time:
  assumes "ts_open c" and "work_ok c" and "0 \<le> m_timeout_seconds c"
    and "Timed_SendRaw data c = (r, c')"
  shows "ts_now c' \<le> ts_now c + m_timeout_seconds c * second + sum_list (ts_work c) \<and>
    (\<exists>i k. Socket_SendRaw data (cut i j c) = (r, cut k j c') \<and>
      seen False (ts_now c + m_timeout_seconds c * second) c \<le> i)"
proof -
  let ?c1 = "read_clock c"
  have run: "send_loop (ts_now ?c1 + m_timeout_seconds ?c1 * second) data ?c1 = (r, c')"
    using assms(1,4) by (simp add: Timed_SendRaw_def Let_def)
  have c1: "ts_open ?c1" "work_ok ?c1" using assms(1) read_clock_work [OF assms(2)] by simp_all
  obtain i where i: "write_cut data ?c1 r c' i" "seen False (ts_now ?c1 + m_timeout_seconds ?c1 * second) ?c1 \<le> i"
    using send_loop_cut [OF run c1] by blast
  have "cut i j ?c1 = cut i j c" by (simp add: cut_def)
  moreover have "seen False (ts_now c + m_timeout_seconds c * second) c \<le> i"
    using seen_read_clock [OF assms(2)] i(2) by (rule le_trans)
  ultimately show ?thesis
    using limit_reached [OF assms(2,3) send_loop_time [OF run c1]] cut_write [OF i(1) c1(1), of j] by auto
qed

text \<open>Two reads in the limit of thirty seconds, and a third one that comes after it.\<close>

theorem receive_raw_in_time_witness:
  "\<exists>r c'. Timed_ReceiveRaw 6 (new_socket [(0, ''ab''), (5 * second, ''cd''), (31 * second, ''ef'')] None [] 0 [1, 2]) = (r, c') \<and>
     ts_now c' \<le> 30 * second + 3 \<and>
     (\<exists>j k. Socket_ReceiveRaw 6 (cut 0 j (new_socket [(0, ''ab''), (5 * second, ''cd''), (31 * second, ''ef'')] None [] 0 [1, 2])) =
        Some (r, cut 0 k c') \<and> 2 \<le> j)"
proof -
  let ?c = "new_socket [(0, ''ab''), (5 * second, ''cd''), (31 * second, ''ef'')] None [] 0 [1, 2]"
  obtain r c' where run: "Timed_ReceiveRaw 6 ?c = (r, c')" by fastforce
  have "ts_open ?c" "work_ok ?c" "0 \<le> m_timeout_seconds ?c" by (simp_all add: new_socket_def work_ok_def)
  from receive_raw_in_time [OF this run, of 0] run show ?thesis
    by (auto simp: seen_def clock_end_def times_def second_def new_socket_def)
qed

section \<open>Lines\<close>

lemma read_until_fill:
  "read_until cs eof now buffer = Some (found, rest, now', b) \<Longrightarrow>
   fill_buffer buffer (map snd cs) = (b, map snd rest) \<and> found = contains_sub b CRLF \<and> (\<not> found \<longrightarrow> eof \<noteq> None)"
  by (induction cs eof now buffer rule: read_until.induct) (auto split: if_splits)

lemma read_until_silent:
  "read_until cs eof now buffer = None \<Longrightarrow>
   eof = None \<and> \<not> contains_sub (fst (fill_buffer buffer (map snd cs))) CRLF"
  by (induction cs eof now buffer rule: read_until.induct) (auto split: if_splits)

lemma write_all_loop:
  "write_all data ks now = (w, unsent, rest, now') \<Longrightarrow> write_loop data (map snd ks) = (w, unsent, map snd rest)"
  by (induction data ks now arbitrary: w unsent rest now' rule: write_all.induct)
    (auto split: if_splits prod.splits)

text \<open>
  \<^verbatim>\<open>Receive\<close> is the operation without a clock on all the arrivals, or on none when the first
  one is late: its limit covers only the first bytes of a line.
\<close>

lemma receive_started:
  assumes "ts_open c" "\<forall>(t, d) \<in> set (ts_arriving c). d \<noteq> []"
    and "ts_buffer c1 = ts_buffer c" "ts_arriving c1 = ts_arriving c" "ts_eof c1 = ts_eof c" "ts_open c1"
      "ts_accepting c1 = ts_accepting c" "ts_sent c1 = ts_sent c"
    and "ts_buffer c = [] \<longrightarrow> ready_at True c \<noteq> None"
    and "(if ts_buffer c = [] then WaitForEvent True (-1) c else (True, c)) = (True, c1)"
  shows "\<exists>k. Socket_Receive (cut i (length (ts_arriving c)) c) = map_option (map_prod id (cut i k)) (Timed_Receive c)"
proof (cases "read_until (ts_arriving c) (ts_eof c) (ts_now c1) (ts_buffer c)")
  case None
  note silent = read_until_silent [OF None]
  have "\<not> (ts_buffer c = [] \<and> concat (map snd (ts_arriving c)) = [])"
    using assms(2,9) silent by (auto simp: ready_at_def split: list.splits)
  then have "Socket_Receive (cut i (length (ts_arriving c)) c) = None"
    using assms(1) silent by (auto simp: Socket_Receive_def cut_def Let_def split: prod.splits)
  moreover have "Timed_Receive c = None"
    using assms(1,3-5) None unfolding Timed_Receive_def assms(10) by simp
  ultimately show ?thesis by simp
next
  case (Some p)
  obtain found rest now b where p: "p = (found, rest, now, b)" by (cases p)
  note fill = read_until_fill [OF Some [unfolded p]]
  have idle: "b = [] \<and> rest = [] \<and> ts_arriving c = []" if "ts_buffer c = []" "concat (map snd (ts_arriving c)) = []"
  proof -
    have "ts_arriving c = []" using assms(2) that(2) by (cases "ts_arriving c") auto
    then show ?thesis using fill that(1) by simp
  qed
  let ?c2 = "c1\<lparr>ts_arriving := rest, ts_now := now, ts_buffer := b\<rparr>"
  obtain l left where l: "take_line b = (l, left)" by fastforce
  have timed: "Timed_Receive c = Some
      (if \<not> found \<or> length b > MAX_LINE_SIZE then (None, Timed_Close ?c2) else (Some l, ?c2\<lparr>ts_buffer := left\<rparr>))"
    using assms(1,3-5) Some p l unfolding Timed_Receive_def assms(10) by (simp add: Let_def)
  have "\<not> contains_sub [] CRLF" by (simp add: contains_sub_def)
  then have untimed: "Socket_Receive (cut i (length (ts_arriving c)) c) = Some
      (if \<not> found \<or> length b > MAX_LINE_SIZE then (None, cut i (length rest) (Timed_Close ?c2))
       else (Some l, cut i (length rest) (?c2\<lparr>ts_buffer := left\<rparr>)))"
    using assms(1,5-8) fill idle l
    by (cases "ts_buffer c = [] \<and> concat (map snd (ts_arriving c)) = []")
      (auto simp: Socket_Receive_def Socket_Close_def Timed_Close_def cut_def Let_def)
  show ?thesis unfolding timed untimed by (rule exI [of _ "length rest"]) simp
qed

lemma receive_without_clock:
  assumes "\<forall>(t, d) \<in> set (ts_arriving c). d \<noteq> []"
  shows "\<exists>j k. Socket_Receive (cut i j c) = map_option (map_prod id (cut i k)) (Timed_Receive c)"
proof -
  obtain b c1 where w: "(if ts_buffer c = [] then WaitForEvent True (-1) c else (True, c)) = (b, c1)" by fastforce
  have c1: "ts_open c \<Longrightarrow> ts_arriving c1 = ts_arriving c \<and> ts_accepting c1 = ts_accepting c \<and> ts_eof c1 = ts_eof c \<and>
      ts_sent c1 = ts_sent c \<and> ts_buffer c1 = ts_buffer c \<and> ts_open c1 = b \<and> (b \<or> ts_buffer c = [])"
    using w WaitForEvent_frame [of True "-1" c b c1] by (auto split: if_splits)
  show ?thesis
  proof (cases "ts_open c \<and> b")
    case True
    then have b: "b = True" by simp
    have ready: "ts_buffer c = [] \<longrightarrow> ready_at True c \<noteq> None"
      using True w by (auto simp: WaitForEvent_def Let_def split: if_splits option.splits)
    have "\<exists>k. Socket_Receive (cut i (length (ts_arriving c)) c) = map_option (map_prod id (cut i k)) (Timed_Receive c)"
      by (rule receive_started [OF _ assms _ _ _ _ _ _ ready w [unfolded b]]) (use True c1 in simp_all)
    then show ?thesis by blast
  next
    case False
    then have "Socket_Receive (cut i 0 c) = map_option (map_prod id (cut i 0)) (Timed_Receive c)"
      using w c1 by (auto simp: Socket_Receive_def Timed_Receive_def Socket_Close_def cut_def)
    then show ?thesis by blast
  qed
qed

lemma send_without_clock:
  "\<exists>i k. Socket_Send data (cut i j c) = map_prod id (cut k j) (Timed_Send data c)"
proof (cases "ts_open c \<and> data \<noteq> []")
  case False
  then have "Socket_Send data (cut 0 j c) = map_prod id (cut 0 j) (Timed_Send data c)"
    by (auto simp: Socket_Send_def Timed_Send_def cut_def)
  then show ?thesis by blast
next
  case open_data: True
  obtain b c1 where w: "WaitForEvent False (-1) c = (b, c1)" by fastforce
  note f = WaitForEvent_frame [OF w]
  show ?thesis
  proof (cases b)
    case False
    then have "Socket_Send data (cut 0 j c) = map_prod id (cut 0 j) (Timed_Send data c)"
      using open_data w f by (auto simp: Socket_Send_def Socket_SendRaw_def Timed_Send_def Socket_Close_def cut_def)
    then show ?thesis by blast
  next
    case True
    obtain u unsent rest now where a: "write_all data (ts_accepting c) (ts_now c1) = (u, unsent, rest, now)"
      using prod_cases4 by blast
    have "Socket_Send data (cut (length (ts_accepting c)) j c) = map_prod id (cut (length rest) j) (Timed_Send data c)"
      using open_data True w f a write_all_loop [OF a]
      by (auto simp: Socket_Send_def Socket_SendRaw_def Timed_Send_def Socket_Close_def Timed_Close_def cut_def Let_def)
    then show ?thesis by blast
  qed
qed

text \<open>A peer that ends its line late keeps the caller for as long as it likes.\<close>

lemma receive_outlasts_limit:
  assumes "0 \<le> t"
  shows "\<exists>c'. Timed_Receive (new_socket [(0, ''NO''), (t, ''OP'' @ CRLF)] None [] 0 []) = Some (Some ''NOOP'', c') \<and>
    ts_now c' = t"
  using assms
  by (simp add: Timed_Receive_def WaitForEvent_def ready_at_def new_socket_def second_def contains_sub_def StartsWith_def
      take_line_def MAX_LINE_SIZE_def pop_back_if_def)

text \<open>A socket keeps a positive limit, whatever is asked for.\<close>

lemma SetTimeout_positive: "0 < m_timeout_seconds c \<Longrightarrow> 0 < m_timeout_seconds (SetTimeout s c)"
  by (simp add: SetTimeout_def)

end
