(* ===== verification/Spec2Isabelle.thy ===== *)
theory Spec2Isabelle
  imports Attachment_Laws Mime_Parser String_Utils Repository_Behaviour Smtp_Dialogue Imap_Expunge Mail_Transfer Secure_Channel_Laws Mime_Multipart Mua_Client_Laws
    Config_Laws Thread_Pool Logger_Laws Mua_Console_Laws Mua_Bridge Api_Main Admin_Tools
    Smtp_Server Smtp_Replies Imap_Server Timed_Connection
begin

text \<open>
  A verification library for the mail system under \<^verbatim>\<open>src/\<close>: an SMTP server and an IMAP server over one
  SQLite database, an encrypted channel between the servers and a mail client, the client itself,
  and the libraries they share.

  \<^bold>\<open>The parts and how they meet.\<close>
  A client connects to the SMTP server (\<^verbatim>\<open>server/server_main.cpp\<close>), upgrades the connection with
  STARTTLS (\<^verbatim>\<open>proto/ServerSecureChannel.cpp\<close>), logs in and hands over a message; the session stores the
  text in a file and a row for sender and recipients through the repositories
  (\<^verbatim>\<open>database/Repository\<close>), which call the data access layer (\<^verbatim>\<open>database/DAL\<close>). The IMAP server lets the
  owner of the account list, read, flag, copy and expunge the rows of the same database. The mail
  client (\<^verbatim>\<open>mua/core\<close>) builds messages with \<^verbatim>\<open>mime\<close> and \<^verbatim>\<open>base64\<close>, speaks both protocols from one worker
  thread and reports one result per command. \<^verbatim>\<open>config\<close>, \<^verbatim>\<open>logger\<close> and \<^verbatim>\<open>server/threadpool\<close> serve the
  programs. Each part is a group of definitions at the top level of its theory, under the names of
  the source where HOL allows it; the theories named \<open>..._Laws\<close> hold what is proved of them.

  \<^bold>\<open>Theories and sources.\<close>
  \<^item> \<open>Prelude\<close>: the list, option and text functions of the C++ library that the sources use
    (\<^verbatim>\<open>find\<close>, \<^verbatim>\<open>substr\<close>, \<^verbatim>\<open>getline\<close>, trimming), exceptions as the datatype \<open>cpp_error\<close>, and the locale
    \<open>guarded_system\<close>, the one proof that invariants of steps are invariants of runs. The repositories,
    the SMTP connection, the SMTP server and the IMAP session interpret it.
  \<^item> \<open>Base64_Codec\<close>, \<open>Base64_Stream\<close>: \<^verbatim>\<open>base64/src\<close>. Blocks are 32-bit words as in the code. The locale
    \<open>quad_decoder\<close> is the contract of a decoder of four characters; the strict decoder and the stream
    decoder interpret it.
  \<^item> \<open>String_Utils\<close>, \<open>Mime_Codec\<close>, \<open>Mime_Parser\<close>, \<open>Mime_Builder\<close>, \<open>Mime_Roundtrip\<close>, \<open>Mime_Multipart\<close>: \<^verbatim>\<open>mime/src\<close> and
    \<^verbatim>\<open>common/utils/StringUtils.cpp\<close>.
  \<^item> \<open>Store\<close>, \<open>Repository\<close>, \<open>Store_Invariant\<close>, \<open>Repository_Laws\<close>, \<open>Repository_Behaviour\<close>:
    \<^verbatim>\<open>database/Entity\<close>, \<^verbatim>\<open>database/DAL\<close> and \<^verbatim>\<open>database/Repository\<close>. A table is the list of its rows in order of
    their keys, a database the record of the tables; each statement may fail with an SQLite error
    that a parameter decides, and a transaction rolls back to the database before it.
  \<^item> \<open>Smtp_Session\<close>, \<open>Smtp_Laws\<close>, \<open>Smtp_Dialogue\<close>: \<^verbatim>\<open>server/SmtpSession.cpp\<close>, \<^verbatim>\<open>SmtpParser.cpp\<close>, the
    connection loop of \<^verbatim>\<open>server_main.cpp\<close>. The state is the record of the session and the world: the
    database and the files. \<open>Smtp_Server\<close>: the start of \<^verbatim>\<open>server_main.cpp\<close>, its accept loop and the connections
    of its four workers on one world, as a fold over events. \<open>Smtp_Replies\<close>: the language of the replies, and
    the client that reads it.
  \<^item> \<open>Imap_Parser\<close>, \<open>Imap_Utils\<close>, \<open>Imap_Body\<close>, \<open>Imap_Dispatcher\<close>, \<open>Imap_Messages\<close>, \<open>Imap_Session\<close> and their
    laws \<open>Imap_Parser_Laws\<close>, \<open>Imap_Utils_Laws\<close>, \<open>Imap_Laws\<close>, \<open>Imap_Expunge\<close>: \<^verbatim>\<open>imap-server/src\<close>. The
    asynchronous session is a step relation over its events, with calls of other clients in between.
    \<open>Imap_Server\<close>: \<^verbatim>\<open>ImapMain.cpp\<close> and \<^verbatim>\<open>ImapServer.cpp\<close>, the start, the accepts and all sessions on one database.
  \<^item> \<open>Sockets\<close>: \<^verbatim>\<open>proto/SocketAcceptor.cpp\<close> and \<^verbatim>\<open>SocketConnector.cpp\<close>.
  \<^item> \<open>Connection\<close>, \<open>Secure_Channel\<close>, \<open>Secure_Channel_Laws\<close>: \<^verbatim>\<open>proto/SocketConnection.cpp\<close>,
    \<^verbatim>\<open>proto/ImapConnection.hpp\<close>, \<^verbatim>\<open>proto/SecureChannel.cpp\<close> and its two sides. The locale \<open>byte_connection\<close>
    is the interface \<^verbatim>\<open>IConnection\<close>, both connections interpret it, and \<open>secure_pair\<close> extends two of them
    to a channel, interpreted for the SMTP and the IMAP pair. \<open>Timed_Connection\<close> adds the clock: the time limits of
    \<^verbatim>\<open>SocketConnection\<close>, and how the connection without a clock follows from it.
  \<^item> \<open>Mua_Text\<close>, \<open>Mua_Laws\<close>, \<open>Mua_Worker\<close>, \<open>Mua_Handlers\<close>, \<open>Mua_Worker_Laws\<close>, \<open>Mua_Client_Laws\<close>:
    \<^verbatim>\<open>mua/core/MailWorker.cpp\<close> and \<^verbatim>\<open>CommandQueue.cpp\<close>. A handler maps the state of the worker, the network
    included, to the new state, or to nothing when it does not return or an exception leaves it.
  \<^item> \<open>Mua_Console\<close>, \<open>Mua_Console_Laws\<close>: \<^verbatim>\<open>mua/mua_console_main.cpp\<close>, the console and the worker as two threads.
    \<open>Mua_Bridge\<close>: \<^verbatim>\<open>mua/bridge/MuaBridge.cpp\<close>, properties and signals, a signal with what a slot reads at that moment.
  \<^item> \<open>Config_Json\<close>, \<open>Config_Laws\<close>: \<^verbatim>\<open>config/src\<close>. The cursor of the JSON reader is the rest of the text.
  \<^item> \<open>Thread_Pool\<close>: \<^verbatim>\<open>server/threadpool\<close>, one step per critical section of a thread.
  \<^item> \<open>Logger_Files\<close>, \<open>Logger_Queue\<close>, \<open>Logger_Laws\<close>: \<^verbatim>\<open>logger/src\<close>. Strategies are objects in a heap, since the worker
    thread and the callers share them by pointer; the locale \<open>logger_strategy\<close> is the interface
    \<^verbatim>\<open>ILoggerStrategy\<close>. The threads are a step relation, one step per critical section.
  \<^item> \<open>Database_Manager\<close>: \<^verbatim>\<open>database/ConnectionPool.cpp\<close> and \<^verbatim>\<open>DataBaseManager.cpp\<close>. \<open>Api_Server\<close>: the handlers of
    \<^verbatim>\<open>api-server\<close>; \<open>Api_Main\<close>: its start, its accept loop and its stop as a step relation. \<open>Admin_Tools\<close>: \<^verbatim>\<open>mua/tools\<close>.

  \<^bold>\<open>What the theorems show.\<close>
  \<^item> Codecs: base64 with its line breaks against a reference encoder, the chunked file encoder, the
    attachment round trip, the text wrapper; a message, plain or with HTML and attachments, is parsed back to
    what it was built from.
  \<^item> Store: every sequence of repository calls under any pattern of SQLite errors keeps identifiers
    unique, foreign keys valid and UIDs increasing; no UID is given out twice; delivery, copy, expunge,
    flags and registration do exactly what they promise or change nothing.
  \<^item> SMTP: from the start of the server and over every interleaving of its connections, nothing is stored
    without TLS, login and a recipient, the lines of a message are those of its own connection, and at most
    four connections are served; a complete dialogue stores exactly one message with the collected lines; every
    reply is well formed, and the client reads it as it was meant.
  \<^item> IMAP: over every interleaving of the sessions the store stays consistent; on which lines the argument parser and the sequence sets return at all, and what they denote;
    no database change before login; no handler throws; the EXPUNGE replies, applied in order, leave
    exactly the messages that are left.
  \<^item> Channel: what is sent arrives in order, and on any unforged bytes the accepted messages are a prefix
    of those sent. The ciphers of libsodium are parameters with the laws \<open>aead_laws\<close>. A raw read or write
    returns within its time limit and loses nothing that comes a second before it; a line may take for ever.
  \<^item> From end to end: the lines handed to the SMTP server are those the recipient's client fetches over
    IMAP (\<open>delivered_mail_is_fetched\<close>, below).
  \<^item> Client: clear text is only a greeting or STARTTLS; results answer commands one to one; a stopped
    client ends; what it writes the servers parse as it was meant; the console shows the answers in the
    order of the commands, and every change of a property of the bridge is announced.
  \<^item> API: an account changes only by a request that gives its password.
  \<^item> Services: settings survive printing and loading, the pool loses no task and runs none twice, and
    loses no wake-up; the logger drops, repeats and reorders no message, and its file has no gap unless writing to
    the disk failed, which the code does not notice; reading the log backwards gives its last lines.

  \<^bold>\<open>Partiality and bounds.\<close>
  Loops that need not end are \<open>partial_function (option)\<close>, where \<open>None\<close> is not returning: the IMAP
  argument parser, the sequence-set loop, the object loop of the JSON reader and the client's exchanges.
  Where they return is proved, never assumed: exactly for the parser and the sequence sets, for every
  text for the JSON reader, for every network and every command but a send for a client that was asked to
  stop. No definition has fuel; \<open>folder_closure\<close> counts down the number of folders, which is as many rounds
  as the deepest chain of subfolders can need.
  Widths are kept where the code depends on them: words of 8, 32 and 64 bits in the codecs and
  the frames of the channel, 16 bits for ports, the 64-bit counter of the IMAP ranges with the
  wrap-around that makes the loop up to its largest value run for ever, the line limits of the sessions
  (512 bytes), the frame limit of the channel and the 512-byte buffer of a log line.

  \<^bold>\<open>Not modelled.\<close>
  The vendored INI reader, which no program reads with. SQLite, libsodium, the sockets of Boost.Asio, Boost.JSON, the moments of the clock, random numbers and the
  file system are parameters: functions or records that the definitions take, with what is assumed of them
  in the hypotheses of the theorems (\<open>aead_laws\<close>, a password verifies against its own hash, \<open>env_works\<close>). The
  races of repository calls are modelled between calls, not inside a statement of SQLite; the priority queue
  may return any task of the highest priority; memory exhaustion and undefined behaviour other than a null
  pointer of the logger are left out.

  In the servers the database calls of one SMTP line or one IMAP command are one step; that single calls
  interleave is covered by the theorems on sequences of repository calls. Not proved: the fairness of the
  thread pool.
\<close>

section \<open>From the sender to the reader\<close>

text \<open>
  The message files as the IMAP server reads them, and a session of it that has a folder of the
  same database selected.
\<close>

definition stored_files :: "world \<Rightarrow> string \<Rightarrow> string option" where
  "stored_files w path = map_option bytes_to_string (map_of (w_files w) path)"

definition serves_folder :: "imap_env \<Rightarrow> imap_session \<Rightarrow> world \<Rightarrow> int \<Rightarrow> bool" where
  "serves_folder ie t w fid \<longleftrightarrow>
     ie_engine ie = healthy \<and> ie_read_file ie = stored_files w \<and> 0 < ie_room ie \<and> id_db (is_disp t) = w_db w \<and>
     id_state (is_disp t) = Selected \<and> mb_id (id_mailbox (is_disp t)) = Some fid"

text \<open>
  C2. A mail that an authenticated client hands to the SMTP server line by line is what the client of the
  recipient gets when it fetches the new message over IMAP. The row is added to the INBOX at its \<^verbatim>\<open>next_uid\<close>; a
  session of the IMAP server that has the INBOX selected parses the FETCH line of the client for the number
  behind the messages the INBOX had, selects that row among them, reads the file that the SMTP server wrote
  and queues one reply; and when that reply has arrived on the encrypted link of the client, its
  \<^verbatim>\<open>fetchMessagePayloadBySeq\<close> returns the lines that were sent.
  Assumed, beside a working database, file and cipher: the lines hold no CR or LF, are at most 512 bytes long
  and none is a single dot, together they are within the size limit, and the reply is within the frame limit of
  the channel; the INBOX had fewer than 50 messages, since the server lists only the first 50; and no line
  starts with the tag of the client's command and OK, NO or BAD, which would cut the reply short
  (\<open>tagged_line_cuts_message\<close>).
\<close>

theorem delivered_mail_is_fetched:
  assumes be: "be_engine be = healthy" and env: "env_works env" and inv: "db_inv (w_db w)"
    and s: "ss_state s = WAIT_MAIL" "ss_authenticated s" "ss_body s = []" "ss_recipients s = []"
    and short: "length from \<le> 500" "length rcpt \<le> 500"
    and ls: "''.'' \<notin> set ls" "ls \<noteq> []" "length (concat (map (\<lambda>l. l @ [LF]) ls)) \<le> MAX_MESSAGE_SIZE"
    and clean: "\<forall>l \<in> set ls. length l \<le> MAX_SMTP_LINE \<and> CR \<notin> set l \<and> LF \<notin> set l"
    and path: "NUL \<notin> set (mail_path env 0 (ExtractUsername rcpt))"
    and user: "UserDAL_findByUsername healthy (w_db w) (ExtractUsername rcpt) = Some u" "u_id u = Some uid"
    and inbox: "FolderDAL_findByName healthy (w_db w) uid ''INBOX'' = Some ib" "f_id ib = Some fid"
    and few: "length (folder_rows (\<lambda>m. True) (w_db w) fid) < 50"
  shows "\<exists>s' w' row. fold (serve be) (map (received_line env) (mail_dialogue from rcpt ls)) (Running s w) = Running s' w' \<and>
     db_messages (w_db w') = db_messages (w_db w) @ [row] \<and> m_folder_id row = fid \<and> m_uid row = f_next_uid ib \<and>
     (\<forall>ie t ce mw. serves_folder ie t w' fid \<longrightarrow> aead_laws (ce_sodium ce) \<longrightarrow>
        (\<forall>l \<in> set ls. \<not> tagged_line (fst (next_tag mw)) l) \<longrightarrow>
        fetch_gives ie t ce mw (length (folder_rows (\<lambda>m. True) (w_db w) fid) + 1) (concat (map (\<lambda>l. l @ [LF]) ls)))"
proof -
  have data: "data_text ls = concat (map (\<lambda>l. l @ [LF]) ls)"
    using clean by (simp add: data_text_def filter_id_conv)
  from smtp_delivers [OF be env inv s short ls(1) _ user inbox] ls(3) data
  obtain s' w' row where run: "fold (serve be) (map (received_line env) (mail_dialogue from rcpt ls)) (Running s w) = Running s' w'"
    and row: "db_messages (w_db w') = db_messages (w_db w) @ [row]" "m_folder_id row = fid" "m_uid row = f_next_uid ib"
      "m_raw_file_path row = c_text (mail_path env 0 (ExtractUsername rcpt))"
    and written: "map_of (w_files w') (mail_path env 0 (ExtractUsername rcpt)) = Some (map byte_of_char (data_text ls))" by auto
  have "c_text (mail_path env 0 (ExtractUsername rcpt)) = mail_path env 0 (ExtractUsername rcpt)"
    using path by (auto simp: c_text_def takeWhile_eq_all_conv)
  then have content: "GetBodyContent (stored_files w') row = concat (map (\<lambda>l. l @ [LF]) ls)"
    using written row(4) data by (simp add: GetBodyContent_def stored_files_def)
  have "ib \<in> set (db_folders (w_db w))" using inbox(1) by (auto simp: FolderDAL_findByName_def dest!: read_one_SomeD)
  then have "\<forall>m \<in> set (db_messages (w_db w)). m_folder_id m = fid \<longrightarrow> m_uid m \<le> m_uid row"
    using uids_below [OF inv _ inbox(2)] row(3) by fastforce
  note last = new_row_last [OF row(1,2) this few]
  have "fetch_gives ie t ce mw (length (folder_rows (\<lambda>m. True) (w_db w) fid) + 1) (concat (map (\<lambda>l. l @ [LF]) ls))"
    if "serves_folder ie t w' fid" "aead_laws (ce_sodium ce)" "\<forall>l \<in> set ls. \<not> tagged_line (fst (next_tag mw)) l" for ie t ce mw
    using that clean few ls(2,3) content last
    by (intro message_fetched [where row = row and after = "[]" and fid = fid]) (auto simp: serves_folder_def MAX_MESSAGE_SIZE_def)
  then show ?thesis using run row by blast
qed

text \<open>
  The INBOX of the recipient holds one message; the second is sent, and fetched as number 2 by the client of
  \<open>example_client\<close>, on whose link the reply arrives.
\<close>

definition reader_session :: "world \<Rightarrow> imap_session" where
  "reader_session w = (let t = Start (w_db w) in t\<lparr>is_disp := (is_disp t)\<lparr>id_state := Selected,
     id_mailbox := MailboxState\<lparr>mb_id := Some 1\<rparr>\<rparr>\<rparr>)"

definition reader_env :: "world \<Rightarrow> imap_env" where
  "reader_env w = \<lparr>ie_engine = healthy, ie_verify = (\<lambda>_ _. True), ie_read_file = stored_files w, ie_boundaries = ([], []), ie_room = 1000\<rparr>"

lemma reader_serves: "serves_folder (reader_env w) (reader_session w) w 1"
  by (simp add: serves_folder_def reader_env_def reader_session_def Start_def SendBanner_def ReadCommand_def WriteResponse_def
      new_imap_session_def ImapCommandDispatcher_def Let_def)

theorem delivered_mail_is_fetched_witness:
  "\<exists>s' w' cmd t' mw'. let reply = rfc822_reply ''A1'' 2 (''Hi'' @ [LF] @ ''Bye'' @ [LF]) in
     fold (serve test_backend) (map (received_line test_env) (mail_dialogue ''bob'' ''alice'' [''Hi'', ''Bye'']))
       (Running ((SmtpSession ''d'' True)\<lparr>ss_state := WAIT_MAIL, ss_authenticated := True\<rparr>) alice_world) = Running s' w' \<and>
     HandleCommand ''A1 FETCH 2 (RFC822)'' (reader_session w') = Some ((reader_session w')\<lparr>is_task := Some cmd\<rparr>) \<and>
     task_done (reader_env w') cmd ((reader_session w')\<lparr>is_task := Some cmd\<rparr>) = Some t' \<and>
     is_queue t' = is_queue (reader_session w') @ [reply] \<and>
     fetchMessagePayloadBySeq example_env 2 (example_client reply) = Some (Some (''Hi'' @ [LF] @ ''Bye'' @ [LF]), mw')"
proof -
  let ?s = "(SmtpSession ''d'' True)\<lparr>ss_state := WAIT_MAIL, ss_authenticated := True\<rparr>"
  let ?reply = "rfc822_reply ''A1'' 2 (''Hi'' @ [LF] @ ''Bye'' @ [LF])"
  let ?mw = "example_client ?reply"
  obtain u ib where u: "UserDAL_findByUsername healthy (w_db alice_world) (ExtractUsername ''alice'') = Some u" "u_id u = Some 1"
    and i: "FolderDAL_findByName healthy (w_db alice_world) 1 ''INBOX'' = Some ib" "f_id ib = Some 1"
    using alice_ready by (auto simp: ExtractUsername_takeWhile alice_world_def)
  have be: "be_engine test_backend = healthy" "env_works test_env" by (simp_all add: test_backend_def env_works_def test_env_def)
  have s: "ss_state ?s = WAIT_MAIL" "ss_authenticated ?s" "ss_body ?s = []" "ss_recipients ?s = []" by (simp_all add: SmtpSession_def)
  have path: "NUL \<notin> set (mail_path test_env 0 (ExtractUsername ''alice''))" by code_simp
  have ls: "''.'' \<notin> set [''Hi'', ''Bye'']" "[''Hi'', ''Bye''] \<noteq> []"
    "length (concat (map (\<lambda>l. l @ [LF]) [''Hi'', ''Bye''])) \<le> MAX_MESSAGE_SIZE"
    "\<forall>l \<in> set [''Hi'', ''Bye'']. length l \<le> MAX_SMTP_LINE \<and> CR \<notin> set l \<and> LF \<notin> set l"
    by (simp_all add: MAX_MESSAGE_SIZE_def MAX_SMTP_LINE_def)
  have one: "length (folder_rows (\<lambda>m. True) (w_db alice_world) 1) = 1" unfolding alice_world_def by code_simp
  have tag: "fst (next_tag ?mw) = ''A1''" by (rule example_tag)
  obtain s' w' where run: "fold (serve test_backend) (map (received_line test_env) (mail_dialogue ''bob'' ''alice'' [''Hi'', ''Bye'']))
      (Running ?s alice_world) = Running s' w'"
    and fetch: "\<forall>ie t ce mw. serves_folder ie t w' 1 \<longrightarrow> aead_laws (ce_sodium ce) \<longrightarrow>
      (\<forall>l \<in> set [''Hi'', ''Bye'']. \<not> tagged_line (fst (next_tag mw)) l) \<longrightarrow> fetch_gives ie t ce mw 2 (''Hi'' @ [LF] @ ''Bye'' @ [LF])"
    using delivered_mail_is_fetched [OF be alice_world_inv s, of "''bob''" "''alice''", OF _ _ ls path u i(1,2)] one by (auto simp: numeral_2_eq_2)
  have "fetch_gives (reader_env w') (reader_session w') example_env ?mw 2 (''Hi'' @ [LF] @ ''Bye'' @ [LF])"
    using fetch reader_serves [of w'] toy_laws by (simp add: example_env_def tag tagged_line_def StartsWith_def)
  moreover have line: "fetch_line ''A1'' 2 = ''A1 FETCH 2 (RFC822)''" by code_simp
  moreover have "length ?reply \<le> 100" by code_simp
  then have "reply_arrives example_env (fetch_line ''A1'' 2) ?reply ?mw"
    by (intro example_arrives) (simp_all add: line CHANNEL_MAX_def)
  ultimately show ?thesis using run unfolding fetch_gives_def Let_def tag by auto
qed

end
